(* ===== verification/Prelude.thy ===== *)
theory Prelude
  imports Complex_Main "HOL-Library.Product_Lexorder" "HOL-Library.Multiset"
begin

text \<open>
  What every component shares: the exceptions of the program as one datatype, the results of
  fallible code, calendar dates with the range checks of Python's \<open>datetime.date\<close>, and the
  generic lemmas on lists of rows that carry the proofs of the services.
\<close>

section \<open>Exceptions and results\<close>

text \<open>
  One constructor per exception class that the modelled code raises or that Python raises in it.
  The message texts are not modelled. \<open>HTTPException\<close> carries its status code. The constructor
  \<open>IntegrityError\<close> is SQLAlchemy's error for a row that a declared constraint rejects; \<open>Unmodelled\<close>
  is no exception of the program but the answer of the model where the code would store an infinite
  float.
\<close>

datatype error =
    ValueError
  | UnicodeEncodeError
  | OverflowError
  | OSError
  | AttributeError
  | ZeroDivisionError
  | TypeError
  | KeyError
  | IndexError
  | RuntimeError
  | IntegrityError
  | YtmCalculationError
  | BondNotFoundError
  | BondIsinDuplicateError
  | BondDeletionBlockedError
  | BondNotOwnedError
  | BrokerNotFoundError
  | BrokerAccountNotFoundError
  | BrokerHasAccountsError
  | BrokerNameDuplicateError
  | BrokerAccountHasTransactionsError
  | BrokerAccountHasOperationsError
  | AccountOperationForbiddenError
  | InsufficientPositionError
  | InvalidTransactionError
  | TransactionForbiddenError
  | AuthError
  | UsernameTakenError
  | InvalidCredentialsError
  | JwtError
  | ConfigError
  | ProviderUnavailableError
  | ProviderTimeoutError
  | NoBondsFoundError
  | RequestTimeoutError
  | RequestHandlerError
  | HTTPException int
  | Unmodelled

type_synonym 'a result = "error + 'a"

text \<open>Sequencing of fallible code: the first exception ends the computation.\<close>

fun bind_result :: "'a result \<Rightarrow> ('a \<Rightarrow> 'b result) \<Rightarrow> 'b result" where
  "bind_result (Inl e) f = Inl e"
| "bind_result (Inr x) f = f x"

lemma bind_result_Inr_iff:
  "bind_result r f = Inr y \<longleftrightarrow> (\<exists>x. r = Inr x \<and> f x = Inr y)"
  by (cases r) auto

lemma bind_result_Inl_iff:
  "bind_result r f = Inl e \<longleftrightarrow> r = Inl e \<or> (\<exists>x. r = Inr x \<and> f x = Inl e)"
  by (cases r) auto

text \<open>A list comprehension whose element expression may raise: the first exception wins.\<close>

fun map_result :: "('a \<Rightarrow> 'b result) \<Rightarrow> 'a list \<Rightarrow> 'b list result" where
  "map_result f [] = Inr []"
| "map_result f (x # xs) =
     bind_result (f x) (\<lambda>y. bind_result (map_result f xs) (\<lambda>ys. Inr (y # ys)))"

lemma map_result_length: "map_result f xs = Inr ys \<Longrightarrow> length ys = length xs"
  by (induction xs arbitrary: ys) (auto simp: bind_result_Inr_iff)

lemma map_result_cong [fundef_cong]:
  "xs = ys \<Longrightarrow> (\<And>x. x \<in> set ys \<Longrightarrow> f x = g x) \<Longrightarrow> map_result f xs = map_result g ys"
  by (induction ys arbitrary: xs) auto

text \<open>The exceptions a computation may raise, for proofs that follow its sequencing.\<close>

definition raises :: "error set \<Rightarrow> 'a result \<Rightarrow> bool" where
  "raises E r \<longleftrightarrow> (\<forall>e. r = Inl e \<longrightarrow> e \<in> E)"

named_theorems raises_intros "which exceptions an operation raises"

lemma raisesD: "raises E r \<Longrightarrow> r = Inl e \<Longrightarrow> e \<in> E"
  by (simp add: raises_def)

lemma raises_simps [simp]: "raises E (Inr x)" "raises E (Inl e) \<longleftrightarrow> e \<in> E"
  by (simp_all add: raises_def)

lemma raises_mono: "raises E r \<Longrightarrow> E \<subseteq> F \<Longrightarrow> raises F r"
  by (auto simp: raises_def)

lemma raises_bind [raises_intros]:
  "raises E r \<Longrightarrow> (\<And>x. r = Inr x \<Longrightarrow> raises E (f x)) \<Longrightarrow> raises E (bind_result r f)"
  by (cases r) auto

lemma raises_map_sum [raises_intros]: "raises E r \<Longrightarrow> raises E (map_sum id f r)"
  by (cases r) auto

lemma raises_map_result [raises_intros]: "(\<And>x. raises E (f x)) \<Longrightarrow> raises E (map_result f xs)"
  by (induction xs) (auto intro!: raises_bind)

section \<open>Dates\<close>

text \<open>
  \<open>datetime.date\<close> by its proleptic Gregorian ordinal (\<open>date.toordinal\<close>): \<open>date.min\<close> is 1 and
  \<open>date.max\<close> is 3652059. Comparison of dates is comparison of ordinals.
\<close>

datatype date = Date (ordinal: int)

instantiation date :: linorder
begin

definition less_eq_date :: "date \<Rightarrow> date \<Rightarrow> bool" where
  "less_eq_date a b \<longleftrightarrow> ordinal a \<le> ordinal b"

definition less_date :: "date \<Rightarrow> date \<Rightarrow> bool" where
  "less_date a b \<longleftrightarrow> ordinal a < ordinal b"

instance
  by standard (auto simp: less_eq_date_def less_date_def intro: date.expand)

end

named_theorems date_simps "comparisons of dates as comparisons of ordinals"

declare less_eq_date_def [date_simps] less_date_def [date_simps]

lemma date_eq_iff [date_simps]: "(a::date) = b \<longleftrightarrow> ordinal a = ordinal b"
  by (cases a; cases b) simp

lemma Date_le [simp]: "Date a \<le> Date b \<longleftrightarrow> a \<le> b"
  by (simp add: less_eq_date_def)

lemma Date_less [simp]: "Date a < Date b \<longleftrightarrow> a < b"
  by (simp add: less_date_def)

definition min_ordinal :: int where "min_ordinal = 1"

definition max_ordinal :: int where "max_ordinal = 3652059"

definition valid_date :: "date \<Rightarrow> bool" where
  "valid_date d \<longleftrightarrow> min_ordinal \<le> ordinal d \<and> ordinal d \<le> max_ordinal"

text \<open>
  \<open>d + timedelta(days=n)\<close>: \<open>OverflowError\<close> outside \<open>date.min .. date.max\<close>. (A \<open>timedelta\<close> of more
  than 999999999 days is refused with the same exception, and leaves the range from any date.)
\<close>

definition date_add :: "date \<Rightarrow> int \<Rightarrow> date result" where
  "date_add d n =
     (let m = ordinal d + n
      in if min_ordinal \<le> m \<and> m \<le> max_ordinal then Inr (Date m) else Inl OverflowError)"

definition date_sub :: "date \<Rightarrow> int \<Rightarrow> date result" where
  "date_sub d n = date_add d (- n)"

text \<open>\<open>(a - b).days\<close>\<close>

definition days_between :: "date \<Rightarrow> date \<Rightarrow> int" where
  "days_between a b = ordinal a - ordinal b"

lemma date_add_Inr:
  "date_add d n = Inr e \<longleftrightarrow> e = Date (ordinal d + n) \<and> min_ordinal \<le> ordinal d + n \<and> ordinal d + n \<le> max_ordinal"
  by (auto simp: date_add_def Let_def)

lemma date_sub_Inr:
  "date_sub d n = Inr e \<longleftrightarrow> e = Date (ordinal d - n) \<and> min_ordinal \<le> ordinal d - n \<and> ordinal d - n \<le> max_ordinal"
  by (auto simp: date_sub_def date_add_Inr)

lemma date_add_Inl: "date_add d n = Inl e \<Longrightarrow> e = OverflowError"
  by (auto simp: date_add_def Let_def split: if_splits)

lemma date_sub_Inl: "date_sub d n = Inl e \<Longrightarrow> e = OverflowError"
  by (auto simp: date_sub_def dest: date_add_Inl)

lemma date_sub_cases:
  "date_sub d n = (if min_ordinal \<le> ordinal d - n \<and> ordinal d - n \<le> max_ordinal
     then Inr (Date (ordinal d - n)) else Inl OverflowError)"
  by (simp add: date_sub_def date_add_def Let_def)

section \<open>Lists of rows\<close>

text \<open>
  Sums over rows that a predicate selects, and the effect on them of replacing or removing the
  row with one key. They carry every proof about derived quantities.
\<close>

definition sum_over :: "('r \<Rightarrow> bool) \<Rightarrow> ('r \<Rightarrow> 'n::comm_monoid_add) \<Rightarrow> 'r list \<Rightarrow> 'n" where
  "sum_over P f rows = sum_list (map f (filter P rows))"

lemma sum_over_simps [simp]:
  "sum_over P f [] = 0"
  "sum_over P f (r # rs) = (if P r then f r + sum_over P f rs else sum_over P f rs)"
  "sum_over P f (rs @ ss) = sum_over P f rs + sum_over P f ss"
  by (simp_all add: sum_over_def)

lemma sum_over_cong:
  "(\<And>r. r \<in> set rows \<Longrightarrow> P r = Q r) \<Longrightarrow> (\<And>r. r \<in> set rows \<Longrightarrow> P r \<Longrightarrow> f r = g r) \<Longrightarrow>
   sum_over P f rows = sum_over Q g rows"
  by (induction rows) auto

lemma sum_over_filter: "sum_over P f (filter Q rows) = sum_over (\<lambda>r. Q r \<and> P r) f rows"
  by (induction rows) auto

lemma sum_over_none: "(\<And>r. r \<in> set rows \<Longrightarrow> \<not> P r) \<Longrightarrow> sum_over P f rows = 0"
  by (induction rows) auto

lemma sum_over_mset:
  "mset xs = mset ys \<Longrightarrow> sum_over P f xs = sum_over P f ys"
  for f :: "'r \<Rightarrow> 'n::comm_monoid_add"
  by (metis mset_filter mset_map sum_over_def sum_mset_sum_list)

lemma find_Some_iff_distinct:
  "distinct (map k rows) \<Longrightarrow> find (\<lambda>r. k r = i) rows = Some r \<longleftrightarrow> r \<in> set rows \<and> k r = i"
  by (induction rows) (auto simp: rev_image_eqI)

lemma find_None_iff_keys: "find (\<lambda>r. k r = i) rows = None \<longleftrightarrow> i \<notin> k ` set rows"
  by (auto simp: find_None_iff)

lemma sum_over_remove_key:
  assumes "distinct (map k rows)" and "r \<in> set rows"
  shows "sum_over P f rows
    = (if P r then f r else (0::int)) + sum_over P f (filter (\<lambda>x. k x \<noteq> k r) rows)"
  using assms
proof (induction rows)
  case Nil
  then show ?case by simp
next
  case (Cons x rows)
  show ?case
  proof (cases "x = r")
    case True
    with Cons.prems have "\<forall>y \<in> set rows. k y \<noteq> k r" by (force simp: rev_image_eqI)
    then have "filter (\<lambda>x. k x \<noteq> k r) rows = rows" by (simp add: filter_id_conv)
    with True show ?thesis by simp
  next
    case False
    with Cons.prems have "r \<in> set rows" and "k x \<noteq> k r" by (auto simp: rev_image_eqI)
    with Cons show ?thesis by simp
  qed
qed

lemma sum_over_replace_key:
  assumes "distinct (map k rows)" and "r \<in> set rows" and "k r' = k r"
  shows "sum_over P f (map (\<lambda>x. if k x = k r then r' else x) rows)
    = (if P r' then f r' else (0::int)) + sum_over P f (filter (\<lambda>x. k x \<noteq> k r) rows)"
  using assms
proof (induction rows)
  case Nil
  then show ?case by simp
next
  case (Cons x rows)
  show ?case
  proof (cases "x = r")
    case True
    with Cons.prems have *: "\<forall>y \<in> set rows. k y \<noteq> k r" by (force simp: rev_image_eqI)
    then have "filter (\<lambda>x. k x \<noteq> k r) rows = rows" by (simp add: filter_id_conv)
    moreover have "map (\<lambda>x. if k x = k r then r' else x) rows = rows"
      using * by (simp add: map_idI)
    ultimately show ?thesis using True by simp
  next
    case False
    with Cons.prems have "r \<in> set rows" and "k x \<noteq> k r" by (auto simp: rev_image_eqI)
    with Cons show ?thesis by simp
  qed
qed

lemma map_key_replace:
  "(\<And>r. k (g r) = k r) \<Longrightarrow> map k (map (\<lambda>x. if k x = i then g x else x) rows) = map k rows"
  by (induction rows) auto

lemma distinct_map_filter_keys: "distinct (map k rows) \<Longrightarrow> distinct (map k (filter P rows))"
  by (induction rows) auto

section \<open>SQL \<open>ORDER BY\<close>\<close>

text \<open>A stable sort by a key; the key pairs of the queries are ordered lexicographically.\<close>

definition order_by :: "('r \<Rightarrow> 'k::linorder) \<Rightarrow> 'r list \<Rightarrow> 'r list" where
  "order_by k rows = sort_key k rows"

lemma mset_order_by [simp]: "mset (order_by k rows) = mset rows"
  by (simp add: order_by_def)

lemma set_order_by [simp]: "set (order_by k rows) = set rows"
  by (simp add: order_by_def)

lemma sorted_order_by [simp]: "sorted (map k (order_by k rows))"
  by (simp add: order_by_def)

lemma filter_order_by: "filter P (order_by k rows) = order_by k (filter P rows)"
  by (simp add: order_by_def filter_sort)

lemma sum_over_order_by [simp]: "sum_over P f (order_by k rows) = sum_over P f rows"
  for f :: "'r \<Rightarrow> int"
  by (rule sum_over_mset) simp

section \<open>Association in first-seen order\<close>

text \<open>
  \<open>grouped.setdefault(key, []).append(row)\<close> over a list: a dictionary in insertion order whose
  values keep the order of the rows.
\<close>

fun dict_append :: "'k \<Rightarrow> 'r \<Rightarrow> ('k \<times> 'r list) list \<Rightarrow> ('k \<times> 'r list) list" where
  "dict_append key row [] = [(key, [row])]"
| "dict_append key row ((k, rows) # rest) =
     (if k = key then (k, rows @ [row]) # rest else (k, rows) # dict_append key row rest)"

definition group_rows :: "('r \<Rightarrow> 'k) \<Rightarrow> 'r list \<Rightarrow> ('k \<times> 'r list) list" where
  "group_rows key rows = fold (\<lambda>r d. dict_append (key r) r d) rows []"

lemma keys_dict_append: "fst ` set (dict_append key row d) = insert key (fst ` set d)"
proof (induction d)
  case (Cons p d)
  then show ?case by (cases p) (simp add: insert_commute)
qed simp

lemma distinct_dict_append:
  "distinct (map fst d) \<Longrightarrow> distinct (map fst (dict_append key row d))"
proof (induction d)
  case (Cons p d)
  have "fst ` set (dict_append key row d) = insert key (fst ` set d)"
    by (rule keys_dict_append)
  with Cons show ?case by (cases p) auto
qed simp

lemma map_of_dict_append:
  "map_of (dict_append key row d) k =
     (if k = key then Some ((case map_of d key of None \<Rightarrow> [] | Some rows \<Rightarrow> rows) @ [row])
      else map_of d k)"
  by (induction d) auto

lemma group_rows_snoc [simp]:
  "group_rows key (rows @ [r]) = dict_append (key r) r (group_rows key rows)"
  by (simp add: group_rows_def)

lemma group_rows_Nil [simp]: "group_rows key [] = []"
  by (simp add: group_rows_def)

lemma distinct_group_rows: "distinct (map fst (group_rows key rows))"
  by (induction rows rule: rev_induct) (auto intro: distinct_dict_append)

lemma keys_group_rows: "fst ` set (group_rows key rows) = key ` set rows"
  by (induction rows rule: rev_induct) (auto simp: keys_dict_append)

lemma map_of_group_rows:
  "map_of (group_rows key rows) k =
     (if k \<in> key ` set rows then Some (filter (\<lambda>r. key r = k) rows) else None)"
proof (induction rows rule: rev_induct)
  case (snoc r rows)
  have *: "k \<notin> key ` set rows \<Longrightarrow> filter (\<lambda>r. key r = k) rows = []"
    by (auto simp: filter_empty_conv)
  from snoc * show ?case
    by (auto simp: map_of_dict_append split: if_splits)
qed simp

lemma group_rows_mem:
  "(k, rs) \<in> set (group_rows key rows) \<longleftrightarrow>
     k \<in> key ` set rows \<and> rs = filter (\<lambda>r. key r = k) rows"
proof -
  have "(k, rs) \<in> set (group_rows key rows) \<longleftrightarrow> map_of (group_rows key rows) k = Some rs"
    by (simp only: map_of_eq_Some_iff [OF distinct_group_rows])
  then show ?thesis by (simp only: map_of_group_rows) auto
qed

end
