(* ===== verification/Binary64.thy ===== *)
theory Binary64
  imports Prelude "HOL-Library.Log_Nat"
begin

text \<open>
  Python's \<open>float\<close>. A finite float is the rational number it denotes, and every arithmetic
  operation of the source is the exact operation followed by one rounding, as IEEE 754 defines
  it. The rounding is a parameter \<open>rnd\<close> of the numerical definitions, so that one definition has
  two readings: \<open>fl64\<close> is the rounding of binary64 (to nearest, ties to even, with gradual
  underflow), under which the definitions compute what the program computes, and \<open>exact\<close> is no
  rounding at all, under which they state what the algorithm means. The locale \<open>rounding\<close> holds
  the laws both satisfy, and what follows from them.

  Bounds: infinities and NaN are not values of the model. A result whose magnitude passes
  \<open>2 ^ 1024\<close>, which binary64 turns into an infinity, stays a number here, and \<open>math.isfinite\<close> is
  the comparison with that bound. \<open>-0.0\<close> and \<open>0.0\<close> are one number, as they are for \<open>==\<close>.
\<close>

section \<open>Rounding to nearest, ties to even\<close>

definition rne :: "rat \<Rightarrow> int" where
  "rne x =
     (let f = \<lfloor>x\<rfloor>; d = x - of_int f
      in if d < 1 / 2 then f else if 1 / 2 < d then f + 1 else if even f then f else f + 1)"

lemma rne_of_int [simp]: "rne (of_int n) = n"
  by (simp add: rne_def)

lemma rne_floor: "rne x = \<lfloor>x\<rfloor> \<or> rne x = \<lfloor>x\<rfloor> + 1"
  by (simp add: rne_def Let_def)

lemma rne_error: "\<bar>of_int (rne x) - x\<bar> \<le> 1 / 2"
proof -
  have "of_int \<lfloor>x\<rfloor> \<le> x" and "x < of_int \<lfloor>x\<rfloor> + 1" by linarith+
  then show ?thesis by (auto simp: rne_def Let_def)
qed

lemma rne_mono: assumes "x \<le> y" shows "rne x \<le> rne y"
proof (cases "\<lfloor>x\<rfloor> = \<lfloor>y\<rfloor>")
  case True
  with assms show ?thesis by (auto simp: rne_def Let_def)
next
  case False
  have "\<lfloor>x\<rfloor> \<le> \<lfloor>y\<rfloor>" using assms by (rule floor_mono)
  with False have "\<lfloor>x\<rfloor> + 1 \<le> \<lfloor>y\<rfloor>" by simp
  then show ?thesis using rne_floor [of x] rne_floor [of y] by linarith
qed

lemma rne_minus: "rne (- x) = - rne x"
proof (cases "of_int \<lfloor>x\<rfloor> = x")
  case True
  then obtain n where n: "x = of_int n" by metis
  have "rne (of_int (- n)) = - n" by (rule rne_of_int)
  then show ?thesis by (simp add: n)
next
  case False
  then have "\<lfloor>- x\<rfloor> = - \<lfloor>x\<rfloor> - 1" by linarith
  then show ?thesis by (auto simp: rne_def Let_def)
qed

section \<open>The binary exponent\<close>

definition ilog2 :: "rat \<Rightarrow> int" where
  "ilog2 x =
     (case quotient_of x of (p, q) \<Rightarrow>
        let k = bitlen p - bitlen q in if 2 powi k \<le> x then k else k - 1)"

lemma powi_less_iff [simp]: "(2::rat) powi a < 2 powi b \<longleftrightarrow> a < b"
  by (metis linorder_not_less one_less_numeral_iff power_int_increasing power_int_strict_increasing
      less_eq_rat_def semiring_norm(76) linorder_neqE)

lemma powi_le_iff [simp]: "(2::rat) powi a \<le> 2 powi b \<longleftrightarrow> a \<le> b"
  by (simp flip: linorder_not_less)

lemma powi_pos [simp]: "0 < (2::rat) powi a"
  by (simp add: zero_less_power_int)

lemma ilog2_bounds:
  assumes "0 < x"
  shows "2 powi (ilog2 x) \<le> x" and "x < 2 powi (ilog2 x + 1)"
proof -
  obtain p q where pq: "quotient_of x = (p, q)" by fastforce
  then have x: "x = of_int p / of_int q" by (rule quotient_of_div)
  have q: "0 < q" using pq by (rule quotient_of_denom_pos)
  with assms x have p: "0 < p" by (simp add: zero_less_divide_iff)
  define a b where "a = bitlen p" and "b = bitlen q"
  have a: "0 < a" and b: "0 < b"
    using p q bitlen_eq_zero_iff [of p] bitlen_eq_zero_iff [of q] bitlen_nonneg [of p] bitlen_nonneg [of q]
    by (simp_all add: a_def b_def less_le)
  have bound: "2 powi (bitlen n - 1) \<le> (of_int n :: rat) \<and> (of_int n :: rat) < 2 powi (bitlen n)"
    if n: "0 < n" for n
  proof -
    have *: "0 < bitlen n"
      using n bitlen_eq_zero_iff [of n] bitlen_nonneg [of n] by (simp add: less_le)
    have "2 ^ nat (bitlen n - 1) \<le> n \<and> n < 2 ^ nat (bitlen n)" by (rule bitlen_bounds) fact
    then have "of_int (2 ^ nat (bitlen n - 1)) \<le> (of_int n :: rat) \<and> (of_int n :: rat) < of_int (2 ^ nat (bitlen n))"
      by (simp only: of_int_le_iff of_int_less_iff)
    with * show ?thesis by (simp add: power_int_nonneg_exp)
  qed
  have "2 powi (a - 1) / 2 powi b \<le> x"
    unfolding x a_def b_def using bound [OF p] bound [OF q] p q
    by (intro frac_le) (auto intro: less_imp_le)
  then have lo: "2 powi (a - b - 1) \<le> x"
    by (simp add: power_int_diff)
  have "x < 2 powi a / 2 powi (b - 1)"
    unfolding x a_def b_def using bound [OF p] bound [OF q] p q
    by (intro frac_less) (auto intro: less_imp_le)
  then have hi: "x < 2 powi (a - b + 1)"
    by (simp add: power_int_diff power_int_add field_simps)
  have "ilog2 x = (if 2 powi (a - b) \<le> x then a - b else a - b - 1)"
    by (simp add: ilog2_def pq a_def b_def)
  then show "2 powi (ilog2 x) \<le> x" and "x < 2 powi (ilog2 x + 1)"
    using lo hi by (auto split: if_splits)
qed

lemma ilog2_mono: assumes "0 < x" and "x \<le> y" shows "ilog2 x \<le> ilog2 y"
proof -
  have "2 powi (ilog2 x) \<le> x" and "y < 2 powi (ilog2 y + 1)"
    using assms ilog2_bounds by auto
  with assms have "(2::rat) powi (ilog2 x) < 2 powi (ilog2 y + 1)" by linarith
  then show ?thesis by simp
qed

section \<open>binary64\<close>

text \<open>The exponent of the unit in the last place, at least that of the subnormal numbers.\<close>

definition ulp_exp :: "rat \<Rightarrow> int" where
  "ulp_exp x = max (ilog2 \<bar>x\<bar> - 52) (- 1074)"

definition fl64 :: "rat \<Rightarrow> rat" where
  "fl64 x =
     (if x = 0 then 0
      else let u = 2 powi (ulp_exp x) in of_int (rne (x / u)) * u)"

definition is_finite64 :: "rat \<Rightarrow> bool" where
  "is_finite64 x \<longleftrightarrow> \<bar>x\<bar> < 2 ^ 1024"

text \<open>A number of the format: at most 53 bits over the least exponent.\<close>

definition representable :: "rat \<Rightarrow> bool" where
  "representable x \<longleftrightarrow> (\<exists>m e. x = of_int m * 2 powi e \<and> \<bar>m\<bar> \<le> 2 ^ 53 \<and> - 1074 \<le> e)"

lemma fl64_0 [simp]: "fl64 0 = 0"
  by (simp add: fl64_def)

lemma fl64_minus: "fl64 (- x) = - fl64 x"
  by (simp add: fl64_def ulp_exp_def rne_minus Let_def)

lemma scaled_bound: assumes "x \<noteq> 0" shows "\<bar>x\<bar> / 2 powi (ulp_exp x) < 2 ^ 53"
proof -
  have "\<bar>x\<bar> < 2 powi (ilog2 \<bar>x\<bar> + 1)" using assms by (intro ilog2_bounds) simp
  also have "\<dots> \<le> 2 powi (53 + ulp_exp x)" by (simp add: ulp_exp_def)
  finally show ?thesis by (simp add: power_int_add divide_less_eq)
qed

lemma representable_fl64: "representable (fl64 x)"
proof (cases "x = 0")
  case True
  then show ?thesis by (auto simp: representable_def intro!: exI [of _ 0])
next
  case False
  define y where "y = x / 2 powi (ulp_exp x)"
  have "\<bar>y\<bar> < 2 ^ 53" using scaled_bound [OF False] by (simp add: y_def)
  then have "of_int (- (2 ^ 53)) \<le> y \<and> y \<le> of_int (2 ^ 53)" by (simp add: abs_less_iff)
  then have "rne (of_int (- (2 ^ 53))) \<le> rne y \<and> rne y \<le> rne (of_int (2 ^ 53))"
    by (blast intro: rne_mono)
  then have "\<bar>rne y\<bar> \<le> 2 ^ 53" by (simp only: rne_of_int) linarith
  with False show ?thesis
    by (auto simp: representable_def fl64_def Let_def y_def ulp_exp_def intro!: exI)
qed

lemma fl64_representable: assumes "representable x" shows "fl64 x = x"
proof (cases "x = 0")
  case False
  obtain m e where x: "x = of_int m * 2 powi e" and m: "\<bar>m\<bar> \<le> 2 ^ 53" and e: "- 1074 \<le> e"
    using assms by (auto simp: representable_def)
  define u where "u = ulp_exp x"
  have "\<exists>n. x / 2 powi u = of_int n"
  proof (cases "u \<le> e")
    case True
    then have "x / 2 powi u = of_int (m * 2 ^ nat (e - u))"
      by (simp add: x power_int_nonneg_exp [symmetric] power_int_diff)
    then show ?thesis by blast
  next
    case False
    with e have u: "u = ilog2 \<bar>x\<bar> - 52" by (auto simp: u_def ulp_exp_def)
    have "2 powi (ilog2 \<bar>x\<bar>) \<le> \<bar>x\<bar>" using \<open>x \<noteq> 0\<close> by (intro ilog2_bounds) simp
    also have "\<dots> = of_int \<bar>m\<bar> * 2 powi e" by (simp add: x abs_mult)
    also have "\<dots> \<le> of_int (2 ^ 53) * 2 powi e" using m by (intro mult_right_mono) (simp_all only: of_int_le_iff powi_pos less_imp_le)
    also have "\<dots> = 2 powi (53 + e)" by (simp add: power_int_add)
    finally have "u \<le> e + 1" by (simp add: u)
    with False have ue: "u = e + 1" by simp
    have "of_int (2 ^ 53) * 2 powi e \<le> \<bar>x\<bar>"
    proof -
      have "ilog2 \<bar>x\<bar> = 53 + e" using u ue by simp
      with \<open>2 powi (ilog2 \<bar>x\<bar>) \<le> \<bar>x\<bar>\<close> show ?thesis by (simp add: power_int_add)
    qed
    then have "of_int (2 ^ 53) * 2 powi e \<le> of_int \<bar>m\<bar> * (2 powi e :: rat)"
      by (simp add: x abs_mult)
    then have "2 ^ 53 \<le> \<bar>m\<bar>"
      by (simp only: mult_le_cancel_right_pos powi_pos of_int_le_iff)
    with m have "\<bar>m\<bar> = 2 ^ 53" by simp
    then have "even \<bar>m\<bar>" by simp
    then have "even m" by simp
    then obtain k where "m = 2 * k" by blast
    then have "x / 2 powi u = of_int k" by (simp add: x ue power_int_add)
    then show ?thesis by blast
  qed
  then obtain n where n: "x / 2 powi u = of_int n" by blast
  then have "x = of_int n * 2 powi u" by (simp add: divide_eq_eq)
  then show ?thesis using False n by (simp add: fl64_def Let_def u_def)
qed simp

lemma fl64_of_int: "\<bar>n\<bar> \<le> 2 ^ 53 \<Longrightarrow> fl64 (of_int n) = of_int n"
proof -
  assume n: "\<bar>n\<bar> \<le> 2 ^ 53"
  have "representable (of_int n)"
    unfolding representable_def by (rule exI [of _ n], rule exI [of _ 0]) (use n in simp)
  then show ?thesis by (rule fl64_representable)
qed

lemma fl64_numeral [simp]: "(numeral w :: int) \<le> 9007199254740992 \<Longrightarrow> fl64 (numeral w) = numeral w"
  using fl64_of_int [of "numeral w"] by simp

lemma fl64_neg_numeral [simp]: "(numeral w :: int) \<le> 9007199254740992 \<Longrightarrow> fl64 (- numeral w) = - numeral w"
  by (simp add: fl64_minus)

lemma fl64_1 [simp]: "fl64 1 = 1"
  using fl64_of_int [of 1] by simp

lemma fl64_mono_pos: assumes "0 < x" and "x \<le> y" shows "fl64 x \<le> fl64 y"
proof -
  define a b where "a = ulp_exp x" and "b = ulp_exp y"
  have ab: "a \<le> b" using ilog2_mono [OF assms] assms by (auto simp: a_def b_def ulp_exp_def)
  have fx: "fl64 x = of_int (rne (x / 2 powi a)) * 2 powi a"
    and fy: "fl64 y = of_int (rne (y / 2 powi b)) * 2 powi b"
    using assms by (auto simp: fl64_def Let_def a_def b_def)
  show ?thesis
  proof (cases "a = b")
    case True
    have "rne (x / 2 powi b) \<le> rne (y / 2 powi b)"
      using assms by (intro rne_mono divide_right_mono) (simp_all add: less_imp_le)
    then show ?thesis unfolding fx fy True by (intro mult_right_mono) (simp_all add: less_imp_le)
  next
    case False
    with ab have less: "a + 1 \<le> b" by simp
    then have b: "b = ilog2 y - 52" using assms by (auto simp: a_def b_def ulp_exp_def)
    have "x / 2 powi a \<le> of_int (2 ^ 53)"
      using scaled_bound [of x] assms by (simp add: a_def)
    then have "rne (x / 2 powi a) \<le> 2 ^ 53" using rne_mono rne_of_int by metis
    then have "fl64 x \<le> of_int (2 ^ 53) * 2 powi a"
      unfolding fx by (intro mult_right_mono) (simp_all only: of_int_le_iff powi_pos less_imp_le)
    also have "\<dots> = 2 powi (52 + (a + 1))" by (simp add: power_int_add)
    also have "\<dots> \<le> 2 powi (52 + b)" using less by simp
    also have "\<dots> = of_int (2 ^ 52) * 2 powi b" by (simp add: power_int_add)
    also have "\<dots> \<le> fl64 y"
    proof -
      have "2 powi (ilog2 y) \<le> y" using assms by (intro ilog2_bounds) simp
      then have "2 powi (52 + b) \<le> y" by (simp add: b)
      then have "of_int (2 ^ 52) \<le> y / 2 powi b" by (simp add: power_int_add le_divide_eq)
      then have "2 ^ 52 \<le> rne (y / 2 powi b)" using rne_mono rne_of_int by metis
      then show ?thesis unfolding fy by (intro mult_right_mono) (simp_all only: of_int_le_iff powi_pos less_imp_le)
    qed
    finally show ?thesis .
  qed
qed

lemma fl64_nonneg: assumes "0 \<le> x" shows "0 \<le> fl64 x"
proof (cases "x = 0")
  case False
  have "rne (of_int 0) \<le> rne (x / 2 powi (ulp_exp x))"
    using assms by (intro rne_mono) (simp add: less_imp_le)
  then have "0 \<le> rne (x / 2 powi (ulp_exp x))" by (simp only: rne_of_int)
  with False show ?thesis by (simp add: fl64_def Let_def less_imp_le)
qed simp

lemma fl64_mono: assumes "x \<le> y" shows "fl64 x \<le> fl64 y"
proof -
  consider "0 < x" | "x \<le> 0" "0 \<le> y" | "y < 0" by linarith
  then show ?thesis
  proof cases
    case 1
    with assms show ?thesis by (intro fl64_mono_pos)
  next
    case 2
    then have "fl64 x \<le> 0" using fl64_nonneg [of "- x"] by (simp add: fl64_minus)
    with 2 fl64_nonneg [of y] show ?thesis by linarith
  next
    case 3
    with assms have "fl64 (- y) \<le> fl64 (- x)" by (intro fl64_mono_pos) simp_all
    then show ?thesis by (simp add: fl64_minus)
  qed
qed

lemma fl64_error:
  assumes "x \<noteq> 0" shows "\<bar>fl64 x - x\<bar> \<le> 2 powi (ulp_exp x) / 2"
proof -
  define u :: rat where "u = 2 powi (ulp_exp x)"
  have u: "0 < u" by (simp add: u_def)
  have "fl64 x - x = (of_int (rne (x / u)) - x / u) * u"
    using assms u by (simp add: fl64_def Let_def left_diff_distrib flip: u_def)
  then have "\<bar>fl64 x - x\<bar> = \<bar>of_int (rne (x / u)) - x / u\<bar> * u"
    using u by (simp add: abs_mult)
  also have "\<dots> \<le> 1 / 2 * u" using u by (intro mult_right_mono rne_error) simp
  finally show ?thesis by (simp add: u_def)
qed

lemma fl64_multiple:
  assumes "x \<noteq> 0" and "x = of_int n * 2 powi (ulp_exp x)"
  shows "fl64 x = x"
proof -
  have "x / 2 powi (ulp_exp x) = of_int n"
    by (subst assms(2)) simp
  then show ?thesis using assms by (simp add: fl64_def Let_def)
qed

lemma fl64_scale:
  assumes x: "fl64 x = x" and "0 \<le> x" and n: "0 \<le> n" "n < 2 ^ 52"
  shows "fl64 (x * of_int n) \<le> x * of_int (n + 1)"
proof (cases "x * of_int n = 0")
  case True
  with assms show ?thesis by (auto simp: algebra_simps)
next
  case False
  define y where "y = x * of_int n"
  have pos: "0 < x" "0 < y" using False assms by (auto simp: y_def less_le)
  show ?thesis
  proof (cases "ulp_exp y = - 1074")
    case True
    obtain m e where m: "x = of_int m * 2 powi e" "- 1074 \<le> e"
      using representable_fl64 [of x] x by (auto simp: representable_def)
    have e: "(2::rat) powi e = of_int (2 ^ nat (e + 1074)) * 2 powi (- 1074)"
    proof -
      have "(2::rat) powi e = 2 powi (int (nat (e + 1074)) + - 1074)" using m(2) by simp
      also have "\<dots> = 2 powi (int (nat (e + 1074))) * 2 powi (- 1074)" by (rule power_int_add) simp
      finally show ?thesis by (simp only: power_int_of_nat of_int_power of_int_numeral)
    qed
    have "y = of_int m * 2 powi e * of_int n" by (simp only: y_def m(1))
    also have "\<dots> = of_int (m * 2 ^ nat (e + 1074) * n) * 2 powi (ulp_exp y)"
      by (simp only: e True of_int_mult mult_ac)
    finally have "y = of_int (m * 2 ^ nat (e + 1074) * n) * 2 powi (ulp_exp y)" .
    with pos have "fl64 y = y" by (intro fl64_multiple) (simp, assumption)
    then show ?thesis using pos by (simp add: y_def algebra_simps)
  next
    case False
    then have u: "ulp_exp y = ilog2 y - 52" using pos by (auto simp: ulp_exp_def)
    have "(2::rat) powi (ulp_exp y) = 2 powi (ilog2 y) / 2 ^ 52"
      by (simp add: u power_int_diff)
    also have "\<dots> \<le> y / 2 ^ 52" using pos ilog2_bounds by (intro divide_right_mono) auto
    also have "\<dots> \<le> x"
    proof -
      have "x * of_int n \<le> x * of_int (2 ^ 52)" using pos n by (intro mult_left_mono) (simp_all only: of_int_le_iff less_imp_le)
      then show ?thesis by (simp add: y_def)
    qed
    finally have "2 powi (ulp_exp y) \<le> x" by simp
    moreover have "fl64 y \<le> y + 2 powi (ulp_exp y) / 2"
    proof -
      have "\<bar>fl64 y - y\<bar> \<le> 2 powi (ulp_exp y) / 2" using pos by (intro fl64_error) simp
      then show ?thesis by linarith
    qed
    ultimately show ?thesis using pos by (simp add: y_def algebra_simps)
  qed
qed

lemma fl64_double: assumes "fl64 x = x" shows "fl64 (2 * x) = 2 * x"
proof (rule fl64_representable)
  obtain m e where "x = of_int m * 2 powi e" "\<bar>m\<bar> \<le> 2 ^ 53" "- 1074 \<le> e"
    using representable_fl64 [of x] assms by (auto simp: representable_def)
  then have "2 * x = of_int m * 2 powi (e + 1) \<and> \<bar>m\<bar> \<le> 2 ^ 53 \<and> - 1074 \<le> e + 1"
    by (simp add: power_int_add)
  then show "representable (2 * x)" unfolding representable_def by blast
qed

section \<open>The laws of rounding\<close>

text \<open>
  What the numerical components rely on. \<open>rnd x = x\<close> says that \<open>x\<close> is a value of the format.
  \<open>rnd_scale\<close> bounds the error of a product with a small integer.
\<close>

locale rounding =
  fixes rnd :: "rat \<Rightarrow> rat"
  assumes rnd_mono: "x \<le> y \<Longrightarrow> rnd x \<le> rnd y"
    and rnd_minus: "rnd (- x) = - rnd x"
    and rnd_idem: "rnd (rnd x) = rnd x"
    and rnd_int: "\<bar>n\<bar> \<le> 2 ^ 53 \<Longrightarrow> rnd (of_int n) = of_int n"
    and rnd_double: "rnd x = x \<Longrightarrow> rnd (2 * x) = 2 * x"
    and rnd_scale: "rnd x = x \<Longrightarrow> 0 \<le> x \<Longrightarrow> 0 \<le> n \<Longrightarrow> n < 2 ^ 52 \<Longrightarrow>
      rnd (x * of_int n) \<le> x * of_int (n + 1)"
begin

lemma rnd_0: "rnd 0 = 0"
  using rnd_int [of 0] by simp

lemma rnd_1: "rnd 1 = 1"
  using rnd_int [of 1] by simp

lemma rnd_nonneg: "0 \<le> x \<Longrightarrow> 0 \<le> rnd x"
  using rnd_mono [of 0 x] by (simp add: rnd_0)

lemma rnd_nonpos: "x \<le> 0 \<Longrightarrow> rnd x \<le> 0"
  using rnd_mono [of x 0] by (simp add: rnd_0)

lemma rnd_le: "x \<le> y \<Longrightarrow> rnd y = y \<Longrightarrow> rnd x \<le> y"
  using rnd_mono [of x y] by simp

lemma rnd_ge: "x \<le> y \<Longrightarrow> rnd x = x \<Longrightarrow> x \<le> rnd y"
  using rnd_mono [of x y] by simp

lemma rnd_le_1: "x \<le> 1 \<Longrightarrow> rnd x \<le> 1"
  by (rule rnd_le) (simp_all add: rnd_1)

lemma rnd_of_int_nonneg: "0 \<le> n \<Longrightarrow> 0 \<le> rnd (of_int n)"
  by (rule rnd_nonneg) simp

lemma rnd_of_int_pos: "0 < n \<Longrightarrow> 0 < rnd (of_int n)"
  using rnd_mono [of 1 "of_int n"] by (simp add: rnd_1)

text \<open>The computed midpoint of two floats lies between them.\<close>

lemma midpoint_between:
  assumes "a \<le> b" and "rnd a = a" and "rnd b = b"
  shows "a \<le> rnd (rnd (a + b) / 2)" and "rnd (rnd (a + b) / 2) \<le> b"
proof -
  have "2 * a \<le> rnd (a + b)" using assms by (intro rnd_ge rnd_double) simp_all
  then show "a \<le> rnd (rnd (a + b) / 2)" using assms by (intro rnd_ge) simp_all
  have "rnd (a + b) \<le> 2 * b" using assms by (intro rnd_le rnd_double) simp_all
  then show "rnd (rnd (a + b) / 2) \<le> b" using assms by (intro rnd_le) simp_all
qed

text \<open>Taking away a fraction of a nonnegative float leaves a nonnegative float.\<close>

lemma remainder_nonneg:
  assumes "0 \<le> c" and "rnd c = c" and "0 \<le> q" and "q \<le> 1"
  shows "0 \<le> rnd (c - rnd (c * rnd q))"
proof -
  have "c * rnd q \<le> c * 1" using assms by (intro mult_left_mono rnd_le_1) simp_all
  then have "rnd (c * rnd q) \<le> c" using assms by (intro rnd_le) simp_all
  then show ?thesis by (intro rnd_nonneg) simp
qed

end

definition exact :: "rat \<Rightarrow> rat" where "exact x = x"

interpretation b64: rounding fl64
  by unfold_locales
    (simp_all only: fl64_mono fl64_minus fl64_representable [OF representable_fl64] fl64_of_int
      fl64_double fl64_scale)

interpretation ex: rounding exact
  by unfold_locales (auto simp: exact_def algebra_simps)

end
