(* ===== verification/PyText.thy ===== *)
theory PyText
  imports Binary64
begin

text \<open>
  The text functions of Python that the code relies on: \<open>str\<close> and \<open>int\<close> of integers, \<open>float\<close> of
  a string with \<open>nan\<close> and the infinities as values, \<open>strip\<close>, \<open>casefold\<close> and \<open>upper\<close>,
  \<open>strptime\<close> of the two date formats, and \<open>encode('utf-8')\<close>. A \<open>string\<close> has 8-bit characters, of
  which \<open>casefold\<close> and \<open>upper\<close> change the ASCII letters only; a password is the list of its
  code points. The limit of 4300 digits on the text of an integer is left out.
\<close>

section \<open>Whitespace and letter case\<close>

definition code :: "char \<Rightarrow> int" where "code c = of_char c"

definition is_space :: "char \<Rightarrow> bool" where
  "is_space c \<longleftrightarrow> code c \<in> {9, 10, 11, 12, 13, 28, 29, 30, 31, 32, 133, 160}"

definition strip :: "string \<Rightarrow> string" where
  "strip s = rev (dropWhile is_space (rev (dropWhile is_space s)))"

definition lower_char :: "char \<Rightarrow> char" where
  "lower_char c = (if 65 \<le> code c \<and> code c \<le> 90 then char_of (code c + 32) else c)"

definition upper_char :: "char \<Rightarrow> char" where
  "upper_char c = (if 97 \<le> code c \<and> code c \<le> 122 then char_of (code c - 32) else c)"

definition casefold :: "string \<Rightarrow> string" where "casefold s = map lower_char s"

definition upper :: "string \<Rightarrow> string" where "upper s = map upper_char s"

section \<open>Integers\<close>

definition digit_of :: "char \<Rightarrow> int option" where
  "digit_of c = (if 48 \<le> code c \<and> code c \<le> 57 then Some (code c - 48) else None)"

text \<open>Digits with single underscores between them, after the ones that make \<open>n\<close>.\<close>

fun numeral_from :: "int \<Rightarrow> string \<Rightarrow> int option" where
  "numeral_from n [] = Some n"
| "numeral_from n [c] = map_option (\<lambda>k. 10 * n + k) (digit_of c)"
| "numeral_from n (c # d # cs) =
     (case digit_of c of
        Some k \<Rightarrow> numeral_from (10 * n + k) (d # cs)
      | None \<Rightarrow> if c = CHR ''_'' \<and> digit_of d \<noteq> None then numeral_from n (d # cs) else None)"

definition numeral_of :: "string \<Rightarrow> int option" where
  "numeral_of s = (case s of [] \<Rightarrow> None | c # cs \<Rightarrow> if digit_of c = None then None else numeral_from 0 s)"

definition int_of_string :: "string \<Rightarrow> int option" where
  "int_of_string s =
     (case strip s of
        [] \<Rightarrow> None
      | c # cs \<Rightarrow>
          if c = CHR ''-'' then map_option uminus (numeral_of cs)
          else if c = CHR ''+'' then numeral_of cs
          else numeral_of (c # cs))"

fun str_of_nat :: "nat \<Rightarrow> string" where
  "str_of_nat n = (if n < 10 then [char_of (48 + n)] else str_of_nat (n div 10) @ [char_of (48 + n mod 10)])"

declare str_of_nat.simps [simp del]

definition str_of_int :: "int \<Rightarrow> string" where
  "str_of_int n = (if n < 0 then CHR ''-'' # str_of_nat (nat (- n)) else str_of_nat (nat n))"

text \<open>\<open>int(str(n)) = n\<close>\<close>

lemma code_digit [simp]: "n < 10 \<Longrightarrow> code (char_of (48 + n)) = 48 + int n" for n :: nat
proof -
  assume n: "n < 10"
  have "code (char_of (48 + n)) = int (of_char (char_of (48 + n) :: char))"
    by (simp only: code_def of_nat_of_char)
  then show ?thesis using n by (simp only: of_char_of) simp
qed

lemma digit_of_digit [simp]: "n < 10 \<Longrightarrow> digit_of (char_of (48 + n)) = Some (int n)" for n :: nat
  by (simp add: digit_of_def)

definition all_digits :: "string \<Rightarrow> bool" where
  "all_digits s \<longleftrightarrow> (\<forall>c \<in> set s. digit_of c \<noteq> None)"

lemma numeral_from_append:
  assumes "all_digits s" and "digit_of c = Some k"
  shows "numeral_from n (s @ [c]) = map_option (\<lambda>m. 10 * m + k) (numeral_from n s)"
  using assms(1)
proof (induction n s rule: numeral_from.induct)
  case (2 n a)
  then show ?case using assms(2) by (auto simp: all_digits_def)
next
  case (3 n a b cs)
  then show ?case by (auto simp: all_digits_def)
qed (use assms(2) in simp)

lemma str_of_nat_digits: "all_digits (str_of_nat n)"
  by (induction n rule: str_of_nat.induct) (subst str_of_nat.simps, auto simp: all_digits_def)

lemma numeral_str_of_nat: "numeral_from 0 (str_of_nat n) = Some (int n)"
proof (induction n rule: str_of_nat.induct)
  case (1 n)
  show ?case
  proof (cases "n < 10")
    case True
    then show ?thesis by (subst str_of_nat.simps) simp
  next
    case False
    then have "numeral_from 0 (str_of_nat n) = Some (10 * int (n div 10) + int (n mod 10))"
      using 1 numeral_from_append [OF str_of_nat_digits, of "char_of (48 + n mod 10)" "int (n mod 10)" 0 "n div 10"]
      by (subst str_of_nat.simps) simp
    moreover have "10 * int (n div 10) + int (n mod 10) = int n"
      by (metis mult_div_mod_eq of_nat_add of_nat_mult of_nat_numeral)
    ultimately show ?thesis by simp
  qed
qed

lemma str_of_nat_nonempty: "str_of_nat n \<noteq> []"
  by (subst str_of_nat.simps) simp

lemma digit_not_space: "digit_of c \<noteq> None \<Longrightarrow> \<not> is_space c \<and> c \<noteq> CHR ''-'' \<and> c \<noteq> CHR ''+''"
  by (auto simp: digit_of_def is_space_def code_def split: if_splits)

lemma strip_solid: "s = [] \<or> (\<not> is_space (hd s) \<and> \<not> is_space (last s)) \<Longrightarrow> strip s = s"
proof -
  assume s: "s = [] \<or> (\<not> is_space (hd s) \<and> \<not> is_space (last s))"
  then have "dropWhile is_space s = s" and "dropWhile is_space (rev s) = rev s"
    by (auto simp: dropWhile_eq_self_iff hd_rev)
  then show ?thesis by (simp add: strip_def)
qed

lemma int_of_str_of_int [simp]: "int_of_string (str_of_int n) = Some n"
proof -
  have d: "digit_of c \<noteq> None" if "c \<in> set (str_of_nat k)" for c k
    using that str_of_nat_digits by (auto simp: all_digits_def)
  have strip: "strip (str_of_int n) = str_of_int n"
  proof (rule strip_solid)
    have "last (str_of_nat k) \<in> set (str_of_nat k)" "hd (str_of_nat k) \<in> set (str_of_nat k)" for k
      by (simp_all add: str_of_nat_nonempty)
    then have "\<not> is_space (hd (str_of_nat k))" "\<not> is_space (last (str_of_nat k))" for k
      using d digit_not_space by blast+
    then show "str_of_int n = [] \<or> (\<not> is_space (hd (str_of_int n)) \<and> \<not> is_space (last (str_of_int n)))"
      by (simp add: str_of_int_def str_of_nat_nonempty is_space_def code_def)
  qed
  have num: "numeral_of (str_of_nat k) = Some (int k)" for k
    using numeral_str_of_nat [of k] str_of_nat_nonempty [of k] d [of _ k]
    by (cases "str_of_nat k") (auto simp: numeral_of_def)
  show ?thesis
  proof (cases "n < 0")
    case True
    then show ?thesis using num [of "nat (- n)"] by (simp add: int_of_string_def strip) (simp add: str_of_int_def)
  next
    case False
    obtain c cs where cs: "str_of_nat (nat n) = c # cs" by (metis list.exhaust str_of_nat_nonempty)
    then have "c \<noteq> CHR ''-'' \<and> c \<noteq> CHR ''+''" using d [of c "nat n"] digit_not_space by simp
    then show ?thesis using num [of "nat n"] False cs by (simp add: int_of_string_def strip) (simp add: str_of_int_def)
  qed
qed

section \<open>Floats\<close>

text \<open>A float as it comes from a string or from JSON: \<open>Inf True\<close> is minus infinity.\<close>

datatype pyfloat = Fin rat | Inf bool | NaN

definition float64 :: "rat \<Rightarrow> pyfloat" where
  "float64 x = (if is_finite64 (fl64 x) then Fin (fl64 x) else Inf (x < 0))"

definition split_at :: "char \<Rightarrow> string \<Rightarrow> string \<times> string option" where
  "split_at c s = (case dropWhile (\<lambda>x. x \<noteq> c) s of
     [] \<Rightarrow> (s, None) | _ # rest \<Rightarrow> (takeWhile (\<lambda>x. x \<noteq> c) s, Some rest))"

definition digits_of :: "string \<Rightarrow> int option" where
  "digits_of s = (if list_all (\<lambda>c. digit_of c \<noteq> None) s then numeral_from 0 s else None)"

text \<open>Underscores are allowed between digits only, and then dropped.\<close>

fun drop_underscores :: "bool \<Rightarrow> string \<Rightarrow> string option" where
  "drop_underscores after_digit [] = Some []"
| "drop_underscores after_digit (c # cs) =
     (if c = CHR ''_''
      then if after_digit \<and> cs \<noteq> [] \<and> digit_of (hd cs) \<noteq> None then drop_underscores False cs else None
      else map_option (Cons c) (drop_underscores (digit_of c \<noteq> None) cs))"

definition scaled :: "int \<Rightarrow> int \<Rightarrow> rat" where
  "scaled m e = (if 0 \<le> e then of_int m * 10 ^ nat e else of_int m / 10 ^ nat (- e))"

definition signed_digits :: "string \<Rightarrow> int option" where
  "signed_digits s =
     (case s of
        [] \<Rightarrow> None
      | c # cs \<Rightarrow>
          if c = CHR ''-'' then (if cs = [] then None else map_option uminus (digits_of cs))
          else if c = CHR ''+'' then (if cs = [] then None else digits_of cs)
          else digits_of s)"

definition decimal_of :: "string \<Rightarrow> rat option" where
  "decimal_of s =
     (case split_at (CHR ''e'') s of (mantissa, expo) \<Rightarrow>
      (case split_at (CHR ''.'') mantissa of (ip, fp) \<Rightarrow>
         let frac = (case fp of None \<Rightarrow> [] | Some f \<Rightarrow> f)
         in if ip = [] \<and> frac = [] then None
            else case (digits_of (ip @ frac), case expo of None \<Rightarrow> Some 0 | Some e \<Rightarrow> signed_digits e) of
                   (Some m, Some e) \<Rightarrow> Some (scaled m (e - int (length frac)))
                 | _ \<Rightarrow> None))"

definition unsigned_float :: "string \<Rightarrow> pyfloat option" where
  "unsigned_float s =
     (if s \<in> {''inf'', ''infinity''} then Some (Inf False)
      else if s = ''nan'' then Some NaN
      else map_option float64 (Option.bind (drop_underscores False s) decimal_of))"

fun negate :: "pyfloat \<Rightarrow> pyfloat" where
  "negate (Fin x) = Fin (- x)" | "negate (Inf b) = Inf (\<not> b)" | "negate NaN = NaN"

text \<open>\<open>float(s)\<close>: \<open>None\<close> is \<open>ValueError\<close>.\<close>

definition float_of_string :: "string \<Rightarrow> pyfloat option" where
  "float_of_string s =
     (let t = casefold (strip s)
      in case t of
           [] \<Rightarrow> None
         | c # cs \<Rightarrow>
             if c = CHR ''-'' then map_option negate (unsigned_float cs)
             else if c = CHR ''+'' then unsigned_float cs
             else unsigned_float t)"

text \<open>\<open>int(x)\<close> of a float truncates, and raises for \<open>nan\<close> and the infinities.\<close>

fun int_of_float :: "pyfloat \<Rightarrow> int result" where
  "int_of_float (Fin x) = Inr (if 0 \<le> x then \<lfloor>x\<rfloor> else \<lceil>x\<rceil>)"
| "int_of_float (Inf b) = Inl OverflowError"
| "int_of_float NaN = Inl ValueError"

section \<open>Calendar dates\<close>

definition leap :: "int \<Rightarrow> bool" where
  "leap y \<longleftrightarrow> y mod 4 = 0 \<and> (y mod 100 \<noteq> 0 \<or> y mod 400 = 0)"

definition month_days :: "int \<Rightarrow> int \<Rightarrow> int" where
  "month_days y m = (if m = 2 then (if leap y then 29 else 28) else if m \<in> {4, 6, 9, 11} then 30 else 31)"

definition days_before_month :: "int \<Rightarrow> int \<Rightarrow> int" where
  "days_before_month y m = sum_list (map (month_days y) [1..m - 1])"

definition days_before_year :: "int \<Rightarrow> int" where
  "days_before_year y = (let p = y - 1 in p * 365 + p div 4 - p div 100 + p div 400)"

text \<open>\<open>date(y, m, d)\<close>\<close>

definition make_date :: "int \<Rightarrow> int \<Rightarrow> int \<Rightarrow> date result" where
  "make_date y m d =
     (if 1 \<le> y \<and> y \<le> 9999 \<and> 1 \<le> m \<and> m \<le> 12 \<and> 1 \<le> d \<and> d \<le> month_days y m
      then Inr (Date (days_before_year y + days_before_month y m + d)) else Inl ValueError)"

text \<open>
  The alternatives of the directives of \<open>strptime\<close> in the order its regular expression tries them,
  each with the text it leaves. The first combination that matches counts; text left over is a
  \<open>ValueError\<close>.
\<close>

fun two_digits :: "string \<Rightarrow> (int \<times> string) list" where
  "two_digits (a # b # s) =
     (case (digit_of a, digit_of b) of (Some x, Some y) \<Rightarrow> [(10 * x + y, s)] | _ \<Rightarrow> [])"
| "two_digits _ = []"

fun one_digit :: "string \<Rightarrow> (int \<times> string) list" where
  "one_digit (a # s) = (case digit_of a of Some x \<Rightarrow> if 1 \<le> x then [(x, s)] else [] | None \<Rightarrow> [])"
| "one_digit [] = []"

definition month_alternatives :: "string \<Rightarrow> (int \<times> string) list" where
  "month_alternatives s = filter (\<lambda>(m, _). 1 \<le> m \<and> m \<le> 12) (two_digits s) @ one_digit s"

definition day_alternatives :: "string \<Rightarrow> (int \<times> string) list" where
  "day_alternatives s =
     filter (\<lambda>(d, _). 1 \<le> d \<and> d \<le> 31) (two_digits s) @ one_digit s
     @ (case s of c # t \<Rightarrow> if c = CHR '' '' then one_digit t else [] | [] \<Rightarrow> [])"

definition literal :: "string \<Rightarrow> string \<Rightarrow> string list" where
  "literal sep s = (if take (length sep) s = sep then [drop (length sep) s] else [])"

definition date_matches :: "string \<Rightarrow> string \<Rightarrow> (int \<times> int \<times> int \<times> string) list" where
  "date_matches sep s =
     (case (two_digits s, two_digits (drop 2 s)) of
        ([(a, _)], [(b, rest)]) \<Rightarrow>
          concat (map (\<lambda>s1. concat (map (\<lambda>(m, s2). concat (map (\<lambda>s3. map (\<lambda>(d, s4). (100 * a + b, m, d, s4))
            (day_alternatives s3)) (literal sep s2))) (month_alternatives s1))) (literal sep rest))
      | _ \<Rightarrow> [])"

text \<open>\<open>strptime(s, "%Y-%m-%d")\<close> for the separator \<open>"-"\<close> and \<open>strptime(s, "%Y%m%d")\<close> for the empty one.\<close>

definition strptime :: "string \<Rightarrow> string \<Rightarrow> date result" where
  "strptime sep s =
     (case date_matches sep s of
        [] \<Rightarrow> Inl ValueError
      | (y, m, d, rest) # _ \<Rightarrow> if rest \<noteq> [] then Inl ValueError else make_date y m d)"

section \<open>UTF-8\<close>

text \<open>\<open>s.encode('utf-8')\<close> of the code points of a string; surrogates cannot be encoded.\<close>

definition utf8_char :: "int \<Rightarrow> int list option" where
  "utf8_char c =
     (if c < 128 then Some [c]
      else if c < 2048 then Some [192 + c div 64, 128 + c mod 64]
      else if 55296 \<le> c \<and> c \<le> 57343 then None
      else if c < 65536 then Some [224 + c div 4096, 128 + c div 64 mod 64, 128 + c mod 64]
      else Some [240 + c div 262144, 128 + c div 4096 mod 64, 128 + c div 64 mod 64, 128 + c mod 64])"

fun utf8 :: "int list \<Rightarrow> int list result" where
  "utf8 [] = Inr []"
| "utf8 (c # cs) =
     (case utf8_char c of
        None \<Rightarrow> Inl UnicodeEncodeError
      | Some bs \<Rightarrow> bind_result (utf8 cs) (\<lambda>rest. Inr (bs @ rest)))"

text \<open>The first byte tells the length, so the encoding can be read back.\<close>

definition code_point :: "int \<Rightarrow> bool" where "code_point c \<longleftrightarrow> 0 \<le> c \<and> c \<le> 1114111"

lemma div_mod_inj: "c div k = d div k \<Longrightarrow> c mod k = d mod k \<Longrightarrow> c = d" for c d k :: int
  by (metis div_mult_mod_eq)

lemma div_4096: "c div 4096 = c div 64 div 64" "c div 262144 = c div 64 div 64 div 64" for c :: int
  by (simp_all flip: zdiv_zmult2_eq)

text \<open>The lead byte of a character tells how many bytes it has, and the bytes determine it.\<close>

lemma utf8_char_cases:
  assumes "utf8_char c = Some bs" and "code_point c"
  obtains (one) "bs = [c]" "c < 128"
  | (two) k where "bs = [192 + k, 128 + c mod 64]" "k = c div 64" "k < 32" "0 \<le> k"
  | (three) k where "bs = [224 + k, 128 + c div 64 mod 64, 128 + c mod 64]" "k = c div 64 div 64" "k < 16" "0 \<le> k"
  | (four) k where "bs = [240 + k, 128 + c div 64 div 64 mod 64, 128 + c div 64 mod 64, 128 + c mod 64]"
      "k = c div 64 div 64 div 64" "0 \<le> k"
proof -
  have c: "0 \<le> c" using assms(2) by (simp add: code_point_def)
  have pos: "0 \<le> c div 64" "0 \<le> c div 64 div 64" "0 \<le> c div 64 div 64 div 64"
    using c by (simp_all add: pos_imp_zdiv_nonneg_iff)
  consider "c < 128" | "128 \<le> c" "c < 2048" | "2048 \<le> c" "c < 65536" | "65536 \<le> c" by linarith
  then show ?thesis
  proof cases
    case 1
    then show ?thesis using assms(1) one by (simp add: utf8_char_def)
  next
    case 2
    then have "c div 64 < 32" by simp
    with 2 show ?thesis using assms(1) pos two [of "c div 64"] by (simp add: utf8_char_def)
  next
    case 3
    then have "c div 64 div 64 < 16" by (simp flip: zdiv_zmult2_eq)
    with 3 show ?thesis using assms(1) pos three [of "c div 64 div 64"]
      by (simp add: utf8_char_def div_4096 split: if_splits)
  next
    case 4
    then show ?thesis using assms(1) pos four [of "c div 64 div 64 div 64"]
      by (simp add: utf8_char_def div_4096 split: if_splits)
  qed
qed

fun utf8_read :: "int list \<Rightarrow> int" where
  "utf8_read [a] = a"
| "utf8_read [a, b] = 64 * (a - 192) + (b - 128)"
| "utf8_read [a, b, c] = 64 * (64 * (a - 224) + (b - 128)) + (c - 128)"
| "utf8_read [a, b, c, d] = 64 * (64 * (64 * (a - 240) + (b - 128)) + (c - 128)) + (d - 128)"
| "utf8_read _ = 0"

lemma utf8_read: "utf8_char c = Some bs \<Longrightarrow> code_point c \<Longrightarrow> utf8_read bs = c"
  by (erule utf8_char_cases) simp_all

lemma utf8_lead:
  assumes "utf8_char c = Some bs" and "code_point c"
  obtains h t where "bs = h # t"
    "(h < 128 \<and> length t = 0) \<or> (192 \<le> h \<and> h < 224 \<and> length t = 1)
     \<or> (224 \<le> h \<and> h < 240 \<and> length t = 2) \<or> (240 \<le> h \<and> length t = 3)"
proof (rule utf8_char_cases [OF assms])
  assume one: "bs = [c]" "c < 128"
  show ?thesis by (rule that [OF one(1)]) (use one(2) in simp)
next
  fix k assume two: "bs = [192 + k, 128 + c mod 64]" "k < 32" "0 \<le> k"
  show ?thesis by (rule that [OF two(1)]) (use two(2,3) in simp)
next
  fix k assume three: "bs = [224 + k, 128 + c div 64 mod 64, 128 + c mod 64]" "k < 16" "0 \<le> k"
  show ?thesis by (rule that [OF three(1)]) (use three(2,3) in simp)
next
  fix k assume four: "bs = [240 + k, 128 + c div 64 div 64 mod 64, 128 + c div 64 mod 64, 128 + c mod 64]" "0 \<le> k"
  show ?thesis by (rule that [OF four(1)]) (use four(2) in simp)
qed

lemma utf8_width:
  assumes "utf8_char c = Some bs" and "utf8_char d = Some cs" and "bs @ x = cs @ y"
    and "code_point c" and "code_point d"
  shows "length bs = length cs"
proof -
  obtain h t where h: "bs = h # t" "(h < 128 \<and> length t = 0) \<or> (192 \<le> h \<and> h < 224 \<and> length t = 1)
     \<or> (224 \<le> h \<and> h < 240 \<and> length t = 2) \<or> (240 \<le> h \<and> length t = 3)"
    by (rule utf8_lead [OF assms(1,4)])
  obtain h' t' where h': "cs = h' # t'" "(h' < 128 \<and> length t' = 0) \<or> (192 \<le> h' \<and> h' < 224 \<and> length t' = 1)
     \<or> (224 \<le> h' \<and> h' < 240 \<and> length t' = 2) \<or> (240 \<le> h' \<and> length t' = 3)"
    by (rule utf8_lead [OF assms(2,5)])
  have "h = h'" using assms(3) h(1) h'(1) by simp
  then have "length t = length t'" using h(2) h'(2) by auto
  then show ?thesis using h(1) h'(1) by simp
qed

lemma utf8_char_inj:
  assumes "utf8_char c = Some bs" and "utf8_char d = Some cs" and "bs @ x = cs @ y"
    and "code_point c" and "code_point d"
  shows "c = d \<and> x = y"
  using utf8_width [OF assms] assms(3) utf8_read [OF assms(1,4)] utf8_read [OF assms(2,5)] by simp

lemma utf8_inj:
  "utf8 s = Inr bs \<Longrightarrow> utf8 t = Inr bs \<Longrightarrow> list_all code_point s \<Longrightarrow> list_all code_point t \<Longrightarrow> s = t"
proof (induction s arbitrary: t bs)
  case Nil
  then show ?case by (cases t) (auto simp: bind_result_Inr_iff utf8_char_def split: option.splits if_splits)
next
  case (Cons c s)
  obtain xs x where x: "utf8_char c = Some xs" "utf8 s = Inr x" "bs = xs @ x"
    using Cons.prems(1) by (auto simp: bind_result_Inr_iff split: option.splits)
  have "xs \<noteq> []" using x(1) by (auto simp: utf8_char_def split: if_splits)
  then obtain d t' where t: "t = d # t'" using Cons.prems(2) x(3) by (cases t) auto
  obtain ys y where y: "utf8_char d = Some ys" "utf8 t' = Inr y" "bs = ys @ y"
    using Cons.prems(2) t by (auto simp: bind_result_Inr_iff split: option.splits)
  have "c = d \<and> x = y"
    by (rule utf8_char_inj [OF x(1) y(1)]) (use x(3) y(3) Cons.prems(3,4) t in simp_all)
  then show ?case using Cons.IH [of x t'] x(2) y(2) Cons.prems(3,4) t by simp
qed

lemma utf8_Inl: "utf8 s = Inl e \<Longrightarrow> e = UnicodeEncodeError"
  by (induction s) (auto simp: bind_result_Inl_iff split: option.splits)

section \<open>JSON\<close>

text \<open>What \<open>json.loads\<close> returns; an object keeps one value per name.\<close>

datatype json = JNull | JBool bool | JInt int | JFloat pyfloat | JStr string | JArr "json list"
  | JObj "(string \<times> json) list"

text \<open>\<open>int(x)\<close> of a decoded value.\<close>

fun int_of_json :: "json \<Rightarrow> int result" where
  "int_of_json (JInt n) = Inr n"
| "int_of_json (JBool b) = Inr (if b then 1 else 0)"
| "int_of_json (JFloat x) = int_of_float x"
| "int_of_json (JStr s) = (case int_of_string s of None \<Rightarrow> Inl ValueError | Some n \<Rightarrow> Inr n)"
| "int_of_json _ = Inl TypeError"

end
