(* ===== verification/Calendar.thy ===== *)
theory Calendar
  imports PyText
begin

text \<open>
  What the pages use of Python's \<open>date\<close> beside its order: year, month and day of an ordinal,
  \<open>isoformat\<close>, \<open>fromisoformat\<close> and the \<open>strftime\<close> of the tables; and the fixed-point format of a
  number. All of it is the standard library.
\<close>

section \<open>Year, month and day\<close>

text \<open>The year by the mean length of a Gregorian year, which is off by one year at most.\<close>

definition year_of :: "int \<Rightarrow> int" where
  "year_of n =
     (let y = 400 * n div 146097 + 1
      in if n \<le> days_before_year y then y - 1 else if days_before_year (y + 1) < n then y + 1 else y)"

definition month_of :: "int \<Rightarrow> int \<Rightarrow> int" where
  "month_of y doy = (case find (\<lambda>m. doy \<le> days_before_month y (m + 1)) [1..11] of None \<Rightarrow> 12 | Some m \<Rightarrow> m)"

definition ymd_of :: "date \<Rightarrow> int \<times> int \<times> int" where
  "ymd_of d =
     (let y = year_of (ordinal d); doy = ordinal d - days_before_year y; m = month_of y doy
      in (y, m, doy - days_before_month y m))"

lemma div_form:
  fixes k :: int
  assumes "0 < k" obtains r where "p = k * (p div k) + r" "0 \<le> r" "r < k"
proof
  show "p = k * (p div k) + p mod k" by simp
qed (use assms in simp_all)

lemma div_next:
  fixes k :: int
  assumes "0 < k" shows "(p + 1) div k = p div k + (if k dvd p + 1 then 1 else 0)"
proof -
  obtain r where r: "p = k * (p div k) + r" "0 \<le> r" "r < k" using assms by (rule div_form)
  show ?thesis
  proof (cases "r + 1 = k")
    case True
    then have "p + 1 = k * (p div k + 1)" using r(1) unfolding distrib_left by linarith
    then have "(p + 1) div k = p div k + 1" "k dvd p + 1" using assms by (metis less_irrefl nonzero_mult_div_cancel_left, metis dvd_triv_left)
    then show ?thesis by simp
  next
    case False
    then have *: "p + 1 = k * (p div k) + (r + 1)" "0 \<le> r + 1" "r + 1 < k" using r by linarith+
    have "(p + 1) div k = p div k" "(p + 1) mod k = r + 1" using int_div_pos_eq [OF *] int_mod_pos_eq [OF *] by simp_all
    then show ?thesis using r(2) by (auto simp: dvd_eq_mod_eq_0)
  qed
qed

lemma leap_dvd: "leap y \<longleftrightarrow> 4 dvd y \<and> (\<not> 100 dvd y \<or> 400 dvd y)"
  by (simp add: leap_def dvd_eq_mod_eq_0)

lemma year_days: "days_before_year (y + 1) = days_before_year y + (if leap y then 366 else 365)"
proof -
  define a b c a' b' c' where "a = (y - 1) div 4" and "b = (y - 1) div 100" and "c = (y - 1) div 400"
    and "a' = y div 4" and "b' = y div 100" and "c' = y div 400"
  define P Q R where "P \<longleftrightarrow> 4 dvd y" and "Q \<longleftrightarrow> 100 dvd y" and "R \<longleftrightarrow> 400 dvd y"
  have "a' = a + (if P then 1 else 0)" "b' = b + (if Q then 1 else 0)" "c' = c + (if R then 1 else 0)"
    using div_next [of 4 "y - 1"] div_next [of 100 "y - 1"] div_next [of 400 "y - 1"]
    by (simp_all add: a_def b_def c_def a'_def b'_def c'_def P_def Q_def R_def)
  moreover have "Q \<Longrightarrow> P" unfolding P_def Q_def by (erule dvd_trans [rotated]) simp
  moreover have "R \<Longrightarrow> Q" unfolding Q_def R_def by (erule dvd_trans [rotated]) simp
  moreover have "leap y \<longleftrightarrow> P \<and> (\<not> Q \<or> R)" by (simp add: leap_dvd P_def Q_def R_def)
  moreover have "days_before_year (y + 1) = y * 365 + a' - b' + c'" "days_before_year y = (y - 1) * 365 + a - b + c"
    by (simp_all add: days_before_year_def Let_def a_def b_def c_def a'_def b'_def c'_def)
  ultimately show ?thesis by (cases P; cases Q; cases R) simp_all
qed

lemma days_before_year_near:
  "146097 * (y - 1) - 700 < 400 * days_before_year y" "400 * days_before_year y < 146097 * (y - 1) + 400"
proof -
  define p a b c where "p = y - 1" and "a = p div 4" and "b = p div 100" and "c = p div 400"
  obtain r where "p = 4 * a + r" "0 \<le> r" "r < 4" using div_form [of 4 p] by (auto simp: a_def)
  moreover obtain s where "p = 100 * b + s" "0 \<le> s" "s < 100" using div_form [of 100 p] by (auto simp: b_def)
  moreover obtain t where "p = 400 * c + t" "0 \<le> t" "t < 400" using div_form [of 400 p] by (auto simp: c_def)
  moreover have "days_before_year y = p * 365 + a - b + c"
    by (simp add: days_before_year_def Let_def a_def b_def c_def p_def)
  ultimately show "146097 * (y - 1) - 700 < 400 * days_before_year y"
    "400 * days_before_year y < 146097 * (y - 1) + 400" unfolding p_def [symmetric] by linarith+
qed

lemma year_of_bounds: "days_before_year (year_of n) < n \<and> n \<le> days_before_year (year_of n + 1)"
proof -
  define y where "y = 400 * n div 146097 + 1"
  define z where "z = 146097 * (y - 1)"
  have z: "146097 * (y - 1 - 1) = z - 146097" "146097 * (y + 2 - 1) = z + 292194" by (simp_all add: z_def algebra_simps)
  obtain r where r: "400 * n = z + r" "0 \<le> r" "r < 146097"
    using div_form [of 146097 "400 * n"] by (auto simp: y_def z_def)
  have "days_before_year (y - 1) < n" using days_before_year_near(2) [of "y - 1"] r unfolding z by linarith
  moreover have "n \<le> days_before_year (2 + y)" unfolding add.commute [of 2 y] using days_before_year_near(1) [of "y + 2"] r unfolding z by linarith
  ultimately show ?thesis by (simp add: year_of_def Let_def flip: y_def)
qed

lemma days_before_months:
  "days_before_month y 1 = 0" "days_before_month y 2 = 31"
  "days_before_month y 3 = (if leap y then 60 else 59)" "days_before_month y 4 = (if leap y then 91 else 90)"
  "days_before_month y 5 = (if leap y then 121 else 120)" "days_before_month y 6 = (if leap y then 152 else 151)"
  "days_before_month y 7 = (if leap y then 182 else 181)" "days_before_month y 8 = (if leap y then 213 else 212)"
  "days_before_month y 9 = (if leap y then 244 else 243)" "days_before_month y 10 = (if leap y then 274 else 273)"
  "days_before_month y 11 = (if leap y then 305 else 304)" "days_before_month y 12 = (if leap y then 335 else 334)"
  by (simp_all add: days_before_month_def month_days_def upto_rec1)

lemma month_of_bounds:
  assumes "1 \<le> doy" and "doy \<le> (if leap y then 366 else 365)"
  shows "1 \<le> month_of y doy \<and> month_of y doy \<le> 12 \<and> 1 \<le> doy - days_before_month y (month_of y doy)
    \<and> doy - days_before_month y (month_of y doy) \<le> month_days y (month_of y doy)"
proof -
  have "[1..11] = [1,2,3,4,5,6,7,8,9,10,11::int]" by (simp add: upto_rec1)
  then show ?thesis using assms
    by (cases "leap y") (simp_all add: month_of_def days_before_months month_days_def)
qed

theorem make_date_ymd:
  assumes "valid_date d" shows "case ymd_of d of (y, m, k) \<Rightarrow> make_date y m k = Inr d \<and> 1 \<le> y \<and> y \<le> 9999"
proof -
  let ?n = "ordinal d" and ?y = "year_of (ordinal d)"
  let ?doy = "?n - days_before_year ?y"
  have b: "days_before_year ?y < ?n" "?n \<le> days_before_year ?y + (if leap ?y then 366 else 365)"
    using year_of_bounds [of ?n] by (simp_all add: year_days)
  have n: "1 \<le> ?n" "?n \<le> 3652059" using assms by (simp_all add: valid_date_def min_ordinal_def max_ordinal_def)
  have y: "1 \<le> ?y" "?y \<le> 9999"
  proof -
    show "1 \<le> ?y"
    proof (rule ccontr)
      assume "\<not> 1 \<le> ?y"
      then have "?y \<le> 0" by simp
      then have "146097 * (?y + 1 - 1) + 400 \<le> 400" by simp
      then have "days_before_year (?y + 1) < 1" using days_before_year_near(2) [of "?y + 1"] by linarith
      then show False using year_of_bounds [of ?n] n by linarith
    qed
    show "?y \<le> 9999"
    proof (rule ccontr)
      assume "\<not> ?y \<le> 9999"
      then have "?y = 10000 \<or> 10001 \<le> ?y" by linarith
      moreover have "days_before_year 10000 = 3652059" by (simp add: days_before_year_def)
      moreover have "3652059 < days_before_year ?y" if "10001 \<le> ?y"
      proof -
        have "146097 * 10000 \<le> 146097 * (?y - 1)" using that by simp
        then have "400 * 3652059 < 400 * days_before_year ?y" using days_before_year_near(1) [of ?y] by simp
        then show ?thesis by simp
      qed
      ultimately show False using b(1) n by auto
    qed
  qed
  have "1 \<le> ?doy" "?doy \<le> (if leap ?y then 366 else 365)" using b by auto
  from month_of_bounds [OF this] y show ?thesis
    by (auto simp: ymd_of_def Let_def make_date_def date_eq_iff)
qed

lemma days_before_year_mono: "a \<le> b \<Longrightarrow> days_before_year a \<le> days_before_year b"
proof (induction b rule: int_ge_induct)
  case (step i)
  then show ?case by (simp add: year_days)
qed simp

lemma make_date_valid: "make_date y m k = Inr d \<Longrightarrow> valid_date d"
proof -
  assume "make_date y m k = Inr d"
  then have d: "ordinal d = days_before_year y + days_before_month y m + k" and y: "1 \<le> y" "y \<le> 9999"
    and m: "1 \<le> m" "m \<le> 12" and k: "1 \<le> k" "k \<le> month_days y m"
    by (auto simp: make_date_def split: if_splits)
  have "m \<in> set [1..12]" using m by simp
  then have "m \<in> {1,2,3,4,5,6,7,8,9,10,11,12}" by (simp add: upto_rec1)
  then have "0 \<le> days_before_month y m" "days_before_month y m + k \<le> (if leap y then 366 else 365)"
    using k by (cases "leap y"; auto simp: days_before_months month_days_def)+
  moreover have "days_before_year 1 \<le> days_before_year y" "days_before_year (y + 1) \<le> days_before_year 10000"
    using y by (simp_all add: days_before_year_mono del: days_before_year_def)
  moreover have "days_before_year 1 = 0" "days_before_year 10000 = 3652059" by (simp_all add: days_before_year_def)
  ultimately show "valid_date d"
    using k by (simp add: valid_date_def min_ordinal_def max_ordinal_def d year_days)
qed

section \<open>Digits of a fixed width\<close>

fun digits_n :: "nat \<Rightarrow> int \<Rightarrow> string" where
  "digits_n 0 n = []"
| "digits_n (Suc k) n = digits_n k (n div 10) @ [char_of (48 + nat (n mod 10))]"

fun take_num :: "nat \<Rightarrow> int \<Rightarrow> string \<Rightarrow> (int \<times> string) option" where
  "take_num 0 acc s = Some (acc, s)"
| "take_num (Suc k) acc [] = None"
| "take_num (Suc k) acc (c # s) =
     (case digit_of c of None \<Rightarrow> None | Some d \<Rightarrow> take_num k (10 * acc + d) s)"

lemma length_digits_n [simp]: "length (digits_n k n) = k"
  by (induction k n rule: digits_n.induct) simp_all

lemma digit_of_digits: "c \<in> set (digits_n k n) \<Longrightarrow> digit_of c \<noteq> None"
  by (induction k n rule: digits_n.induct) (auto simp: nat_less_iff)

lemma take_num_snoc:
  "take_num k acc s = Some (n, []) \<Longrightarrow> digit_of c = Some d \<Longrightarrow> take_num (Suc k) acc (s @ c # t) = Some (10 * n + d, t)"
  by (induction k acc s rule: take_num.induct) (auto split: option.splits)

lemma take_num_digits: "0 \<le> n \<Longrightarrow> n < 10 ^ k \<Longrightarrow> take_num k acc (digits_n k n @ s) = Some (acc * 10 ^ k + n, s)"
proof (induction k arbitrary: n s)
  case (Suc k)
  have n: "0 \<le> n div 10" "n div 10 < 10 ^ k" using Suc.prems by (simp_all add: div_less_iff_less_mult)
  have "take_num k acc (digits_n k (n div 10)) = Some (acc * 10 ^ k + n div 10, [])"
    using Suc.IH [OF n, of "[]"] by simp
  moreover have "digit_of (char_of (48 + nat (n mod 10))) = Some (n mod 10)"
    using digit_of_digit [of "nat (n mod 10)"] by (simp add: nat_less_iff)
  moreover have "10 * (acc * 10 ^ k + n div 10) + n mod 10 = acc * 10 ^ Suc k + n"
    using mult_div_mod_eq [of 10 n] by (simp add: distrib_left)
  ultimately show ?case using take_num_snoc [of k acc "digits_n k (n div 10)"] by simp
qed simp

section \<open>Dates as text\<close>

definition isoformat :: "date \<Rightarrow> string" where
  "isoformat d = (case ymd_of d of (y, m, k) \<Rightarrow> digits_n 4 y @ ''-'' @ digits_n 2 m @ ''-'' @ digits_n 2 k)"

text \<open>The Monday of the first ISO week, and whether a year has 53 of them.\<close>

definition week1_monday :: "int \<Rightarrow> int" where
  "week1_monday y =
     (let first = days_before_year y + 1; weekday = (first + 6) mod 7
      in first - weekday + (if 3 < weekday then 7 else 0))"

definition long_year :: "int \<Rightarrow> bool" where
  "long_year y = (let weekday = days_before_year y mod 7 in weekday = 3 \<or> (weekday = 2 \<and> leap y))"

definition date_of_week :: "int \<Rightarrow> int \<Rightarrow> int \<Rightarrow> date result" where
  "date_of_week y w k =
     (if 1 \<le> y \<and> y \<le> 9999 \<and> 1 \<le> w \<and> (w \<le> 52 \<or> w = 53 \<and> long_year y) \<and> 1 \<le> k \<and> k \<le> 7
         \<and> valid_date (Date (week1_monday y + (w - 1) * 7 + k - 1))
      then Inr (Date (week1_monday y + (w - 1) * 7 + k - 1)) else Inl ValueError)"

text \<open>A separator where the text uses them, and the end of the text.\<close>

definition sep :: "bool \<Rightarrow> string \<Rightarrow> string option" where
  "sep used s = (if used then case s of c # t \<Rightarrow> if c = CHR ''-'' then Some t else None | [] \<Rightarrow> None else Some s)"

definition last_num :: "nat \<Rightarrow> string option \<Rightarrow> int option" where
  "last_num k s = (case Option.bind s (take_num k 0) of Some (n, []) \<Rightarrow> Some n | _ \<Rightarrow> None)"

text \<open>
  \<open>date.fromisoformat\<close>: \<open>YYYY-MM-DD\<close>, \<open>YYYYMMDD\<close>, \<open>YYYY-Www\<close>, \<open>YYYY-Www-D\<close>, \<open>YYYYWww\<close> and \<open>YYYYWwwD\<close>.
\<close>

definition fromisoformat :: "string \<Rightarrow> date result" where
  "fromisoformat s =
     (case take_num 4 0 s of
        None \<Rightarrow> Inl ValueError
      | Some (y, s1) \<Rightarrow>
          let used = (s1 \<noteq> [] \<and> hd s1 = CHR ''-''); s2 = (if used then tl s1 else s1)
          in if s2 \<noteq> [] \<and> hd s2 = CHR ''W''
             then (case take_num 2 0 (tl s2) of
                     None \<Rightarrow> Inl ValueError
                   | Some (w, []) \<Rightarrow> date_of_week y w 1
                   | Some (w, s3) \<Rightarrow>
                       (case last_num 1 (sep used s3) of None \<Rightarrow> Inl ValueError | Some k \<Rightarrow> date_of_week y w k))
             else (case take_num 2 0 s2 of
                     None \<Rightarrow> Inl ValueError
                   | Some (m, s3) \<Rightarrow>
                       (case last_num 2 (sep used s3) of None \<Rightarrow> Inl ValueError | Some k \<Rightarrow> make_date y m k)))"

lemma fromisoformat_isoformat [simp]:
  assumes "valid_date d" shows "fromisoformat (isoformat d) = Inr d"
proof -
  obtain y m k where ymd: "ymd_of d = (y, m, k)" by (metis prod_cases3)
  then have d: "make_date y m k = Inr d" "1 \<le> y" "y \<le> 9999" using make_date_ymd [OF assms] by auto
  then have mk: "1 \<le> m" "m \<le> 12" "1 \<le> k" "k \<le> 31"
    by (auto simp: make_date_def month_days_def split: if_splits)
  have "hd (digits_n 2 m @ r) \<noteq> CHR ''W''" for r
  proof -
    have "digits_n 2 m \<noteq> []" by (simp flip: length_0_conv)
    then show ?thesis
      using digit_of_digits [of "hd (digits_n 2 m)" 2 m] by (cases "digits_n 2 m") (auto simp: digit_of_def code_def)
  qed
  moreover have "take_num 4 0 (isoformat d) = Some (y, ''-'' @ digits_n 2 m @ ''-'' @ digits_n 2 k)"
    using take_num_digits [of y 4 0] d by (simp add: isoformat_def ymd)
  moreover have "take_num 2 0 (digits_n 2 m @ ''-'' @ digits_n 2 k) = Some (m, ''-'' @ digits_n 2 k)"
    using take_num_digits [of m 2 0] mk by simp
  moreover have "last_num 2 (sep True (''-'' @ digits_n 2 k)) = Some k"
    using take_num_digits [of k 2 0 "[]"] mk by (simp add: last_num_def sep_def)
  ultimately show ?thesis using d by (simp add: fromisoformat_def Let_def)
qed

lemma isoformat_nonempty [simp]: "isoformat d \<noteq> []"
  by (simp add: isoformat_def split: prod.split)

lemma fromisoformat_valid: "fromisoformat s = Inr d \<Longrightarrow> valid_date d"
  by (auto simp: fromisoformat_def Let_def date_of_week_def split: option.splits if_splits list.splits prod.splits
      dest: make_date_valid)

text \<open>\<open>strftime("%d.%m.%Y")\<close>, and \<open>"%d.%m.%Y %H:%M"\<close> of a moment in microseconds since 1970.\<close>

definition dotted :: "date \<Rightarrow> string" where
  "dotted d = (case ymd_of d of (y, m, k) \<Rightarrow> digits_n 2 k @ ''.'' @ digits_n 2 m @ ''.'' @ digits_n 4 y)"

definition dotted_minute :: "int \<Rightarrow> string" where
  "dotted_minute us =
     (let minutes = us div 60000000 mod 1440
      in dotted (Date (719163 + us div 86400000000)) @ '' '' @ digits_n 2 (minutes div 60) @ '':''
         @ digits_n 2 (minutes mod 60))"

section \<open>Fixed-point numbers\<close>

text \<open>\<open>f"{x:.2f}"\<close>: the exact value, rounded half to even; \<open>f"{x:.2%}"\<close> of the rounded product.\<close>

definition fixed2 :: "rat \<Rightarrow> string" where
  "fixed2 x =
     (let n = rne (\<bar>x\<bar> * 100)
      in (if x < 0 then ''-'' else []) @ str_of_int (n div 100) @ ''.'' @ digits_n 2 (n mod 100))"

definition percent2 :: "rat \<Rightarrow> string" where "percent2 x = fixed2 (fl64 (x * 100)) @ ''%''"

end
