(* ===== verification/Models.thy ===== *)
theory Models
  imports Binary64
begin

text \<open>
  The tables of \<open>db/models.py\<close>: one record per ORM class, the database as the seven tables, and
  the effect of the statements the services issue. A table is the list of its rows in insertion
  order. \<open>insert_*\<close> and \<open>update_*\<close> check the constraints the ORM classes declare (primary key,
  \<open>unique=True\<close> and \<open>UniqueConstraint\<close>, \<open>CheckConstraint\<close>, \<open>ForeignKey\<close>; SQLite enforces the last
  because \<open>foreign_keys=1\<close> is one of the default pragmas) and answer \<open>IntegrityError\<close> for a row
  that violates one. \<open>delete_*\<close> follow the declared \<open>cascade="all, delete-orphan"\<close> and
  \<open>ondelete="CASCADE"\<close>. The identifier of a new row is chosen by the database and is an argument.
\<close>

section \<open>Rows\<close>

record user_row =
  u_id :: int
  u_username :: string
  u_password_hash :: string

record broker_row =
  br_id :: int
  br_name :: string
  br_commission :: rat
  br_min_commission :: "rat option"
  br_min_commission_type :: string
  br_description :: "string option"
  br_created_at :: int

record bond_row =
  b_id :: int
  b_owner_id :: int
  b_isin :: string
  b_name :: string
  b_nominal :: int
  b_coupon_rate :: rat
  b_coupon_period_days :: int
  b_maturity_date :: date
  b_issuer :: "string option"

record coupon_row =
  c_id :: int
  c_bond_id :: int
  c_date :: date
  c_amount :: rat

record account_row =
  a_id :: int
  a_user_id :: int
  a_broker_id :: int
  a_name :: string
  a_account_number :: "string option"
  a_account_type :: string
  a_opened_at :: "date option"
  a_closed_at :: "date option"
  a_created_at :: int

record txn_row =
  t_id :: int
  t_user_id :: int
  t_bond_id :: int
  t_account_id :: int
  t_type :: string
  t_quantity :: int
  t_price :: rat
  t_date :: date
  t_commission :: rat
  t_created_at :: int

record op_row =
  o_id :: int
  o_user_id :: int
  o_account_id :: int
  o_type :: string
  o_amount :: rat
  o_date :: date
  o_note :: "string option"
  o_created_at :: int

record database =
  users :: "user_row list"
  brokers :: "broker_row list"
  bonds :: "bond_row list"
  bond_coupons :: "coupon_row list"
  broker_accounts :: "account_row list"
  transactions :: "txn_row list"
  account_operations :: "op_row list"

definition empty_db :: database where
  "empty_db = \<lparr>users = [], brokers = [], bonds = [], bond_coupons = [], broker_accounts = [],
     transactions = [], account_operations = []\<rparr>"

text \<open>The \<open>CHECK ... IN (...)\<close> values.\<close>

definition TRANSACTION_TYPES :: "string list" where
  "TRANSACTION_TYPES = [''BUY'', ''SELL'', ''MATURE'']"

definition BROKER_ACCOUNT_TYPES :: "string list" where
  "BROKER_ACCOUNT_TYPES = [''STANDARD'', ''IIS'', ''LTD'']"

definition ACCOUNT_OPERATION_TYPES :: "string list" where
  "ACCOUNT_OPERATION_TYPES = [''DEPOSIT'', ''WITHDRAWAL'', ''TAX'']"

definition MIN_COMMISSION_TYPES :: "string list" where
  "MIN_COMMISSION_TYPES = [''PERCENT'', ''RUBLES'']"

section \<open>A table keyed by its primary key\<close>

definition row_of :: "('r \<Rightarrow> int) \<Rightarrow> int \<Rightarrow> 'r list \<Rightarrow> 'r option" where
  "row_of key i rows = find (\<lambda>r. key r = i) rows"

definition add_row :: "'r \<Rightarrow> 'r list \<Rightarrow> 'r list" where
  "add_row r rows = rows @ [r]"

definition put_row :: "('r \<Rightarrow> int) \<Rightarrow> 'r \<Rightarrow> 'r list \<Rightarrow> 'r list" where
  "put_row key r rows = map (\<lambda>x. if key x = key r then r else x) rows"

definition drop_row :: "('r \<Rightarrow> int) \<Rightarrow> int \<Rightarrow> 'r list \<Rightarrow> 'r list" where
  "drop_row key i rows = filter (\<lambda>x. key x \<noteq> i) rows"

text \<open>
  What the services rely on of a table, whatever its rows: reading after an insert, an update
  and a delete, and the uniqueness of the primary key. The laws for sums are the ones the
  position checks need.
\<close>

locale row_store =
  fixes key :: "'r \<Rightarrow> int"
    and lookup :: "int \<Rightarrow> 't \<Rightarrow> 'r option"
    and add :: "'r \<Rightarrow> 't \<Rightarrow> 't"
    and put :: "'r \<Rightarrow> 't \<Rightarrow> 't"
    and drop :: "int \<Rightarrow> 't \<Rightarrow> 't"
    and content :: "'t \<Rightarrow> 'r list"
    and invar :: "'t \<Rightarrow> bool"
  assumes lookup_mem: "invar t \<Longrightarrow> lookup i t = Some r \<longleftrightarrow> r \<in> set (content t) \<and> key r = i"
    and add_content: "content (add r t) = content t @ [r]"
    and put_content: "invar t \<Longrightarrow> set (content (put r t)) =
      {x \<in> set (content t). key x \<noteq> key r} \<union> (if lookup (key r) t = None then {} else {r})"
    and drop_content: "content (drop i t) = filter (\<lambda>x. key x \<noteq> i) (content t)"
    and add_invar: "invar t \<Longrightarrow> lookup (key r) t = None \<Longrightarrow> invar (add r t)"
    and put_invar: "invar t \<Longrightarrow> invar (put r t)"
    and drop_invar: "invar t \<Longrightarrow> invar (drop i t)"
    and put_sum: "invar t \<Longrightarrow> lookup (key r) t \<noteq> None \<Longrightarrow>
      sum_over P f (content (put r t)) =
        (if P r then f r else (0::int)) + sum_over P f (filter (\<lambda>x. key x \<noteq> key r) (content t))"
    and remove_sum: "invar t \<Longrightarrow> lookup (key r) t = Some r \<Longrightarrow>
      sum_over P f (content t) =
        (if P r then f r else (0::int)) + sum_over P f (filter (\<lambda>x. key x \<noteq> key r) (content t))"
begin

lemma lookup_key: "invar t \<Longrightarrow> lookup i t = Some r \<Longrightarrow> key r = i"
  by (simp add: lookup_mem)

lemma lookup_None:
  assumes "invar t" shows "lookup i t = None \<longleftrightarrow> i \<notin> key ` set (content t)"
proof -
  have "lookup i t = None \<longleftrightarrow> (\<forall>r. lookup i t \<noteq> Some r)" by simp
  then show ?thesis using lookup_mem [OF assms, of i] by (auto simp: image_iff)
qed

lemma lookup_add:
  "invar t \<Longrightarrow> lookup (key r) t = None \<Longrightarrow>
   lookup i (add r t) = (if i = key r then Some r else lookup i t)"
proof -
  assume t: "invar t" "lookup (key r) t = None"
  then have inv: "invar (add r t)" by (rule add_invar)
  have *: "lookup i (add r t) = Some x \<longleftrightarrow> (if i = key r then Some r else lookup i t) = Some x" for x
    using t inv by (auto simp: lookup_mem add_content lookup_None intro: rev_image_eqI)
  then show ?thesis by (metis not_Some_eq)
qed

lemma lookup_put:
  "invar t \<Longrightarrow> lookup (key r) t \<noteq> None \<Longrightarrow>
   lookup i (put r t) = (if i = key r then Some r else lookup i t)"
proof -
  assume t: "invar t" "lookup (key r) t \<noteq> None"
  then have inv: "invar (put r t)" by (intro put_invar)
  from t(2) obtain y where "lookup (key r) t = Some y" by blast
  then have c: "set (content (put r t)) = {x \<in> set (content t). key x \<noteq> key r} \<union> {r}"
    using t(1) by (simp add: put_content)
  have *: "lookup i (put r t) = Some x \<longleftrightarrow> (if i = key r then Some r else lookup i t) = Some x" for x
    using t(1) inv by (auto simp: lookup_mem c)
  then show ?thesis by (metis not_Some_eq)
qed

lemma lookup_drop: "invar t \<Longrightarrow> lookup i (drop j t) = (if i = j then None else lookup i t)"
proof -
  assume t: "invar t"
  then have inv: "invar (drop j t)" by (rule drop_invar)
  have *: "lookup i (drop j t) = Some x \<longleftrightarrow> (if i = j then None else lookup i t) = Some x" for x
    using t inv by (auto simp: lookup_mem drop_content)
  then show ?thesis by (metis not_Some_eq)
qed

lemma keys_put:
  assumes "invar t" shows "key ` set (content (put r t)) = key ` set (content t)"
proof (cases "lookup (key r) t = None")
  case True
  then have "{x \<in> set (content t). key x \<noteq> key r} = set (content t)"
    using assms by (auto simp: lookup_None intro: rev_image_eqI)
  with True show ?thesis using assms by (simp add: put_content)
next
  case False
  then have "key r \<in> key ` set (content t)" using assms by (simp add: lookup_None)
  moreover from False obtain y where "lookup (key r) t = Some y" by blast
  then have "set (content (put r t)) = {x \<in> set (content t). key x \<noteq> key r} \<union> {r}"
    using assms by (simp add: put_content)
  ultimately show ?thesis by auto
qed

end

interpretation rows: row_store key "row_of key" add_row "put_row key" "drop_row key"
    "\<lambda>rs. rs" "\<lambda>rs. distinct (map key rs)"
  for key :: "'r \<Rightarrow> int"
proof unfold_locales
  fix rs :: "'r list" and r :: 'r and i :: int
  assume d: "distinct (map key rs)"
  show "row_of key i rs = Some r \<longleftrightarrow> r \<in> set rs \<and> key r = i"
    using d by (simp add: row_of_def find_Some_iff_distinct)
  show "set (put_row key r rs) = {x \<in> set rs. key x \<noteq> key r} \<union>
      (if row_of key (key r) rs = None then {} else {r})"
    by (auto simp: put_row_def row_of_def find_None_iff_keys image_iff split: if_splits)
  show "distinct (map key (put_row key r rs))"
  proof -
    have "map key (put_row key r rs) = map key rs" by (auto simp: put_row_def)
    with d show ?thesis by simp
  qed
next
  fix rs :: "'r list" and r :: 'r and P and f :: "'r \<Rightarrow> int"
  assume d: "distinct (map key rs)" and "row_of key (key r) rs \<noteq> None"
  then obtain s where s: "s \<in> set rs" "key r = key s"
    by (auto simp: row_of_def find_None_iff_keys image_iff)
  then show "sum_over P f (put_row key r rs) =
      (if P r then f r else 0) + sum_over P f (filter (\<lambda>x. key x \<noteq> key r) rs)"
    using sum_over_replace_key [OF d s(1), of r P f] by (simp add: put_row_def)
next
  fix rs :: "'r list" and r :: 'r and P and f :: "'r \<Rightarrow> int"
  assume d: "distinct (map key rs)" and "row_of key (key r) rs = Some r"
  then have "r \<in> set rs" by (simp add: row_of_def find_Some_iff_distinct)
  with d show "sum_over P f rs =
      (if P r then f r else 0) + sum_over P f (filter (\<lambda>x. key x \<noteq> key r) rs)"
    by (rule sum_over_remove_key)
qed (auto simp: add_row_def drop_row_def row_of_def find_None_iff_keys intro: distinct_map_filter_keys)

section \<open>Constraints\<close>

text \<open>What the constraints ask of one row, against the rest of the database.\<close>

definition bond_refs :: "database \<Rightarrow> bond_row \<Rightarrow> bool" where
  "bond_refs db b \<longleftrightarrow> b_owner_id b \<in> u_id ` set (users db)"

definition coupon_refs :: "database \<Rightarrow> coupon_row \<Rightarrow> bool" where
  "coupon_refs db c \<longleftrightarrow> c_bond_id c \<in> b_id ` set (bonds db)"

definition account_refs :: "database \<Rightarrow> account_row \<Rightarrow> bool" where
  "account_refs db a \<longleftrightarrow>
     a_account_type a \<in> set BROKER_ACCOUNT_TYPES \<and>
     a_user_id a \<in> u_id ` set (users db) \<and> a_broker_id a \<in> br_id ` set (brokers db)"

definition txn_refs :: "database \<Rightarrow> txn_row \<Rightarrow> bool" where
  "txn_refs db t \<longleftrightarrow>
     t_type t \<in> set TRANSACTION_TYPES \<and>
     t_user_id t \<in> u_id ` set (users db) \<and> t_bond_id t \<in> b_id ` set (bonds db) \<and>
     t_account_id t \<in> a_id ` set (broker_accounts db)"

definition op_refs :: "database \<Rightarrow> op_row \<Rightarrow> bool" where
  "op_refs db p \<longleftrightarrow>
     o_type p \<in> set ACCOUNT_OPERATION_TYPES \<and>
     o_user_id p \<in> u_id ` set (users db) \<and> o_account_id p \<in> a_id ` set (broker_accounts db)"

definition broker_check :: "broker_row \<Rightarrow> bool" where
  "broker_check b \<longleftrightarrow> br_min_commission_type b \<in> set MIN_COMMISSION_TYPES"

text \<open>The whole database satisfies every declared constraint.\<close>

definition db_keys :: "database \<Rightarrow> bool" where
  "db_keys db \<longleftrightarrow>
     distinct (map u_id (users db)) \<and> distinct (map br_id (brokers db)) \<and>
     distinct (map b_id (bonds db)) \<and> distinct (map c_id (bond_coupons db)) \<and>
     distinct (map a_id (broker_accounts db)) \<and> distinct (map t_id (transactions db)) \<and>
     distinct (map o_id (account_operations db))"

definition db_uniques :: "database \<Rightarrow> bool" where
  "db_uniques db \<longleftrightarrow>
     distinct (map u_username (users db)) \<and> distinct (map br_name (brokers db)) \<and>
     distinct (map b_isin (bonds db)) \<and>
     distinct (map (\<lambda>c. (c_bond_id c, c_date c)) (bond_coupons db))"

definition db_refs :: "database \<Rightarrow> bool" where
  "db_refs db \<longleftrightarrow>
     (\<forall>b \<in> set (brokers db). broker_check b) \<and>
     (\<forall>b \<in> set (bonds db). bond_refs db b) \<and> (\<forall>c \<in> set (bond_coupons db). coupon_refs db c) \<and>
     (\<forall>a \<in> set (broker_accounts db). account_refs db a) \<and>
     (\<forall>t \<in> set (transactions db). txn_refs db t) \<and>
     (\<forall>p \<in> set (account_operations db). op_refs db p)"

definition db_wf :: "database \<Rightarrow> bool" where
  "db_wf db \<longleftrightarrow> db_keys db \<and> db_uniques db \<and> db_refs db"

lemmas refs_defs = bond_refs_def coupon_refs_def account_refs_def txn_refs_def op_refs_def

lemma db_wf_empty: "db_wf empty_db"
  by (simp add: db_wf_def db_keys_def db_uniques_def db_refs_def empty_db_def)

section \<open>Statements\<close>

definition insert_user :: "user_row \<Rightarrow> database \<Rightarrow> database result" where
  "insert_user u db =
     (if u_id u \<in> u_id ` set (users db) \<or> u_username u \<in> u_username ` set (users db)
      then Inl IntegrityError else Inr (db\<lparr>users := add_row u (users db)\<rparr>))"

definition insert_broker :: "broker_row \<Rightarrow> database \<Rightarrow> database result" where
  "insert_broker b db =
     (if br_id b \<in> br_id ` set (brokers db) \<or> br_name b \<in> br_name ` set (brokers db) \<or> \<not> broker_check b
      then Inl IntegrityError else Inr (db\<lparr>brokers := add_row b (brokers db)\<rparr>))"

definition update_broker_row :: "broker_row \<Rightarrow> database \<Rightarrow> database result" where
  "update_broker_row b db =
     (if br_name b \<in> br_name ` {x \<in> set (brokers db). br_id x \<noteq> br_id b} \<or> \<not> broker_check b
      then Inl IntegrityError else Inr (db\<lparr>brokers := put_row br_id b (brokers db)\<rparr>))"

definition insert_bond :: "bond_row \<Rightarrow> database \<Rightarrow> database result" where
  "insert_bond b db =
     (if b_id b \<in> b_id ` set (bonds db) \<or> b_isin b \<in> b_isin ` set (bonds db) \<or> \<not> bond_refs db b
      then Inl IntegrityError else Inr (db\<lparr>bonds := add_row b (bonds db)\<rparr>))"

definition update_bond_row :: "bond_row \<Rightarrow> database \<Rightarrow> database result" where
  "update_bond_row b db =
     (if b_isin b \<in> b_isin ` {x \<in> set (bonds db). b_id x \<noteq> b_id b} \<or> \<not> bond_refs db b
      then Inl IntegrityError else Inr (db\<lparr>bonds := put_row b_id b (bonds db)\<rparr>))"

definition insert_account :: "account_row \<Rightarrow> database \<Rightarrow> database result" where
  "insert_account a db =
     (if a_id a \<in> a_id ` set (broker_accounts db) \<or> \<not> account_refs db a
      then Inl IntegrityError else Inr (db\<lparr>broker_accounts := add_row a (broker_accounts db)\<rparr>))"

definition update_account_row :: "account_row \<Rightarrow> database \<Rightarrow> database result" where
  "update_account_row a db =
     (if \<not> account_refs db a
      then Inl IntegrityError else Inr (db\<lparr>broker_accounts := put_row a_id a (broker_accounts db)\<rparr>))"

definition insert_txn :: "txn_row \<Rightarrow> database \<Rightarrow> database result" where
  "insert_txn t db =
     (if t_id t \<in> t_id ` set (transactions db) \<or> \<not> txn_refs db t
      then Inl IntegrityError else Inr (db\<lparr>transactions := add_row t (transactions db)\<rparr>))"

definition update_txn_row :: "txn_row \<Rightarrow> database \<Rightarrow> database result" where
  "update_txn_row t db =
     (if \<not> txn_refs db t
      then Inl IntegrityError else Inr (db\<lparr>transactions := put_row t_id t (transactions db)\<rparr>))"

definition insert_op :: "op_row \<Rightarrow> database \<Rightarrow> database result" where
  "insert_op p db =
     (if o_id p \<in> o_id ` set (account_operations db) \<or> \<not> op_refs db p
      then Inl IntegrityError
      else Inr (db\<lparr>account_operations := add_row p (account_operations db)\<rparr>))"

definition update_op_row :: "op_row \<Rightarrow> database \<Rightarrow> database result" where
  "update_op_row p db =
     (if \<not> op_refs db p
      then Inl IntegrityError
      else Inr (db\<lparr>account_operations := put_row o_id p (account_operations db)\<rparr>))"

text \<open>
  \<open>session.delete\<close>. The relationships cascade: a bond takes its transactions with it, and the
  foreign key of \<open>bond_coupons\<close> its coupon rows; an account its transactions and its account
  operations; a broker its accounts with theirs.
\<close>

definition delete_txn_row :: "int \<Rightarrow> database \<Rightarrow> database" where
  "delete_txn_row i db = db\<lparr>transactions := drop_row t_id i (transactions db)\<rparr>"

definition delete_op_row :: "int \<Rightarrow> database \<Rightarrow> database" where
  "delete_op_row i db = db\<lparr>account_operations := drop_row o_id i (account_operations db)\<rparr>"

definition delete_bond_row :: "int \<Rightarrow> database \<Rightarrow> database" where
  "delete_bond_row i db =
     db\<lparr>bonds := drop_row b_id i (bonds db),
        bond_coupons := filter (\<lambda>c. c_bond_id c \<noteq> i) (bond_coupons db),
        transactions := filter (\<lambda>t. t_bond_id t \<noteq> i) (transactions db)\<rparr>"

definition delete_account_row :: "int \<Rightarrow> database \<Rightarrow> database" where
  "delete_account_row i db =
     db\<lparr>broker_accounts := drop_row a_id i (broker_accounts db),
        transactions := filter (\<lambda>t. t_account_id t \<noteq> i) (transactions db),
        account_operations := filter (\<lambda>p. o_account_id p \<noteq> i) (account_operations db)\<rparr>"

definition delete_broker_row :: "int \<Rightarrow> database \<Rightarrow> database" where
  "delete_broker_row i db =
     (let gone = a_id ` set (filter (\<lambda>a. a_broker_id a = i) (broker_accounts db))
      in db\<lparr>brokers := drop_row br_id i (brokers db),
            broker_accounts := filter (\<lambda>a. a_broker_id a \<noteq> i) (broker_accounts db),
            transactions := filter (\<lambda>t. t_account_id t \<notin> gone) (transactions db),
            account_operations := filter (\<lambda>p. o_account_id p \<notin> gone) (account_operations db)\<rparr>)"

end
