(* ===== verification/CouponGrid.thy ===== *)
theory CouponGrid
  imports Models
begin

text \<open>
  The coupon dates of a bond: \<open>maturity_date\<close> minus whole periods. Three places of the program
  step back from the maturity in a loop (\<open>yield_calc/ytm.py\<close>, \<open>yield_calc/coupon_schedule.py\<close> and
  \<open>analytics/service.py\<close>) and a fourth looks for the last date before today. The loops are partial
  functions: \<open>None\<close> would be a loop that does not return, \<open>Some (Inl e)\<close> is an exception (stepping
  below \<open>date.min\<close>), and the lemmas show when they return which dates. The locale \<open>coupon_dates\<close> is
  what the users of the dates rely on.
\<close>

section \<open>Loops\<close>

text \<open>\<open>while cond(current): dates.append(current); current -= period\<close>\<close>

partial_function (option) grid_loop ::
    "(date \<Rightarrow> bool) \<Rightarrow> int \<Rightarrow> date \<Rightarrow> date list \<Rightarrow> date list result option" where
  "grid_loop cond period current dates =
     (if cond current
      then (case date_sub current period of
              Inl e \<Rightarrow> Some (Inl e)
            | Inr next \<Rightarrow> grid_loop cond period next (dates @ [current]))
      else Some (Inr dates))"

text \<open>\<open>_future_payment_dates\<close> of \<open>yield_calc/ytm.py\<close>\<close>

definition future_payment_dates :: "date \<Rightarrow> int \<Rightarrow> date \<Rightarrow> date list result option" where
  "future_payment_dates maturity_date period_days today =
     map_option (map_sum id rev) (grid_loop (\<lambda>current. current > today) period_days maturity_date [])"

text \<open>\<open>_future_coupon_dates\<close> of \<open>analytics/service.py\<close>\<close>

definition future_coupon_dates :: "date \<Rightarrow> int \<Rightarrow> date \<Rightarrow> date list result option" where
  "future_coupon_dates maturity_date period_days today =
     (if period_days \<le> 0 then Some (Inr [])
      else map_option (map_sum id rev)
             (grid_loop (\<lambda>current. current > today) period_days maturity_date []))"

text \<open>\<open>date(1900, 1, 1)\<close>, and \<open>_last_coupon_date\<close> of \<open>analytics/service.py\<close>\<close>

definition MIN_COUPON_DATE :: date where "MIN_COUPON_DATE = Date 693596"

partial_function (option) last_coupon_loop :: "int \<Rightarrow> date \<Rightarrow> date \<Rightarrow> date option result option" where
  "last_coupon_loop period today current =
     (if current \<ge> today
      then (case date_sub current period of
              Inl e \<Rightarrow> Some (Inl e)
            | Inr next \<Rightarrow> if next < MIN_COUPON_DATE then Some (Inr None)
                          else last_coupon_loop period today next)
      else Some (Inr (Some current)))"

definition last_coupon_date :: "date \<Rightarrow> int \<Rightarrow> date \<Rightarrow> date option result option" where
  "last_coupon_date maturity_date period_days today =
     (if period_days \<le> 0 then Some (Inr None)
      else last_coupon_loop period_days today maturity_date)"

declare grid_loop.simps [simp del] last_coupon_loop.simps [simp del]

section \<open>The dates of the grid\<close>

definition on_grid :: "date \<Rightarrow> int \<Rightarrow> date \<Rightarrow> bool" where
  "on_grid maturity period d \<longleftrightarrow> d \<le> maturity \<and> period dvd (ordinal maturity - ordinal d)"

definition grid_after :: "date \<Rightarrow> int \<Rightarrow> date \<Rightarrow> date set" where
  "grid_after maturity period stop = {d. stop < d \<and> on_grid maturity period d}"

lemma on_grid_maturity [simp]: "on_grid m p m"
  by (simp add: on_grid_def)

lemma on_grid_back: "0 < p \<Longrightarrow> on_grid m p (Date (ordinal m - p))"
  by (simp add: on_grid_def date_simps)

lemma on_grid_trans: "on_grid m p c \<Longrightarrow> on_grid c p d \<Longrightarrow> on_grid m p d"
  using dvd_add [of p "ordinal m - ordinal c" "ordinal c - ordinal d"] by (auto simp: on_grid_def)

lemma on_grid_gap: "0 < p \<Longrightarrow> on_grid m p d \<Longrightarrow> d \<noteq> m \<Longrightarrow> ordinal d \<le> ordinal m - p"
  using zdvd_imp_le [of p "ordinal m - ordinal d"]
  by (auto simp: on_grid_def date_simps)

lemma on_grid_next: "on_grid m p d \<Longrightarrow> d \<le> Date (ordinal m - p) \<Longrightarrow> on_grid (Date (ordinal m - p)) p d"
  using dvd_diff [of p "ordinal m - ordinal d" p] by (auto simp: on_grid_def algebra_simps)

lemma grid_after_step:
  assumes "0 < p" and "stop < m"
  shows "grid_after m p stop = insert m (grid_after (Date (ordinal m - p)) p stop)"
proof -
  have "on_grid m p d \<longleftrightarrow> d = m \<or> on_grid (Date (ordinal m - p)) p d" for d
    using assms(1) on_grid_gap [OF assms(1), of m d] on_grid_next [of m p d]
      on_grid_trans [OF on_grid_back [OF assms(1)], of m d]
    by (cases "d = m") (auto simp: less_eq_date_def)
  then show ?thesis using assms(2) by (auto simp: grid_after_def)
qed

lemma grid_after_none: "m \<le> stop \<Longrightarrow> grid_after m p stop = {}"
  by (auto simp: grid_after_def on_grid_def)

lemma finite_grid_after: "finite (grid_after m p stop)"
proof (rule finite_subset)
  show "grid_after m p stop \<subseteq> Date ` {ordinal stop .. ordinal m}"
  proof
    fix d assume "d \<in> grid_after m p stop"
    then have "ordinal d \<in> {ordinal stop .. ordinal m}" by (auto simp: grid_after_def on_grid_def date_simps)
    then show "d \<in> Date ` {ordinal stop .. ordinal m}" by (cases d) simp
  qed
qed simp

section \<open>The loop returns the grid\<close>

lemma grid_loop_result:
  assumes "0 < p" and "ordinal current \<le> max_ordinal"
  shows "(\<exists>ds. grid_loop (\<lambda>d. d > stop) p current acc = Some (Inr (acc @ ds))
            \<and> sorted_wrt (>) ds \<and> set ds = grid_after current p stop)
    \<or> (ordinal stop < p \<and> grid_loop (\<lambda>d. d > stop) p current acc = Some (Inl OverflowError))"
  using assms(2)
proof (induction "nat (ordinal current - ordinal stop)" arbitrary: current acc rule: less_induct)
  case less
  show ?case
  proof (cases "stop < current")
    case False
    then show ?thesis by (simp add: grid_loop.simps grid_after_none)
  next
    case True
    let ?next = "Date (ordinal current - p)"
    show ?thesis
    proof (cases "min_ordinal \<le> ordinal current - p")
      case False
      then show ?thesis using True
        by (simp add: grid_loop.simps date_sub_cases date_simps min_ordinal_def)
    next
      case ok: True
      have go: "grid_loop (\<lambda>d. d > stop) p current acc = grid_loop (\<lambda>d. d > stop) p ?next (acc @ [current])"
        using True ok less.prems assms(1) by (subst grid_loop.simps) (simp add: date_sub_cases)
      have "nat (ordinal ?next - ordinal stop) < nat (ordinal current - ordinal stop)"
        and "ordinal ?next \<le> max_ordinal"
        using assms(1) True less.prems by (simp_all add: date_simps)
      then consider ds where "grid_loop (\<lambda>d. d > stop) p ?next (acc @ [current]) = Some (Inr ((acc @ [current]) @ ds))"
          "sorted_wrt (>) ds" "set ds = grid_after ?next p stop"
        | "ordinal stop < p" "grid_loop (\<lambda>d. d > stop) p ?next (acc @ [current]) = Some (Inl OverflowError)"
        using less.hyps by blast
      then show ?thesis
      proof cases
        case 1
        have "\<forall>d \<in> set ds. d < current"
          using 1(3) assms(1) by (auto simp: grid_after_def on_grid_def date_simps)
        with 1 have "sorted_wrt (>) (current # ds) \<and> set (current # ds) = grid_after current p stop"
          using grid_after_step [OF assms(1) True] by simp
        then show ?thesis using 1(1) go by (intro disjI1 exI [of _ "current # ds"]) simp
      next
        case 2
        then show ?thesis using go by simp
      qed
    qed
  qed
qed

lemma grid_loop_cong:
  assumes "\<And>d. c d = c' d" shows "grid_loop c = grid_loop c'"
proof -
  have "c = c'" using assms by blast
  then show ?thesis by simp
qed

section \<open>What the users of the dates rely on\<close>

text \<open>
  A function that returns the coupon dates after a day, for a positive period: it returns, with the
  dates of the grid in order, or it steps below \<open>date.min\<close>, which takes a period of more days than
  the day it starts from has before it.
\<close>

locale coupon_dates =
  fixes dates :: "date \<Rightarrow> int \<Rightarrow> date \<Rightarrow> date list result option"
  assumes dates_grid: "0 < p \<Longrightarrow> ordinal m \<le> max_ordinal \<Longrightarrow>
    (\<exists>ds. dates m p today = Some (Inr ds) \<and> sorted_wrt (<) ds \<and> set ds = grid_after m p today)
    \<or> (ordinal today < p \<and> dates m p today = Some (Inl OverflowError))"
begin

lemma dates_ok:
  assumes "0 < p" and "p \<le> ordinal today" and "ordinal m \<le> max_ordinal"
  obtains ds where "dates m p today = Some (Inr ds)" "sorted_wrt (<) ds" "set ds = grid_after m p today"
  using dates_grid [OF assms(1,3), of today] assms(2) by auto

lemma dates_Inr:
  assumes "dates m p today = Some (Inr ds)" and "0 < p" and "ordinal m \<le> max_ordinal"
  shows "sorted_wrt (<) ds \<and> set ds = grid_after m p today"
  using dates_grid [OF assms(2,3), of today] assms(1) by auto

lemma dates_last:
  assumes "dates m p today = Some (Inr ds)" and "0 < p" and "ordinal m \<le> max_ordinal" and "today < m"
  shows "ds \<noteq> [] \<and> last ds = m"
proof -
  from dates_Inr [OF assms(1-3)] have s: "sorted_wrt (<) ds" "set ds = grid_after m p today" by auto
  then have m: "m \<in> set ds" and le: "\<forall>d \<in> set ds. d \<le> m"
    using assms(4) by (auto simp: grid_after_def on_grid_def)
  then have ne: "ds \<noteq> []" by auto
  from m obtain xs ys where ds: "ds = xs @ m # ys" by (auto simp: in_set_conv_decomp)
  with s(1) le have "ys = []" by (cases ys) (auto simp: sorted_wrt_append)
  with ds ne show ?thesis by simp
qed

text \<open>The first date is less than a period away.\<close>

lemma dates_first:
  assumes "dates m p today = Some (Inr ds)" and "0 < p" and "ordinal m \<le> max_ordinal" and "today < m"
  shows "today < hd ds \<and> ordinal (hd ds) \<le> ordinal today + p"
proof -
  from dates_Inr [OF assms(1-3)] have s: "sorted_wrt (<) ds" "set ds = grid_after m p today" by auto
  have ne: "ds \<noteq> []" using dates_last [OF assms] by simp
  then have "hd ds \<in> grid_after m p today" using s(2) hd_in_set by blast
  then have h: "today < hd ds" "on_grid m p (hd ds)" by (auto simp: grid_after_def)
  have least: "hd ds \<le> d" if "d \<in> set ds" for d
    using that s(1) ne by (cases ds) auto
  have "ordinal (hd ds) \<le> ordinal today + p"
  proof (rule ccontr)
    assume far: "\<not> ?thesis"
    let ?d = "Date (ordinal (hd ds) - p)"
    have "on_grid m p ?d" using h(2) on_grid_back [OF assms(2)] on_grid_trans by blast
    then have "?d \<in> set ds" using far s(2) by (simp add: grid_after_def date_simps)
    then show False using least [of ?d] assms(2) by (simp add: date_simps)
  qed
  with h show ?thesis by simp
qed

text \<open>The contract determines the function.\<close>

lemma dates_unique:
  assumes "0 < p" and "p \<le> ordinal today" and "ordinal m \<le> max_ordinal"
    and "sorted_wrt (<) es" and "set es = grid_after m p today"
  shows "dates m p today = Some (Inr es)"
proof -
  obtain ds where "dates m p today = Some (Inr ds)" "sorted_wrt (<) ds" "set ds = grid_after m p today"
    using assms(1-3) by (rule dates_ok)
  moreover from calculation assms(4,5) have "ds = es"
    by (intro strict_sorted_equal) (simp_all add: strict_sorted_iff)
  ultimately show ?thesis by simp
qed

end

lemma grid_loop_rev:
  assumes "0 < p" and "ordinal m \<le> max_ordinal"
  shows "(\<exists>ds. map_option (map_sum id rev) (grid_loop (\<lambda>d. d > today) p m []) = Some (Inr ds)
      \<and> sorted_wrt (<) ds \<and> set ds = grid_after m p today)
    \<or> (ordinal today < p
      \<and> map_option (map_sum id rev) (grid_loop (\<lambda>d. d > today) p m []) = Some (Inl OverflowError))"
  using grid_loop_result [OF assms, of today "[]"]
  by (auto simp: sorted_wrt_rev intro: exI [of _ "rev _"])

interpretation ytm_dates: coupon_dates future_payment_dates
  by unfold_locales (simp only: future_payment_dates_def grid_loop_rev)

interpretation analytics_dates: coupon_dates future_coupon_dates
proof unfold_locales
  fix p :: int and m today
  assume "0 < p" and "ordinal m \<le> max_ordinal"
  then show "(\<exists>ds. future_coupon_dates m p today = Some (Inr ds) \<and> sorted_wrt (<) ds \<and> set ds = grid_after m p today)
    \<or> (ordinal today < p \<and> future_coupon_dates m p today = Some (Inl OverflowError))"
    using grid_loop_rev [of p m today] by (simp add: future_coupon_dates_def)
qed

lemma future_coupon_dates_returns:
  "ordinal m \<le> max_ordinal \<Longrightarrow> \<exists>r. future_coupon_dates m p today = Some r"
  using analytics_dates.dates_grid [of p m today] by (cases "0 < p") (auto simp: future_coupon_dates_def)

section \<open>The last coupon date\<close>

lemma on_grid_cases:
  assumes "0 < p" shows "on_grid m p d \<longleftrightarrow> d = m \<or> on_grid (Date (ordinal m - p)) p d"
  using on_grid_gap [OF assms, of m d] on_grid_next [of m p d]
    on_grid_trans [OF on_grid_back [OF assms], of m d]
  by (cases "d = m") (auto simp: less_eq_date_def)

text \<open>What \<open>_last_coupon_date\<close> returns, of the grid that ends in \<open>m\<close>.\<close>

definition last_before :: "date \<Rightarrow> int \<Rightarrow> date \<Rightarrow> date option \<Rightarrow> bool" where
  "last_before m p today r \<longleftrightarrow>
     (case r of
        None \<Rightarrow> (\<forall>d. on_grid m p d \<and> d < today \<longrightarrow> d < MIN_COUPON_DATE)
      | Some d \<Rightarrow> on_grid m p d \<and> d < today \<and> (\<forall>e. on_grid m p e \<and> e < today \<longrightarrow> e \<le> d))"

lemma last_before_step:
  assumes "0 < p" and "today \<le> m" and "last_before (Date (ordinal m - p)) p today r"
  shows "last_before m p today r"
proof -
  have "on_grid m p d \<and> d < today \<longleftrightarrow> on_grid (Date (ordinal m - p)) p d \<and> d < today" for d
    using assms(2) by (auto simp: on_grid_cases [OF assms(1), of m d])
  then show ?thesis using assms(3) by (auto simp: last_before_def split: option.splits)
qed

lemma last_coupon_loop_result:
  assumes "0 < p" and "ordinal current \<le> max_ordinal"
  shows "(\<exists>r. last_coupon_loop p today current = Some (Inr r) \<and> last_before current p today r)
    \<or> (ordinal today \<le> p \<and> last_coupon_loop p today current = Some (Inl OverflowError))"
  using assms(2)
proof (induction "nat (ordinal current - ordinal today + 1)" arbitrary: current rule: less_induct)
  case less
  show ?case
  proof (cases "today \<le> current")
    case False
    then have "last_before current p today (Some current)"
      by (auto simp: last_before_def on_grid_def)
    with False show ?thesis by (simp add: last_coupon_loop.simps)
  next
    case True
    let ?next = "Date (ordinal current - p)"
    consider "ordinal current - p < min_ordinal" | "min_ordinal \<le> ordinal current - p" "?next < MIN_COUPON_DATE"
      | "min_ordinal \<le> ordinal current - p" "MIN_COUPON_DATE \<le> ?next" by fastforce
    then show ?thesis
    proof cases
      case 1
      then show ?thesis using True
        by (simp add: last_coupon_loop.simps date_sub_cases date_simps min_ordinal_def)
    next
      case 2
      then have "last_before ?next p today None"
        by (auto simp: last_before_def on_grid_def)
      then have "last_before current p today None"
        using last_before_step [OF assms(1) True] by simp
      with 2 show ?thesis using True less.prems assms(1)
        by (simp add: last_coupon_loop.simps date_sub_cases)
    next
      case 3
      then have go: "last_coupon_loop p today current = last_coupon_loop p today ?next"
        using True less.prems assms(1)
        by (subst last_coupon_loop.simps) (simp add: date_sub_cases leD)
      have "nat (ordinal ?next - ordinal today + 1) < nat (ordinal current - ordinal today + 1)"
        and "ordinal ?next \<le> max_ordinal"
        using assms(1) True less.prems by (simp_all add: date_simps)
      then have "(\<exists>r. last_coupon_loop p today ?next = Some (Inr r) \<and> last_before ?next p today r)
        \<or> (ordinal today \<le> p \<and> last_coupon_loop p today ?next = Some (Inl OverflowError))"
        by (rule less.hyps)
      then show ?thesis using last_before_step [OF assms(1) True] by (auto simp: go)
    qed
  qed
qed

lemma last_coupon_date_result:
  assumes "0 < p" and "ordinal m \<le> max_ordinal"
  shows "(\<exists>r. last_coupon_date m p today = Some (Inr r) \<and> last_before m p today r)
    \<or> (ordinal today \<le> p \<and> last_coupon_date m p today = Some (Inl OverflowError))"
  using last_coupon_loop_result [OF assms, of today] assms(1) by (simp add: last_coupon_date_def)

lemma last_coupon_date_returns:
  "ordinal m \<le> max_ordinal \<Longrightarrow> \<exists>r. last_coupon_date m p today = Some r"
  using last_coupon_date_result [of p m today] by (cases "0 < p") (auto simp: last_coupon_date_def)

section \<open>Properties\<close>

text \<open>
  C38. The two coupon grids of the program are one: for a period of at least a day and no longer than
  today's ordinal, the analytics grid and the YTM solver's grid return the same dates, which are
  the days after today that lie a whole number of periods before the maturity, in order.
\<close>

theorem coupon_grids_agree:
  assumes "0 < period" and "period \<le> ordinal today" and "valid_date maturity"
  shows "\<exists>ds. future_payment_dates maturity period today = Some (Inr ds)
    \<and> future_coupon_dates maturity period today = Some (Inr ds)
    \<and> sorted_wrt (<) ds
    \<and> set ds = {d. today < d \<and> d \<le> maturity \<and> period dvd (ordinal maturity - ordinal d)}"
proof -
  have m: "ordinal maturity \<le> max_ordinal" using assms(3) by (simp add: valid_date_def)
  obtain ds where ds: "future_payment_dates maturity period today = Some (Inr ds)"
    "sorted_wrt (<) ds" "set ds = grid_after maturity period today"
    by (rule ytm_dates.dates_ok [OF assms(1,2) m])
  have "future_coupon_dates maturity period today = Some (Inr ds)"
    by (rule analytics_dates.dates_unique [OF assms(1,2) m ds(2,3)])
  with ds show ?thesis by (auto simp: grid_after_def on_grid_def)
qed

theorem coupon_grids_agree_witness:
  "\<exists>ds. future_payment_dates (Date 739800) 182 (Date 739000) = Some (Inr ds)
    \<and> future_coupon_dates (Date 739800) 182 (Date 739000) = Some (Inr ds)"
  using coupon_grids_agree [of 182 "Date 739000" "Date 739800"]
  by (auto simp: valid_date_def min_ordinal_def max_ordinal_def)

text \<open>
  The next coupon is less than a period ahead, and the last grid date is the maturity itself: a
  not yet matured bond with a coupon period always has a next coupon.
\<close>

theorem next_coupon_within_period:
  assumes "future_coupon_dates maturity period today = Some (Inr ds)"
    and "0 < period" and "valid_date maturity" and "today < maturity"
  shows "ds \<noteq> [] \<and> last ds = maturity \<and> today < hd ds \<and> days_between (hd ds) today \<le> period"
  using analytics_dates.dates_last [OF assms(1,2) _ assms(4)]
    analytics_dates.dates_first [OF assms(1,2) _ assms(4)] assms(3)
  by (simp add: valid_date_def days_between_def)

theorem next_coupon_within_period_witness:
  "\<exists>ds. future_coupon_dates (Date 739800) 182 (Date 739000) = Some (Inr ds)
     \<and> last ds = Date 739800 \<and> days_between (hd ds) (Date 739000) \<le> 182"
proof -
  have "\<exists>ds. future_coupon_dates (Date 739800) 182 (Date 739000) = Some (Inr ds)"
    using analytics_dates.dates_ok [of 182 "Date 739000" "Date 739800"]
    by (auto simp: max_ordinal_def)
  then show ?thesis
    using next_coupon_within_period [of "Date 739800" 182 "Date 739000"]
    by (auto simp: valid_date_def min_ordinal_def max_ordinal_def)
qed

text \<open>
  \<open>_last_coupon_date\<close> returns the greatest grid date before today, and answers \<open>None\<close> only when
  every such date lies before 1900.
\<close>

theorem last_coupon_date_greatest:
  assumes "0 < period" and "period < ordinal today" and "valid_date maturity"
  shows "\<exists>r. last_coupon_date maturity period today = Some (Inr r)
    \<and> (case r of
         None \<Rightarrow> \<forall>d. on_grid maturity period d \<and> d < today \<longrightarrow> d < MIN_COUPON_DATE
       | Some d \<Rightarrow> on_grid maturity period d \<and> d < today
           \<and> (\<forall>e. on_grid maturity period e \<and> e < today \<longrightarrow> e \<le> d))"
  using last_coupon_date_result [OF assms(1), of maturity today] assms(2,3)
  by (auto simp: valid_date_def last_before_def)

theorem last_coupon_date_greatest_witness:
  "\<exists>r. last_coupon_date (Date 739800) 182 (Date 739000) = Some (Inr r)
    \<and> (\<forall>d. r = Some d \<longrightarrow> on_grid (Date 739800) 182 d)"
  using last_coupon_date_greatest [of 182 "Date 739000" "Date 739800"]
  by (auto simp: valid_date_def min_ordinal_def max_ordinal_def)

end
