(* ===== verification/YieldCalc.thy ===== *)
theory YieldCalc
  imports CouponGrid
begin

text \<open>
  The pure calculations of \<open>yield_calc\<close> other than the YTM solver: \<open>build_coupon_schedule\<close>,
  \<open>calculate_accrued_coupon\<close> and \<open>calculate_current_yield\<close>. As in \<open>Netting\<close> the rounding is a
  parameter; an \<open>int\<close> operand (\<open>nominal\<close>, a number of days) is converted by \<open>rnd (of_int n)\<close>. The
  argument \<open>today\<close> is the valuation date after the default \<open>date.today()\<close> is filled in.
\<close>

section \<open>The coupon of one period\<close>

text \<open>\<open>nominal * coupon_rate / 100 * (coupon_period_days / 365)\<close>, which four functions compute.\<close>

definition period_coupon :: "(rat \<Rightarrow> rat) \<Rightarrow> int \<Rightarrow> rat \<Rightarrow> int \<Rightarrow> rat" where
  "period_coupon rnd nominal coupon_rate coupon_period_days =
     rnd (rnd (rnd (rnd (of_int nominal) * coupon_rate) / 100) * rnd (of_int coupon_period_days / 365))"

section \<open>Schedule\<close>

record coupon_payment =
  payment_date :: date
  amount :: rat
  is_final :: bool

definition schedule_payment :: "(rat \<Rightarrow> rat) \<Rightarrow> rat \<Rightarrow> int \<Rightarrow> date \<Rightarrow> date \<Rightarrow> coupon_payment" where
  "schedule_payment rnd coupon nominal maturity_date d =
     \<lparr>payment_date = d,
      amount = rnd (coupon + (if d = maturity_date then rnd (of_int nominal) else 0)),
      is_final = (d = maturity_date)\<rparr>"

definition build_coupon_schedule ::
    "(rat \<Rightarrow> rat) \<Rightarrow> rat \<Rightarrow> int \<Rightarrow> date \<Rightarrow> int \<Rightarrow> date option \<Rightarrow> coupon_payment list result option" where
  "build_coupon_schedule rnd coupon_rate coupon_period_days maturity_date nominal start_date =
     (if coupon_period_days < 0 then Some (Inl ValueError)
      else if coupon_rate < 0 then Some (Inl ValueError)
      else if nominal \<le> 0 then Some (Inl ValueError)
      else if coupon_period_days = 0
      then Some (Inr [\<lparr>payment_date = maturity_date, amount = of_int nominal, is_final = True\<rparr>])
      else
        case (case start_date of
                None \<Rightarrow> date_sub maturity_date coupon_period_days
              | Some d \<Rightarrow> Inr d) of
          Inl e \<Rightarrow> Some (Inl e)
        | Inr first_coupon \<Rightarrow>
            if first_coupon \<ge> maturity_date then Some (Inl ValueError)
            else
              let coupon = period_coupon rnd nominal coupon_rate coupon_period_days
              in (case date_sub maturity_date coupon_period_days of
                    Inl e \<Rightarrow> Some (Inl e)
                  | Inr current \<Rightarrow>
                      map_option (map_sum id (\<lambda>grid.
                          map (schedule_payment rnd coupon nominal maturity_date)
                              (first_coupon # rev grid)))
                        (grid_loop (\<lambda>current. current > first_coupon \<and> current \<ge> MIN_COUPON_DATE)
                           coupon_period_days current [maturity_date])))"

section \<open>Accrued coupon and current yield\<close>

definition calculate_accrued_coupon ::
    "(rat \<Rightarrow> rat) \<Rightarrow> rat \<Rightarrow> int \<Rightarrow> date \<Rightarrow> date \<Rightarrow> int \<Rightarrow> rat result" where
  "calculate_accrued_coupon rnd coupon_rate coupon_period_days last_coupon today nominal =
     (if coupon_period_days < 0 then Inl ValueError
      else if coupon_rate < 0 then Inl ValueError
      else if nominal \<le> 0 then Inl ValueError
      else if coupon_period_days = 0 then Inr 0
      else
        let coupon_per_period = period_coupon rnd nominal coupon_rate coupon_period_days;
            days_since_last = days_between today last_coupon
        in if days_since_last < 0 then Inr 0
           else if days_since_last \<ge> coupon_period_days then Inr coupon_per_period
           else Inr (rnd (rnd (coupon_per_period * rnd (of_int days_since_last))
                          / rnd (of_int coupon_period_days))))"

definition calculate_current_yield :: "(rat \<Rightarrow> rat) \<Rightarrow> rat \<Rightarrow> rat \<Rightarrow> int \<Rightarrow> rat result" where
  "calculate_current_yield rnd price coupon_rate nominal =
     (if price \<le> 0 then Inl YtmCalculationError
      else if nominal \<le> 0 then Inl YtmCalculationError
      else if coupon_rate < 0 then Inl YtmCalculationError
      else
        let annual_coupon = rnd (rnd (rnd (of_int nominal) * coupon_rate) / 100)
        in Inr (rnd (annual_coupon / price)))"

section \<open>Lemmas on the schedule\<close>

lemma floor_cond:
  "(\<lambda>d. first < d \<and> MIN_COUPON_DATE \<le> d) = (\<lambda>d. Date (max (ordinal first) (ordinal MIN_COUPON_DATE - 1)) < d)"
  by (auto simp: fun_eq_iff date_simps)

lemma schedule_payment_simps [simp]:
  "payment_date (schedule_payment rnd c n m d) = d"
  "is_final (schedule_payment rnd c n m d) \<longleftrightarrow> d = m"
  by (simp_all add: schedule_payment_def)

text \<open>The grid of a schedule: the dates after the first coupon that are not before 1900.\<close>

lemma schedule_grid:
  assumes "0 < p" and "valid_date m" and "min_ordinal \<le> ordinal m - p" and "first < m"
  shows "(\<exists>ds. grid_loop (\<lambda>d. first < d \<and> MIN_COUPON_DATE \<le> d) p (Date (ordinal m - p)) [m] = Some (Inr (m # ds))
      \<and> sorted_wrt (<) (first # rev (m # ds))
      \<and> set (m # ds) = insert m (grid_after m p (Date (max (ordinal first) (ordinal MIN_COUPON_DATE - 1)))))
    \<or> (ordinal MIN_COUPON_DATE \<le> p
      \<and> grid_loop (\<lambda>d. first < d \<and> MIN_COUPON_DATE \<le> d) p (Date (ordinal m - p)) [m] = Some (Inl OverflowError))"
proof -
  let ?stop = "Date (max (ordinal first) (ordinal MIN_COUPON_DATE - 1))" and ?n = "Date (ordinal m - p)"
  have "ordinal ?n \<le> max_ordinal" using assms by (simp add: valid_date_def)
  from grid_loop_result [OF assms(1) this, of ?stop "[m]"] consider
    ds where "grid_loop (\<lambda>d. first < d \<and> MIN_COUPON_DATE \<le> d) p ?n [m] = Some (Inr (m # ds))"
      "sorted_wrt (>) ds" "set ds = grid_after ?n p ?stop"
    | "ordinal ?stop < p" "grid_loop (\<lambda>d. first < d \<and> MIN_COUPON_DATE \<le> d) p ?n [m] = Some (Inl OverflowError)"
    by (auto simp: floor_cond)
  then show ?thesis
  proof cases
    case 1
    have b: "\<forall>d \<in> set ds. first < d \<and> d < m"
      using 1(3) assms(1) by (auto simp: grid_after_def on_grid_def date_simps)
    have "sorted_wrt (<) (first # rev (m # ds))"
      using b 1(2) assms(4) by (simp add: sorted_wrt_append sorted_wrt_rev)
    moreover have "set (m # ds) = insert m (grid_after m p ?stop)"
    proof (cases "?stop < m")
      case True
      with 1(3) show ?thesis by (simp add: grid_after_step [OF assms(1) True])
    next
      case False
      then have "m \<le> ?stop" by (simp only: not_less)
      moreover have "?n \<le> m" using assms(1) by (simp add: less_eq_date_def)
      ultimately have "grid_after ?n p ?stop = {}" "grid_after m p ?stop = {}"
        by (meson grid_after_none order_trans)+
      with 1(3) show ?thesis by simp
    qed
    ultimately show ?thesis using 1(1) by blast
  next
    case 2
    then show ?thesis by auto
  qed
qed

lemma build_coupon_schedule_cases:
  assumes "build_coupon_schedule rnd rate p m n s = Some (Inr ps)" and "0 < p" and "valid_date m"
  obtains first ds where "case s of None \<Rightarrow> first = Date (ordinal m - p) | Some d \<Rightarrow> first = d"
    and "first < m" and "sorted_wrt (<) (first # rev (m # ds))"
    and "set (m # ds) = insert m (grid_after m p (Date (max (ordinal first) (ordinal MIN_COUPON_DATE - 1))))"
    and "ps = map (schedule_payment rnd (period_coupon rnd n rate p) n m) (first # rev (m # ds))"
proof -
  obtain first where f: "case s of None \<Rightarrow> first = Date (ordinal m - p) | Some d \<Rightarrow> first = d"
    and b: "min_ordinal \<le> ordinal m - p" "first < m"
    and l: "map_option (map_sum id (\<lambda>grid. map (schedule_payment rnd (period_coupon rnd n rate p) n m)
        (first # rev grid))) (grid_loop (\<lambda>d. first < d \<and> MIN_COUPON_DATE \<le> d) p (Date (ordinal m - p)) [m])
      = Some (Inr ps)"
    using assms(1,2)
    by (cases s) (simp_all add: build_coupon_schedule_def Let_def date_sub_cases not_le split: if_splits)
  from schedule_grid [OF assms(2,3) b] l obtain ds where ds:
    "grid_loop (\<lambda>d. first < d \<and> MIN_COUPON_DATE \<le> d) p (Date (ordinal m - p)) [m] = Some (Inr (m # ds))"
    "sorted_wrt (<) (first # rev (m # ds))"
    "set (m # ds) = insert m (grid_after m p (Date (max (ordinal first) (ordinal MIN_COUPON_DATE - 1))))"
    by fastforce
  show ?thesis
    by (rule that [OF f b(2) ds(2,3)]) (use l ds(1) in simp)
qed

text \<open>The schedule always returns.\<close>

lemma schedule_grid_returns:
  assumes "0 < p" and "valid_date m" and "min_ordinal \<le> ordinal m - p" and "first < m"
  shows "\<exists>r. grid_loop (\<lambda>d. first < d \<and> MIN_COUPON_DATE \<le> d) p (Date (ordinal m - p)) [m] = Some r"
  using schedule_grid [OF assms] by blast

lemma build_coupon_schedule_returns:
  assumes "valid_date m" shows "\<exists>r. build_coupon_schedule rnd rate p m n s = Some r"
proof (cases "0 < p \<and> min_ordinal \<le> ordinal m - p")
  case True
  note grid = schedule_grid_returns [OF _ assms, of p]
  have "\<exists>r. build_coupon_schedule rnd rate p m n (Some d) = Some r" for d
    using grid [of d] True by (auto simp: build_coupon_schedule_def Let_def date_sub_cases not_le)
  moreover have "\<exists>r. build_coupon_schedule rnd rate p m n None = Some r"
    using grid [of "Date (ordinal m - p)"] True
    by (auto simp: build_coupon_schedule_def Let_def date_sub_cases not_le)
  ultimately show ?thesis by (cases s) simp_all
next
  case False
  then show ?thesis
    by (cases s) (auto simp: build_coupon_schedule_def Let_def date_sub_cases)
qed

section \<open>Lemmas on the accrued coupon\<close>

context rounding
begin

lemma rnd_rnd_of_int: "\<bar>n\<bar> \<le> 2 ^ 53 \<Longrightarrow> rnd (of_int n) = of_int n"
  by (rule rnd_int)

lemma period_coupon_ok:
  assumes "0 < n" and "0 \<le> rate" and "0 \<le> p"
  shows "0 \<le> period_coupon rnd n rate p"
    and "rnd (period_coupon rnd n rate p) = period_coupon rnd n rate p"
  using assms
  by (simp_all add: period_coupon_def rnd_idem rnd_nonneg rnd_of_int_nonneg)

text \<open>A part of the period earns at most the coupon, rounded at every step.\<close>

lemma accrued_part_le:
  assumes "0 \<le> c" and "rnd c = c" and "0 \<le> n" and "n < p" and "p \<le> 2 ^ 52"
  shows "0 \<le> rnd (rnd (c * rnd (of_int n)) / rnd (of_int p))"
    and "rnd (rnd (c * rnd (of_int n)) / rnd (of_int p)) \<le> c"
proof -
  have b: "rnd (of_int n) = of_int n" "rnd (of_int p) = of_int p"
    using assms by (intro rnd_int; simp)+
  show "0 \<le> rnd (rnd (c * rnd (of_int n)) / rnd (of_int p))"
    using assms b by (intro rnd_nonneg divide_nonneg_nonneg) simp_all
  have "rnd (c * of_int n) \<le> c * of_int (n + 1)" using assms by (intro rnd_scale) simp_all
  also have "\<dots> \<le> c * of_int p" using assms by (intro mult_left_mono) simp_all
  finally have "rnd (c * of_int n) / of_int p \<le> c" using assms by (simp add: field_simps)
  then show "rnd (rnd (c * rnd (of_int n)) / rnd (of_int p)) \<le> c"
    using assms b by (intro rnd_le) simp_all
qed

lemma accrued_part_mono:
  assumes "0 \<le> c" and "n \<le> n'" and "0 < p"
  shows "rnd (rnd (c * rnd (of_int n)) / rnd (of_int p)) \<le> rnd (rnd (c * rnd (of_int n')) / rnd (of_int p))"
  using assms
  by (intro rnd_mono divide_right_mono mult_left_mono) (simp_all add: rnd_of_int_pos less_imp_le)

lemma accrued_bounds:
  assumes "0 < n" "0 \<le> rate" "0 < p" "p \<le> 2 ^ 52"
  shows "\<exists>x. calculate_accrued_coupon rnd rate p lc today n = Inr x
    \<and> 0 \<le> x \<and> x \<le> period_coupon rnd n rate p"
proof -
  note c = period_coupon_ok [of n rate p]
  have part: "0 \<le> days_between today lc \<Longrightarrow> days_between today lc < p \<Longrightarrow>
      0 \<le> rnd (rnd (period_coupon rnd n rate p * rnd (of_int (days_between today lc))) / rnd (of_int p))
      \<and> rnd (rnd (period_coupon rnd n rate p * rnd (of_int (days_between today lc))) / rnd (of_int p))
          \<le> period_coupon rnd n rate p"
    using assms c accrued_part_le [of "period_coupon rnd n rate p" "days_between today lc" p] by simp
  show ?thesis
    unfolding calculate_accrued_coupon_def Let_def using assms c part by auto
qed

lemma accrued_mono:
  assumes "0 < n" "0 \<le> rate" "0 < p" "p \<le> 2 ^ 52" "today \<le> later"
    and "calculate_accrued_coupon rnd rate p lc today n = Inr x"
    and "calculate_accrued_coupon rnd rate p lc later n = Inr y"
  shows "x \<le> y"
proof -
  let ?c = "period_coupon rnd n rate p"
  have d: "days_between today lc \<le> days_between later lc"
    using assms(5) by (simp add: days_between_def less_eq_date_def)
  consider "days_between today lc < 0" | "p \<le> days_between later lc" "0 \<le> days_between today lc"
    | "0 \<le> days_between today lc" "days_between later lc < p" by linarith
  then show ?thesis
  proof cases
    case 1
    then have "x = 0" using assms by (auto simp: calculate_accrued_coupon_def)
    then show ?thesis using accrued_bounds [OF assms(1-4), of lc later] assms(7) by auto
  next
    case 2
    then have "y = ?c" using assms by (auto simp: calculate_accrued_coupon_def)
    then show ?thesis using accrued_bounds [OF assms(1-4), of lc today] assms(6) by auto
  next
    case 3
    have "rnd (rnd (?c * rnd (of_int (days_between today lc))) / rnd (of_int p))
        \<le> rnd (rnd (?c * rnd (of_int (days_between later lc))) / rnd (of_int p))"
      using assms d period_coupon_ok(1) [of n rate p] by (intro accrued_part_mono) simp_all
    then show ?thesis using 3 d assms by (simp add: calculate_accrued_coupon_def Let_def split: if_splits)
  qed
qed

lemma current_yield_nonneg:
  "calculate_current_yield rnd price rate n = Inr y \<Longrightarrow> 0 \<le> y"
  by (auto simp: calculate_current_yield_def Let_def rnd_nonneg rnd_of_int_nonneg split: if_splits)

end

section \<open>Properties\<close>

text \<open>
  A schedule for a coupon-bearing bond runs in strictly increasing dates from the first coupon
  (the given one, or one period before the maturity) to the maturity; its inner dates are exactly
  the grid dates between, from 1900 on; and only the last payment is final and carries the nominal.
\<close>

theorem build_coupon_schedule_dates:
  assumes "build_coupon_schedule fl64 rate period maturity nominal start = Some (Inr ps)"
    and "0 < period" and "valid_date maturity"
  shows "sorted_wrt (<) (map payment_date ps)
    \<and> payment_date (hd ps) = (case start of None \<Rightarrow> Date (ordinal maturity - period) | Some d \<Rightarrow> d)
    \<and> payment_date (last ps) = maturity
    \<and> (\<forall>x \<in> set ps. is_final x = (x = last ps)
        \<and> amount x = fl64 (period_coupon fl64 nominal rate period
                      + (if is_final x then fl64 (of_int nominal) else 0)))
    \<and> payment_date ` set (tl ps) = {d. payment_date (hd ps) < d
        \<and> (MIN_COUPON_DATE \<le> d \<or> d = maturity) \<and> on_grid maturity period d}"
proof -
  obtain first ds where f: "case start of None \<Rightarrow> first = Date (ordinal maturity - period) | Some d \<Rightarrow> first = d"
    and lt: "first < maturity" and s: "sorted_wrt (<) (first # rev (maturity # ds))"
    and g: "set (maturity # ds) = insert maturity
      (grid_after maturity period (Date (max (ordinal first) (ordinal MIN_COUPON_DATE - 1))))"
    and ps: "ps = map (schedule_payment fl64 (period_coupon fl64 nominal rate period) nominal maturity)
      (first # rev (maturity # ds))"
    by (rule build_coupon_schedule_cases [OF assms])
  have dates: "map payment_date ps = first # rev (maturity # ds)"
    by (simp add: ps o_def)
  have f': "first = (case start of None \<Rightarrow> Date (ordinal maturity - period) | Some d \<Rightarrow> d)"
    using f by (simp split: option.splits)
  have "payment_date ` set (tl ps) = set (maturity # ds)"
    by (auto simp: ps image_image)
  also have "\<dots> = {d. first < d \<and> (MIN_COUPON_DATE \<le> d \<or> d = maturity) \<and> on_grid maturity period d}"
    using lt by (subst g) (auto simp: grid_after_def date_simps)
  finally have inner: "payment_date ` set (tl ps)
    = {d. first < d \<and> (MIN_COUPON_DATE \<le> d \<or> d = maturity) \<and> on_grid maturity period d}" .
  have last: "last ps = schedule_payment fl64 (period_coupon fl64 nominal rate period) nominal maturity maturity"
    by (simp add: ps)
  have "\<forall>x \<in> set ps. is_final x = (x = last ps)
        \<and> amount x = fl64 (period_coupon fl64 nominal rate period
                      + (if is_final x then fl64 (of_int nominal) else 0))"
    unfolding last by (auto simp: ps) (auto simp: schedule_payment_def)
  then show ?thesis using s inner last by (simp add: dates f' [symmetric]) (simp add: ps)
qed

theorem build_coupon_schedule_dates_witness:
  "\<exists>ps. build_coupon_schedule fl64 10 182 (Date 739800) 1000 None = Some (Inr ps)
    \<and> payment_date (last ps) = Date 739800"
proof -
  have "\<exists>ps. build_coupon_schedule fl64 10 182 (Date 739800) 1000 None = Some (Inr ps)"
    by (simp add: build_coupon_schedule_def date_sub_cases Let_def grid_loop.simps min_ordinal_def max_ordinal_def)
  then obtain ps where ps: "build_coupon_schedule fl64 10 182 (Date 739800) 1000 None = Some (Inr ps)" by blast
  then show ?thesis
    using build_coupon_schedule_dates [OF ps] by (simp add: valid_date_def min_ordinal_def max_ordinal_def)
qed

text \<open>
  In floating point, with every product and quotient rounded, the accrued coupon lies between 0
  and the coupon of one period, and does not fall as the valuation date moves on.
\<close>

theorem accrued_coupon_bounds:
  assumes "0 < nominal" and "0 \<le> rate" and "0 < period" and "period \<le> 2 ^ 52" and "today \<le> later"
  shows "\<exists>x y. calculate_accrued_coupon fl64 rate period last_coupon today nominal = Inr x
    \<and> calculate_accrued_coupon fl64 rate period last_coupon later nominal = Inr y
    \<and> 0 \<le> x \<and> x \<le> y \<and> y \<le> period_coupon fl64 nominal rate period"
  using b64.accrued_bounds [OF assms(1-4), of last_coupon today]
    b64.accrued_bounds [OF assms(1-4), of last_coupon later] b64.accrued_mono [OF assms, of last_coupon]
  by blast

theorem accrued_coupon_bounds_witness:
  "\<exists>x y. calculate_accrued_coupon fl64 10 182 (Date 739000) (Date 739010) 1000 = Inr x
    \<and> calculate_accrued_coupon fl64 10 182 (Date 739000) (Date 739100) 1000 = Inr y \<and> 0 \<le> x \<and> x \<le> y"
  using accrued_coupon_bounds [of 1000 10 182 "Date 739010" "Date 739100" "Date 739000"] by fastforce

end
