(* ===== verification/Ytm.thy ===== *)
theory Ytm
  imports YieldCalc
begin

text \<open>
  \<open>yield_calc/ytm.py\<close>. Besides the rounding the solver has the C library's \<open>pow\<close> as a parameter,
  \<open>pw\<close>; Python's \<open>**\<close> adds the special cases of \<open>py_pow\<close>. A negative base with a fractional
  exponent is a complex number in Python, which the solver cannot use (\<open>math.isfinite\<close> and the
  ordering of \<open>complex\<close> raise \<open>TypeError\<close>): the model raises \<open>TypeError\<close> at the power itself. Floats
  are finite: a product or a sum beyond \<open>2 ^ 1024\<close> keeps its value where Python has an infinity,
  and \<open>math.isfinite\<close> is a bound. The module's loops are bounded (\<open>range(100)\<close> and \<open>range(200)\<close>)
  and take the number of iterations left as fuel.
\<close>

section \<open>Float operations that raise\<close>

definition py_div :: "(rat \<Rightarrow> rat) \<Rightarrow> rat \<Rightarrow> rat \<Rightarrow> rat result" where
  "py_div rnd x y = (if y = 0 then Inl ZeroDivisionError else Inr (rnd (x / y)))"

definition py_pow :: "(rat \<Rightarrow> rat \<Rightarrow> rat) \<Rightarrow> rat \<Rightarrow> rat \<Rightarrow> rat result" where
  "py_pow pw x y =
     (if y = 0 then Inr 1
      else if x = 0 \<and> y < 0 then Inl ZeroDivisionError
      else if x < 0 \<and> of_int \<lfloor>y\<rfloor> \<noteq> y then Inl TypeError
      else if is_finite64 (pw x y) then Inr (pw x y) else Inl OverflowError)"

section \<open>Cash flows and their present value\<close>

definition price_bounds :: "(rat \<Rightarrow> rat) \<Rightarrow> int \<Rightarrow> rat \<times> rat" where
  "price_bounds rnd nominal = (1, rnd (10 * rnd (of_int nominal)))"

definition cash_flows ::
    "(rat \<Rightarrow> rat) \<Rightarrow> date \<Rightarrow> int \<Rightarrow> date \<Rightarrow> rat \<Rightarrow> int \<Rightarrow> coupon_payment list option
     \<Rightarrow> (int \<times> rat) list result option" where
  "cash_flows rnd maturity_date period_days today coupon nominal cashflows =
     (case cashflows of
        Some payments \<Rightarrow>
          Some (Inr (map (\<lambda>p. (days_between (payment_date p) today, amount p))
                         (filter (\<lambda>p. payment_date p > today) payments)))
      | None \<Rightarrow>
          map_option (map_sum id (map (\<lambda>d. (days_between d today,
              rnd (coupon + (if d = maturity_date then rnd (of_int nominal) else 0))))))
            (future_payment_dates maturity_date period_days today))"

text \<open>\<open>days * periods_per_year / 365\<close>\<close>

definition periods_of :: "(rat \<Rightarrow> rat) \<Rightarrow> rat \<Rightarrow> int \<Rightarrow> rat" where
  "periods_of rnd ppy days = rnd (rnd (rnd (of_int days) * ppy) / 365)"

fun pv_loop :: "(rat \<Rightarrow> rat) \<Rightarrow> (rat \<Rightarrow> rat \<Rightarrow> rat) \<Rightarrow> rat \<Rightarrow> rat \<Rightarrow> rat \<Rightarrow> (int \<times> rat) list \<Rightarrow> rat result" where
  "pv_loop rnd pw factor ppy pv [] = Inr pv"
| "pv_loop rnd pw factor ppy pv ((days, amt) # flows) =
     bind_result (py_pow pw factor (periods_of rnd ppy days)) (\<lambda>discount.
     bind_result (py_div rnd (rnd amt) discount) (\<lambda>value.
     pv_loop rnd pw factor ppy (rnd (pv + value)) flows))"

definition present_value ::
    "(rat \<Rightarrow> rat) \<Rightarrow> (rat \<Rightarrow> rat \<Rightarrow> rat) \<Rightarrow> rat \<Rightarrow> (int \<times> rat) list \<Rightarrow> rat \<Rightarrow> rat result" where
  "present_value rnd pw r flows ppy =
     bind_result (py_div rnd r ppy) (\<lambda>rate. pv_loop rnd pw (rnd (1 + rate)) ppy 0 flows)"

fun derivative_loop ::
    "(rat \<Rightarrow> rat) \<Rightarrow> (rat \<Rightarrow> rat \<Rightarrow> rat) \<Rightarrow> rat \<Rightarrow> rat \<Rightarrow> rat \<Rightarrow> (int \<times> rat) list \<Rightarrow> rat result" where
  "derivative_loop rnd pw factor ppy derivative [] = Inr derivative"
| "derivative_loop rnd pw factor ppy derivative ((days, amt) # flows) =
     (let periods = periods_of rnd ppy days
      in bind_result (py_pow pw factor (rnd (periods + 1))) (\<lambda>power.
         bind_result (py_div rnd (rnd (rnd (- amt) * periods)) (rnd (ppy * power))) (\<lambda>term.
         derivative_loop rnd pw factor ppy (rnd (derivative + term)) flows)))"

definition present_value_derivative ::
    "(rat \<Rightarrow> rat) \<Rightarrow> (rat \<Rightarrow> rat \<Rightarrow> rat) \<Rightarrow> rat \<Rightarrow> (int \<times> rat) list \<Rightarrow> rat \<Rightarrow> rat result" where
  "present_value_derivative rnd pw r flows ppy =
     bind_result (py_div rnd r ppy) (\<lambda>rate. derivative_loop rnd pw (rnd (1 + rate)) ppy 0 flows)"

text \<open>The local function \<open>f\<close> of \<open>_bisect\<close> and of \<open>calculate_ytm\<close>.\<close>

definition price_gap ::
    "(rat \<Rightarrow> rat) \<Rightarrow> (rat \<Rightarrow> rat \<Rightarrow> rat) \<Rightarrow> (int \<times> rat) list \<Rightarrow> rat \<Rightarrow> rat \<Rightarrow> rat \<Rightarrow> rat result" where
  "price_gap rnd pw flows ppy price r =
     bind_result (present_value rnd pw r flows ppy) (\<lambda>pv. Inr (rnd (pv - price)))"

section \<open>Root finding\<close>

definition TOLERANCE :: "(rat \<Rightarrow> rat) \<Rightarrow> rat" where "TOLERANCE rnd = rnd (1 / 10 ^ 8)"

definition midpoint :: "(rat \<Rightarrow> rat) \<Rightarrow> rat \<Rightarrow> rat \<Rightarrow> rat" where
  "midpoint rnd low high = rnd (rnd (low + high) / 2)"

fun bisect_loop ::
    "(rat \<Rightarrow> rat) \<Rightarrow> (rat \<Rightarrow> rat result) \<Rightarrow> nat \<Rightarrow> rat \<Rightarrow> rat \<Rightarrow> rat \<Rightarrow> rat result" where
  "bisect_loop rnd f 0 low high f_low = Inr (midpoint rnd low high)"
| "bisect_loop rnd f (Suc n) low high f_low =
     (let mid = midpoint rnd low high
      in bind_result (f mid) (\<lambda>f_mid.
           if \<bar>f_mid\<bar> < TOLERANCE rnd \<or> rnd (high - low) < rnd (1 / 10 ^ 12) then Inr mid
           else if rnd (f_low * f_mid) < 0 then bisect_loop rnd f n low mid f_low
           else bisect_loop rnd f n mid high f_mid))"

definition bisect :: "(rat \<Rightarrow> rat) \<Rightarrow> (rat \<Rightarrow> rat result) \<Rightarrow> rat option result" where
  "bisect rnd f =
     bind_result (f (- 1 / 2)) (\<lambda>f_low.
     bind_result (f 2) (\<lambda>f_high.
       if rnd (f_low * f_high) > 0 then Inr None
       else map_sum id Some (bisect_loop rnd f 200 (- 1 / 2) 2 f_low)))"

fun newton_loop ::
    "(rat \<Rightarrow> rat) \<Rightarrow> (rat \<Rightarrow> rat result) \<Rightarrow> (rat \<Rightarrow> rat result) \<Rightarrow> nat \<Rightarrow> rat \<Rightarrow> rat option result" where
  "newton_loop rnd f f' 0 r = Inr None"
| "newton_loop rnd f f' (Suc n) r =
     bind_result (f r) (\<lambda>f_value.
       if \<bar>f_value\<bar> < TOLERANCE rnd then Inr (Some r)
       else bind_result (f' r) (\<lambda>derivative.
         if derivative = 0 \<or> \<not> is_finite64 derivative then Inr None
         else
           let r_next = rnd (r - rnd (f_value / derivative))
           in if \<not> is_finite64 r_next \<or> r_next < - 1 / 2 \<or> \<bar>r_next\<bar> > 1 then Inr None
              else if r_next = r then Inr None
              else newton_loop rnd f f' n r_next))"

definition newton_raphson ::
    "(rat \<Rightarrow> rat) \<Rightarrow> (rat \<Rightarrow> rat \<Rightarrow> rat) \<Rightarrow> (rat \<Rightarrow> rat result) \<Rightarrow> rat \<Rightarrow> (int \<times> rat) list \<Rightarrow> rat
     \<Rightarrow> rat option result" where
  "newton_raphson rnd pw f guess flows ppy =
     newton_loop rnd f (\<lambda>r. present_value_derivative rnd pw r flows ppy) 100 guess"

section \<open>\<open>calculate_ytm\<close>\<close>

definition validate_inputs ::
    "(rat \<Rightarrow> rat) \<Rightarrow> rat \<Rightarrow> rat \<Rightarrow> int \<Rightarrow> date \<Rightarrow> int \<Rightarrow> date \<Rightarrow> unit result" where
  "validate_inputs rnd price coupon_rate coupon_period_days maturity_date nominal valuation_date =
     (if coupon_period_days < 0 then Inl YtmCalculationError
      else if coupon_rate < 0 then Inl YtmCalculationError
      else if nominal \<le> 0 then Inl YtmCalculationError
      else
        let (price_min, price_max) = price_bounds rnd nominal
        in if \<not> (price_min \<le> price \<and> price \<le> price_max) then Inl YtmCalculationError
           else if maturity_date \<le> valuation_date then Inl YtmCalculationError
           else Inr ())"

text \<open>The closed form of a bond that pays once.\<close>

definition zero_coupon_ytm ::
    "(rat \<Rightarrow> rat) \<Rightarrow> (rat \<Rightarrow> rat \<Rightarrow> rat) \<Rightarrow> rat \<Rightarrow> int \<Rightarrow> int \<Rightarrow> int \<Rightarrow> rat result" where
  "zero_coupon_ytm rnd pw price coupon_period_days nominal days_to_maturity =
     (let ppy = (if coupon_period_days = 0 then 1 else rnd (365 / of_int coupon_period_days))
      in bind_result (py_div rnd (rnd (of_int nominal)) price) (\<lambda>base.
         bind_result (py_div rnd 365 (rnd (rnd (of_int days_to_maturity) * ppy))) (\<lambda>exponent.
         bind_result (py_pow pw base exponent) (\<lambda>growth. Inr (rnd (ppy * rnd (growth - 1)))))))"

text \<open>The starting point of the iteration, clamped to \<open>[-0.5, 1.0]\<close>.\<close>

definition initial_guess :: "(rat \<Rightarrow> rat) \<Rightarrow> rat \<Rightarrow> rat \<Rightarrow> int \<Rightarrow> int \<Rightarrow> rat result" where
  "initial_guess rnd price coupon_rate nominal days_to_maturity =
     (let years_to_maturity = rnd (of_int days_to_maturity / 365);
          annual_coupon = rnd (rnd (rnd (of_int nominal) * coupon_rate) / 100)
      in bind_result (py_div rnd (rnd (rnd (of_int nominal) - price)) years_to_maturity) (\<lambda>gain.
         bind_result (py_div rnd (rnd (annual_coupon + gain)) (rnd (rnd (rnd (of_int nominal) + price) / 2)))
           (\<lambda>guess. Inr (min (max guess (- 1 / 2)) 1))))"

definition solve_ytm ::
    "(rat \<Rightarrow> rat) \<Rightarrow> (rat \<Rightarrow> rat \<Rightarrow> rat) \<Rightarrow> rat \<Rightarrow> (int \<times> rat) list \<Rightarrow> rat \<Rightarrow> rat \<Rightarrow> rat option result" where
  "solve_ytm rnd pw price flows ppy guess =
     (let f = price_gap rnd pw flows ppy price
      in bind_result (newton_raphson rnd pw f guess flows ppy) (\<lambda>converged.
           case converged of
             Some r \<Rightarrow> Inr (Some r)
           | None \<Rightarrow> bisect rnd f))"

definition calculate_ytm ::
    "(rat \<Rightarrow> rat) \<Rightarrow> (rat \<Rightarrow> rat \<Rightarrow> rat) \<Rightarrow> rat \<Rightarrow> rat \<Rightarrow> int \<Rightarrow> date \<Rightarrow> int \<Rightarrow> date
     \<Rightarrow> coupon_payment list option \<Rightarrow> rat option result option" where
  "calculate_ytm rnd pw price coupon_rate coupon_period_days maturity_date nominal today cashflows =
     (case validate_inputs rnd price coupon_rate coupon_period_days maturity_date nominal today of
        Inl e \<Rightarrow> Some (Inl e)
      | Inr _ \<Rightarrow>
          let days_to_maturity = days_between maturity_date today
          in if (coupon_period_days = 0 \<or> coupon_rate = 0) \<and> (cashflows = None \<or> cashflows = Some [])
             then Some (map_sum id Some
                    (zero_coupon_ytm rnd pw price coupon_period_days nominal days_to_maturity))
             else if coupon_period_days = 0 then Some (Inl ZeroDivisionError)
             else
               let ppy = rnd (365 / of_int coupon_period_days);
                   coupon = period_coupon rnd nominal coupon_rate coupon_period_days
               in (case cash_flows rnd maturity_date coupon_period_days today coupon nominal cashflows of
                     None \<Rightarrow> None
                   | Some (Inl e) \<Rightarrow> Some (Inl e)
                   | Some (Inr flows) \<Rightarrow>
                       Some (bind_result (initial_guess rnd price coupon_rate nominal days_to_maturity)
                         (solve_ytm rnd pw price flows ppy))))"


section \<open>Errors and termination\<close>

definition arithmetic_error :: "error \<Rightarrow> bool" where
  "arithmetic_error e \<longleftrightarrow> e \<in> {ZeroDivisionError, OverflowError, TypeError}"

lemma arithmetic_errors [simp]:
  "arithmetic_error ZeroDivisionError" "arithmetic_error OverflowError" "arithmetic_error TypeError"
  by (simp_all add: arithmetic_error_def)

lemma py_div_Inl: "py_div rnd x y = Inl e \<Longrightarrow> arithmetic_error e"
  by (auto simp: py_div_def split: if_splits)

lemma py_pow_Inl: "py_pow pw x y = Inl e \<Longrightarrow> arithmetic_error e"
  by (auto simp: py_pow_def split: if_splits)

lemma pv_loop_Inl: "pv_loop rnd pw factor ppy pv flows = Inl e \<Longrightarrow> arithmetic_error e"
  by (induction rnd pw factor ppy pv flows rule: pv_loop.induct)
    (auto simp: bind_result_Inl_iff dest: py_div_Inl py_pow_Inl)

lemma derivative_loop_Inl: "derivative_loop rnd pw factor ppy d flows = Inl e \<Longrightarrow> arithmetic_error e"
  by (induction rnd pw factor ppy d flows rule: derivative_loop.induct)
    (auto simp: bind_result_Inl_iff Let_def dest: py_div_Inl py_pow_Inl)

lemma price_gap_Inl: "price_gap rnd pw flows ppy price r = Inl e \<Longrightarrow> arithmetic_error e"
  by (auto simp: price_gap_def present_value_def bind_result_Inl_iff dest: py_div_Inl pv_loop_Inl)

lemma present_value_derivative_Inl:
  "present_value_derivative rnd pw r flows ppy = Inl e \<Longrightarrow> arithmetic_error e"
  by (auto simp: present_value_derivative_def bind_result_Inl_iff dest: py_div_Inl derivative_loop_Inl)

lemma bisect_loop_Inl:
  "bisect_loop rnd f n low high f_low = Inl e \<Longrightarrow> \<exists>r. f r = Inl e"
  by (induction rnd f n low high f_low rule: bisect_loop.induct)
    (auto simp: bind_result_Inl_iff Let_def split: if_splits)

lemma bisect_Inl: "bisect rnd f = Inl e \<Longrightarrow> \<exists>r. f r = Inl e"
  using bisect_loop_Inl [of rnd f 200 "- 1 / 2" 2]
  by (auto simp: bisect_def bind_result_Inl_iff map_sum_def split: if_splits sum.splits)

lemma newton_loop_Inl:
  "newton_loop rnd f f' n r = Inl e \<Longrightarrow> (\<exists>r. f r = Inl e) \<or> (\<exists>r. f' r = Inl e)"
  by (induction rnd f f' n r rule: newton_loop.induct)
    (auto simp: bind_result_Inl_iff Let_def split: if_splits)

lemma solve_ytm_Inl: "solve_ytm rnd pw price flows ppy guess = Inl e \<Longrightarrow> arithmetic_error e"
  by (auto simp: solve_ytm_def newton_raphson_def bind_result_Inl_iff Let_def
      dest!: newton_loop_Inl bisect_Inl dest: price_gap_Inl present_value_derivative_Inl split: option.splits)

lemma zero_coupon_ytm_Inl: "zero_coupon_ytm rnd pw price p n d = Inl e \<Longrightarrow> arithmetic_error e"
  by (auto simp: zero_coupon_ytm_def bind_result_Inl_iff Let_def dest: py_div_Inl py_pow_Inl)

lemma initial_guess_Inl: "initial_guess rnd price rate n d = Inl e \<Longrightarrow> arithmetic_error e"
  by (auto simp: initial_guess_def bind_result_Inl_iff Let_def dest: py_div_Inl)

lemma validate_inputs_cases:
  "validate_inputs rnd price rate p m n t = Inl YtmCalculationError \<or> validate_inputs rnd price rate p m n t = Inr ()"
  by (simp add: validate_inputs_def split: prod.split)

lemma validate_inputs_Inr:
  "validate_inputs rnd price rate p m n t = Inr u \<longleftrightarrow>
     0 \<le> p \<and> 0 \<le> rate \<and> 0 < n \<and> 1 \<le> price \<and> price \<le> rnd (10 * rnd (of_int n)) \<and> t < m"
  by (auto simp: validate_inputs_def price_bounds_def split: if_splits)

text \<open>What the call does once the inputs are valid and the closed form does not apply.\<close>

lemma calculate_ytm_solver:
  assumes "validate_inputs rnd price rate p m n today = Inr ()"
    and "rate \<noteq> 0 \<or> (\<exists>c cs. cashflows = Some (c # cs))" and "p \<noteq> 0"
    and "cash_flows rnd m p today (period_coupon rnd n rate p) n cashflows = Some (Inr flows)"
  shows "calculate_ytm rnd pw price rate p m n today cashflows =
    Some (bind_result (initial_guess rnd price rate n (days_between m today))
      (solve_ytm rnd pw price flows (rnd (365 / of_int p))))"
  using assms by (auto simp: calculate_ytm_def Let_def)

lemma cash_flows_cases:
  assumes "0 < p" and "valid_date m"
  shows "(\<exists>flows. cash_flows rnd m p today coupon n cashflows = Some (Inr flows))
    \<or> cash_flows rnd m p today coupon n cashflows = Some (Inl OverflowError)"
  using ytm_dates.dates_grid [of p m today] assms
  by (auto simp: cash_flows_def valid_date_def split: option.splits)

lemma calculate_ytm_total:
  assumes "valid_date m" shows "\<exists>r. calculate_ytm rnd pw price rate p m n today cashflows = Some r"
proof (cases "validate_inputs rnd price rate p m n today")
  case (Inl e)
  then show ?thesis by (simp add: calculate_ytm_def)
next
  case (Inr u)
  then have "0 \<le> p" by (simp add: validate_inputs_Inr)
  then show ?thesis
    using Inr cash_flows_cases [OF _ assms, of p rnd today "period_coupon rnd n rate p" n cashflows]
    by (cases "p = 0") (auto simp: calculate_ytm_def Let_def)
qed

lemma calculate_ytm_Inl:
  assumes "valid_date m" and "calculate_ytm rnd pw price rate p m n today cashflows = Some (Inl e)"
  shows "if validate_inputs rnd price rate p m n today = Inr () then arithmetic_error e else e = YtmCalculationError"
proof (cases "validate_inputs rnd price rate p m n today")
  case (Inl e')
  then show ?thesis using assms validate_inputs_cases [of rnd price rate p m n today]
    by (simp add: calculate_ytm_def)
next
  case (Inr u)
  then have "0 \<le> p" by (simp add: validate_inputs_Inr)
  have s: "arithmetic_error e"
    if "bind_result (initial_guess rnd price rate n d) (solve_ytm rnd pw price flows ppy) = Inl e" for d flows ppy
    using that by (auto simp: bind_result_Inl_iff dest: initial_guess_Inl solve_ytm_Inl)
  show ?thesis
    using Inr \<open>0 \<le> p\<close> assms cash_flows_cases [OF _ assms(1), of p rnd today "period_coupon rnd n rate p" n cashflows]
    by (cases "p = 0") (auto simp: calculate_ytm_def Let_def map_sum_def dest: zero_coupon_ytm_Inl s split: if_splits sum.splits)
qed

section \<open>What the iterations return\<close>

lemma newton_loop_root:
  "newton_loop rnd f f' n r = Inr (Some y) \<Longrightarrow> \<exists>v. f y = Inr v \<and> \<bar>v\<bar> < TOLERANCE rnd"
  by (induction rnd f f' n r rule: newton_loop.induct)
    (auto simp: bind_result_Inr_iff Let_def split: if_splits)

lemma newton_loop_range:
  "newton_loop rnd f f' n r = Inr (Some y) \<Longrightarrow> - 1 / 2 \<le> r \<Longrightarrow> r \<le> 1 \<Longrightarrow> - 1 / 2 \<le> y \<and> y \<le> 1"
  by (induction rnd f f' n r rule: newton_loop.induct)
    (auto simp: bind_result_Inr_iff Let_def abs_le_iff not_less split: if_splits)

lemma initial_guess_range:
  "initial_guess rnd price rate n d = Inr g \<Longrightarrow> - 1 / 2 \<le> g \<and> g \<le> 1"
  by (auto simp: initial_guess_def bind_result_Inr_iff Let_def)

context rounding
begin

lemma midpoint_ok:
  assumes "low \<le> high" "rnd low = low" "rnd high = high"
  shows "low \<le> midpoint rnd low high" "midpoint rnd low high \<le> high"
    "rnd (midpoint rnd low high) = midpoint rnd low high"
  using midpoint_between [OF assms] by (simp_all add: midpoint_def rnd_idem)

lemma bisect_loop_range:
  "bisect_loop rnd f n low high f_low = Inr y \<Longrightarrow> low \<le> high \<Longrightarrow> rnd low = low \<Longrightarrow> rnd high = high \<Longrightarrow>
   low \<le> y \<and> y \<le> high"
proof (induction n arbitrary: low high f_low)
  case 0
  then show ?case using midpoint_ok [of low high] by simp
next
  case (Suc n)
  note mid = midpoint_ok [OF Suc.prems(2-4)]
  from Suc.prems(1) consider "y = midpoint rnd low high"
    | g where "bisect_loop rnd f n low (midpoint rnd low high) g = Inr y"
    | g where "bisect_loop rnd f n (midpoint rnd low high) high g = Inr y"
    by (auto simp: bind_result_Inr_iff Let_def split: if_splits)
  then show ?case
  proof cases
    case 1
    then show ?thesis using mid by simp
  next
    case 2
    then show ?thesis using Suc.IH [OF 2 mid(1) Suc.prems(3) mid(3)] mid(2) by simp
  next
    case 3
    then show ?thesis using Suc.IH [OF 3 mid(2) mid(3) Suc.prems(4)] mid(1) by simp
  qed
qed

lemma rnd_half: "rnd (1 / 2) = 1 / 2 \<Longrightarrow> rnd (- 1 / 2) = - 1 / 2"
  using rnd_minus [of "1 / 2"] by simp

lemma bisect_range:
  assumes "bisect rnd f = Inr (Some y)" and "rnd (1 / 2) = 1 / 2"
  shows "- 1 / 2 \<le> y \<and> y \<le> 2"
proof -
  from assms(1) obtain g where "bisect_loop rnd f 200 (- 1 / 2) 2 g = Inr y"
    by (auto simp: bisect_def bind_result_Inr_iff map_sum_def split: if_splits sum.splits)
  then show ?thesis using rnd_half [OF assms(2)] rnd_int [of 2]
    by (intro bisect_loop_range) auto
qed

lemma bisect_None:
  "bisect rnd f = Inr None \<Longrightarrow> \<exists>a b. f (- 1 / 2) = Inr a \<and> f 2 = Inr b \<and> 0 < rnd (a * b)"
  by (auto simp: bisect_def bind_result_Inr_iff map_sum_def split: if_splits sum.splits)

lemma solve_ytm_result:
  assumes "solve_ytm rnd pw price flows ppy g = Inr r" and "- 1 / 2 \<le> g" and "g \<le> 1"
    and "rnd (1 / 2) = 1 / 2"
  shows "case r of
      Some y \<Rightarrow> - 1 / 2 \<le> y \<and> y \<le> 2
    | None \<Rightarrow> \<exists>a b. price_gap rnd pw flows ppy price (- 1 / 2) = Inr a
        \<and> price_gap rnd pw flows ppy price 2 = Inr b \<and> 0 < rnd (a * b)"
proof -
  let ?f = "price_gap rnd pw flows ppy price"
  from assms(1) consider y where "r = Some y"
      "newton_loop rnd ?f (\<lambda>r. present_value_derivative rnd pw r flows ppy) 100 g = Inr (Some y)"
    | "bisect rnd ?f = Inr r"
    by (auto simp: solve_ytm_def newton_raphson_def bind_result_Inr_iff Let_def split: option.splits)
  then show ?thesis
  proof cases
    case 1
    then show ?thesis using newton_loop_range [OF 1(2) assms(2,3)] by simp
  next
    case 2
    then show ?thesis using bisect_None bisect_range [OF _ assms(4)] by (cases r) auto
  qed
qed

end


section \<open>The bracket of the bisection\<close>

text \<open>Without rounding the bracket keeps a change of sign and halves in every iteration.\<close>

lemma sign_kept:
  fixes l m h :: rat
  assumes "l * h \<le> 0" and "0 \<le> l * m" and "l \<noteq> 0" and "m \<noteq> 0"
  shows "m * h \<le> 0"
  using assms by (auto simp: mult_le_0_iff zero_le_mult_iff)

definition bracketed :: "(rat \<Rightarrow> rat result) \<Rightarrow> rat \<Rightarrow> rat \<Rightarrow> rat \<Rightarrow> bool" where
  "bracketed f width y gap \<longleftrightarrow>
     (\<exists>v. f y = Inr v \<and> \<bar>v\<bar> < gap)
     \<or> (\<exists>a b va vb. a \<le> y \<and> y \<le> b \<and> b - a \<le> width \<and> f a = Inr va \<and> f b = Inr vb \<and> va * vb \<le> 0)"

lemma bracketed_mono: "bracketed f w y g \<Longrightarrow> w \<le> w' \<Longrightarrow> bracketed f w' y g"
  unfolding bracketed_def by (meson order_trans)

lemma bisect_loop_bracket:
  "bisect_loop exact f n low high fl = Inr y \<Longrightarrow> low \<le> high \<Longrightarrow>
   f low = Inr fl \<Longrightarrow> fl \<noteq> 0 \<Longrightarrow> f high = Inr fh \<Longrightarrow> fl * fh \<le> 0 \<Longrightarrow>
   bracketed f (max (1 / 10 ^ 12) ((high - low) / 2 ^ n)) y (TOLERANCE exact)"
proof (induction n arbitrary: low high fl fh)
  case 0
  then have "low \<le> y" "y \<le> high" by (auto simp: midpoint_def exact_def)
  moreover have "high - low \<le> max (1 / 10 ^ 12) ((high - low) / 2 ^ 0)" by simp
  ultimately show ?case using 0(3,5,6) unfolding bracketed_def by blast
next
  case (Suc n)
  let ?m = "midpoint exact low high"
  have m: "low \<le> ?m" "?m \<le> high" "high - ?m = (high - low) / 2" "?m - low = (high - low) / 2"
    using Suc.prems(2) by (auto simp: midpoint_def exact_def field_simps)
  obtain fm where fm: "f ?m = Inr fm"
    and body: "(if \<bar>fm\<bar> < TOLERANCE exact \<or> exact (high - low) < exact (1 / 10 ^ 12) then Inr ?m
      else if exact (fl * fm) < 0 then bisect_loop exact f n low ?m fl
      else bisect_loop exact f n ?m high fm) = Inr y"
    using Suc.prems(1) by (auto simp: bind_result_Inr_iff Let_def)
  have half: "(high - low) / 2 / 2 ^ n = (high - low) / 2 ^ Suc n" by simp
  consider "\<bar>fm\<bar> < TOLERANCE exact" "y = ?m" | "high - low < 1 / 10 ^ 12" "y = ?m"
    | "fl * fm < 0" "bisect_loop exact f n low ?m fl = Inr y"
    | "\<not> \<bar>fm\<bar> < TOLERANCE exact" "0 \<le> fl * fm" "bisect_loop exact f n ?m high fm = Inr y"
    using body by (auto simp: exact_def split: if_splits)
  then show ?case
  proof cases
    case 1
    then show ?thesis using fm by (simp add: bracketed_def)
  next
    case 2
    have "high - low \<le> max (1 / 10 ^ 12) ((high - low) / 2 ^ Suc n)" using 2(1) by simp
    then show ?thesis using 2(2) m Suc.prems(3,5,6) unfolding bracketed_def by blast
  next
    case 3
    then show ?thesis using Suc.IH [OF 3(2) m(1) Suc.prems(3,4) fm] by (simp only: m(4) half less_imp_le)
  next
    case 4
    have "fm \<noteq> 0" using 4(1) by (auto simp: TOLERANCE_def exact_def)
    moreover from this have "fm * fh \<le> 0" by (rule sign_kept [OF Suc.prems(6) 4(2) Suc.prems(4)])
    ultimately show ?thesis
      using Suc.IH [OF 4(3) m(2) fm _ Suc.prems(5)] by (simp only: m(3) half not_False_eq_True)
  qed
qed

lemma bisect_bracket:
  assumes "bisect exact f = Inr (Some y)" and "f (- 1 / 2) \<noteq> Inr 0"
  shows "bracketed f (1 / 10 ^ 12) y (TOLERANCE exact)"
proof -
  from assms obtain a b where ab: "f (- 1 / 2) = Inr a" "f 2 = Inr b" "a * b \<le> 0" "a \<noteq> 0"
    and l: "bisect_loop exact f 200 (- 1 / 2) 2 a = Inr y"
    by (auto simp: bisect_def bind_result_Inr_iff map_sum_def exact_def not_less split: if_splits sum.splits)
  have "bracketed f (max (1 / 10 ^ 12) ((2 - - 1 / 2) / 2 ^ 200)) y (TOLERANCE exact)"
    by (rule bisect_loop_bracket [OF l _ ab(1,4,2,3)]) simp
  then show ?thesis by (rule bracketed_mono) simp
qed

lemma solve_ytm_accuracy:
  assumes "solve_ytm exact pw price flows ppy g = Inr (Some y)"
    and "price_gap exact pw flows ppy price (- 1 / 2) \<noteq> Inr 0"
  shows "bracketed (price_gap exact pw flows ppy price) (1 / 10 ^ 12) y (TOLERANCE exact)"
proof -
  let ?f = "price_gap exact pw flows ppy price"
  from assms(1) consider "newton_loop exact ?f (\<lambda>r. present_value_derivative exact pw r flows ppy) 100 g = Inr (Some y)"
    | "bisect exact ?f = Inr (Some y)"
    by (auto simp: solve_ytm_def newton_raphson_def bind_result_Inr_iff Let_def split: option.splits)
  then show ?thesis
  proof cases
    case 1
    from newton_loop_root [OF this] show ?thesis by (simp add: bracketed_def)
  next
    case 2
    then show ?thesis using assms(2) by (rule bisect_bracket)
  qed
qed


section \<open>Properties\<close>

lemma fl64_half: "fl64 (1 / 2) = 1 / 2"
proof (rule fl64_representable)
  have "(1 / 2 :: rat) = of_int 1 * 2 powi (- 1)" by simp
  then show "representable (1 / 2)" unfolding representable_def by fastforce
qed

lemma TOLERANCE_pos: "0 < TOLERANCE fl64"
proof -
  have "(1 / 2 ^ 30 :: rat) = of_int 1 * 2 powi (- 30)" by simp
  then have "representable (1 / 2 ^ 30)" unfolding representable_def by fastforce
  then have "fl64 (1 / 2 ^ 30) = 1 / 2 ^ 30" by (rule fl64_representable)
  moreover have "fl64 (1 / 2 ^ 30) \<le> fl64 (1 / 10 ^ 8)" by (rule fl64_mono) simp
  ultimately show ?thesis by (simp add: TOLERANCE_def)
qed

text \<open>
  C29. \<open>calculate_ytm\<close> always returns (its date loop and both iterations end), it raises
  \<open>YtmCalculationError\<close> exactly for the inputs its documentation excludes, and on valid inputs the
  only other exceptions are the arithmetic ones.
\<close>

theorem ytm_terminates_and_validates:
  assumes "valid_date maturity"
  shows "\<exists>r. calculate_ytm fl64 pw price rate period maturity nominal today cashflows = Some r
    \<and> (r = Inl YtmCalculationError \<longleftrightarrow>
        period < 0 \<or> rate < 0 \<or> nominal \<le> 0 \<or> price < 1 \<or> price > fl64 (10 * fl64 (of_int nominal))
        \<or> maturity \<le> today)
    \<and> (\<forall>e. r = Inl e \<longrightarrow> e \<in> {YtmCalculationError, ZeroDivisionError, OverflowError, TypeError})"
proof -
  let ?v = "validate_inputs fl64 price rate period maturity nominal today"
  have valid: "?v = Inr () \<longleftrightarrow> \<not> (period < 0 \<or> rate < 0 \<or> nominal \<le> 0 \<or> price < 1
      \<or> price > fl64 (10 * fl64 (of_int nominal)) \<or> maturity \<le> today)"
    by (auto simp: validate_inputs_Inr)
  obtain r where r: "calculate_ytm fl64 pw price rate period maturity nominal today cashflows = Some r"
    using calculate_ytm_total [OF assms] by blast
  have err: "if ?v = Inr () then arithmetic_error e else e = YtmCalculationError" if "r = Inl e" for e
    by (rule calculate_ytm_Inl [OF assms]) (use that r in simp)
  have "r = Inl YtmCalculationError" if "?v \<noteq> Inr ()"
    using that validate_inputs_cases [of fl64 price rate period maturity nominal today] r
    by (auto simp: calculate_ytm_def)
  moreover have "?v \<noteq> Inr ()" if "r = Inl YtmCalculationError"
    using err [OF that] by (auto simp: arithmetic_error_def)
  moreover have "\<forall>e. r = Inl e \<longrightarrow> e \<in> {YtmCalculationError, ZeroDivisionError, OverflowError, TypeError}"
    using err by (auto simp: arithmetic_error_def split: if_splits)
  ultimately show ?thesis using r valid by metis
qed

theorem ytm_terminates_and_validates_witness:
  "calculate_ytm fl64 (\<lambda>x y. x) (1 / 2) 10 182 (Date 739800) 1000 (Date 739000) None
     = Some (Inl YtmCalculationError)"
  using ytm_terminates_and_validates [of "Date 739800" "\<lambda>x y. x" "1 / 2" 10 182 1000 "Date 739000" None]
  by (auto simp: valid_date_def min_ordinal_def max_ordinal_def)

text \<open>
  C30. In floating point, a rate found for a coupon-bearing bond (or for a stored schedule) lies
  within the solver's bounds, -0.5 and 2.0; and \<open>None\<close> is answered only when the pricing function has
  the same sign at both bounds.
\<close>

theorem ytm_within_bounds:
  assumes "calculate_ytm fl64 pw price rate period maturity nominal today cashflows = Some (Inr r)"
    and "(\<exists>c cs. cashflows = Some (c # cs)) \<or> (period \<noteq> 0 \<and> rate \<noteq> 0)" and "valid_date maturity"
  shows "\<exists>flows. cash_flows fl64 maturity period today (period_coupon fl64 nominal rate period) nominal cashflows
      = Some (Inr flows)
    \<and> (case r of
         Some y \<Rightarrow> - 1 / 2 \<le> y \<and> y \<le> 2
       | None \<Rightarrow> \<exists>a b. price_gap fl64 pw flows (fl64 (365 / of_int period)) price (- 1 / 2) = Inr a
           \<and> price_gap fl64 pw flows (fl64 (365 / of_int period)) price 2 = Inr b \<and> 0 < fl64 (a * b))"
proof -
  have v: "validate_inputs fl64 price rate period maturity nominal today = Inr ()"
    using assms(1) validate_inputs_cases [of fl64 price rate period maturity nominal today]
    by (auto simp: calculate_ytm_def)
  show ?thesis
  proof (cases "period = 0")
    case True
    then show ?thesis using assms v by (auto simp: calculate_ytm_def Let_def)
  next
    case False
    then have p: "0 < period" using v by (simp add: validate_inputs_Inr)
    let ?cf = "cash_flows fl64 maturity period today (period_coupon fl64 nominal rate period) nominal cashflows"
    from cash_flows_cases [OF p assms(3), of fl64 today _ nominal cashflows]
    consider flows where "?cf = Some (Inr flows)" | "?cf = Some (Inl OverflowError)" by blast
    then show ?thesis
    proof cases
      case 1
      have "calculate_ytm fl64 pw price rate period maturity nominal today cashflows =
          Some (bind_result (initial_guess fl64 price rate nominal (days_between maturity today))
            (solve_ytm fl64 pw price flows (fl64 (365 / of_int period))))"
        by (rule calculate_ytm_solver [OF v _ False 1]) (use assms(2) in blast)
      with assms(1) obtain g where "initial_guess fl64 price rate nominal (days_between maturity today) = Inr g"
        and "solve_ytm fl64 pw price flows (fl64 (365 / of_int period)) g = Inr r"
        by (auto simp: bind_result_Inr_iff)
      then show ?thesis using 1 b64.solve_ytm_result [OF _ _ _ fl64_half] initial_guess_range by blast
    next
      case 2
      then show ?thesis using assms(1,2) v False by (auto simp: calculate_ytm_def Let_def split: if_splits)
    qed
  qed
qed

text \<open>A one-year bond at par plus coupon, bought at 1100: the yield is 0.\<close>

lemma sample_ytm:
  "calculate_ytm fl64 (\<lambda>x y. x) 1100 10 365 (Date 739365) 1000 (Date 739000) None = Some (Inr (Some 0))"
  using TOLERANCE_pos
  by (simp add: calculate_ytm_def validate_inputs_def price_bounds_def days_between_def cash_flows_def
      future_payment_dates_def grid_loop.simps date_sub_cases min_ordinal_def max_ordinal_def Let_def
      period_coupon_def initial_guess_def py_div_def solve_ytm_def newton_raphson_def
      eval_nat_numeral price_gap_def present_value_def periods_of_def py_pow_def is_finite64_def)

theorem ytm_within_bounds_witness:
  "calculate_ytm fl64 (\<lambda>x y. x) 1100 10 365 (Date 739365) 1000 (Date 739000) None = Some (Inr (Some 0))
    \<and> - 1 / 2 \<le> (0::rat) \<and> (0::rat) \<le> 2"
  using ytm_within_bounds [OF sample_ytm] sample_ytm
  by (auto simp: valid_date_def min_ordinal_def max_ordinal_def)


text \<open>
  C31. Without rounding, a rate found for a coupon-bearing bond is a root of the pricing function up
  to the solver's tolerance: either the present value at the rate is within 1e-8 of the price, or
  the rate lies in an interval no wider than 1e-12 over which the present value crosses the price.
  (The bisection needs a nonzero gap at its lower bound.)
\<close>

theorem ytm_accuracy:
  assumes "calculate_ytm exact pw price rate period maturity nominal today cashflows = Some (Inr (Some y))"
    and "rate \<noteq> 0" and "0 < period" and "valid_date maturity"
  shows "\<exists>flows. cash_flows exact maturity period today (period_coupon exact nominal rate period) nominal cashflows
      = Some (Inr flows)
    \<and> (price_gap exact pw flows (365 / of_int period) price (- 1 / 2) \<noteq> Inr 0 \<longrightarrow>
        (\<exists>v. price_gap exact pw flows (365 / of_int period) price y = Inr v \<and> \<bar>v\<bar> < 1 / 10 ^ 8)
        \<or> (\<exists>a b va vb. a \<le> y \<and> y \<le> b \<and> b - a \<le> 1 / 10 ^ 12
            \<and> price_gap exact pw flows (365 / of_int period) price a = Inr va
            \<and> price_gap exact pw flows (365 / of_int period) price b = Inr vb \<and> va * vb \<le> 0))"
proof -
  have v: "validate_inputs exact price rate period maturity nominal today = Inr ()"
    using assms(1) validate_inputs_cases [of exact price rate period maturity nominal today]
    by (auto simp: calculate_ytm_def)
  have p: "period \<noteq> 0" using assms(3) by simp
  let ?cf = "cash_flows exact maturity period today (period_coupon exact nominal rate period) nominal cashflows"
  from cash_flows_cases [OF assms(3,4), of exact today _ nominal cashflows]
  consider flows where "?cf = Some (Inr flows)" | "?cf = Some (Inl OverflowError)" by blast
  then show ?thesis
  proof cases
    case 1
    have "calculate_ytm exact pw price rate period maturity nominal today cashflows =
        Some (bind_result (initial_guess exact price rate nominal (days_between maturity today))
          (solve_ytm exact pw price flows (exact (365 / of_int period))))"
      by (rule calculate_ytm_solver [OF v _ p 1]) (simp add: assms(2))
    with assms(1) obtain g where
      g: "solve_ytm exact pw price flows (365 / of_int period) g = Inr (Some y)"
      by (auto simp: bind_result_Inr_iff exact_def)
    show ?thesis
      using 1 solve_ytm_accuracy [OF g] by (auto simp: bracketed_def TOLERANCE_def exact_def)
  next
    case 2
    then show ?thesis using assms(1,2) v p by (auto simp: calculate_ytm_def Let_def split: if_splits)
  qed
qed

lemma sample_ytm_exact:
  "calculate_ytm exact (\<lambda>x y. x) 1100 10 365 (Date 739365) 1000 (Date 739000) None = Some (Inr (Some 0))"
  by (simp add: calculate_ytm_def validate_inputs_def price_bounds_def days_between_def cash_flows_def
      future_payment_dates_def grid_loop.simps date_sub_cases min_ordinal_def max_ordinal_def Let_def
      period_coupon_def initial_guess_def py_div_def solve_ytm_def newton_raphson_def TOLERANCE_def
      eval_nat_numeral price_gap_def present_value_def periods_of_def py_pow_def is_finite64_def exact_def)

theorem ytm_accuracy_witness:
  "\<exists>flows. cash_flows exact (Date 739365) 365 (Date 739000) (period_coupon exact 1000 10 365) 1000 None
    = Some (Inr flows)"
  using ytm_accuracy [OF sample_ytm_exact]
  by (auto simp: valid_date_def min_ordinal_def max_ordinal_def)

text \<open>
  The closed form of a single payment inverts the pricing formula: without rounding, the yield
  \<open>y\<close> of a bond with no coupon period satisfies \<open>price * (1 + y) ** (days / 365) = nominal\<close>, wherever
  raising to an exponent and then to its inverse is the identity.
\<close>

theorem zero_coupon_ytm_inverts_price:
  assumes "calculate_ytm exact pw price rate 0 maturity nominal today None = Some (Inr (Some y))"
    and "pw (pw (of_int nominal / price) (365 / of_int (days_between maturity today)))
            (of_int (days_between maturity today) / 365) = of_int nominal / price"
  shows "price * pw (1 + y) (of_int (days_between maturity today) / 365) = of_int nominal"
proof -
  have v: "validate_inputs exact price rate 0 maturity nominal today = Inr ()"
    using assms(1) validate_inputs_cases [of exact price rate 0 maturity nominal today]
    by (auto simp: calculate_ytm_def)
  then have ok: "1 \<le> price" "today < maturity" by (simp_all add: validate_inputs_Inr)
  have "zero_coupon_ytm exact pw price 0 nominal (days_between maturity today) = Inr y"
    using assms(1) v by (auto simp: calculate_ytm_def Let_def map_sum_def split: sum.splits)
  then have "y = pw (of_int nominal / price) (365 / of_int (days_between maturity today)) - 1"
    using ok by (auto simp: zero_coupon_ytm_def bind_result_Inr_iff py_div_def py_pow_def exact_def
        days_between_def less_date_def split: if_splits)
  then show ?thesis using assms(2) ok by simp
qed

theorem zero_coupon_ytm_inverts_price_witness:
  "800 * (1 + (1 / 4)) = (of_int 1000 :: rat)"
proof -
  have "calculate_ytm exact (\<lambda>x y. x) 800 0 0 (Date 739365) 1000 (Date 739000) None = Some (Inr (Some (1 / 4)))"
    by (simp add: calculate_ytm_def validate_inputs_def price_bounds_def zero_coupon_ytm_def py_div_def
        py_pow_def is_finite64_def days_between_def exact_def Let_def)
  from zero_coupon_ytm_inverts_price [OF this] show ?thesis by simp
qed

text \<open>
  A stored coupon schedule takes priority over the closed form even for a bond with no coupon
  period, and the call then divides by the period: on valid inputs it raises \<open>ZeroDivisionError\<close>.
\<close>

theorem ytm_stored_schedule_zero_period:
  assumes "0 \<le> rate" and "0 < nominal" and "1 \<le> price" and "price \<le> fl64 (10 * fl64 (of_int nominal))"
    and "today < maturity"
  shows "calculate_ytm fl64 pw price rate 0 maturity nominal today (Some (c # cs)) = Some (Inl ZeroDivisionError)"
proof -
  have "validate_inputs fl64 price rate 0 maturity nominal today = Inr ()"
    using assms by (simp add: validate_inputs_Inr)
  then show ?thesis by (simp add: calculate_ytm_def)
qed

theorem ytm_stored_schedule_zero_period_witness:
  "calculate_ytm fl64 (\<lambda>x y. x) 900 0 0 (Date 739365) 1000 (Date 739000)
     (Some [\<lparr>payment_date = Date 739365, amount = 1000, is_final = True\<rparr>]) = Some (Inl ZeroDivisionError)"
  by (rule ytm_stored_schedule_zero_period) simp_all

text \<open>
  The closed form is not guarded against a large growth factor: where the power of the last days
  leaves the float range, a valid input raises \<open>OverflowError\<close>, which is not the documented
  \<open>YtmCalculationError\<close>.
\<close>

theorem zero_coupon_ytm_overflow:
  assumes "1 \<le> price" and "price \<le> fl64 (10 * fl64 (of_int nominal))" and "0 < nominal"
    and "0 < days_between maturity today"
    and "fl64 (365 / fl64 (fl64 (of_int (days_between maturity today)))) \<noteq> 0"
    and "fl64 (of_int (days_between maturity today)) \<noteq> 0"
    and "0 < fl64 (fl64 (of_int nominal) / price)"
    and "2 ^ 1024 \<le> pw (fl64 (fl64 (of_int nominal) / price))
           (fl64 (365 / fl64 (fl64 (of_int (days_between maturity today)))))"
  shows "calculate_ytm fl64 pw price 0 0 maturity nominal today None = Some (Inl OverflowError)"
proof -
  have "validate_inputs fl64 price 0 0 maturity nominal today = Inr ()"
    using assms by (simp add: validate_inputs_Inr days_between_def less_date_def)
  moreover have "fl64 (fl64 (of_int (days_between maturity today))) \<noteq> 0"
    using assms(6) by (simp add: b64.rnd_idem)
  ultimately show ?thesis
    using assms by (simp add: calculate_ytm_def zero_coupon_ytm_def py_div_def py_pow_def is_finite64_def Let_def)
qed

theorem zero_coupon_ytm_overflow_witness:
  "calculate_ytm fl64 (\<lambda>x y. x ^ nat \<lfloor>y\<rfloor>) 100 0 0 (Date 739001) 1000 (Date 739000) None = Some (Inl OverflowError)"
  by (rule zero_coupon_ytm_overflow) (simp_all add: days_between_def)

end
