(* ===== verification/Netting.thy ===== *)
theory Netting
  imports Models
begin

text \<open>
  \<open>portfolio/netting.py\<close>: the average-cost walk over the transactions of one bond. The arithmetic
  is a parameter: \<open>rnd\<close> rounds the result of every float operation, \<open>fl64\<close> gives the program
  and \<open>exact\<close> the algorithm without rounding. An \<open>int\<close> operand of a float operation is converted
  first (\<open>rnd (of_int n)\<close>) and \<open>closed / open_quantity\<close> is Python's correctly rounded division of
  two \<open>int\<close>s. The log lines are not modelled.
\<close>

section \<open>The walk\<close>

record netting_state =
  ns_quantity :: int
  ns_open :: int
  ns_cost :: rat
  ns_sells :: rat
  ns_maturities :: rat
  ns_commissions :: rat

definition netting_init :: netting_state where
  "netting_init = \<lparr>ns_quantity = 0, ns_open = 0, ns_cost = 0, ns_sells = 0, ns_maturities = 0,
     ns_commissions = 0\<rparr>"

text \<open>One iteration of the loop of \<open>_netting\<close>; the \<open>continue\<close>s are the ends of the branches.\<close>

definition netting_step :: "(rat \<Rightarrow> rat) \<Rightarrow> netting_state \<Rightarrow> txn_row \<Rightarrow> netting_state" where
  "netting_step rnd st txn =
     (if t_type txn = ''BUY'' then
        st\<lparr>ns_quantity := ns_quantity st + t_quantity txn,
           ns_open := ns_open st + t_quantity txn,
           ns_cost := rnd (ns_cost st + rnd (t_price txn * rnd (of_int (t_quantity txn))))\<rparr>
      else
        let st1 = st\<lparr>ns_quantity := ns_quantity st - t_quantity txn,
                     ns_commissions := rnd (ns_commissions st + t_commission txn)\<rparr>
        in if ns_open st1 \<le> 0 then st1
           else
             let closed = (if t_quantity txn > ns_open st1 then ns_open st1 else t_quantity txn);
                 pnl = rnd (rnd (t_price txn - rnd (ns_cost st1 / rnd (of_int (ns_open st1))))
                         * rnd (of_int closed));
                 st2 = (if t_type txn = ''SELL''
                        then st1\<lparr>ns_sells := rnd (ns_sells st1 + pnl)\<rparr>
                        else st1\<lparr>ns_maturities := rnd (ns_maturities st1 + pnl)\<rparr>);
                 cost = rnd (ns_cost st2
                           - rnd (ns_cost st2 * rnd (of_int closed / of_int (ns_open st2))));
                 left = ns_open st2 - closed
             in st2\<lparr>ns_cost := (if left = 0 then 0 else cost), ns_open := left\<rparr>)"

definition netting :: "(rat \<Rightarrow> rat) \<Rightarrow> txn_row list \<Rightarrow> netting_state" where
  "netting rnd txns = foldl (netting_step rnd) netting_init txns"

definition net_position :: "(rat \<Rightarrow> rat) \<Rightarrow> txn_row list \<Rightarrow> int \<times> rat option" where
  "net_position rnd txns =
     (let state = netting rnd txns;
          avg_buy_price = (if ns_open state > 0
                           then Some (rnd (ns_cost state / rnd (of_int (ns_open state)))) else None)
      in (ns_quantity state, avg_buy_price))"

definition realized_pnl :: "(rat \<Rightarrow> rat) \<Rightarrow> txn_row list \<Rightarrow> rat \<times> rat \<times> rat" where
  "realized_pnl rnd txns =
     (let state = netting rnd txns in (ns_sells state, ns_maturities state, ns_commissions state))"

section \<open>Specification\<close>

text \<open>The quantities of the docstring, and the histories no exit of which exceeds what is held.\<close>

abbreviation is_buy :: "txn_row \<Rightarrow> bool" where "is_buy t \<equiv> t_type t = ''BUY''"

definition bought :: "txn_row list \<Rightarrow> int" where
  "bought txns = sum_over is_buy t_quantity txns"

definition closed_out :: "txn_row list \<Rightarrow> int" where
  "closed_out txns = sum_over (\<lambda>t. \<not> is_buy t) t_quantity txns"

definition held :: "txn_row list \<Rightarrow> int" where
  "held txns = bought txns - closed_out txns"

definition positive_rows :: "txn_row list \<Rightarrow> bool" where
  "positive_rows txns \<longleftrightarrow> (\<forall>t \<in> set txns. 0 < t_quantity t \<and> 0 \<le> t_price t)"

fun never_oversold_from :: "int \<Rightarrow> txn_row list \<Rightarrow> bool" where
  "never_oversold_from h [] \<longleftrightarrow> True"
| "never_oversold_from h (t # ts) \<longleftrightarrow>
     (let h' = (if is_buy t then h + t_quantity t else h - t_quantity t)
      in 0 \<le> h' \<and> never_oversold_from h' ts)"

definition never_oversold :: "txn_row list \<Rightarrow> bool" where
  "never_oversold txns = never_oversold_from 0 txns"

lemma netting_Nil [simp]: "netting rnd [] = netting_init"
  by (simp add: netting_def)

lemma netting_snoc [simp]: "netting rnd (txns @ [t]) = netting_step rnd (netting rnd txns) t"
  by (simp add: netting_def)

lemma held_simps [simp]:
  "held [] = 0"
  "held (xs @ ys) = held xs + held ys"
  by (simp_all add: held_def bought_def closed_out_def)

lemma held_mset: assumes "mset xs = mset ys" shows "held xs = held ys"
  by (simp only: held_def bought_def closed_out_def sum_over_mset [OF assms])

lemma held_Cons [simp]: "held (t # ts) = (if is_buy t then t_quantity t else - t_quantity t) + held ts"
  by (simp add: held_def bought_def closed_out_def)

lemma never_oversold_from_append:
  "never_oversold_from h (xs @ ys) \<longleftrightarrow> never_oversold_from h xs \<and> never_oversold_from (h + held xs) ys"
  by (induction xs arbitrary: h) (simp_all add: Let_def algebra_simps)

lemma never_oversold_snoc:
  "never_oversold (xs @ [t]) \<longleftrightarrow> never_oversold xs \<and> 0 \<le> held (xs @ [t])"
  by (simp add: never_oversold_def never_oversold_from_append Let_def)

lemma positive_rows_simps [simp]:
  "positive_rows []"
  "positive_rows (t # ts) \<longleftrightarrow> 0 < t_quantity t \<and> 0 \<le> t_price t \<and> positive_rows ts"
  "positive_rows (xs @ ys) \<longleftrightarrow> positive_rows xs \<and> positive_rows ys"
  by (auto simp: positive_rows_def)

text \<open>The fields after one step.\<close>

lemma step_quantity:
  "ns_quantity (netting_step rnd st t) = ns_quantity st + (if is_buy t then t_quantity t else - t_quantity t)"
  by (simp add: netting_step_def Let_def)

lemma step_open:
  "ns_open (netting_step rnd st t) =
     (if is_buy t then ns_open st + t_quantity t
      else if ns_open st \<le> 0 then ns_open st else ns_open st - min (ns_open st) (t_quantity t))"
  by (simp add: netting_step_def Let_def min_def)

lemma step_cost:
  "ns_cost (netting_step rnd st t) =
     (if is_buy t then rnd (ns_cost st + rnd (t_price t * rnd (of_int (t_quantity t))))
      else if ns_open st \<le> 0 then ns_cost st
      else if ns_open st \<le> t_quantity t then 0
      else rnd (ns_cost st - rnd (ns_cost st * rnd (of_int (t_quantity t) / of_int (ns_open st)))))"
  by (simp add: netting_step_def Let_def)

lemmas netting_fields [simp] = netting_init_def

section \<open>Quantities\<close>

lemma netting_quantity: "ns_quantity (netting rnd txns) = held txns"
  by (induction txns rule: rev_induct) (simp_all add: step_quantity)

text \<open>What the walk keeps of the open quantity, whatever the rounding.\<close>

lemma netting_open:
  "positive_rows txns \<Longrightarrow> 0 \<le> ns_open (netting rnd txns) \<and> held txns \<le> ns_open (netting rnd txns)"
  by (induction txns rule: rev_induct) (auto simp: step_open)

lemma netting_open_held:
  "positive_rows txns \<Longrightarrow> never_oversold txns \<Longrightarrow> ns_open (netting rnd txns) = held txns"
proof (induction txns rule: rev_induct)
  case (snoc t txns)
  then show ?case by (cases "is_buy t") (auto simp: never_oversold_snoc step_open)
qed simp

section \<open>The cost basis\<close>

text \<open>For any rounding: the cost basis is a nonnegative float, and 0 when nothing is open.\<close>

context rounding
begin

lemma step_cost_ok:
  assumes "0 \<le> ns_cost st" and "rnd (ns_cost st) = ns_cost st" and "0 < t_quantity t" and "0 \<le> t_price t"
  shows "0 \<le> ns_cost (netting_step rnd st t)
    \<and> rnd (ns_cost (netting_step rnd st t)) = ns_cost (netting_step rnd st t)"
proof -
  have "0 \<le> rnd (ns_cost st + rnd (t_price t * rnd (of_int (t_quantity t))))"
    using assms by (intro rnd_nonneg add_nonneg_nonneg mult_nonneg_nonneg) simp_all
  moreover have "0 \<le> rnd (ns_cost st - rnd (ns_cost st * rnd (of_int (t_quantity t) / of_int (ns_open st))))"
    if "0 < ns_open st" "t_quantity t < ns_open st"
    using that assms by (intro remainder_nonneg) simp_all
  ultimately show ?thesis using assms by (auto simp: step_cost rnd_idem rnd_0)
qed

lemma netting_cost_ok:
  "positive_rows txns \<Longrightarrow>
   0 \<le> ns_cost (netting rnd txns) \<and> rnd (ns_cost (netting rnd txns)) = ns_cost (netting rnd txns)"
  by (induction txns rule: rev_induct) (simp_all add: step_cost_ok rnd_0)

lemma avg_nonneg:
  "positive_rows txns \<Longrightarrow> snd (net_position rnd txns) = Some a \<Longrightarrow> 0 \<le> a"
  using netting_cost_ok [of txns]
  by (auto simp: net_position_def Let_def rnd_nonneg rnd_of_int_nonneg split: if_splits)

end

lemma netting_flat_cost:
  "positive_rows txns \<Longrightarrow> ns_open (netting rnd txns) = 0 \<Longrightarrow> ns_cost (netting rnd txns) = 0"
proof (induction txns rule: rev_induct)
  case (snoc t txns)
  then show ?case using netting_open [of txns rnd] by (auto simp: step_open step_cost min_def split: if_splits)
qed simp

text \<open>
  After a full close the walk forgets: open quantity and cost basis of \<open>pre @ suf\<close> are those of
  \<open>suf\<close> alone.
\<close>

lemma netting_reset:
  assumes "positive_rows pre" and "ns_open (netting rnd pre) = 0"
  shows "ns_open (netting rnd (pre @ suf)) = ns_open (netting rnd suf)
    \<and> ns_cost (netting rnd (pre @ suf)) = ns_cost (netting rnd suf)"
proof (induction suf rule: rev_induct)
  case Nil
  then show ?case using assms by (simp add: netting_flat_cost)
next
  case (snoc t suf)
  then show ?case by (simp add: step_open step_cost del: append_assoc flip: append_assoc)
qed

section \<open>The exact walk\<close>

lemma exact_divide: "exact (x / exact y) = x / y"
  by (simp add: exact_def)

lemma step_cost_exact:
  "ns_cost (netting_step exact st t) =
     (if is_buy t then ns_cost st + t_price t * of_int (t_quantity t)
      else if ns_open st \<le> 0 then ns_cost st
      else if ns_open st \<le> t_quantity t then 0
      else ns_cost st - ns_cost st * (of_int (t_quantity t) / of_int (ns_open st)))"
  by (simp add: step_cost exact_def)

lemma step_realized_exact:
  "ns_sells (netting_step exact st t) + ns_maturities (netting_step exact st t) =
     ns_sells st + ns_maturities st +
     (if is_buy t \<or> ns_open st \<le> 0 then 0
      else (t_price t - ns_cost st / of_int (ns_open st)) * of_int (min (ns_open st) (t_quantity t)))"
  by (simp add: netting_step_def Let_def min_def exact_def)

text \<open>What the buys cost, and what the exits brought in.\<close>

definition outlay :: "txn_row list \<Rightarrow> rat" where
  "outlay txns = sum_over is_buy (\<lambda>t. t_price t * of_int (t_quantity t)) txns"

definition proceeds :: "txn_row list \<Rightarrow> rat" where
  "proceeds txns = sum_over (\<lambda>t. \<not> is_buy t) (\<lambda>t. t_price t * of_int (t_quantity t)) txns"

lemma netting_conservation:
  "positive_rows txns \<Longrightarrow> never_oversold txns \<Longrightarrow>
   ns_sells (netting exact txns) + ns_maturities (netting exact txns) =
     proceeds txns - (outlay txns - ns_cost (netting exact txns))"
proof (induction txns rule: rev_induct)
  case (snoc t txns)
  from snoc.prems have ok: "positive_rows txns" "never_oversold txns"
    by (simp_all add: never_oversold_snoc)
  then have IH: "ns_sells (netting exact txns) + ns_maturities (netting exact txns) =
      proceeds txns - (outlay txns - ns_cost (netting exact txns))" by (rule snoc.IH)
  from ok have h: "ns_open (netting exact txns) = held txns" by (rule netting_open_held)
  show ?case
  proof (cases "is_buy t")
    case True
    then show ?thesis using IH by (simp add: step_realized_exact step_cost_exact proceeds_def outlay_def)
  next
    case False
    with snoc.prems have q: "0 < t_quantity t" "t_quantity t \<le> held txns" "\<not> held txns \<le> 0"
      by (auto simp: never_oversold_snoc)
    have full: "ns_cost (netting exact txns) / of_int (held txns) * of_int (held txns)
        = ns_cost (netting exact txns)" using q by simp
    have IH': "ns_sells (netting exact txns) =
        proceeds txns - (outlay txns - ns_cost (netting exact txns)) - ns_maturities (netting exact txns)"
      using IH by simp
    show ?thesis
    proof (cases "t_quantity t = held txns")
      case True
      then show ?thesis using False q full
        by (simp add: step_realized_exact step_cost_exact proceeds_def outlay_def h IH' left_diff_distrib)
    next
      case less: False
      with q have "\<not> held txns \<le> t_quantity t" by simp
      then show ?thesis using False q
        by (simp add: step_realized_exact step_cost_exact proceeds_def outlay_def h IH' left_diff_distrib min_def)
    qed
  qed
qed (simp add: proceeds_def outlay_def)

lemma exact_partial_close:
  assumes "\<not> is_buy t" and "0 < t_quantity t" and "t_quantity t < ns_open (netting exact txns)"
  shows "snd (net_position exact (txns @ [t])) = snd (net_position exact txns)"
proof -
  let ?o = "ns_open (netting exact txns)" and ?c = "ns_cost (netting exact txns)"
  have o: "0 < ?o" "(of_int ?o :: rat) - of_int (t_quantity t) \<noteq> 0" using assms by simp_all
  have "(?c - ?c * (of_int (t_quantity t) / of_int ?o)) / (of_int ?o - of_int (t_quantity t)) = ?c / of_int ?o"
    using o by (simp add: field_simps)
  then show ?thesis using assms o
    by (simp add: net_position_def Let_def step_open step_cost_exact exact_divide)
qed

text \<open>The average lies between the lowest and the highest price paid.\<close>

lemma exact_cost_between:
  assumes "\<And>t. t \<in> set txns \<Longrightarrow> is_buy t \<Longrightarrow> lo \<le> t_price t \<and> t_price t \<le> hi"
    and "positive_rows txns"
  shows "lo * of_int (ns_open (netting exact txns)) \<le> ns_cost (netting exact txns)
    \<and> ns_cost (netting exact txns) \<le> hi * of_int (ns_open (netting exact txns))"
  using assms
proof (induction txns rule: rev_induct)
  case (snoc t txns)
  let ?o = "of_int (ns_open (netting exact txns)) :: rat" and ?c = "ns_cost (netting exact txns)"
  let ?q = "of_int (t_quantity t) :: rat"
  from snoc.prems have "\<And>t. t \<in> set txns \<Longrightarrow> is_buy t \<Longrightarrow> lo \<le> t_price t \<and> t_price t \<le> hi" "positive_rows txns"
    by simp_all
  then have "lo * ?o \<le> ?c \<and> ?c \<le> hi * ?o" by (rule snoc.IH)
  then have IH: "lo * ?o \<le> ?c" "?c \<le> hi * ?o" by blast+
  have q: "0 < t_quantity t" using snoc.prems by simp
  show ?case
  proof (cases "is_buy t")
    case True
    then have "lo * ?q \<le> t_price t * ?q" "t_price t * ?q \<le> hi * ?q"
      using snoc.prems(1) [of t] q by (auto intro: mult_right_mono)
    then show ?thesis using True IH by (simp add: step_open step_cost_exact algebra_simps)
  next
    case False
    have scale: "lo * (?o - ?q) \<le> ?c - ?c * (?q / ?o) \<and> ?c - ?c * (?q / ?o) \<le> hi * (?o - ?q)"
      if "t_quantity t < ns_open (netting exact txns)"
    proof -
      have f: "0 \<le> (?o - ?q) / ?o" using that q by simp
      have eq: "x * ?o * ((?o - ?q) / ?o) = x * (?o - ?q)" for x using that q by simp
      have "?c - ?c * (?q / ?o) = ?c * ((?o - ?q) / ?o)" using that q by (simp add: field_simps)
      moreover have "lo * ?o * ((?o - ?q) / ?o) \<le> ?c * ((?o - ?q) / ?o)" using IH(1) f by (rule mult_right_mono)
      moreover have "?c * ((?o - ?q) / ?o) \<le> hi * ?o * ((?o - ?q) / ?o)" using IH(2) f by (rule mult_right_mono)
      ultimately show ?thesis by (simp only: eq)
    qed
    then show ?thesis using False IH by (auto simp: step_open step_cost_exact)
  qed
qed simp

section \<open>Properties\<close>

text \<open>A history for the witnesses: one bond, one account, distinct rows.\<close>

definition sample_txn :: "int \<Rightarrow> string \<Rightarrow> int \<Rightarrow> rat \<Rightarrow> txn_row" where
  "sample_txn i kind q p = \<lparr>t_id = i, t_user_id = 1, t_bond_id = 1, t_account_id = 1, t_type = kind,
     t_quantity = q, t_price = p, t_date = Date (738000 + i), t_commission = 0, t_created_at = i\<rparr>"

definition sample_history :: "txn_row list" where
  "sample_history = [sample_txn 1 ''BUY'' 10 100, sample_txn 2 ''SELL'' 5 120, sample_txn 3 ''BUY'' 5 110]"

lemma sample_history_ok:
  "positive_rows sample_history" "never_oversold sample_history" "held sample_history = 10"
  by (simp_all add: sample_history_def sample_txn_def never_oversold_def)

text \<open>
  C25. In floating point: \<open>net_position\<close> returns BUY minus SELL minus MATURE as the quantity, and a
  position with a positive quantity has an average price, which is not negative.
\<close>

theorem net_position_sound:
  assumes "positive_rows txns"
  shows "fst (net_position fl64 txns) = held txns
    \<and> (0 < held txns \<longrightarrow> (\<exists>a. snd (net_position fl64 txns) = Some a \<and> 0 \<le> a))"
  using assms netting_open [of txns fl64] b64.avg_nonneg [of txns]
  by (auto simp: net_position_def Let_def netting_quantity)

theorem net_position_sound_witness:
  "\<exists>a. net_position fl64 sample_history = (10, Some a) \<and> 0 \<le> a"
  using net_position_sound [OF sample_history_ok(1)]
  by (auto simp: sample_history_ok prod_eq_iff)

text \<open>
  C26. On a history that never sells more than is held, the clamped open quantity of the walk is the
  held quantity and, in floating point, the average is \<open>None\<close> exactly for a flat position.
\<close>

theorem netting_open_is_held:
  assumes "positive_rows txns" and "never_oversold txns"
  shows "ns_open (netting fl64 txns) = held txns
    \<and> (snd (net_position fl64 txns) = None \<longleftrightarrow> fst (net_position fl64 txns) = 0)"
  using netting_open_held [OF assms, of fl64] netting_open [OF assms(1), of fl64]
  by (auto simp: net_position_def Let_def netting_quantity)

theorem netting_open_is_held_witness: "ns_open (netting fl64 sample_history) = 10"
  using netting_open_is_held [OF sample_history_ok(1,2)] by (simp add: sample_history_ok)

text \<open>
  A full close resets the basis: after a prefix that leaves nothing held, the average price of
  the whole history is the average of the later transactions alone, in floating point.
\<close>

theorem net_position_reset:
  assumes "positive_rows pre" and "never_oversold pre" and "held pre = 0"
  shows "net_position fl64 (pre @ suf) = net_position fl64 suf"
proof -
  from assms have "ns_open (netting fl64 pre) = 0" by (simp add: netting_open_held)
  with assms(1) netting_reset [of pre fl64 suf] show ?thesis
    using assms(3) by (simp add: net_position_def Let_def netting_quantity)
qed

theorem net_position_reset_witness:
  "net_position fl64 ([sample_txn 1 ''BUY'' 10 100, sample_txn 2 ''SELL'' 10 120] @ sample_history)
     = net_position fl64 sample_history"
  by (rule net_position_reset) (simp_all add: sample_txn_def never_oversold_def)

text \<open>
  C39. Money is conserved by the walk without rounding: the realized result of the exits is what
  they brought in less what was paid for the bonds that are gone (all that was paid, less the cost
  basis of what is still open).
\<close>

theorem realized_pnl_conserves_money:
  assumes "positive_rows txns" and "never_oversold txns"
  shows "(case realized_pnl exact txns of (sells, maturities, _) \<Rightarrow> sells + maturities)
    = proceeds txns - (outlay txns - ns_cost (netting exact txns))"
  using netting_conservation [OF assms] by (simp add: realized_pnl_def Let_def)

theorem realized_pnl_conserves_money_witness:
  "(case realized_pnl exact sample_history of (sells, maturities, _) \<Rightarrow> sells + maturities)
    = 600 - (1550 - ns_cost (netting exact sample_history))"
  using realized_pnl_conserves_money [OF sample_history_ok(1,2)]
  by (simp add: proceeds_def outlay_def sample_history_def sample_txn_def)

text \<open>
  Without rounding, a partial exit leaves the average price unchanged, and the average always
  lies between the lowest and the highest price paid.
\<close>

theorem exact_average:
  assumes "positive_rows (txns @ [t])" and "\<not> is_buy t" and "t_quantity t < ns_open (netting exact txns)"
    and "\<forall>b \<in> set txns. is_buy b \<longrightarrow> lo \<le> t_price b \<and> t_price b \<le> hi"
  shows "\<exists>a. snd (net_position exact txns) = Some a \<and> snd (net_position exact (txns @ [t])) = Some a
    \<and> lo \<le> a \<and> a \<le> hi"
proof -
  let ?o = "ns_open (netting exact txns)" and ?a = "ns_cost (netting exact txns) / of_int (ns_open (netting exact txns))"
  from assms have o: "0 < t_quantity t" "0 < ?o" by simp_all
  from o have "snd (net_position exact txns) = Some ?a"
    by (simp add: net_position_def Let_def exact_divide)
  moreover have "snd (net_position exact (txns @ [t])) = Some ?a"
    using exact_partial_close [OF assms(2) o(1) assms(3)] calculation by simp
  moreover have b: "lo * of_int ?o \<le> ns_cost (netting exact txns) \<and> ns_cost (netting exact txns) \<le> hi * of_int ?o"
    using assms by (intro exact_cost_between) auto
  moreover from b o have "lo \<le> ?a" "?a \<le> hi" by (simp_all add: field_simps)
  ultimately show ?thesis by blast
qed

theorem exact_average_witness:
  "\<exists>a. snd (net_position exact [sample_txn 1 ''BUY'' 10 100]) = Some a
     \<and> snd (net_position exact ([sample_txn 1 ''BUY'' 10 100] @ [sample_txn 2 ''SELL'' 5 120])) = Some a
     \<and> 100 \<le> a \<and> a \<le> 100"
  by (rule exact_average)
    (simp_all add: sample_txn_def netting_def netting_step_def Let_def)

end
