(* ===== verification/Integrity.thy ===== *)
theory Integrity
  imports Models
begin

text \<open>
  Every statement the services issue keeps the database within its declared constraints
  (\<open>db_wf\<close>), whatever it is given: an insert or update that would leave them answers
  \<open>IntegrityError\<close>, and a delete takes along the rows that refer to what it deletes.
\<close>

lemma keys_add [simp]: "key ` set (add_row r rs) = insert (key r) (key ` set rs)"
  by (simp add: add_row_def)

lemma set_add [simp]: "set (add_row r rs) = insert r (set rs)"
  by (simp add: add_row_def)

lemma distinct_add [simp]: "distinct (map f (add_row r rs)) \<longleftrightarrow> distinct (map f rs) \<and> f r \<notin> f ` set rs"
  by (auto simp: add_row_def)

lemma map_key_put [simp]: "map key (put_row key r rs) = map key rs"
  by (induction rs) (auto simp: put_row_def)

lemma keys_put_row [simp]: "key ` set (put_row key r rs) = key ` set rs"
  by (metis list.set_map map_key_put)

lemma set_put_row: "x \<in> set (put_row key r rs) \<Longrightarrow> x = r \<or> (x \<in> set rs \<and> key x \<noteq> key r)"
  by (auto simp: put_row_def split: if_splits)

lemma Ball_put_row: "(\<forall>x \<in> set rs. P x) \<Longrightarrow> P r \<Longrightarrow> \<forall>x \<in> set (put_row key r rs). P x"
  by (auto dest: set_put_row)

lemma distinct_put_row:
  assumes "distinct (map key rs)" and "distinct (map f rs)"
    and "f r \<notin> f ` {x \<in> set rs. key x \<noteq> key r}"
  shows "distinct (map f (put_row key r rs))"
  using assms
proof (induction rs)
  case (Cons x rs)
  have IH: "distinct (map f (put_row key r rs))"
    using Cons by (auto simp: image_iff)
  show ?case
  proof (cases "key x = key r")
    case True
    then have other: "\<forall>y \<in> set rs. key y \<noteq> key r" using Cons.prems(1) by (auto simp: image_iff)
    then have "put_row key r rs = rs" by (auto simp: put_row_def intro: map_idI)
    moreover have "f r \<notin> f ` set rs" using Cons.prems(3) other by auto
    ultimately show ?thesis using True Cons.prems(2) by (simp add: put_row_def)
  next
    case False
    have "f x \<notin> f ` set (put_row key r rs)"
    proof
      assume "f x \<in> f ` set (put_row key r rs)"
      then obtain y where y: "f x = f y" "y = r \<or> y \<in> set rs" by (auto dest: set_put_row)
      with Cons.prems False show False by (auto simp: image_iff)
    qed
    moreover have "put_row key r (x # rs) = x # put_row key r rs" using False by (simp add: put_row_def)
    ultimately show ?thesis using IH by simp
  qed
qed (simp add: put_row_def)

lemma set_drop_row [simp]: "set (drop_row key i rs) = {x \<in> set rs. key x \<noteq> i}"
  by (simp add: drop_row_def)

lemma distinct_drop_row: "distinct (map f rs) \<Longrightarrow> distinct (map f (drop_row key i rs))"
  by (simp add: drop_row_def distinct_map_filter_keys)

lemma drop_row_id: "i \<notin> key ` set rs \<Longrightarrow> drop_row key i rs = rs"
  by (auto simp: drop_row_def filter_id_conv)

lemma db_keysD: "db_wf db \<Longrightarrow> db_keys db" and db_uniquesD: "db_wf db \<Longrightarrow> db_uniques db"
  and db_refsD: "db_wf db \<Longrightarrow> db_refs db"
  by (simp_all add: db_wf_def)

named_theorems wf_defs "the constraints, unfolded"

declare db_wf_def [wf_defs] db_keys_def [wf_defs] db_uniques_def [wf_defs] db_refs_def [wf_defs]
  bond_refs_def [wf_defs] coupon_refs_def [wf_defs] account_refs_def [wf_defs] txn_refs_def [wf_defs]
  op_refs_def [wf_defs]

section \<open>Inserts\<close>

lemma insert_user_wf: "db_wf db \<Longrightarrow> insert_user u db = Inr db' \<Longrightarrow> db_wf db'"
  by (auto simp: insert_user_def wf_defs split: if_splits)

lemma insert_broker_wf: "db_wf db \<Longrightarrow> insert_broker b db = Inr db' \<Longrightarrow> db_wf db'"
  by (auto simp: insert_broker_def wf_defs split: if_splits)

lemma insert_bond_wf: "db_wf db \<Longrightarrow> insert_bond b db = Inr db' \<Longrightarrow> db_wf db'"
  by (auto simp: insert_bond_def wf_defs split: if_splits)

lemma insert_account_wf: "db_wf db \<Longrightarrow> insert_account a db = Inr db' \<Longrightarrow> db_wf db'"
  by (auto simp: insert_account_def wf_defs split: if_splits)

lemma insert_txn_wf: "db_wf db \<Longrightarrow> insert_txn t db = Inr db' \<Longrightarrow> db_wf db'"
  by (auto simp: insert_txn_def wf_defs split: if_splits)

lemma insert_op_wf: "db_wf db \<Longrightarrow> insert_op p db = Inr db' \<Longrightarrow> db_wf db'"
  by (auto simp: insert_op_def wf_defs split: if_splits)

section \<open>Updates\<close>

text \<open>Replacing a row under its key leaves what the other tables refer to.\<close>

lemma refs_put [simp]:
  "bond_refs (db\<lparr>brokers := bs\<rparr>) = bond_refs db" "coupon_refs (db\<lparr>brokers := bs\<rparr>) = coupon_refs db"
  "txn_refs (db\<lparr>brokers := bs\<rparr>) = txn_refs db" "op_refs (db\<lparr>brokers := bs\<rparr>) = op_refs db"
  "account_refs (db\<lparr>brokers := put_row br_id x (brokers db)\<rparr>) = account_refs db"
  "bond_refs (db\<lparr>bonds := cs\<rparr>) = bond_refs db" "account_refs (db\<lparr>bonds := cs\<rparr>) = account_refs db"
  "op_refs (db\<lparr>bonds := cs\<rparr>) = op_refs db"
  "coupon_refs (db\<lparr>bonds := put_row b_id y (bonds db)\<rparr>) = coupon_refs db"
  "txn_refs (db\<lparr>bonds := put_row b_id y (bonds db)\<rparr>) = txn_refs db"
  "bond_refs (db\<lparr>broker_accounts := ds\<rparr>) = bond_refs db"
  "coupon_refs (db\<lparr>broker_accounts := ds\<rparr>) = coupon_refs db"
  "account_refs (db\<lparr>broker_accounts := ds\<rparr>) = account_refs db"
  "txn_refs (db\<lparr>broker_accounts := put_row a_id z (broker_accounts db)\<rparr>) = txn_refs db"
  "op_refs (db\<lparr>broker_accounts := put_row a_id z (broker_accounts db)\<rparr>) = op_refs db"
  "bond_refs (db\<lparr>transactions := ts\<rparr>) = bond_refs db" "coupon_refs (db\<lparr>transactions := ts\<rparr>) = coupon_refs db"
  "account_refs (db\<lparr>transactions := ts\<rparr>) = account_refs db" "txn_refs (db\<lparr>transactions := ts\<rparr>) = txn_refs db"
  "op_refs (db\<lparr>transactions := ts\<rparr>) = op_refs db"
  "bond_refs (db\<lparr>account_operations := ops\<rparr>) = bond_refs db"
  "coupon_refs (db\<lparr>account_operations := ops\<rparr>) = coupon_refs db"
  "account_refs (db\<lparr>account_operations := ops\<rparr>) = account_refs db"
  "txn_refs (db\<lparr>account_operations := ops\<rparr>) = txn_refs db"
  "op_refs (db\<lparr>account_operations := ops\<rparr>) = op_refs db"
  by (simp_all add: fun_eq_iff refs_defs)

lemmas put_wf_simps = db_wf_def db_keys_def db_uniques_def db_refs_def

lemma update_broker_row_wf:
  assumes "db_wf db" and "update_broker_row b db = Inr db'" shows "db_wf db'"
proof -
  from assms(2) have db': "db' = db\<lparr>brokers := put_row br_id b (brokers db)\<rparr>"
    and ok: "broker_check b"
      "br_name b \<notin> br_name ` {x \<in> set (brokers db). br_id x \<noteq> br_id b}"
    by (simp_all add: update_broker_row_def split: if_splits)
  have "\<forall>x \<in> set (put_row br_id b (brokers db)). broker_check x"
    by (rule Ball_put_row) (use assms(1) ok in \<open>simp_all add: put_wf_simps\<close>)
  then show ?thesis using assms(1) ok unfolding db' by (simp add: put_wf_simps distinct_put_row)
qed

lemma update_bond_row_wf:
  assumes "db_wf db" and "update_bond_row b db = Inr db'" shows "db_wf db'"
proof -
  from assms(2) have db': "db' = db\<lparr>bonds := put_row b_id b (bonds db)\<rparr>"
    and ok: "bond_refs db b"
      "b_isin b \<notin> b_isin ` {x \<in> set (bonds db). b_id x \<noteq> b_id b}"
    by (simp_all add: update_bond_row_def split: if_splits)
  have "\<forall>x \<in> set (put_row b_id b (bonds db)). bond_refs db x"
    by (rule Ball_put_row) (use assms(1) ok in \<open>simp_all add: put_wf_simps\<close>)
  then show ?thesis using assms(1) ok unfolding db' by (simp add: put_wf_simps distinct_put_row)
qed

lemma update_account_row_wf:
  assumes "db_wf db" and "update_account_row a db = Inr db'" shows "db_wf db'"
proof -
  from assms(2) have db': "db' = db\<lparr>broker_accounts := put_row a_id a (broker_accounts db)\<rparr>"
    and ok: "account_refs db a"
    by (simp_all add: update_account_row_def split: if_splits)
  have "\<forall>x \<in> set (put_row a_id a (broker_accounts db)). account_refs db x"
    by (rule Ball_put_row) (use assms(1) ok in \<open>simp_all add: put_wf_simps\<close>)
  then show ?thesis using assms(1) ok unfolding db' by (simp add: put_wf_simps distinct_put_row)
qed

lemma update_txn_row_wf:
  assumes "db_wf db" and "update_txn_row t db = Inr db'" shows "db_wf db'"
proof -
  from assms(2) have db': "db' = db\<lparr>transactions := put_row t_id t (transactions db)\<rparr>"
    and ok: "txn_refs db t"
    by (simp_all add: update_txn_row_def split: if_splits)
  have "\<forall>x \<in> set (put_row t_id t (transactions db)). txn_refs db x"
    by (rule Ball_put_row) (use assms(1) ok in \<open>simp_all add: put_wf_simps\<close>)
  then show ?thesis using assms(1) ok unfolding db' by (simp add: put_wf_simps distinct_put_row)
qed

lemma update_op_row_wf:
  assumes "db_wf db" and "update_op_row p db = Inr db'" shows "db_wf db'"
proof -
  from assms(2) have db': "db' = db\<lparr>account_operations := put_row o_id p (account_operations db)\<rparr>"
    and ok: "op_refs db p"
    by (simp_all add: update_op_row_def split: if_splits)
  have "\<forall>x \<in> set (put_row o_id p (account_operations db)). op_refs db x"
    by (rule Ball_put_row) (use assms(1) ok in \<open>simp_all add: put_wf_simps\<close>)
  then show ?thesis using assms(1) ok unfolding db' by (simp add: put_wf_simps distinct_put_row)
qed

section \<open>Deletes\<close>

lemma delete_txn_row_wf: "db_wf db \<Longrightarrow> db_wf (delete_txn_row i db)"
  by (auto simp: delete_txn_row_def wf_defs distinct_drop_row)

lemma delete_op_row_wf: "db_wf db \<Longrightarrow> db_wf (delete_op_row i db)"
  by (auto simp: delete_op_row_def wf_defs distinct_drop_row)

lemma delete_bond_row_wf: "db_wf db \<Longrightarrow> db_wf (delete_bond_row i db)"
  by (auto simp: delete_bond_row_def wf_defs distinct_drop_row distinct_map_filter_keys)

lemma delete_account_row_wf: "db_wf db \<Longrightarrow> db_wf (delete_account_row i db)"
  by (auto simp: delete_account_row_def wf_defs distinct_drop_row distinct_map_filter_keys)

lemma delete_broker_row_wf: assumes "db_wf db" shows "db_wf (delete_broker_row i db)"
proof -
  let ?gone = "a_id ` {a \<in> set (broker_accounts db). a_broker_id a = i}"
  have "x \<in> a_id ` {a \<in> set (broker_accounts db). a_broker_id a \<noteq> i}"
    if "x \<in> a_id ` set (broker_accounts db)" "x \<notin> ?gone" for x
    using that by (auto simp: image_iff)
  then show ?thesis using assms
    by (auto simp: delete_broker_row_def Let_def put_wf_simps refs_defs distinct_drop_row
        distinct_map_filter_keys)
qed

lemmas statement_wf =
  insert_user_wf insert_broker_wf insert_bond_wf insert_account_wf insert_txn_wf insert_op_wf
  update_broker_row_wf update_bond_row_wf update_account_row_wf update_txn_row_wf update_op_row_wf
  delete_txn_row_wf delete_op_row_wf delete_bond_row_wf delete_account_row_wf delete_broker_row_wf

end
