(* ===== verification/EventBus.thy ===== *)
theory EventBus
  imports Models "HOL-Library.Sublist"
begin

text \<open>
  \<open>event_bus\<close>: topics, messages and the \<open>asyncio.Queue\<close> bus. The bus runs on one event loop, so its
  behaviour is a sequence of atomic steps between two \<open>await\<close>s: a call of the API, one
  \<open>queue.put\<close> of a publisher that is routing a message, a dispatcher that takes a message, a
  handler that finishes. \<open>bus_event\<close> lists the steps and \<open>bus_step\<close> performs one; a step that is
  not enabled (a put into a full queue, a take from an empty one) changes nothing, which is the
  task waiting. Handlers are outside the bus: what they return is part of the event. Message
  identifiers and times come from the environment. The fields \<open>s_log\<close>, \<open>s_taken\<close>, \<open>s_dropped\<close>,
  \<open>s_since\<close> and \<open>bs_published\<close> only record history; no step reads them.
\<close>

section \<open>Topics and messages\<close>

definition ALL_TOPICS :: "string list" where
  "ALL_TOPICS = [''bond.created'', ''bond.updated'', ''bond.deleted'', ''broker.created'',
     ''broker.updated'', ''broker.deleted'', ''broker_account.created'', ''broker_account.updated'',
     ''broker_account.deleted'', ''transaction.created'', ''transaction.updated'',
     ''transaction.deleted'', ''position.updated'', ''portfolio.recalculated'']"

text \<open>A payload is a mapping from names to values; \<open>payload.get(name)\<close> is \<open>map_of\<close>.\<close>

datatype payload_value = VInt int | VStr string | VNum rat | VDate date | VNone

type_synonym payload = "(string \<times> payload_value) list"

record message =
  m_topic :: string
  m_payload :: payload
  m_sender :: string
  m_id :: int
  m_timestamp :: int
  m_reply_to :: "int option"

text \<open>\<open>Message.__post_init__\<close>\<close>

definition check_message :: "message \<Rightarrow> message result" where
  "check_message m =
     (if m_topic m = [] then Inl ValueError else if m_sender m = [] then Inl ValueError else Inr m)"

definition validate_topic :: "string \<Rightarrow> unit result" where
  "validate_topic topic = (if topic \<in> set ALL_TOPICS then Inr () else Inl ValueError)"

section \<open>Queues\<close>

text \<open>What the bus relies on of a queue: the messages come out in the order they went in.\<close>

text \<open>
  Messages taken so far, waiting and dropped, against the history of all puts.
\<close>

definition accounted :: "'m list \<Rightarrow> 'm list \<Rightarrow> nat \<Rightarrow> 'm list \<Rightarrow> bool" where
  "accounted taken waiting dropped hist \<longleftrightarrow>
     subseq (taken @ waiting) hist \<and> length hist = length taken + length waiting + dropped"

lemma accounted_exact: "accounted taken waiting 0 hist \<Longrightarrow> taken @ waiting = hist"
  by (simp add: accounted_def) (metis add.right_neutral length_append subseq_same_length)

locale fifo =
  fixes put :: "'m \<Rightarrow> 'q \<Rightarrow> 'q"
    and get :: "'q \<Rightarrow> ('m \<times> 'q) option"
    and contents :: "'q \<Rightarrow> 'm list"
  assumes put_contents: "contents (put m q) = contents q @ [m]"
    and get_contents: "get q = Some (m, q') \<Longrightarrow> contents q = m # contents q'"
    and get_None: "get q = None \<longleftrightarrow> contents q = []"
begin

lemma accounted_put:
  "accounted taken (contents q) d hist \<Longrightarrow> accounted taken (contents (put m q)) d (hist @ [m])"
  by (simp add: accounted_def put_contents list_emb_append_mono flip: append_assoc)

lemma accounted_get:
  "accounted taken (contents q) d hist \<Longrightarrow> get q = Some (m, q') \<Longrightarrow>
   accounted (taken @ [m]) (contents q') d hist"
  by (auto simp: accounted_def dest: get_contents)

lemma accounted_drain:
  assumes "accounted taken (contents q) d hist" and "contents q' = []"
  shows "accounted taken (contents q') (d + length (contents q)) hist"
proof -
  have "subseq taken (taken @ contents q)" by (rule prefix_imp_subseq) simp
  then show ?thesis using assms unfolding accounted_def by (auto intro: subseq_order.trans)
qed

end

definition queue_put :: "'m \<Rightarrow> 'm list \<Rightarrow> 'm list" where "queue_put m q = q @ [m]"

fun queue_get :: "'m list \<Rightarrow> ('m \<times> 'm list) option" where
  "queue_get [] = None"
| "queue_get (m # q) = Some (m, q)"

text \<open>\<open>asyncio.Queue(maxsize).full()\<close>; a size of 0 or less is unbounded.\<close>

definition queue_full :: "int \<Rightarrow> 'm list \<Rightarrow> bool" where
  "queue_full maxsize q \<longleftrightarrow> 0 < maxsize \<and> maxsize \<le> int (length q)"

interpretation aq: fifo queue_put queue_get "\<lambda>q. q"
proof unfold_locales
  fix q q' :: "'m list" and m
  show "queue_get q = Some (m, q') \<Longrightarrow> q = m # q'" by (cases q) simp_all
  show "(queue_get q = None) = (q = [])" by (cases q) simp_all
qed (simp add: queue_put_def)

section \<open>The bus\<close>

text \<open>
  A subscription. \<open>s_registered\<close> says that it is in the registry \<open>_subscriptions\<close>: a publisher that
  took its snapshot before an unsubscribe still puts into the queue. \<open>s_dispatcher\<close> is the task,
  \<open>s_busy\<close> the message whose handler is running.
\<close>

record subscription =
  s_topic :: string
  s_is_request_handler :: bool
  s_reply_sender :: string
  s_registered :: bool
  s_dispatcher :: bool
  s_busy :: "message option"
  s_queue :: "message list"
  s_warned :: bool
  s_log :: "message list"
  s_taken :: "message list"
  s_dropped :: nat
  s_since :: nat

text \<open>What a reply future holds once it is done.\<close>

datatype reply = Reply message | HandlerFailed | TimedOut | BusStopped

text \<open>
  \<open>bs_subs\<close> holds every subscription ever made, in order of registration; \<open>bs_routes\<close> the calls of
  \<open>_route\<close> in progress with the subscriptions their snapshot still has to serve; \<open>bs_pending\<close> the
  keys of \<open>_reply_futures\<close> and \<open>bs_resolved\<close> the futures that are done.
\<close>

record bus =
  bs_max_queue_size :: int
  bs_warn_threshold :: "int option"
  bs_running :: bool
  bs_subs :: "subscription list"
  bs_routes :: "(message \<times> nat list) list"
  bs_pending :: "int list"
  bs_resolved :: "(int \<times> reply) list"
  bs_published :: "message list"

definition bus_init :: "int \<Rightarrow> bus" where
  "bus_init max_queue_size =
     \<lparr>bs_max_queue_size = max_queue_size,
      bs_warn_threshold =
        (if max_queue_size > 0
         then Some (max 1 \<lfloor>fl64 (fl64 (of_int max_queue_size) * fl64 (4 / 5))\<rfloor>) else None),
      bs_running = False, bs_subs = [], bs_routes = [], bs_pending = [], bs_resolved = [],
      bs_published = []\<rparr>"

definition map_sub :: "nat \<Rightarrow> (subscription \<Rightarrow> subscription) \<Rightarrow> bus \<Rightarrow> bus" where
  "map_sub i f b = b\<lparr>bs_subs := (bs_subs b)[i := f (bs_subs b ! i)]\<rparr>"

text \<open>The subscriptions of a topic, in registration order: the snapshot of \<open>_route\<close>.\<close>

definition snapshot :: "string \<Rightarrow> bus \<Rightarrow> nat list" where
  "snapshot topic b =
     filter (\<lambda>i. s_registered (bs_subs b ! i) \<and> s_topic (bs_subs b ! i) = topic) [0..<length (bs_subs b)]"

definition drain :: "subscription \<Rightarrow> subscription" where
  "drain s = s\<lparr>s_queue := [], s_dropped := s_dropped s + length (s_queue s)\<rparr>"

definition start :: "bus \<Rightarrow> bus" where
  "start b =
     (if bs_running b then b
      else b\<lparr>bs_running := True,
             bs_subs := map (\<lambda>s. if s_registered s then s\<lparr>s_dispatcher := True\<rparr> else s) (bs_subs b)\<rparr>)"

definition resolve_all :: "int list \<Rightarrow> (int \<times> reply) list \<Rightarrow> (int \<times> reply) list" where
  "resolve_all ids resolved =
     fold (\<lambda>i done. if i \<in> fst ` set done then done else done @ [(i, BusStopped)]) ids resolved"

definition stop :: "bus \<Rightarrow> bus" where
  "stop b =
     (if \<not> bs_running b then b
      else b\<lparr>bs_running := False,
             bs_subs := map (\<lambda>s. if s_registered s
                then drain (s\<lparr>s_dispatcher := False, s_busy := None\<rparr>) else s) (bs_subs b),
             bs_resolved := resolve_all (bs_pending b) (bs_resolved b),
             bs_pending := []\<rparr>)"

text \<open>\<open>publish\<close> up to its first \<open>await\<close>: the rest of the call is the route.\<close>

definition begin_route :: "message \<Rightarrow> bus \<Rightarrow> bus" where
  "begin_route m b =
     b\<lparr>bs_routes := (if snapshot (m_topic m) b = [] then bs_routes b
                     else bs_routes b @ [(m, snapshot (m_topic m) b)]),
       bs_published := bs_published b @ [m]\<rparr>"

definition bus_publish :: "message \<Rightarrow> bus \<Rightarrow> int result \<times> bus" where
  "bus_publish m b =
     (case validate_topic (m_topic m) of
        Inl e \<Rightarrow> (Inl e, b)
      | Inr _ \<Rightarrow>
          if \<not> bs_running b then (Inl RuntimeError, b)
          else (case check_message m of
                  Inl e \<Rightarrow> (Inl e, b)
                | Inr _ \<Rightarrow> (Inr (m_id m), begin_route m b)))"

definition maybe_warn_high_watermark :: "int option \<Rightarrow> subscription \<Rightarrow> subscription" where
  "maybe_warn_high_watermark threshold s =
     (case threshold of
        None \<Rightarrow> s
      | Some t \<Rightarrow> if s_warned s then s
                  else if int (length (s_queue s)) \<ge> t then s\<lparr>s_warned := True\<rparr> else s)"

text \<open>One iteration of the loop of \<open>_route\<close>: the put waits while the queue is full.\<close>

definition route_step :: "nat \<Rightarrow> bus \<Rightarrow> bus" where
  "route_step k b =
     (if k < length (bs_routes b) then
        (case bs_routes b ! k of
           (m, i # rest) \<Rightarrow>
             if queue_full (bs_max_queue_size b) (s_queue (bs_subs b ! i)) then b
             else
               let b1 = map_sub i (\<lambda>s. maybe_warn_high_watermark (bs_warn_threshold b)
                      (s\<lparr>s_queue := queue_put m (s_queue s), s_log := s_log s @ [m]\<rparr>)) b
               in b1\<lparr>bs_routes := (if rest = [] then take k (bs_routes b) @ drop (Suc k) (bs_routes b)
                                   else (bs_routes b)[k := (m, rest)])\<rparr>
         | (m, []) \<Rightarrow> b)
      else b)"

text \<open>The dispatcher: \<open>queue.get\<close>, then the handler with one of its outcomes.\<close>

definition dispatch_take :: "nat \<Rightarrow> bus \<Rightarrow> bus" where
  "dispatch_take i b =
     (if i < length (bs_subs b) \<and> s_dispatcher (bs_subs b ! i) \<and> s_busy (bs_subs b ! i) = None then
        (case queue_get (s_queue (bs_subs b ! i)) of
           None \<Rightarrow> b
         | Some (m, q) \<Rightarrow>
             map_sub i (\<lambda>s. s\<lparr>s_queue := q, s_busy := Some m, s_taken := s_taken s @ [m],
                 s_warned := (if (case bs_warn_threshold b of None \<Rightarrow> True | Some t \<Rightarrow> int (length q) < t)
                              then False else s_warned s)\<rparr>) b)
      else b)"

datatype outcome = Returns "payload option" | Raises

definition future_open :: "int \<Rightarrow> bus \<Rightarrow> bool" where
  "future_open i b \<longleftrightarrow> i \<in> set (bs_pending b) \<and> i \<notin> fst ` set (bs_resolved b)"

definition fail_pending_reply :: "message \<Rightarrow> bus \<Rightarrow> bus" where
  "fail_pending_reply m b =
     (if \<not> future_open (m_id m) b then b
      else b\<lparr>bs_resolved := bs_resolved b @ [(m_id m, HandlerFailed)]\<rparr>)"

definition maybe_reply :: "subscription \<Rightarrow> message \<Rightarrow> payload option \<Rightarrow> int \<Rightarrow> int \<Rightarrow> bus \<Rightarrow> bus" where
  "maybe_reply s m result reply_id now b =
     (if \<not> future_open (m_id m) b then b
      else (case result of
              None \<Rightarrow> b
            | Some p \<Rightarrow> b\<lparr>bs_resolved := bs_resolved b @ [(m_id m, Reply
                \<lparr>m_topic = m_topic m, m_payload = p, m_sender = s_reply_sender s, m_id = reply_id,
                 m_timestamp = now, m_reply_to = Some (m_id m)\<rparr>)]\<rparr>))"

definition dispatch_finish :: "nat \<Rightarrow> outcome \<Rightarrow> int \<Rightarrow> int \<Rightarrow> bus \<Rightarrow> bus" where
  "dispatch_finish i out reply_id now b =
     (if i < length (bs_subs b) then
        (case s_busy (bs_subs b ! i) of
           None \<Rightarrow> b
         | Some m \<Rightarrow>
             let b1 = map_sub i (\<lambda>s. s\<lparr>s_busy := None\<rparr>) b
             in if \<not> s_is_request_handler (bs_subs b ! i) then b1
                else (case out of
                        Raises \<Rightarrow> fail_pending_reply m b1
                      | Returns result \<Rightarrow> maybe_reply (bs_subs b ! i) m result reply_id now b1))
      else b)"

definition has_request_handler :: "string \<Rightarrow> bus \<Rightarrow> bool" where
  "has_request_handler topic b \<longleftrightarrow>
     (\<exists>s \<in> set (bs_subs b). s_registered s \<and> s_topic s = topic \<and> s_is_request_handler s)"

text \<open>
  \<open>request\<close> up to the route, and its end: the reply, or the timeout, once the message is routed.
\<close>

definition bus_request :: "message \<Rightarrow> bool \<Rightarrow> bus \<Rightarrow> unit result \<times> bus" where
  "bus_request m has_timeout b =
     (case validate_topic (m_topic m) of
        Inl e \<Rightarrow> (Inl e, b)
      | Inr _ \<Rightarrow>
          if \<not> bs_running b then (Inl RuntimeError, b)
          else (case check_message m of
                  Inl e \<Rightarrow> (Inl e, b)
                | Inr _ \<Rightarrow>
                    if \<not> has_timeout \<and> \<not> has_request_handler (m_topic m) b
                    then (Inl RequestTimeoutError, b)
                    else (Inr (), begin_route m
                           (b\<lparr>bs_pending := m_id m # bs_pending b,
                              bs_resolved := filter (\<lambda>r. fst r \<noteq> m_id m) (bs_resolved b)\<rparr>))))"

definition routing :: "int \<Rightarrow> bus \<Rightarrow> bool" where
  "routing i b \<longleftrightarrow> (\<exists>r \<in> set (bs_routes b). m_id (fst r) = i)"

definition request_result :: "int \<Rightarrow> bus \<Rightarrow> payload result option" where
  "request_result i b =
     (if routing i b then None
      else (case map_of (bs_resolved b) i of
              None \<Rightarrow> None
            | Some (Reply m) \<Rightarrow> Some (Inr (m_payload m))
            | Some HandlerFailed \<Rightarrow> Some (Inl RequestHandlerError)
            | Some TimedOut \<Rightarrow> Some (Inl RequestTimeoutError)
            | Some BusStopped \<Rightarrow> Some (Inl RequestTimeoutError)))"

definition request_timeout :: "int \<Rightarrow> bus \<Rightarrow> bus" where
  "request_timeout i b =
     (if \<not> routing i b \<and> future_open i b
      then b\<lparr>bs_resolved := bs_resolved b @ [(i, TimedOut)], bs_pending := removeAll i (bs_pending b)\<rparr>
      else b)"

definition request_return :: "int \<Rightarrow> bus \<Rightarrow> bus" where
  "request_return i b =
     (if request_result i b = None then b else b\<lparr>bs_pending := removeAll i (bs_pending b)\<rparr>)"

definition new_subscription :: "string \<Rightarrow> bool \<Rightarrow> string \<Rightarrow> bus \<Rightarrow> subscription" where
  "new_subscription topic is_request_handler reply_sender b =
     \<lparr>s_topic = topic, s_is_request_handler = is_request_handler, s_reply_sender = reply_sender,
      s_registered = True, s_dispatcher = bs_running b, s_busy = None, s_queue = [], s_warned = False,
      s_log = [], s_taken = [], s_dropped = 0, s_since = length (bs_published b)\<rparr>"

definition bus_subscribe :: "string \<Rightarrow> bool \<Rightarrow> string \<Rightarrow> bus \<Rightarrow> nat result \<times> bus" where
  "bus_subscribe topic is_request_handler reply_sender b =
     (case validate_topic topic of
        Inl e \<Rightarrow> (Inl e, b)
      | Inr _ \<Rightarrow> (Inr (length (bs_subs b)),
          b\<lparr>bs_subs := bs_subs b @ [new_subscription topic is_request_handler reply_sender b]\<rparr>))"

definition unsubscribe :: "nat \<Rightarrow> bus \<Rightarrow> bus" where
  "unsubscribe i b =
     (if i < length (bs_subs b) \<and> s_registered (bs_subs b ! i)
      then map_sub i (\<lambda>s. drain (s\<lparr>s_registered := False, s_dispatcher := False, s_busy := None\<rparr>)) b
      else b)"

section \<open>Runs\<close>

datatype bus_event =
    Start | Stop
  | Publish message
  | Request message bool
  | Put nat
  | Take nat
  | Finish nat outcome int int
  | Subscribe string bool string
  | Unsubscribe nat
  | Expire int
  | Return int

fun bus_step :: "bus_event \<Rightarrow> bus \<Rightarrow> bus" where
  "bus_step Start b = start b"
| "bus_step Stop b = stop b"
| "bus_step (Publish m) b = snd (bus_publish m b)"
| "bus_step (Request m t) b = snd (bus_request m t b)"
| "bus_step (Put k) b = route_step k b"
| "bus_step (Take i) b = dispatch_take i b"
| "bus_step (Finish i out r now) b = dispatch_finish i out r now b"
| "bus_step (Subscribe t q s) b = snd (bus_subscribe t q s b)"
| "bus_step (Unsubscribe i) b = unsubscribe i b"
| "bus_step (Expire i) b = request_timeout i b"
| "bus_step (Return i) b = request_return i b"

inductive bus_reachable :: "int \<Rightarrow> bus \<Rightarrow> bool" for n where
  init: "bus_reachable n (bus_init n)"
| step: "bus_reachable n b \<Longrightarrow> bus_reachable n (bus_step e b)"

inductive_cases bus_reachableE: "bus_reachable n b"


section \<open>The invariant of a reachable bus\<close>

definition sub_ok :: "int \<Rightarrow> subscription \<Rightarrow> bool" where
  "sub_ok n s \<longleftrightarrow>
     accounted (s_taken s) (s_queue s) (s_dropped s) (s_log s)
     \<and> (0 < n \<longrightarrow> int (length (s_queue s)) \<le> n)
     \<and> (s_busy s \<noteq> None \<longrightarrow> s_dispatcher s)
     \<and> (\<forall>m \<in> set (s_log s). m_topic m = s_topic s)
     \<and> s_topic s \<in> set ALL_TOPICS"

definition route_ok :: "subscription list \<Rightarrow> message \<times> nat list \<Rightarrow> bool" where
  "route_ok ss r \<longleftrightarrow> snd r \<noteq> [] \<and> distinct (snd r)
     \<and> (\<forall>i \<in> set (snd r). i < length ss \<and> s_topic (ss ! i) = m_topic (fst r))"

definition bus_ok :: "int \<Rightarrow> bus \<Rightarrow> bool" where
  "bus_ok n b \<longleftrightarrow> bs_max_queue_size b = n \<and> (\<forall>s \<in> set (bs_subs b). sub_ok n s)
     \<and> (\<forall>r \<in> set (bs_routes b). route_ok (bs_subs b) r)"

named_theorems bus_defs "the operations of the bus"

declare bus_publish_def [bus_defs] bus_request_def [bus_defs] bus_subscribe_def [bus_defs]
  begin_route_def [bus_defs] start_def [bus_defs] stop_def [bus_defs] unsubscribe_def [bus_defs]
  request_timeout_def [bus_defs] request_return_def [bus_defs] validate_topic_def [bus_defs]

lemma bus_ok_init: "bus_ok n (bus_init n)"
  by (simp add: bus_ok_def bus_init_def)

lemma route_ok_cong:
  "length ss' = length ss \<Longrightarrow> (\<And>i. i < length ss \<Longrightarrow> s_topic (ss' ! i) = s_topic (ss ! i)) \<Longrightarrow>
   route_ok ss r \<Longrightarrow> route_ok ss' r"
  by (auto simp: route_ok_def)

lemma route_ok_append: "route_ok ss r \<Longrightarrow> route_ok (ss @ ts) r"
  by (auto simp: route_ok_def nth_append)

lemma route_ok_snapshot:
  "snapshot (m_topic m) b \<noteq> [] \<Longrightarrow> route_ok (bs_subs b) (m, snapshot (m_topic m) b)"
  by (auto simp: route_ok_def snapshot_def)

lemma bus_ok_map_sub:
  assumes "bus_ok n b" and "i < length (bs_subs b)"
    and "sub_ok n (bs_subs b ! i) \<Longrightarrow> sub_ok n (f (bs_subs b ! i))"
    and "s_topic (f (bs_subs b ! i)) = s_topic (bs_subs b ! i)"
  shows "bus_ok n (map_sub i f b)"
proof -
  have "sub_ok n (f (bs_subs b ! i))" using assms by (simp add: bus_ok_def)
  then have "\<forall>s \<in> set ((bs_subs b)[i := f (bs_subs b ! i)]). sub_ok n s"
    using assms(1) set_update_subset_insert [of "bs_subs b" i "f (bs_subs b ! i)"]
    by (auto simp: bus_ok_def)
  moreover have "route_ok ((bs_subs b)[i := f (bs_subs b ! i)]) r" if "r \<in> set (bs_routes b)" for r
  proof (rule route_ok_cong)
    show "route_ok (bs_subs b) r" using assms(1) that by (simp add: bus_ok_def)
    show "s_topic ((bs_subs b)[i := f (bs_subs b ! i)] ! j) = s_topic (bs_subs b ! j)"
      if "j < length (bs_subs b)" for j
      using that assms(4) by (cases "i = j") simp_all
  qed simp
  ultimately show ?thesis using assms(1) by (simp add: bus_ok_def map_sub_def)
qed

lemma bus_ok_subs:
  assumes "bus_ok n b" and "\<And>s. sub_ok n s \<Longrightarrow> sub_ok n (f s)" and "\<And>s. s_topic (f s) = s_topic s"
  shows "bus_ok n (b\<lparr>bs_subs := map f (bs_subs b)\<rparr>)"
proof -
  have "route_ok (map f (bs_subs b)) r" if "r \<in> set (bs_routes b)" for r
    by (rule route_ok_cong [of _ "bs_subs b"]) (use that assms(1,3) in \<open>simp_all add: bus_ok_def\<close>)
  then show ?thesis using assms(1,2) by (simp add: bus_ok_def)
qed

lemma bus_ok_other [simp]:
  "bus_ok n (b\<lparr>bs_resolved := r\<rparr>) = bus_ok n b" "bus_ok n (b\<lparr>bs_pending := p\<rparr>) = bus_ok n b"
  "bus_ok n (b\<lparr>bs_running := x\<rparr>) = bus_ok n b" "bus_ok n (b\<lparr>bs_published := ms\<rparr>) = bus_ok n b"
  by (simp_all add: bus_ok_def)

lemma sub_ok_registered [simp]: "sub_ok n (s\<lparr>s_registered := r\<rparr>) = sub_ok n s"
  by (simp add: sub_ok_def)

lemma sub_ok_drain: "sub_ok n s \<Longrightarrow> sub_ok n (drain (s\<lparr>s_dispatcher := False, s_busy := None\<rparr>))"
  using aq.accounted_drain [of "s_taken s" "s_queue s" "s_dropped s" "s_log s" "[]"]
  by (simp add: sub_ok_def drain_def)

lemma drain_topic [simp]: "s_topic (drain s) = s_topic s"
  by (simp add: drain_def)

lemma bus_ok_begin_route: "bus_ok n b \<Longrightarrow> bus_ok n (begin_route m b)"
  by (auto simp: bus_ok_def begin_route_def route_ok_snapshot)

lemma bus_ok_start: assumes "bus_ok n b" shows "bus_ok n (start b)"
proof -
  have "bus_ok n (b\<lparr>bs_subs := map (\<lambda>s. if s_registered s then s\<lparr>s_dispatcher := True\<rparr> else s) (bs_subs b)\<rparr>)"
    by (rule bus_ok_subs [OF assms]) (simp_all add: sub_ok_def)
  then show ?thesis using assms by (simp add: start_def bus_ok_def)
qed

lemma sub_ok_stop:
  "sub_ok n s \<Longrightarrow> sub_ok n (if s_registered s then drain (s\<lparr>s_dispatcher := False, s_busy := None\<rparr>) else s)"
  using sub_ok_drain [of n s] by simp

lemma bus_ok_stop: assumes "bus_ok n b" shows "bus_ok n (stop b)"
proof -
  have "bus_ok n (b\<lparr>bs_subs := map (\<lambda>s. if s_registered s
      then drain (s\<lparr>s_dispatcher := False, s_busy := None\<rparr>) else s) (bs_subs b)\<rparr>)"
    by (rule bus_ok_subs [OF assms]) (simp_all add: sub_ok_stop)
  then show ?thesis using assms by (simp add: stop_def bus_ok_def)
qed

lemma sub_ok_warn [simp]: "sub_ok n (maybe_warn_high_watermark t s) = sub_ok n s"
  by (simp add: maybe_warn_high_watermark_def sub_ok_def split: option.split)

lemma warn_simps [simp]:
  "s_topic (maybe_warn_high_watermark t s) = s_topic s"
  "s_queue (maybe_warn_high_watermark t s) = s_queue s"
  "s_log (maybe_warn_high_watermark t s) = s_log s"
  "s_taken (maybe_warn_high_watermark t s) = s_taken s"
  "s_since (maybe_warn_high_watermark t s) = s_since s"
  "s_dropped (maybe_warn_high_watermark t s) = s_dropped s"
  "s_registered (maybe_warn_high_watermark t s) = s_registered s"
  by (simp_all add: maybe_warn_high_watermark_def split: option.split)

lemma sub_ok_put:
  "sub_ok n s \<Longrightarrow> \<not> queue_full n (s_queue s) \<Longrightarrow> m_topic m = s_topic s \<Longrightarrow>
   sub_ok n (s\<lparr>s_queue := queue_put m (s_queue s), s_log := s_log s @ [m]\<rparr>)"
  using aq.accounted_put [of "s_taken s" "s_queue s" "s_dropped s" "s_log s" m]
  by (auto simp: sub_ok_def queue_full_def queue_put_def)

lemma sub_ok_take:
  "sub_ok n s \<Longrightarrow> queue_get (s_queue s) = Some (m, q) \<Longrightarrow> s_dispatcher s \<Longrightarrow>
   sub_ok n (s\<lparr>s_queue := q, s_busy := Some m, s_taken := s_taken s @ [m], s_warned := w\<rparr>)"
  using aq.accounted_get [of "s_taken s" "s_queue s" "s_dropped s" "s_log s" m q]
    aq.get_contents [of "s_queue s" m q]
  by (auto simp: sub_ok_def)

lemma route_ok_rest: "route_ok ss (m, i # rest) \<Longrightarrow> rest \<noteq> [] \<Longrightarrow> route_ok ss (m, rest)"
  by (simp add: route_ok_def)

lemma bus_ok_route_step: assumes "bus_ok n b" shows "bus_ok n (route_step k b)"
proof (cases "k < length (bs_routes b)")
  case True
  obtain m js where r: "bs_routes b ! k = (m, js)" by (cases "bs_routes b ! k")
  then have ok: "route_ok (bs_subs b) (m, js)" using assms True by (metis bus_ok_def nth_mem)
  then obtain i rest where js: "js = i # rest" by (auto simp: route_ok_def neq_Nil_conv)
  then have i: "i < length (bs_subs b)" "s_topic (bs_subs b ! i) = m_topic m"
    using ok by (simp_all add: route_ok_def)
  show ?thesis
  proof (cases "queue_full (bs_max_queue_size b) (s_queue (bs_subs b ! i))")
    case False
    let ?f = "\<lambda>s. maybe_warn_high_watermark (bs_warn_threshold b)
        (s\<lparr>s_queue := queue_put m (s_queue s), s_log := s_log s @ [m]\<rparr>)"
    have b1: "bus_ok n (map_sub i ?f b)"
      using assms i False by (intro bus_ok_map_sub) (simp_all add: sub_ok_put bus_ok_def)
    moreover have "route_ok (bs_subs (map_sub i ?f b)) (m, rest)" if "rest \<noteq> []"
      by (rule route_ok_cong [of _ "bs_subs b"])
        (use route_ok_rest [OF ok [unfolded js] that] i in \<open>auto simp: map_sub_def nth_list_update\<close>)
    ultimately show ?thesis
      using True r js False
      by (auto simp: route_step_def Let_def bus_ok_def map_sub_def
          dest: in_set_takeD in_set_dropD dest!: set_update_subset_insert [THEN subsetD])
  qed (use True r js assms in \<open>simp add: route_step_def\<close>)
qed (simp add: route_step_def assms)

lemma bus_ok_dispatch_take: assumes "bus_ok n b" shows "bus_ok n (dispatch_take i b)"
proof -
  have "sub_ok n (bs_subs b ! i)" if "i < length (bs_subs b)"
    using assms that by (simp add: bus_ok_def)
  then show ?thesis
    using assms by (auto simp: dispatch_take_def intro!: bus_ok_map_sub sub_ok_take split: option.splits)
qed

lemma bus_ok_dispatch_finish: assumes "bus_ok n b" shows "bus_ok n (dispatch_finish i out r now b)"
proof -
  have *: "bus_ok n (map_sub i (\<lambda>s. s\<lparr>s_busy := None\<rparr>) b)" if "i < length (bs_subs b)"
    using assms that by (intro bus_ok_map_sub) (simp_all add: sub_ok_def)
  then show ?thesis
    using assms
    by (simp add: dispatch_finish_def fail_pending_reply_def maybe_reply_def Let_def
        split: option.splits outcome.splits)
qed

lemma bus_ok_unsubscribe: "bus_ok n b \<Longrightarrow> bus_ok n (unsubscribe i b)"
  by (auto simp: unsubscribe_def intro!: bus_ok_map_sub sub_ok_drain)

lemma sub_ok_new: "t \<in> set ALL_TOPICS \<Longrightarrow> sub_ok n (new_subscription t q r b)"
  by (auto simp: sub_ok_def new_subscription_def accounted_def)

lemma bus_ok_subscribe: "bus_ok n b \<Longrightarrow> bus_ok n (snd (bus_subscribe t q r b))"
  by (auto simp: bus_subscribe_def validate_topic_def bus_ok_def sub_ok_new route_ok_append)

lemma bus_ok_step: assumes "bus_ok n b" shows "bus_ok n (bus_step e b)"
  using assms
  by (cases e)
    (auto simp: bus_ok_start bus_ok_stop bus_ok_route_step bus_ok_dispatch_take bus_ok_dispatch_finish
      bus_ok_unsubscribe bus_ok_subscribe bus_publish_def bus_request_def bus_ok_begin_route
      request_timeout_def request_return_def split: sum.splits)

lemma bus_reachable_ok: "bus_reachable n b \<Longrightarrow> bus_ok n b"
  by (induction rule: bus_reachable.induct) (simp_all add: bus_ok_init bus_ok_step)


section \<open>Publishers that wait for each other\<close>

text \<open>
  The order in which concurrent publishers get past a full queue is not determined. Where every
  publish is awaited before the next begins, the puts follow the order of publication.
\<close>

inductive sequential :: "int \<Rightarrow> bus \<Rightarrow> bool" for n where
  init: "sequential n (bus_init n)"
| step: "sequential n b \<Longrightarrow>
    (case e of Publish m \<Rightarrow> bs_routes b = [] | Request m t \<Rightarrow> bs_routes b = [] | _ \<Rightarrow> True) \<Longrightarrow>
    sequential n (bus_step e b)"

lemma sequential_reachable: "sequential n b \<Longrightarrow> bus_reachable n b"
  by (induction rule: sequential.induct) (auto intro: bus_reachable.intros)

definition awaiting :: "bus \<Rightarrow> nat \<Rightarrow> message list" where
  "awaiting b i = map fst (filter (\<lambda>r. i \<in> set (snd r)) (bs_routes b))"

definition addressed :: "bus \<Rightarrow> subscription \<Rightarrow> message list" where
  "addressed b s = filter (\<lambda>m. m_topic m = s_topic s) (drop (s_since s) (bs_published b))"

definition seq_ok :: "bus \<Rightarrow> bool" where
  "seq_ok b \<longleftrightarrow> length (bs_routes b) \<le> 1
     \<and> (\<forall>i < length (bs_subs b). s_registered (bs_subs b ! i) \<longrightarrow>
          s_since (bs_subs b ! i) \<le> length (bs_published b)
          \<and> s_log (bs_subs b ! i) @ awaiting b i = addressed b (bs_subs b ! i))"

lemma seq_ok_init: "seq_ok (bus_init n)"
  by (simp add: seq_ok_def bus_init_def)

text \<open>Steps that leave routes, publications and the recorded history alone.\<close>

lemma seq_ok_cong:
  assumes "seq_ok b" and "bs_routes b' = bs_routes b" and "bs_published b' = bs_published b"
    and "length (bs_subs b') = length (bs_subs b)"
    and "\<And>i. i < length (bs_subs b) \<Longrightarrow>
      (s_registered (bs_subs b' ! i) \<longrightarrow> s_registered (bs_subs b ! i))
      \<and> s_log (bs_subs b' ! i) = s_log (bs_subs b ! i) \<and> s_since (bs_subs b' ! i) = s_since (bs_subs b ! i)
      \<and> s_topic (bs_subs b' ! i) = s_topic (bs_subs b ! i)"
  shows "seq_ok b'"
  using assms(1) unfolding seq_ok_def awaiting_def addressed_def
  by (simp add: assms(2-4)) (use assms(5) in metis)

lemma seq_ok_map_sub:
  assumes "seq_ok b" and "s_registered (f (bs_subs b ! i)) \<Longrightarrow> s_registered (bs_subs b ! i)"
    and "s_log (f (bs_subs b ! i)) = s_log (bs_subs b ! i)"
    and "s_since (f (bs_subs b ! i)) = s_since (bs_subs b ! i)"
    and "s_topic (f (bs_subs b ! i)) = s_topic (bs_subs b ! i)"
  shows "seq_ok (map_sub i f b)"
proof (rule seq_ok_cong [OF assms(1)])
  fix j assume "j < length (bs_subs b)"
  then show "(s_registered (bs_subs (map_sub i f b) ! j) \<longrightarrow> s_registered (bs_subs b ! j))
      \<and> s_log (bs_subs (map_sub i f b) ! j) = s_log (bs_subs b ! j)
      \<and> s_since (bs_subs (map_sub i f b) ! j) = s_since (bs_subs b ! j)
      \<and> s_topic (bs_subs (map_sub i f b) ! j) = s_topic (bs_subs b ! j)"
    using assms(2-) by (cases "i = j") (simp_all add: map_sub_def)
qed (simp_all add: map_sub_def)

lemma seq_ok_other [simp]:
  "seq_ok (b\<lparr>bs_resolved := r\<rparr>) = seq_ok b" "seq_ok (b\<lparr>bs_pending := p\<rparr>) = seq_ok b"
  "seq_ok (b\<lparr>bs_running := x\<rparr>) = seq_ok b"
  by (simp_all add: seq_ok_def awaiting_def addressed_def)

lemma in_snapshot:
  "i \<in> set (snapshot t b) \<longleftrightarrow>
     i < length (bs_subs b) \<and> s_registered (bs_subs b ! i) \<and> s_topic (bs_subs b ! i) = t"
  by (auto simp: snapshot_def)

lemma awaiting_begin_route:
  "bs_routes b = [] \<Longrightarrow> awaiting (begin_route m b) i = (if i \<in> set (snapshot (m_topic m) b) then [m] else [])"
  by (cases "snapshot (m_topic m) b = []") (simp_all add: awaiting_def begin_route_def)

lemma seq_ok_begin_route:
  assumes "seq_ok b" and "bs_routes b = []" shows "seq_ok (begin_route m b)"
proof -
  let ?b = "begin_route m b"
  have "s_log (bs_subs b ! i) @ awaiting ?b i = addressed ?b (bs_subs b ! i)"
    if i: "i < length (bs_subs b)" "s_registered (bs_subs b ! i)" for i
  proof -
    from assms i have "s_since (bs_subs b ! i) \<le> length (bs_published b)"
      and log: "s_log (bs_subs b ! i) = addressed b (bs_subs b ! i)"
      by (simp_all add: seq_ok_def awaiting_def)
    then have "addressed ?b (bs_subs b ! i) =
        addressed b (bs_subs b ! i) @ (if m_topic m = s_topic (bs_subs b ! i) then [m] else [])"
      by (simp add: addressed_def begin_route_def)
    moreover have "awaiting ?b i = (if m_topic m = s_topic (bs_subs b ! i) then [m] else [])"
      using i assms(2) by (auto simp: awaiting_begin_route in_snapshot)
    ultimately show ?thesis using log by simp
  qed
  then show ?thesis using assms by (auto simp: seq_ok_def begin_route_def)
qed

lemma seq_ok_route_step:
  assumes "seq_ok b" and "bus_ok n b" shows "seq_ok (route_step k b)"
proof (cases "k < length (bs_routes b)")
  case True
  with assms(1) obtain r where k: "k = 0" and r: "bs_routes b = [r]"
    by (cases "bs_routes b") (auto simp: seq_ok_def)
  obtain m js where r': "r = (m, js)" by (cases r)
  then have ok: "route_ok (bs_subs b) (m, js)" using assms(2) r by (simp add: bus_ok_def)
  then obtain i rest where js: "js = i # rest" by (auto simp: route_ok_def neq_Nil_conv)
  then have i: "i < length (bs_subs b)" "i \<notin> set rest" using ok by (simp_all add: route_ok_def)
  show ?thesis
  proof (cases "queue_full (bs_max_queue_size b) (s_queue (bs_subs b ! i))")
    case False
    let ?b = "route_step k b"
    have subs: "s_registered (bs_subs ?b ! j) = s_registered (bs_subs b ! j)
        \<and> s_since (bs_subs ?b ! j) = s_since (bs_subs b ! j)
        \<and> s_topic (bs_subs ?b ! j) = s_topic (bs_subs b ! j)
        \<and> s_log (bs_subs ?b ! j) = s_log (bs_subs b ! j) @ (if j = i then [m] else [])"
      if "j < length (bs_subs b)" for j
      using that i r r' js k False
      by (simp add: route_step_def map_sub_def Let_def nth_list_update)
    have rest: "bs_routes ?b = (if rest = [] then [] else [(m, rest)])" "bs_published ?b = bs_published b"
      "length (bs_subs ?b) = length (bs_subs b)"
      using r r' js k False by (simp_all add: route_step_def map_sub_def Let_def)
    have "(if j = i then [m] else []) @ awaiting ?b j = awaiting b j" for j
      using i(2) r r' js by (simp add: awaiting_def rest)
    then show ?thesis using assms(1) subs
      by (simp add: seq_ok_def addressed_def rest)
  qed (use True r r' js k assms in \<open>simp add: route_step_def\<close>)
qed (simp add: route_step_def assms)

lemma seq_ok_subscribe:
  assumes "seq_ok b" and "bus_ok n b" shows "seq_ok (snd (bus_subscribe t q r b))"
proof (cases "validate_topic t")
  case (Inr u)
  let ?b = "snd (bus_subscribe t q r b)"
  have "awaiting b (length (bs_subs b)) = []"
    using assms(2) by (auto simp: awaiting_def bus_ok_def route_ok_def filter_empty_conv)
  then show ?thesis using assms(1) Inr
    by (auto simp: bus_subscribe_def seq_ok_def awaiting_def addressed_def nth_append
        new_subscription_def less_Suc_eq)
qed (simp add: bus_subscribe_def assms)

lemma seq_ok_step:
  assumes "seq_ok b" and "bus_ok n b"
    and "case e of Publish m \<Rightarrow> bs_routes b = [] | Request m t \<Rightarrow> bs_routes b = [] | _ \<Rightarrow> True"
  shows "seq_ok (bus_step e b)"
proof (cases e)
  case Start
  show ?thesis unfolding Start bus_step.simps
    by (rule seq_ok_cong [OF assms(1)]) (auto simp: start_def)
next
  case Stop
  show ?thesis unfolding Stop bus_step.simps
    by (rule seq_ok_cong [OF assms(1)]) (auto simp: stop_def drain_def)
next
  case (Publish m)
  then show ?thesis using assms
    by (simp add: bus_publish_def seq_ok_begin_route split: sum.splits)
next
  case (Request m t)
  have "seq_ok (begin_route m (b\<lparr>bs_pending := x, bs_resolved := y\<rparr>))" for x y
    using assms Request by (intro seq_ok_begin_route) simp_all
  then show ?thesis using assms Request by (simp add: bus_request_def split: sum.splits)
next
  case (Put k)
  then show ?thesis using assms by (simp add: seq_ok_route_step)
next
  case (Take i)
  show ?thesis unfolding Take bus_step.simps
    using assms(1) by (auto simp: dispatch_take_def intro!: seq_ok_map_sub split: option.splits)
next
  case (Finish i out r now)
  have "seq_ok (map_sub i (\<lambda>s. s\<lparr>s_busy := None\<rparr>) b)" using assms(1) by (intro seq_ok_map_sub) simp_all
  then show ?thesis using assms(1) Finish
    by (simp add: dispatch_finish_def fail_pending_reply_def maybe_reply_def Let_def
        split: option.splits outcome.splits)
next
  case (Subscribe t q r)
  then show ?thesis using assms by (simp add: seq_ok_subscribe)
next
  case (Unsubscribe i)
  then show ?thesis using assms(1) by (auto simp: unsubscribe_def drain_def intro!: seq_ok_map_sub)
next
  case (Expire i)
  then show ?thesis using assms(1) by (simp add: request_timeout_def)
next
  case (Return i)
  then show ?thesis using assms(1) by (simp add: request_return_def)
qed

lemma sequential_ok: "sequential n b \<Longrightarrow> seq_ok b"
  by (induction rule: sequential.induct)
    (auto simp: seq_ok_init intro: seq_ok_step bus_reachable_ok sequential_reachable)


section \<open>Futures\<close>

lemma resolve_all_keeps: "map_of r i = Some x \<Longrightarrow> map_of (resolve_all ids r) i = Some x"
  unfolding resolve_all_def
  by (induction ids arbitrary: r) (auto simp: map_add_def split: option.splits)

lemma resolve_all_open: "i \<in> set ids \<Longrightarrow> map_of r i = None \<Longrightarrow> map_of (resolve_all ids r) i = Some BusStopped"
  unfolding resolve_all_def
proof (induction ids arbitrary: r)
  case (Cons j ids)
  have keep: "map_of q i = Some BusStopped \<Longrightarrow>
      map_of (fold (\<lambda>i done. if i \<in> fst ` set done then done else done @ [(i, BusStopped)]) ids q) i
        = Some BusStopped" for q
    using resolve_all_keeps [of q i BusStopped ids] by (simp add: resolve_all_def)
  show ?case
  proof (cases "i = j")
    case True
    then have "j \<notin> fst ` set r" using Cons.prems by (simp add: map_of_eq_None_iff)
    moreover have "map_of (r @ [(j, BusStopped)]) j = Some BusStopped"
      using Cons.prems True by (simp add: map_add_def)
    ultimately show ?thesis using True keep [of "r @ [(j, BusStopped)]"] by simp
  next
    case False
    with Cons.prems have "i \<in> set ids" by simp
    then show ?thesis using Cons.IH [OF \<open>i \<in> set ids\<close>] Cons.prems False
      by (simp add: map_add_def)
  qed
qed simp

lemma map_of_snoc_keeps: "map_of r i = Some x \<Longrightarrow> map_of (r @ [y]) i = Some x"
  by (simp add: map_add_def split: option.splits)

lemma map_of_snoc_new: "map_of r i = None \<Longrightarrow> map_of (r @ [(i, x)]) i = Some x"
  by (simp add: map_add_def)

lemma map_of_filter_other: "i \<noteq> j \<Longrightarrow> map_of (filter (\<lambda>r. fst r \<noteq> j) r) i = map_of r i"
  by (induction r) auto

lemma future_open_None: "future_open i b \<Longrightarrow> map_of (bs_resolved b) i = None"
  by (simp add: future_open_def map_of_eq_None_iff)

lemma resolved_other [simp]:
  "bs_resolved (map_sub i f b) = bs_resolved b" "bs_pending (map_sub i f b) = bs_pending b"
  "bs_routes (map_sub i f b) = bs_routes b" "bs_resolved (begin_route m b) = bs_resolved b"
  "bs_resolved (route_step k b) = bs_resolved b"
  "bs_resolved (dispatch_take i b) = bs_resolved b"
  by (auto simp: map_sub_def begin_route_def route_step_def dispatch_take_def Let_def
      split: prod.splits list.splits option.splits)

lemma future_open_map_sub [simp]: "future_open j (map_sub i f b) = future_open j b"
  by (simp add: future_open_def)

lemma resolved_step:
  assumes "map_of (bs_resolved b) i = Some x" and "\<And>m t. e = Request m t \<Longrightarrow> m_id m \<noteq> i"
  shows "map_of (bs_resolved (bus_step e b)) i = Some x"
  using assms
  by (cases e)
    (auto simp: start_def stop_def bus_publish_def bus_request_def dispatch_finish_def
      fail_pending_reply_def maybe_reply_def bus_subscribe_def unsubscribe_def request_timeout_def
      request_return_def Let_def resolve_all_keeps map_of_snoc_keeps map_of_filter_other
      split: sum.splits option.splits outcome.splits)

section \<open>Properties\<close>

text \<open>A run for the witnesses: one subscriber, two publications, one delivered.\<close>

definition sample_message :: "string \<Rightarrow> int \<Rightarrow> message" where
  "sample_message topic i = \<lparr>m_topic = topic, m_payload = [(''bond_id'', VInt i)], m_sender = ''bonds'',
     m_id = i, m_timestamp = 0, m_reply_to = None\<rparr>"

definition sample_run :: "bus_event list" where
  "sample_run = [Subscribe ''bond.created'' False ''analytics'', Start,
     Publish (sample_message ''bond.created'' 1), Put 0, Publish (sample_message ''bond.created'' 2), Put 0,
     Take 0]"

fun sequential_run :: "bus_event list \<Rightarrow> bus \<Rightarrow> bool" where
  "sequential_run [] b \<longleftrightarrow> True"
| "sequential_run (e # es) b \<longleftrightarrow>
     (case e of Publish m \<Rightarrow> bs_routes b = [] | Request m t \<Rightarrow> bs_routes b = [] | _ \<Rightarrow> True)
     \<and> sequential_run es (bus_step e b)"

lemma sequential_run_sequential:
  "sequential_run es b \<Longrightarrow> sequential n b \<Longrightarrow> sequential n (fold bus_step es b)"
  by (induction es arbitrary: b) (auto intro: sequential.step)

lemma fold_bus_reachable: "bus_reachable n b \<Longrightarrow> bus_reachable n (fold bus_step es b)"
  by (induction es arbitrary: b) (auto intro: bus_reachable.step)

lemma sample_run_sequential: "sequential 0 (fold bus_step sample_run (bus_init 0))"
proof -
  have "sequential_run sample_run (bus_init 0)" by code_simp
  then show ?thesis by (rule sequential_run_sequential) (rule sequential.init)
qed

lemma sample_run_state:
  "map (\<lambda>s. (map m_id (s_taken s), map m_id (s_queue s), s_registered s, s_dropped s))
     (bs_subs (fold bus_step sample_run (bus_init 0))) = [([1], [2], True, 0)]"
  "bs_routes (fold bus_step sample_run (bus_init 0)) = []"
  by code_simp+

text \<open>
  C32. In every reachable state of the bus a subscription's queue never exceeds its bound; the
  messages handed to the handler, followed by those still queued, are a subsequence of the messages
  put into the queue, and all of them unless a stop or an unsubscribe dropped some; and a subscriber
  only ever receives messages of its topic.
\<close>

theorem bus_bounded_fifo:
  assumes "bus_reachable n b" and "i < length (bs_subs b)" and "s = bs_subs b ! i"
  shows "(0 < n \<longrightarrow> int (length (s_queue s)) \<le> n)
    \<and> subseq (s_taken s @ s_queue s) (s_log s)
    \<and> (s_dropped s = 0 \<longrightarrow> s_taken s @ s_queue s = s_log s)
    \<and> (\<forall>m \<in> set (s_taken s). m_topic m = s_topic s)"
proof -
  have "sub_ok n s" using bus_reachable_ok [OF assms(1)] assms(2,3) by (simp add: bus_ok_def)
  then have ok: "accounted (s_taken s) (s_queue s) (s_dropped s) (s_log s)"
    "0 < n \<longrightarrow> int (length (s_queue s)) \<le> n" "\<forall>m \<in> set (s_log s). m_topic m = s_topic s"
    by (simp_all add: sub_ok_def)
  then have sub: "subseq (s_taken s @ s_queue s) (s_log s)" by (simp add: accounted_def)
  have "m \<in> set (s_log s)" if "m \<in> set (s_taken s)" for m
  proof -
    have "m \<in> set (s_taken s @ s_queue s)" using that by simp
    then show ?thesis by (rule list_emb_set [OF sub]) simp
  qed
  then have "\<forall>m \<in> set (s_taken s). m_topic m = s_topic s" using ok(3) by blast
  then show ?thesis using sub ok(2) accounted_exact [of "s_taken s" "s_queue s" "s_log s"] ok(1) by auto
qed

theorem bus_bounded_fifo_witness:
  "let s = bs_subs (fold bus_step sample_run (bus_init 0)) ! 0
   in s_dropped s = 0 \<and> s_taken s @ s_queue s = s_log s"
proof -
  let ?b = "fold bus_step sample_run (bus_init 0)"
  have "0 < length (bs_subs ?b) \<and> s_dropped (bs_subs ?b ! 0) = 0" by code_simp
  then show ?thesis
    using bus_bounded_fifo [OF sequential_reachable [OF sample_run_sequential], of 0] by (simp add: Let_def)
qed




text \<open>
  The first handler of a request to finish settles it: a reply carries the handler's mapping and
  the request's identifier, an exception becomes \<open>RequestHandlerError\<close>, and no later step changes
  the outcome. A handler that returns nothing leaves the request open, so that with no timeout the
  requester keeps waiting.
\<close>

theorem request_first_outcome_wins:
  assumes "k < length (bs_subs b)" and "s_busy (bs_subs b ! k) = Some m"
    and "s_is_request_handler (bs_subs b ! k)" and "future_open (m_id m) b"
  shows "(\<exists>r. map_of (bs_resolved (bus_step (Finish k (Returns (Some p)) rid now) b)) (m_id m) = Some (Reply r)
        \<and> m_payload r = p \<and> m_reply_to r = Some (m_id m))
    \<and> map_of (bs_resolved (bus_step (Finish k Raises rid now) b)) (m_id m) = Some HandlerFailed
    \<and> future_open (m_id m) (bus_step (Finish k (Returns None) rid now) b)
    \<and> (\<forall>e x. map_of (bs_resolved b) i = Some x \<and> (\<forall>m' t. e = Request m' t \<longrightarrow> m_id m' \<noteq> i)
          \<longrightarrow> map_of (bs_resolved (bus_step e b)) i = Some x)"
proof -
  have "map_of (bs_resolved b) (m_id m) = None" using assms(4) by (rule future_open_None)
  then show ?thesis
    using assms resolved_step [of b i]
    by (simp add: dispatch_finish_def maybe_reply_def fail_pending_reply_def Let_def map_add_def)
qed

definition sample_request_run :: "bus_event list" where
  "sample_request_run = [Subscribe ''bond.created'' True ''handlers'', Start,
     Request (sample_message ''bond.created'' 1) False, Put 0, Take 0]"

theorem request_first_outcome_wins_witness:
  "request_result 1 (fold bus_step (sample_request_run @ [Finish 0 Raises 9 0]) (bus_init 0))
     = Some (Inl RequestHandlerError)"
proof -
  let ?b = "fold bus_step sample_request_run (bus_init 0)"
  have b: "0 < length (bs_subs ?b)" "s_busy (bs_subs ?b ! 0) = Some (sample_message ''bond.created'' 1)"
    "s_is_request_handler (bs_subs ?b ! 0)" "future_open (m_id (sample_message ''bond.created'' 1)) ?b"
    by code_simp+
  have "map_of (bs_resolved (bus_step (Finish 0 Raises 9 0) ?b)) 1 = Some HandlerFailed"
    using request_first_outcome_wins [OF b] by (simp add: sample_message_def)
  moreover have "\<not> routing 1 (bus_step (Finish 0 Raises 9 0) ?b)" by code_simp
  ultimately show ?thesis by (simp add: request_result_def del: bus_step.simps)
qed

text \<open>
  C34. \<open>stop\<close> fails every pending request, cancels every dispatcher and empties the queue of every
  registered subscription; a publish or request on the stopped bus raises \<open>RuntimeError\<close> and changes
  nothing.
\<close>

theorem stop_fails_pending_and_drains:
  assumes "bs_running b"
  shows "(\<forall>i. future_open i b \<longrightarrow> map_of (bs_resolved (stop b)) i = Some BusStopped)
    \<and> (\<forall>s \<in> set (bs_subs (stop b)). s_registered s \<longrightarrow> s_queue s = [] \<and> \<not> s_dispatcher s \<and> s_busy s = None)
    \<and> (m_topic m \<in> set ALL_TOPICS \<longrightarrow>
         bus_publish m (stop b) = (Inl RuntimeError, stop b)
         \<and> bus_request m t (stop b) = (Inl RuntimeError, stop b))"
proof -
  have "map_of (bs_resolved (stop b)) i = Some BusStopped" if "future_open i b" for i
    using that assms resolve_all_open [of i "bs_pending b" "bs_resolved b"] future_open_None [OF that]
    by (simp add: stop_def future_open_def)
  moreover have "\<not> bs_running (stop b)" by (simp add: stop_def)
  ultimately show ?thesis
    using assms by (auto simp: stop_def drain_def bus_publish_def bus_request_def validate_topic_def)
qed

theorem stop_fails_pending_and_drains_witness:
  "map_of (bs_resolved (stop (fold bus_step sample_request_run (bus_init 0)))) 1 = Some BusStopped"
proof -
  let ?b = "fold bus_step sample_request_run (bus_init 0)"
  have "bs_running ?b" "future_open 1 ?b" by code_simp+
  then show ?thesis using stop_fails_pending_and_drains by blast
qed

text \<open>
  A publisher that waits on a full queue when the bus stops puts its message afterwards: the
  queue of the stopped bus is not empty, and the message is delivered after a restart.
\<close>

theorem stopped_bus_accepts_blocked_put:
  "let b = fold bus_step [Subscribe ''bond.created'' False ''analytics'', Start,
         Publish (sample_message ''bond.created'' 1), Put 0, Publish (sample_message ''bond.created'' 2), Put 0,
         Stop, Put 0] (bus_init 1)
   in bus_reachable 1 b \<and> \<not> bs_running b \<and> map m_id (s_queue (bs_subs b ! 0)) = [2]
      \<and> map m_id (s_taken (bs_subs (fold bus_step [Start, Take 0] b) ! 0)) = [2]"
proof -
  let ?es = "[Subscribe ''bond.created'' False ''analytics'', Start,
         Publish (sample_message ''bond.created'' 1), Put 0, Publish (sample_message ''bond.created'' 2), Put 0,
         Stop, Put 0]"
  have "bus_reachable 1 (fold bus_step ?es (bus_init 1))"
    by (rule fold_bus_reachable) (rule bus_reachable.init)
  moreover have "\<not> bs_running (fold bus_step ?es (bus_init 1))
      \<and> map m_id (s_queue (bs_subs (fold bus_step ?es (bus_init 1)) ! 0)) = [2]
      \<and> map m_id (s_taken (bs_subs (fold bus_step [Start, Take 0] (fold bus_step ?es (bus_init 1))) ! 0)) = [2]"
    by code_simp
  ultimately show ?thesis by (simp only: Let_def simp_thms)
qed

end
