(* ===== verification/World.thy ===== *)
theory World
  imports Integrity EventBus
begin

text \<open>
  What the services share: the committed database and the bus as the world they run in, sessions
  that flush, publish and commit, partial updates, and the contracts of their operations as
  locales. An operation takes the environment (\<open>env\<close>: the identifier the database gives the next
  row, the clock, the day, fresh message identifiers) and the world, and returns its result with
  the world it leaves. A publish is the bus operation of \<open>EventBus\<close>; the puts it starts are steps of
  the bus, which may follow at any later time.
\<close>

record env =
  e_new_id :: int
  e_now :: int
  e_today :: date
  e_uuid :: "nat \<Rightarrow> int"

record world =
  w_db :: database
  w_bus :: bus

type_synonym 'a step = "world \<Rightarrow> 'a result \<times> world"

section \<open>Publishing\<close>

definition event_message :: "env \<Rightarrow> string \<Rightarrow> string \<Rightarrow> payload \<Rightarrow> bus \<Rightarrow> message" where
  "event_message env sender topic payload b =
     \<lparr>m_topic = topic, m_payload = payload, m_sender = sender,
      m_id = e_uuid env (length (bs_published b)), m_timestamp = e_now env, m_reply_to = None\<rparr>"

definition publish :: "env \<Rightarrow> string \<Rightarrow> string \<Rightarrow> payload \<Rightarrow> unit step" where
  "publish env sender topic payload w =
     (case bus_publish (event_message env sender topic payload (w_bus w)) (w_bus w) of
        (r, b) \<Rightarrow> (map_sum id (\<lambda>_. ()) r, w\<lparr>w_bus := b\<rparr>))"

text \<open>Two awaits in a row: the second only if the first did not raise.\<close>

definition and_then :: "unit step \<Rightarrow> unit step \<Rightarrow> unit step" where
  "and_then f g w = (case f w of (Inl e, w') \<Rightarrow> (Inl e, w') | (Inr _, w') \<Rightarrow> g w')"

fun publish_each :: "env \<Rightarrow> string \<Rightarrow> string \<Rightarrow> payload list \<Rightarrow> unit step" where
  "publish_each env sender topic [] w = (Inr (), w)"
| "publish_each env sender topic (p # ps) w =
     and_then (publish env sender topic p) (publish_each env sender topic ps) w"

text \<open>
  \<open>flush(); publish(); commit()\<close> with a rollback on any exception: the database of the world is the
  committed one, and changes only at the end.
\<close>

definition flush_publish_commit :: "database result \<Rightarrow> unit step \<Rightarrow> unit step" where
  "flush_publish_commit flush pub w =
     (case flush of
        Inl e \<Rightarrow> (Inl e, w)
      | Inr db \<Rightarrow>
          (case pub w of
             (Inl e, w') \<Rightarrow> (Inl e, w')
           | (Inr _, w') \<Rightarrow> (Inr (), w'\<lparr>w_db := db\<rparr>)))"

text \<open>\<open>except IntegrityError: raise other\<close>, and the value an operation returns at its end.\<close>

definition integrity_as :: "error \<Rightarrow> unit result \<times> world \<Rightarrow> unit result \<times> world" where
  "integrity_as other r =
     (case r of (Inl e, w) \<Rightarrow> (Inl (if e = IntegrityError then other else e), w) | (Inr u, w) \<Rightarrow> (Inr u, w))"

definition returning :: "'a \<Rightarrow> unit result \<times> world \<Rightarrow> 'a result \<times> world" where
  "returning x r = (map_sum id (\<lambda>_. x) (fst r), snd r)"

section \<open>Partial updates\<close>

text \<open>
  A field of an update model: omitted, explicitly \<open>null\<close>, or given. \<open>set_field\<close> is for the columns
  that are not nullable, where \<open>null\<close> means not provided; \<open>set_nullable\<close> for \<open>NULLABLE_FIELDS\<close>.
\<close>

datatype 'a field = Omitted | Null | Given 'a

fun set_field :: "'a field \<Rightarrow> 'a \<Rightarrow> 'a" where
  "set_field (Given x) old = x"
| "set_field Omitted old = old"
| "set_field Null old = old"

fun set_nullable :: "'a field \<Rightarrow> 'a option \<Rightarrow> 'a option" where
  "set_nullable (Given x) old = Some x"
| "set_nullable Omitted old = old"
| "set_nullable Null old = None"

text \<open>Optional values in a payload.\<close>

definition opt_value :: "('a \<Rightarrow> payload_value) \<Rightarrow> 'a option \<Rightarrow> payload_value" where
  "opt_value f x = (case x of None \<Rightarrow> VNone | Some y \<Rightarrow> f y)"

section \<open>Lemmas on publishing\<close>

text \<open>
  What a step may do to the bus: publish, and nothing else that the services can see. The routes of the
  new messages are those of the topics somebody listens to.
\<close>

definition routes_of :: "bus \<Rightarrow> message list \<Rightarrow> (message \<times> nat list) list" where
  "routes_of b ms = filter (\<lambda>r. snd r \<noteq> []) (map (\<lambda>m. (m, snapshot (m_topic m) b)) ms)"

definition bus_grows :: "bus \<Rightarrow> bus \<Rightarrow> bool" where
  "bus_grows b b' \<longleftrightarrow> bs_running b' = bs_running b \<and> bs_subs b' = bs_subs b
     \<and> bs_max_queue_size b' = bs_max_queue_size b
     \<and> (\<exists>ms. bs_published b' = bs_published b @ ms \<and> bs_routes b' = bs_routes b @ routes_of b ms)"

lemma snapshot_cong: "bs_subs b' = bs_subs b \<Longrightarrow> snapshot t b' = snapshot t b"
  by (simp add: snapshot_def)

lemma routes_of_append [simp]: "routes_of b (ms @ ns) = routes_of b ms @ routes_of b ns"
  by (simp add: routes_of_def)

lemma routes_of_cong: "bs_subs b' = bs_subs b \<Longrightarrow> routes_of b' ms = routes_of b ms"
  by (simp add: routes_of_def snapshot_cong [of b' b])

lemma bus_grows_refl [simp]: "bus_grows b b"
  by (simp add: bus_grows_def routes_of_def)

lemma bus_grows_trans: "bus_grows a b \<Longrightarrow> bus_grows b c \<Longrightarrow> bus_grows a c"
  by (auto simp: bus_grows_def routes_of_cong [of b a])

lemma begin_route_grows: "bus_grows b (begin_route m b)"
  by (auto simp: begin_route_def bus_grows_def routes_of_def)

lemma bus_publish_grows: "bus_grows b (snd (bus_publish m b))"
  by (auto simp: bus_publish_def begin_route_grows split: sum.split)

lemma publish_db [simp]: "w_db (snd (publish env s t p w)) = w_db w"
  by (simp add: publish_def split: prod.split)

lemma publish_grows: "bus_grows (w_bus w) (w_bus (snd (publish env s t p w)))"
  using bus_publish_grows [of "w_bus w"] by (simp add: publish_def split: prod.split) (metis snd_conv)

lemma begin_route_simps [simp]:
  "bs_running (begin_route m b) = bs_running b" "bs_subs (begin_route m b) = bs_subs b"
  "bs_published (begin_route m b) = bs_published b @ [m]"
  by (simp_all add: begin_route_def)

lemma event_message_simps [simp]:
  "m_topic (event_message env s t p b) = t" "m_payload (event_message env s t p b) = p"
  by (simp_all add: event_message_def)

lemma publish_running:
  "t \<in> set ALL_TOPICS \<Longrightarrow> s \<noteq> [] \<Longrightarrow> bs_running (w_bus w) \<Longrightarrow>
   publish env s t p w = (Inr (), w\<lparr>w_bus := begin_route (event_message env s t p (w_bus w)) (w_bus w)\<rparr>)"
  by (auto simp: publish_def bus_publish_def validate_topic_def check_message_def event_message_def
      ALL_TOPICS_def)

lemma publish_stopped:
  "t \<in> set ALL_TOPICS \<Longrightarrow> \<not> bs_running (w_bus w) \<Longrightarrow> publish env s t p w = (Inl RuntimeError, w)"
  by (simp add: publish_def bus_publish_def validate_topic_def)

lemma publish_Inl: "fst (publish env s t p w) = Inl e \<Longrightarrow> snd (publish env s t p w) = w"
  by (auto simp: publish_def bus_publish_def split: sum.splits prod.splits if_splits)

lemma publish_not_integrity: "fst (publish env s t p w) \<noteq> Inl IntegrityError"
  by (auto simp: publish_def bus_publish_def validate_topic_def check_message_def
      split: sum.splits prod.splits if_splits)

lemma and_then_db:
  assumes "\<And>v. w_db (snd (f v)) = w_db v" and "\<And>v. w_db (snd (g v)) = w_db v"
  shows "w_db (snd (and_then f g w)) = w_db w"
proof -
  obtain r w' where f: "f w = (r, w')" by fastforce
  then have "w_db w' = w_db w" using assms(1) [of w] by simp
  with f assms(2) show ?thesis by (cases r) (simp_all add: and_then_def)
qed

lemma and_then_grows:
  assumes "\<And>v. bus_grows (w_bus v) (w_bus (snd (f v)))" and "\<And>v. bus_grows (w_bus v) (w_bus (snd (g v)))"
  shows "bus_grows (w_bus w) (w_bus (snd (and_then f g w)))"
proof -
  obtain r w' where f: "f w = (r, w')" by fastforce
  then have "bus_grows (w_bus w) (w_bus w')" using assms(1) [of w] by simp
  with f assms(2) show ?thesis by (cases r) (auto simp: and_then_def intro: bus_grows_trans)
qed

lemma publish_each_db [simp]: "w_db (snd (publish_each env s t ps w)) = w_db w"
  by (induction ps arbitrary: w) (simp_all add: and_then_db)

lemma publish_each_grows: "bus_grows (w_bus w) (w_bus (snd (publish_each env s t ps w)))"
  by (induction ps arbitrary: w) (simp_all add: and_then_grows publish_grows)

lemma publish_each_stopped:
  "t \<in> set ALL_TOPICS \<Longrightarrow> \<not> bs_running (w_bus w) \<Longrightarrow>
   publish_each env s t ps w = (if ps = [] then Inr () else Inl RuntimeError, w)"
  by (cases ps) (simp_all add: publish_stopped and_then_def)

text \<open>The payloads of the events published on a topic since a given state of the bus.\<close>

definition new_payloads :: "string \<Rightarrow> bus \<Rightarrow> bus \<Rightarrow> payload list" where
  "new_payloads t b b' = map m_payload (filter (\<lambda>m. m_topic m = t) (drop (length (bs_published b)) (bs_published b')))"

definition new_topics :: "bus \<Rightarrow> bus \<Rightarrow> string list" where
  "new_topics b b' = map m_topic (drop (length (bs_published b)) (bs_published b'))"

lemma publish_each_running:
  "t \<in> set ALL_TOPICS \<Longrightarrow> s \<noteq> [] \<Longrightarrow> bs_running (w_bus w) \<Longrightarrow>
   \<exists>ms b. publish_each env s t ps w = (Inr (), w\<lparr>w_bus := b\<rparr>)
     \<and> bs_published b = bs_published (w_bus w) @ ms
     \<and> map m_topic ms = replicate (length ps) t \<and> map m_payload ms = ps"
proof (induction ps arbitrary: w)
  case Nil
  then show ?case by (intro exI [of _ "[]"] exI [of _ "w_bus w"]) simp
next
  case (Cons p ps)
  let ?m = "event_message env s t p (w_bus w)"
  let ?w = "w\<lparr>w_bus := begin_route ?m (w_bus w)\<rparr>"
  obtain ms b where "publish_each env s t ps ?w = (Inr (), ?w\<lparr>w_bus := b\<rparr>)"
    "bs_published b = bs_published (w_bus ?w) @ ms"
    "map m_topic ms = replicate (length ps) t" "map m_payload ms = ps"
    using Cons.IH [of ?w] Cons.prems by auto
  with Cons.prems show ?case
    by (intro exI [of _ "?m # ms"] exI [of _ b]) (simp add: publish_running and_then_def)
qed

section \<open>Lemmas on sessions\<close>

lemma flush_publish_commit_Inl:
  assumes "\<And>v. w_db (snd (pub v)) = w_db v"
  shows "fst (flush_publish_commit fl pub w) = Inl e \<Longrightarrow> w_db (snd (flush_publish_commit fl pub w)) = w_db w"
  using assms [of w] by (auto simp: flush_publish_commit_def split: sum.splits prod.splits)

lemma flush_publish_commit_Inr:
  "fst (flush_publish_commit fl pub w) = Inr u \<Longrightarrow>
   \<exists>db. fl = Inr db \<and> w_db (snd (flush_publish_commit fl pub w)) = db
     \<and> fst (pub w) = Inr () \<and> w_bus (snd (flush_publish_commit fl pub w)) = w_bus (snd (pub w))"
  by (auto simp: flush_publish_commit_def split: sum.splits prod.splits)

lemma flush_publish_commit_grows:
  assumes "\<And>v. bus_grows (w_bus v) (w_bus (snd (pub v)))"
  shows "bus_grows (w_bus w) (w_bus (snd (flush_publish_commit fl pub w)))"
  using assms [of w] by (auto simp: flush_publish_commit_def split: sum.splits prod.splits)

lemma flush_publish_commit_wf:
  assumes "db_wf (w_db w)" and "\<And>v. w_db (snd (pub v)) = w_db v" and "\<And>db. fl = Inr db \<Longrightarrow> db_wf db"
  shows "db_wf (w_db (snd (flush_publish_commit fl pub w)))"
  using assms(1) assms(2) [of w] assms(3)
  by (auto simp: flush_publish_commit_def split: sum.splits prod.splits)

lemma integrity_as_simps [simp]:
  "snd (integrity_as other r) = snd r" "fst (integrity_as other r) = Inr u \<longleftrightarrow> fst r = Inr u"
  by (auto simp: integrity_as_def split: prod.splits sum.splits)

lemma integrity_as_Inl: "fst (integrity_as other r) = Inl e \<Longrightarrow> \<exists>e'. fst r = Inl e'"
  by (auto simp: integrity_as_def split: prod.splits sum.splits)

lemma returning_simps [simp]:
  "snd (returning x r) = snd r" "fst (returning x r) = Inl e \<longleftrightarrow> fst r = Inl e"
  by (cases "fst r"; simp add: returning_def)+

lemma returning_Inr: "fst (returning x r) = Inr y \<longleftrightarrow> y = x \<and> fst r = Inr ()"
  by (cases "fst r") (auto simp: returning_def)

section \<open>Contracts of the operations\<close>

text \<open>
  Every operation keeps the constraints of the database and does nothing to the bus but publish. An
  atomic operation that fails leaves the database as it was.
\<close>

locale service_op =
  fixes op :: "'a step"
  assumes keeps_wf: "db_wf (w_db w) \<Longrightarrow> db_wf (w_db (snd (op w)))"
    and only_publishes: "bus_grows (w_bus w) (w_bus (snd (op w)))"
begin

lemma keeps_running: "bs_running (w_bus (snd (op w))) = bs_running (w_bus w)"
  using only_publishes [of w] by (simp add: bus_grows_def)

end

locale atomic_op = service_op +
  assumes failure_keeps: "fst (op w) = Inl e \<Longrightarrow> w_db (snd (op w)) = w_db w"
begin

lemma changes_only_on_success: "w_db (snd (op w)) \<noteq> w_db w \<Longrightarrow> \<exists>x. fst (op w) = Inr x"
  using failure_keeps by (cases "fst (op w)") auto

end

text \<open>An operation on a row that belongs to a user.\<close>

locale owned_op =
  fixes lookup :: "int \<Rightarrow> database \<Rightarrow> 'r option"
    and owner :: "'r \<Rightarrow> int"
    and op :: "int \<Rightarrow> int \<Rightarrow> 'a step"
    and missing :: "'a"
    and denied :: error
  assumes missing_row: "lookup i (w_db w) = None \<Longrightarrow> op i u w = (Inr missing, w)"
    and foreign_row: "lookup i (w_db w) = Some r \<Longrightarrow> owner r \<noteq> u \<Longrightarrow> op i u w = (Inl denied, w)"
begin

lemma only_owner_changes:
  assumes "snd (op i u w) \<noteq> w" obtains r where "lookup i (w_db w) = Some r" "owner r = u"
proof (cases "lookup i (w_db w)")
  case None
  then show ?thesis using assms by (simp add: missing_row)
next
  case (Some r)
  then show ?thesis using assms that by (cases "owner r = u") (simp_all add: foreign_row)
qed

end

end
