(* ===== verification/Bonds.thy ===== *)
theory Bonds
  imports World
begin

text \<open>
  \<open>bonds/service.py\<close> and \<open>bonds/dto.py\<close>: the bond registry. A bond may be created by any user and
  is changed by its owner; \<open>bond.updated\<close> and \<open>bond.deleted\<close> go to every holder. Each operation
  publishes before it commits, and a failing publish rolls it back. A \<open>BondDTO\<close> has the fields of
  the row and is modelled by it; \<open>bond_payload\<close> is its \<open>model_dump()\<close>.
\<close>

section \<open>Data\<close>

record bond_create =
  nb_isin :: string
  nb_name :: string
  nb_nominal :: int
  nb_coupon_rate :: rat
  nb_coupon_period_days :: int
  nb_maturity_date :: date
  nb_issuer :: "string option"

record bond_update =
  ub_name :: "string field"
  ub_nominal :: "int field"
  ub_coupon_rate :: "rat field"
  ub_coupon_period_days :: "int field"
  ub_maturity_date :: "date field"
  ub_issuer :: "string field"

text \<open>The constraints of the models: \<open>^[A-Z0-9]{12}$\<close>, \<open>gt=0\<close>, \<open>ge=0\<close>.\<close>

definition isin_char :: "char \<Rightarrow> bool" where
  "isin_char c \<longleftrightarrow> (65 \<le> (of_char c :: nat) \<and> (of_char c :: nat) \<le> 90) \<or> (48 \<le> (of_char c :: nat) \<and> (of_char c :: nat) \<le> 57)"

definition isin_ok :: "string \<Rightarrow> bool" where
  "isin_ok s \<longleftrightarrow> length s = 12 \<and> list_all isin_char s"

definition bond_create_ok :: "bond_create \<Rightarrow> bool" where
  "bond_create_ok d \<longleftrightarrow> isin_ok (nb_isin d) \<and> 0 < nb_nominal d \<and> 0 \<le> nb_coupon_rate d
     \<and> 0 \<le> nb_coupon_period_days d \<and> valid_date (nb_maturity_date d)"

definition field_ok :: "('a \<Rightarrow> bool) \<Rightarrow> 'a field \<Rightarrow> bool" where
  "field_ok P f = (case f of Given x \<Rightarrow> P x | _ \<Rightarrow> True)"

definition bond_update_ok :: "bond_update \<Rightarrow> bool" where
  "bond_update_ok d \<longleftrightarrow> field_ok (\<lambda>n. 0 < n) (ub_nominal d) \<and> field_ok (\<lambda>r. 0 \<le> r) (ub_coupon_rate d)
     \<and> field_ok (\<lambda>p. 0 \<le> p) (ub_coupon_period_days d) \<and> field_ok valid_date (ub_maturity_date d)"

definition bond_payload :: "bond_row \<Rightarrow> payload" where
  "bond_payload b =
     [(''id'', VInt (b_id b)), (''owner_id'', VInt (b_owner_id b)), (''isin'', VStr (b_isin b)),
      (''name'', VStr (b_name b)), (''nominal'', VInt (b_nominal b)), (''coupon_rate'', VNum (b_coupon_rate b)),
      (''coupon_period_days'', VInt (b_coupon_period_days b)), (''maturity_date'', VDate (b_maturity_date b)),
      (''issuer'', opt_value VStr (b_issuer b))]"

text \<open>\<open>{**payload, "user_id": holder_id}\<close>\<close>

definition for_holder :: "payload \<Rightarrow> int \<Rightarrow> payload" where
  "for_holder p u = filter (\<lambda>kv. fst kv \<noteq> ''user_id'') p @ [(''user_id'', VInt u)]"

section \<open>Operations\<close>

definition new_bond :: "env \<Rightarrow> bond_create \<Rightarrow> int \<Rightarrow> bond_row" where
  "new_bond env d user_id =
     \<lparr>b_id = e_new_id env, b_owner_id = user_id, b_isin = nb_isin d, b_name = nb_name d,
      b_nominal = nb_nominal d, b_coupon_rate = nb_coupon_rate d,
      b_coupon_period_days = nb_coupon_period_days d, b_maturity_date = nb_maturity_date d,
      b_issuer = nb_issuer d\<rparr>"

definition create_bond :: "env \<Rightarrow> bond_create \<Rightarrow> int \<Rightarrow> bond_row step" where
  "create_bond env d user_id w =
     (if find (\<lambda>b. b_isin b = nb_isin d) (bonds (w_db w)) \<noteq> None then (Inl BondIsinDuplicateError, w)
      else
        let bond = new_bond env d user_id
        in returning bond (integrity_as BondIsinDuplicateError
             (flush_publish_commit (insert_bond bond (w_db w))
                (publish env ''bonds'' ''bond.created'' (bond_payload bond)) w)))"

definition get_bond :: "int \<Rightarrow> database \<Rightarrow> bond_row option" where
  "get_bond bond_id db = row_of b_id bond_id (bonds db)"

definition get_bond_by_isin :: "string \<Rightarrow> database \<Rightarrow> bond_row option" where
  "get_bond_by_isin isin db = find (\<lambda>b. b_isin b = isin) (bonds db)"

definition list_all_bonds :: "database \<Rightarrow> bond_row list" where
  "list_all_bonds db = order_by b_id (bonds db)"

definition holder_ids :: "int \<Rightarrow> database \<Rightarrow> int list" where
  "holder_ids bond_id db =
     remdups (sort (map t_user_id (filter (\<lambda>t. t_bond_id t = bond_id) (transactions db))))"

definition publish_for_holders :: "env \<Rightarrow> string \<Rightarrow> int list \<Rightarrow> payload \<Rightarrow> unit step" where
  "publish_for_holders env topic holders payload =
     publish_each env ''bonds'' topic (map (for_holder payload) holders)"

definition apply_bond_update :: "bond_update \<Rightarrow> bond_row \<Rightarrow> bond_row" where
  "apply_bond_update d b =
     b\<lparr>b_name := set_field (ub_name d) (b_name b), b_nominal := set_field (ub_nominal d) (b_nominal b),
       b_coupon_rate := set_field (ub_coupon_rate d) (b_coupon_rate b),
       b_coupon_period_days := set_field (ub_coupon_period_days d) (b_coupon_period_days b),
       b_maturity_date := set_field (ub_maturity_date d) (b_maturity_date b),
       b_issuer := set_nullable (ub_issuer d) (b_issuer b)\<rparr>"

definition update_bond :: "env \<Rightarrow> bond_update \<Rightarrow> int \<Rightarrow> int \<Rightarrow> bond_row option step" where
  "update_bond env d bond_id user_id w =
     (case get_bond bond_id (w_db w) of
        None \<Rightarrow> (Inr None, w)
      | Some bond \<Rightarrow>
          if b_owner_id bond \<noteq> user_id then (Inl BondNotOwnedError, w)
          else
            let bond' = apply_bond_update d bond
            in returning (Some bond')
                 (flush_publish_commit (update_bond_row bond' (w_db w))
                    (publish_for_holders env ''bond.updated'' (holder_ids bond_id (w_db w)) (bond_payload bond')) w))"

definition delete_bond :: "env \<Rightarrow> int \<Rightarrow> int \<Rightarrow> bool step" where
  "delete_bond env bond_id user_id w =
     (case get_bond bond_id (w_db w) of
        None \<Rightarrow> (Inr False, w)
      | Some bond \<Rightarrow>
          if b_owner_id bond \<noteq> user_id then (Inl BondNotOwnedError, w)
          else if length (filter (\<lambda>t. t_bond_id t = bond_id) (transactions (w_db w))) \<noteq> 0
          then (Inl BondDeletionBlockedError, w)
          else
            let db = delete_bond_row bond_id (w_db w)
            in returning True
                 (flush_publish_commit (Inr db)
                    (publish_for_holders env ''bond.deleted'' (holder_ids bond_id db)
                       [(''bond_id'', VInt bond_id)]) w))"

section \<open>Lemmas\<close>

lemma get_bond_Some:
  "db_wf db \<Longrightarrow> get_bond i db = Some b \<longleftrightarrow> b \<in> set (bonds db) \<and> b_id b = i"
  by (simp add: get_bond_def rows.lookup_mem put_wf_simps)

lemma apply_bond_update_id [simp]:
  "b_id (apply_bond_update d b) = b_id b" "b_owner_id (apply_bond_update d b) = b_owner_id b"
  "b_isin (apply_bond_update d b) = b_isin b"
  by (simp_all add: apply_bond_update_def)

lemma publish_for_holders_db [simp]: "w_db (snd (publish_for_holders env t hs p w)) = w_db w"
  by (simp add: publish_for_holders_def)

lemma publish_for_holders_grows: "bus_grows (w_bus w) (w_bus (snd (publish_for_holders env t hs p w)))"
  by (simp add: publish_for_holders_def publish_each_grows)

text \<open>The update of a bond that exists never meets a constraint: owner and ISIN stay.\<close>

lemma update_bond_row_ok:
  assumes "db_wf db" and "get_bond i db = Some b"
  shows "update_bond_row (apply_bond_update d b) db
    = Inr (db\<lparr>bonds := put_row b_id (apply_bond_update d b) (bonds db)\<rparr>)"
proof -
  from assms have b: "b \<in> set (bonds db)" by (simp add: get_bond_Some)
  then have "bond_refs db (apply_bond_update d b)"
    using assms(1) by (simp add: put_wf_simps bond_refs_def)
  moreover have "b_isin b \<notin> b_isin ` {x \<in> set (bonds db). b_id x \<noteq> b_id b}"
  proof
    assume "b_isin b \<in> b_isin ` {x \<in> set (bonds db). b_id x \<noteq> b_id b}"
    then obtain x where x: "x \<in> set (bonds db)" "b_id x \<noteq> b_id b" "b_isin x = b_isin b" by auto
    have "inj_on b_isin (set (bonds db))" using assms(1) by (simp add: put_wf_simps distinct_map)
    with b x show False by (auto dest: inj_onD)
  qed
  ultimately show ?thesis by (simp add: update_bond_row_def)
qed

lemma holder_ids_distinct: "distinct (holder_ids i db)"
  by (simp add: holder_ids_def)

lemma set_holder_ids: "set (holder_ids i db) = t_user_id ` {t \<in> set (transactions db). t_bond_id t = i}"
  by (auto simp: holder_ids_def)

lemma holder_ids_deleted: "holder_ids i (delete_bond_row i db) = []"
  by (simp add: holder_ids_def delete_bond_row_def)

interpretation create_bond: atomic_op "create_bond env d user_id" for env d user_id
proof unfold_locales
  fix w e
  show "db_wf (w_db w) \<Longrightarrow> db_wf (w_db (snd (create_bond env d user_id w)))"
    by (auto simp: create_bond_def Let_def intro!: flush_publish_commit_wf dest: insert_bond_wf [rotated])
  show "bus_grows (w_bus w) (w_bus (snd (create_bond env d user_id w)))"
    by (simp add: create_bond_def Let_def flush_publish_commit_grows publish_grows)
  show "fst (create_bond env d user_id w) = Inl e \<Longrightarrow> w_db (snd (create_bond env d user_id w)) = w_db w"
    by (auto simp: create_bond_def Let_def dest!: integrity_as_Inl intro: flush_publish_commit_Inl split: if_splits)
qed

interpretation update_bond: atomic_op "update_bond env d bond_id user_id" for env d bond_id user_id
proof unfold_locales
  fix w e
  show "db_wf (w_db w) \<Longrightarrow> db_wf (w_db (snd (update_bond env d bond_id user_id w)))"
    by (auto simp: update_bond_def Let_def intro!: flush_publish_commit_wf dest: update_bond_row_wf [rotated] split: option.split)
  show "bus_grows (w_bus w) (w_bus (snd (update_bond env d bond_id user_id w)))"
    by (simp add: update_bond_def Let_def flush_publish_commit_grows publish_for_holders_grows split: option.split)
  show "fst (update_bond env d bond_id user_id w) = Inl e \<Longrightarrow> w_db (snd (update_bond env d bond_id user_id w)) = w_db w"
    by (auto simp: update_bond_def Let_def intro: flush_publish_commit_Inl split: option.splits if_splits)
qed

interpretation delete_bond: atomic_op "delete_bond env bond_id user_id" for env bond_id user_id
proof unfold_locales
  fix w e
  show "db_wf (w_db w) \<Longrightarrow> db_wf (w_db (snd (delete_bond env bond_id user_id w)))"
    by (auto simp: delete_bond_def Let_def delete_bond_row_wf intro!: flush_publish_commit_wf split: option.split)
  show "bus_grows (w_bus w) (w_bus (snd (delete_bond env bond_id user_id w)))"
    by (simp add: delete_bond_def Let_def flush_publish_commit_grows publish_for_holders_grows split: option.split)
  show "fst (delete_bond env bond_id user_id w) = Inl e \<Longrightarrow> w_db (snd (delete_bond env bond_id user_id w)) = w_db w"
    by (auto simp: delete_bond_def Let_def intro: flush_publish_commit_Inl split: option.splits if_splits)
qed

interpretation update_bond_owned: owned_op get_bond b_owner_id "update_bond env d" None BondNotOwnedError for env d
  by unfold_locales (auto simp: update_bond_def)

interpretation delete_bond_owned: owned_op get_bond b_owner_id "delete_bond env" False BondNotOwnedError for env
  by unfold_locales (auto simp: delete_bond_def)


lemma publish_for_holders_running:
  assumes "bs_running (w_bus w)" and "t \<in> set ALL_TOPICS"
  shows "\<exists>b. publish_for_holders env t hs p w = (Inr (), w\<lparr>w_bus := b\<rparr>)
    \<and> new_topics (w_bus w) b = replicate (length hs) t \<and> new_payloads t (w_bus w) b = map (for_holder p) hs"
proof -
  obtain ms b where ms: "publish_each env ''bonds'' t (map (for_holder p) hs) w = (Inr (), w\<lparr>w_bus := b\<rparr>)"
    "bs_published b = bs_published (w_bus w) @ ms" "map m_topic ms = replicate (length hs) t"
    "map m_payload ms = map (for_holder p) hs"
    using publish_each_running [OF assms(2) _ assms(1), of "''bonds''" env "map (for_holder p) hs"] by auto
  have "\<forall>m \<in> set ms. m_topic m = t"
    using ms(3) by (metis in_set_conv_nth length_map length_replicate nth_map nth_replicate)
  then have "filter (\<lambda>m. m_topic m = t) ms = ms" by (simp add: filter_id_conv)
  with ms show ?thesis
    by (intro exI [of _ b]) (simp add: publish_for_holders_def new_topics_def new_payloads_def)
qed

section \<open>Properties\<close>

text \<open>A world for the witnesses: user 1 owns bond 1, which users 1 and 2 hold.\<close>

definition sample_bond :: bond_row where
  "sample_bond = \<lparr>b_id = 1, b_owner_id = 1, b_isin = ''RU000A0JX0J2'', b_name = ''OFZ'', b_nominal = 1000,
     b_coupon_rate = 10, b_coupon_period_days = 182, b_maturity_date = Date 739800, b_issuer = None\<rparr>"

definition sample_holding :: "int \<Rightarrow> int \<Rightarrow> txn_row" where
  "sample_holding i u = \<lparr>t_id = i, t_user_id = u, t_bond_id = 1, t_account_id = u, t_type = ''BUY'',
     t_quantity = 5, t_price = 990, t_date = Date 739000, t_commission = 0, t_created_at = 0\<rparr>"

definition sample_db :: database where
  "sample_db =
     \<lparr>users = [\<lparr>u_id = 1, u_username = ''anna'', u_password_hash = ''x''\<rparr>,
               \<lparr>u_id = 2, u_username = ''boris'', u_password_hash = ''y''\<rparr>],
      brokers = [\<lparr>br_id = 1, br_name = ''Broker'', br_commission = 0, br_min_commission = None,
                  br_min_commission_type = ''PERCENT'', br_description = None, br_created_at = 0\<rparr>],
      bonds = [sample_bond], bond_coupons = [],
      broker_accounts =
        [\<lparr>a_id = 1, a_user_id = 1, a_broker_id = 1, a_name = ''main'', a_account_number = None,
          a_account_type = ''STANDARD'', a_opened_at = None, a_closed_at = None, a_created_at = 0\<rparr>,
         \<lparr>a_id = 2, a_user_id = 2, a_broker_id = 1, a_name = ''main'', a_account_number = None,
          a_account_type = ''IIS'', a_opened_at = None, a_closed_at = None, a_created_at = 0\<rparr>],
      transactions = [sample_holding 1 2, sample_holding 2 1, sample_holding 3 2],
      account_operations = []\<rparr>"

definition sample_world :: world where
  "sample_world = \<lparr>w_db = sample_db, w_bus = start (bus_init 0)\<rparr>"

definition sample_env :: "int \<Rightarrow> env" where
  "sample_env i = \<lparr>e_new_id = i, e_now = 0, e_today = Date 739000, e_uuid = int\<rparr>"

lemma sample_db_wf: "db_wf sample_db"
  by (simp add: put_wf_simps refs_defs broker_check_def sample_db_def sample_bond_def sample_holding_def
      TRANSACTION_TYPES_def BROKER_ACCOUNT_TYPES_def MIN_COMMISSION_TYPES_def)

lemma sample_world_simps [simp]:
  "w_db sample_world = sample_db" "bs_running (w_bus sample_world)"
  by (simp_all add: sample_world_def start_def bus_init_def)

text \<open>
  Creating a bond with a new ISIN, for an existing user and on a running bus, stores exactly the
  given fields under that owner, makes the bond readable by id and by ISIN, and publishes one
  \<open>bond.created\<close> with its fields; on a stopped bus it raises \<open>RuntimeError\<close> and nothing is stored.
\<close>

theorem create_bond_stores_and_publishes:
  assumes "db_wf (w_db w)" and "nb_isin d \<notin> b_isin ` set (bonds (w_db w))"
    and "user_id \<in> u_id ` set (users (w_db w))" and "e_new_id env \<notin> b_id ` set (bonds (w_db w))"
  shows "if bs_running (w_bus w)
    then \<exists>w'. create_bond env d user_id w = (Inr (new_bond env d user_id), w')
      \<and> w_db w' = (w_db w)\<lparr>bonds := bonds (w_db w) @ [new_bond env d user_id]\<rparr>
      \<and> get_bond (e_new_id env) (w_db w') = Some (new_bond env d user_id)
      \<and> get_bond_by_isin (nb_isin d) (w_db w') = Some (new_bond env d user_id)
      \<and> new_topics (w_bus w) (w_bus w') = [''bond.created'']
      \<and> new_payloads ''bond.created'' (w_bus w) (w_bus w') = [bond_payload (new_bond env d user_id)]
    else create_bond env d user_id w = (Inl RuntimeError, w)"
proof -
  let ?b = "new_bond env d user_id"
  let ?db = "(w_db w)\<lparr>bonds := bonds (w_db w) @ [?b]\<rparr>"
  have b: "b_isin ?b = nb_isin d" "b_id ?b = e_new_id env" "b_owner_id ?b = user_id"
    by (simp_all add: new_bond_def)
  have free: "find (\<lambda>b. b_isin b = nb_isin d) (bonds (w_db w)) = None"
    using assms(2) by (simp add: find_None_iff_keys)
  have ins: "insert_bond ?b (w_db w) = Inr ?db"
    using assms b by (simp add: insert_bond_def bond_refs_def add_row_def)
  then have wf: "db_wf ?db" using assms(1) by (rule insert_bond_wf [rotated])
  have t: "''bond.created'' \<in> set ALL_TOPICS" by (simp add: ALL_TOPICS_def)
  show ?thesis
  proof (cases "bs_running (w_bus w)")
    case True
    have get: "get_bond (e_new_id env) ?db = Some ?b" using wf b by (simp add: get_bond_Some)
    have "get_bond_by_isin (nb_isin d) ?db = Some ?b"
      using wf b by (simp add: get_bond_by_isin_def put_wf_simps find_Some_iff_distinct)
    with get True free ins show ?thesis
      by (simp add: create_bond_def Let_def flush_publish_commit_def publish_running [OF t] returning_def
          integrity_as_def new_topics_def new_payloads_def)
  next
    case False
    with free ins show ?thesis
      by (simp add: create_bond_def Let_def flush_publish_commit_def publish_stopped [OF t] returning_def
          integrity_as_def)
  qed
qed

definition sample_bond_create :: bond_create where
  "sample_bond_create = \<lparr>nb_isin = ''RU000A0JX0X1'', nb_name = ''New'', nb_nominal = 1000, nb_coupon_rate = 8,
     nb_coupon_period_days = 182, nb_maturity_date = Date 740000, nb_issuer = None\<rparr>"

theorem create_bond_stores_and_publishes_witness:
  "\<exists>w'. create_bond (sample_env 2) sample_bond_create 1 sample_world
      = (Inr (new_bond (sample_env 2) sample_bond_create 1), w')
    \<and> get_bond 2 (w_db w') = Some (new_bond (sample_env 2) sample_bond_create 1)"
proof -
  have *: "nb_isin sample_bond_create \<notin> b_isin ` set (bonds (w_db sample_world))"
    "1 \<in> u_id ` set (users (w_db sample_world))"
    "e_new_id (sample_env 2) \<notin> b_id ` set (bonds (w_db sample_world))" "e_new_id (sample_env 2) = 2"
    by (simp_all add: sample_bond_create_def sample_db_def sample_bond_def sample_env_def)
  show ?thesis
    using create_bond_stores_and_publishes [of sample_world, OF _ *(1-3)] *(4) sample_db_wf by auto
qed

text \<open>
  An owner's update on a running bus changes only the given fields of that bond (never its id,
  owner or ISIN), and publishes one \<open>bond.updated\<close> for each distinct user with transactions on the
  bond, in order of their ids, carrying the new fields and that user's id: none if nobody holds it.
\<close>

theorem update_bond_fans_out:
  assumes "db_wf (w_db w)" and "get_bond i (w_db w) = Some b" and "bs_running (w_bus w)"
  shows "\<exists>w'. update_bond env d i (b_owner_id b) w = (Inr (Some (apply_bond_update d b)), w')
    \<and> (\<forall>j. get_bond j (w_db w') = (if j = i then Some (apply_bond_update d b) else get_bond j (w_db w)))
    \<and> transactions (w_db w') = transactions (w_db w)
    \<and> new_topics (w_bus w) (w_bus w') = replicate (length (holder_ids i (w_db w))) ''bond.updated''
    \<and> new_payloads ''bond.updated'' (w_bus w) (w_bus w')
        = map (for_holder (bond_payload (apply_bond_update d b))) (holder_ids i (w_db w))
    \<and> distinct (holder_ids i (w_db w))
    \<and> set (holder_ids i (w_db w)) = {t_user_id t |t. t \<in> set (transactions (w_db w)) \<and> t_bond_id t = i}"
proof -
  let ?b = "apply_bond_update d b"
  let ?db = "(w_db w)\<lparr>bonds := put_row b_id ?b (bonds (w_db w))\<rparr>"
  have "''bond.updated'' \<in> set ALL_TOPICS" by (simp add: ALL_TOPICS_def)
  from publish_for_holders_running [OF assms(3) this] obtain b' where pub:
    "publish_for_holders env ''bond.updated'' (holder_ids i (w_db w)) (bond_payload ?b) w = (Inr (), w\<lparr>w_bus := b'\<rparr>)"
    "new_topics (w_bus w) b' = replicate (length (holder_ids i (w_db w))) ''bond.updated''"
    "new_payloads ''bond.updated'' (w_bus w) b' = map (for_holder (bond_payload ?b)) (holder_ids i (w_db w))"
    by blast
  have fl: "update_bond_row ?b (w_db w) = Inr ?db" by (rule update_bond_row_ok [OF assms(1,2)])
  have inv: "distinct (map b_id (bonds (w_db w)))" and i: "b_id b = i"
    using assms(1,2) by (simp_all add: put_wf_simps get_bond_Some)
  have "get_bond j ?db = (if j = i then Some ?b else get_bond j (w_db w))" for j
    using rows.lookup_put [OF inv, of ?b j] assms(2) i by (simp add: get_bond_def)
  then show ?thesis
    using assms(2) fl pub
    by (intro exI [of _ "w\<lparr>w_bus := b', w_db := ?db\<rparr>"])
      (auto simp: update_bond_def Let_def flush_publish_commit_def returning_def holder_ids_distinct set_holder_ids)
qed

definition sample_bond_update :: bond_update where
  "sample_bond_update = \<lparr>ub_name = Given ''Renamed'', ub_nominal = Omitted, ub_coupon_rate = Omitted,
     ub_coupon_period_days = Omitted, ub_maturity_date = Omitted, ub_issuer = Null\<rparr>"

theorem update_bond_fans_out_witness:
  "\<exists>w'. update_bond (sample_env 0) sample_bond_update 1 1 sample_world
       = (Inr (Some (sample_bond\<lparr>b_name := ''Renamed''\<rparr>)), w')
     \<and> new_topics (w_bus sample_world) (w_bus w') = [''bond.updated'', ''bond.updated'']"
proof -
  have *: "get_bond 1 (w_db sample_world) = Some sample_bond" "b_owner_id sample_bond = 1"
    "apply_bond_update sample_bond_update sample_bond = sample_bond\<lparr>b_name := ''Renamed''\<rparr>"
    "holder_ids 1 (w_db sample_world) = [1, 2]"
    by (simp_all add: get_bond_def row_of_def sample_db_def sample_bond_def apply_bond_update_def
        sample_bond_update_def holder_ids_def sample_holding_def insort_key_def)
  show ?thesis
    using update_bond_fans_out [of sample_world 1 sample_bond "sample_env 0" sample_bond_update] sample_db_wf *
    by auto
qed

text \<open>
  A bond with transactions cannot be deleted, not even by its owner; a delete that succeeds
  removes that bond and its coupon rows, and no transaction of anybody.
\<close>

theorem delete_bond_keeps_transactions:
  assumes "db_wf (w_db w)" and "get_bond i (w_db w) = Some b" and "bs_running (w_bus w)"
  shows "if \<exists>t \<in> set (transactions (w_db w)). t_bond_id t = i
    then delete_bond env i (b_owner_id b) w = (Inl BondDeletionBlockedError, w)
    else \<exists>w'. delete_bond env i (b_owner_id b) w = (Inr True, w')
      \<and> (\<forall>j. get_bond j (w_db w') = (if j = i then None else get_bond j (w_db w)))
      \<and> transactions (w_db w') = transactions (w_db w)
      \<and> bond_coupons (w_db w') = filter (\<lambda>c. c_bond_id c \<noteq> i) (bond_coupons (w_db w))
      \<and> w_bus w' = w_bus w"
proof -
  have inv: "distinct (map b_id (bonds (w_db w)))" using assms(1) by (simp add: put_wf_simps)
  have "get_bond j (delete_bond_row i (w_db w)) = (if j = i then None else get_bond j (w_db w))" for j
    using rows.lookup_drop [OF inv, of j i] by (simp add: get_bond_def delete_bond_row_def)
  moreover have "transactions (delete_bond_row i (w_db w)) = transactions (w_db w)"
    if "\<not> (\<exists>t \<in> set (transactions (w_db w)). t_bond_id t = i)"
    using that by (auto simp: delete_bond_row_def filter_id_conv)
  moreover have "filter (\<lambda>t. t_bond_id t = i) (transactions (w_db w)) = []
      \<longleftrightarrow> \<not> (\<exists>t \<in> set (transactions (w_db w)). t_bond_id t = i)"
    by (auto simp: filter_empty_conv)
  ultimately show ?thesis using assms(2)
    by (auto simp: delete_bond_def Let_def flush_publish_commit_def returning_def holder_ids_deleted
        publish_for_holders_def) (simp add: delete_bond_row_def)?
qed

theorem delete_bond_keeps_transactions_witness:
  "delete_bond (sample_env 0) 1 1 sample_world = (Inl BondDeletionBlockedError, sample_world)"
proof -
  have *: "get_bond 1 (w_db sample_world) = Some sample_bond" "b_owner_id sample_bond = 1"
    "\<exists>t \<in> set (transactions (w_db sample_world)). t_bond_id t = 1"
    by (simp_all add: get_bond_def row_of_def sample_db_def sample_bond_def sample_holding_def)
  show ?thesis
    using delete_bond_keeps_transactions [of sample_world 1 sample_bond "sample_env 0"] sample_db_wf * by auto
qed

end
