(* ===== verification/Brokers.thy ===== *)
theory Brokers
  imports Bonds
begin

text \<open>
  \<open>brokers/service.py\<close> and \<open>brokers/dto.py\<close>: the shared registry of brokers, which any user may
  change, and the broker accounts, which belong to a user. Every operation publishes before it
  commits. A \<open>BrokerDTO\<close> is the row; a \<open>BrokerAccountDTO\<close> is the row with the broker's name.
\<close>

section \<open>Data\<close>

record broker_create =
  nr_name :: string
  nr_commission :: rat
  nr_min_commission :: "rat option"
  nr_min_commission_type :: string
  nr_description :: "string option"

record broker_update =
  ur_name :: "string field"
  ur_commission :: "rat field"
  ur_min_commission :: "rat field"
  ur_min_commission_type :: "string field"
  ur_description :: "string field"

record account_create =
  na_broker_id :: int
  na_name :: string
  na_account_number :: "string option"
  na_account_type :: string
  na_opened_at :: "date option"

record account_update =
  ua_name :: "string field"
  ua_account_number :: "string field"
  ua_account_type :: "string field"
  ua_opened_at :: "date field"
  ua_closed_at :: "date field"

record account_dto =
  d_account :: account_row
  d_broker_name :: string

text \<open>The constraints of the models: \<open>ge=0\<close> and the \<open>Literal\<close> types.\<close>

definition broker_create_ok :: "broker_create \<Rightarrow> bool" where
  "broker_create_ok d \<longleftrightarrow> 0 \<le> nr_commission d
     \<and> (case nr_min_commission d of None \<Rightarrow> True | Some m \<Rightarrow> 0 \<le> m)
     \<and> nr_min_commission_type d \<in> set MIN_COMMISSION_TYPES"

definition broker_update_ok :: "broker_update \<Rightarrow> bool" where
  "broker_update_ok d \<longleftrightarrow> field_ok (\<lambda>c. 0 \<le> c) (ur_commission d) \<and> field_ok (\<lambda>m. 0 \<le> m) (ur_min_commission d)
     \<and> field_ok (\<lambda>t. t \<in> set MIN_COMMISSION_TYPES) (ur_min_commission_type d)"

definition account_create_ok :: "account_create \<Rightarrow> bool" where
  "account_create_ok d \<longleftrightarrow> na_account_type d \<in> set BROKER_ACCOUNT_TYPES"

definition account_update_ok :: "account_update \<Rightarrow> bool" where
  "account_update_ok d \<longleftrightarrow> field_ok (\<lambda>t. t \<in> set BROKER_ACCOUNT_TYPES) (ua_account_type d)"

definition broker_payload :: "broker_row \<Rightarrow> payload" where
  "broker_payload b =
     [(''id'', VInt (br_id b)), (''name'', VStr (br_name b)), (''commission'', VNum (br_commission b)),
      (''min_commission'', opt_value VNum (br_min_commission b)),
      (''min_commission_type'', VStr (br_min_commission_type b)),
      (''description'', opt_value VStr (br_description b)), (''created_at'', VInt (br_created_at b))]"

definition account_payload :: "account_dto \<Rightarrow> payload" where
  "account_payload x =
     (let a = d_account x in
      [(''id'', VInt (a_id a)), (''user_id'', VInt (a_user_id a)), (''broker_id'', VInt (a_broker_id a)),
       (''name'', VStr (a_name a)), (''account_number'', opt_value VStr (a_account_number a)),
       (''account_type'', VStr (a_account_type a)), (''opened_at'', opt_value VDate (a_opened_at a)),
       (''closed_at'', opt_value VDate (a_closed_at a)), (''created_at'', VInt (a_created_at a)),
       (''broker_name'', VStr (d_broker_name x))])"

section \<open>Brokers\<close>

definition new_broker :: "env \<Rightarrow> broker_create \<Rightarrow> broker_row" where
  "new_broker env d =
     \<lparr>br_id = e_new_id env, br_name = nr_name d, br_commission = nr_commission d,
      br_min_commission = nr_min_commission d, br_min_commission_type = nr_min_commission_type d,
      br_description = nr_description d, br_created_at = e_now env\<rparr>"

definition create_broker :: "env \<Rightarrow> broker_create \<Rightarrow> broker_row step" where
  "create_broker env d w =
     (if find (\<lambda>b. br_name b = nr_name d) (brokers (w_db w)) \<noteq> None then (Inl BrokerNameDuplicateError, w)
      else
        let broker = new_broker env d
        in returning broker (integrity_as BrokerNameDuplicateError
             (flush_publish_commit (insert_broker broker (w_db w))
                (publish env ''brokers'' ''broker.created'' (broker_payload broker)) w)))"

definition get_broker :: "int \<Rightarrow> database \<Rightarrow> broker_row option" where
  "get_broker broker_id db = row_of br_id broker_id (brokers db)"

definition list_all_brokers :: "database \<Rightarrow> broker_row list" where
  "list_all_brokers db = order_by br_id (brokers db)"

definition apply_broker_update :: "broker_update \<Rightarrow> broker_row \<Rightarrow> broker_row" where
  "apply_broker_update d b =
     b\<lparr>br_name := set_field (ur_name d) (br_name b), br_commission := set_field (ur_commission d) (br_commission b),
       br_min_commission := set_nullable (ur_min_commission d) (br_min_commission b),
       br_min_commission_type := set_field (ur_min_commission_type d) (br_min_commission_type b),
       br_description := set_nullable (ur_description d) (br_description b)\<rparr>"

text \<open>
  The handler of \<open>IntegrityError\<close> reads \<open>changes['name']\<close>, which is a \<open>KeyError\<close> when the name was
  not given.
\<close>

definition update_broker :: "env \<Rightarrow> broker_update \<Rightarrow> int \<Rightarrow> broker_row option step" where
  "update_broker env d broker_id w =
     (case get_broker broker_id (w_db w) of
        None \<Rightarrow> (Inr None, w)
      | Some broker \<Rightarrow>
          if (case ur_name d of
                Given n \<Rightarrow> find (\<lambda>b. br_name b = n \<and> br_id b \<noteq> broker_id) (brokers (w_db w)) \<noteq> None
              | _ \<Rightarrow> False)
          then (Inl BrokerNameDuplicateError, w)
          else
            let broker' = apply_broker_update d broker
            in returning (Some broker')
                 (integrity_as (case ur_name d of Given n \<Rightarrow> BrokerNameDuplicateError | _ \<Rightarrow> KeyError)
                   (flush_publish_commit (update_broker_row broker' (w_db w))
                      (publish env ''brokers'' ''broker.updated'' (broker_payload broker')) w)))"

definition delete_broker :: "env \<Rightarrow> int \<Rightarrow> bool step" where
  "delete_broker env broker_id w =
     (case get_broker broker_id (w_db w) of
        None \<Rightarrow> (Inr False, w)
      | Some broker \<Rightarrow>
          if length (filter (\<lambda>a. a_broker_id a = broker_id) (broker_accounts (w_db w))) \<noteq> 0
          then (Inl BrokerHasAccountsError, w)
          else
            returning True
              (flush_publish_commit (Inr (delete_broker_row broker_id (w_db w)))
                 (publish env ''brokers'' ''broker.deleted'' [(''broker_id'', VInt broker_id)]) w))"

section \<open>Broker accounts\<close>

definition new_account :: "env \<Rightarrow> account_create \<Rightarrow> int \<Rightarrow> account_row" where
  "new_account env d user_id =
     \<lparr>a_id = e_new_id env, a_user_id = user_id, a_broker_id = na_broker_id d, a_name = na_name d,
      a_account_number = na_account_number d, a_account_type = na_account_type d,
      a_opened_at = na_opened_at d, a_closed_at = None, a_created_at = e_now env\<rparr>"

definition create_account :: "env \<Rightarrow> account_create \<Rightarrow> int \<Rightarrow> account_dto step" where
  "create_account env d user_id w =
     (case get_broker (na_broker_id d) (w_db w) of
        None \<Rightarrow> (Inl BrokerNotFoundError, w)
      | Some broker \<Rightarrow>
          let dto = \<lparr>d_account = new_account env d user_id, d_broker_name = br_name broker\<rparr>
          in returning dto
               (flush_publish_commit (insert_account (d_account dto) (w_db w))
                  (publish env ''brokers'' ''broker_account.created'' (account_payload dto)) w))"

text \<open>\<open>select(BrokerAccount, Broker.name).join(Broker)\<close>: an inner join.\<close>

definition joined :: "database \<Rightarrow> account_row \<Rightarrow> account_dto option" where
  "joined db a =
     map_option (\<lambda>b. \<lparr>d_account = a, d_broker_name = br_name b\<rparr>) (row_of br_id (a_broker_id a) (brokers db))"

definition find_account :: "int \<Rightarrow> database \<Rightarrow> account_row option" where
  "find_account account_id db = row_of a_id account_id (broker_accounts db)"

definition get_account :: "int \<Rightarrow> int \<Rightarrow> database \<Rightarrow> account_dto option" where
  "get_account account_id user_id db =
     (case find_account account_id db of
        None \<Rightarrow> None
      | Some a \<Rightarrow> if a_user_id a = user_id then joined db a else None)"

definition list_accounts_for_user :: "int \<Rightarrow> database \<Rightarrow> account_dto list" where
  "list_accounts_for_user user_id db =
     List.map_filter (joined db) (order_by a_id (filter (\<lambda>a. a_user_id a = user_id) (broker_accounts db)))"

definition list_accounts_for_broker :: "int \<Rightarrow> database \<Rightarrow> account_dto list" where
  "list_accounts_for_broker broker_id db =
     List.map_filter (joined db) (order_by a_id (filter (\<lambda>a. a_broker_id a = broker_id) (broker_accounts db)))"

definition apply_account_update :: "account_update \<Rightarrow> account_row \<Rightarrow> account_row" where
  "apply_account_update d a =
     a\<lparr>a_name := set_field (ua_name d) (a_name a),
       a_account_number := set_nullable (ua_account_number d) (a_account_number a),
       a_account_type := set_field (ua_account_type d) (a_account_type a),
       a_opened_at := set_nullable (ua_opened_at d) (a_opened_at a),
       a_closed_at := set_nullable (ua_closed_at d) (a_closed_at a)\<rparr>"

definition update_account :: "env \<Rightarrow> account_update \<Rightarrow> int \<Rightarrow> int \<Rightarrow> account_dto option step" where
  "update_account env d account_id user_id w =
     (case find_account account_id (w_db w) of
        None \<Rightarrow> (Inr None, w)
      | Some a \<Rightarrow>
          if a_user_id a \<noteq> user_id then (Inl BrokerAccountNotFoundError, w)
          else
            let a' = apply_account_update d a;
                dto = \<lparr>d_account = a', d_broker_name =
                  (case get_broker (a_broker_id a') (w_db w) of Some b \<Rightarrow> br_name b | None \<Rightarrow> '''')\<rparr>
            in returning (Some dto)
                 (flush_publish_commit (update_account_row a' (w_db w))
                    (publish env ''brokers'' ''broker_account.updated'' (account_payload dto)) w))"

definition delete_account :: "env \<Rightarrow> int \<Rightarrow> int \<Rightarrow> bool step" where
  "delete_account env account_id user_id w =
     (case find_account account_id (w_db w) of
        None \<Rightarrow> (Inr False, w)
      | Some a \<Rightarrow>
          if a_user_id a \<noteq> user_id then (Inl BrokerAccountNotFoundError, w)
          else if length (filter (\<lambda>t. t_account_id t = account_id) (transactions (w_db w))) \<noteq> 0
          then (Inl BrokerAccountHasTransactionsError, w)
          else if length (filter (\<lambda>p. o_account_id p = account_id) (account_operations (w_db w))) \<noteq> 0
          then (Inl BrokerAccountHasOperationsError, w)
          else
            returning True
              (flush_publish_commit (Inr (delete_account_row account_id (w_db w)))
                 (publish env ''brokers'' ''broker_account.deleted''
                    [(''broker_account_id'', VInt account_id), (''user_id'', VInt user_id)]) w))"

section \<open>The contracts\<close>

interpretation create_broker: atomic_op "create_broker env d" for env d
proof unfold_locales
  fix w e
  show "db_wf (w_db w) \<Longrightarrow> db_wf (w_db (snd (create_broker env d w)))"
    by (auto simp: create_broker_def Let_def intro!: flush_publish_commit_wf dest: insert_broker_wf [rotated])
  show "bus_grows (w_bus w) (w_bus (snd (create_broker env d w)))"
    by (simp add: create_broker_def Let_def flush_publish_commit_grows publish_grows)
  show "fst (create_broker env d w) = Inl e \<Longrightarrow> w_db (snd (create_broker env d w)) = w_db w"
    by (auto simp: create_broker_def Let_def dest!: integrity_as_Inl intro: flush_publish_commit_Inl split: if_splits)
qed

interpretation update_broker: atomic_op "update_broker env d broker_id" for env d broker_id
proof unfold_locales
  fix w e
  show "db_wf (w_db w) \<Longrightarrow> db_wf (w_db (snd (update_broker env d broker_id w)))"
    by (auto simp: update_broker_def Let_def intro!: flush_publish_commit_wf dest: update_broker_row_wf [rotated]
        split: option.split)
  show "bus_grows (w_bus w) (w_bus (snd (update_broker env d broker_id w)))"
    by (simp add: update_broker_def Let_def flush_publish_commit_grows publish_grows split: option.split)
  show "fst (update_broker env d broker_id w) = Inl e \<Longrightarrow> w_db (snd (update_broker env d broker_id w)) = w_db w"
    by (auto simp: update_broker_def Let_def dest!: integrity_as_Inl intro: flush_publish_commit_Inl
        split: option.splits if_splits)
qed

interpretation delete_broker: atomic_op "delete_broker env broker_id" for env broker_id
proof unfold_locales
  fix w e
  show "db_wf (w_db w) \<Longrightarrow> db_wf (w_db (snd (delete_broker env broker_id w)))"
    by (auto simp: delete_broker_def delete_broker_row_wf intro!: flush_publish_commit_wf split: option.split)
  show "bus_grows (w_bus w) (w_bus (snd (delete_broker env broker_id w)))"
    by (simp add: delete_broker_def flush_publish_commit_grows publish_grows split: option.split)
  show "fst (delete_broker env broker_id w) = Inl e \<Longrightarrow> w_db (snd (delete_broker env broker_id w)) = w_db w"
    by (auto simp: delete_broker_def intro: flush_publish_commit_Inl split: option.splits if_splits)
qed

interpretation create_account: atomic_op "create_account env d user_id" for env d user_id
proof unfold_locales
  fix w e
  show "db_wf (w_db w) \<Longrightarrow> db_wf (w_db (snd (create_account env d user_id w)))"
    by (auto simp: create_account_def Let_def intro!: flush_publish_commit_wf dest: insert_account_wf [rotated]
        split: option.split)
  show "bus_grows (w_bus w) (w_bus (snd (create_account env d user_id w)))"
    by (simp add: create_account_def Let_def flush_publish_commit_grows publish_grows split: option.split)
  show "fst (create_account env d user_id w) = Inl e \<Longrightarrow> w_db (snd (create_account env d user_id w)) = w_db w"
    by (auto simp: create_account_def Let_def intro: flush_publish_commit_Inl split: option.splits)
qed

interpretation update_account: atomic_op "update_account env d account_id user_id" for env d account_id user_id
proof unfold_locales
  fix w e
  show "db_wf (w_db w) \<Longrightarrow> db_wf (w_db (snd (update_account env d account_id user_id w)))"
    by (auto simp: update_account_def Let_def intro!: flush_publish_commit_wf dest: update_account_row_wf [rotated]
        split: option.split)
  show "bus_grows (w_bus w) (w_bus (snd (update_account env d account_id user_id w)))"
    by (simp add: update_account_def Let_def flush_publish_commit_grows publish_grows split: option.split)
  show "fst (update_account env d account_id user_id w) = Inl e \<Longrightarrow>
      w_db (snd (update_account env d account_id user_id w)) = w_db w"
    by (auto simp: update_account_def Let_def intro: flush_publish_commit_Inl split: option.splits if_splits)
qed

interpretation delete_account: atomic_op "delete_account env account_id user_id" for env account_id user_id
proof unfold_locales
  fix w e
  show "db_wf (w_db w) \<Longrightarrow> db_wf (w_db (snd (delete_account env account_id user_id w)))"
    by (auto simp: delete_account_def delete_account_row_wf intro!: flush_publish_commit_wf split: option.split)
  show "bus_grows (w_bus w) (w_bus (snd (delete_account env account_id user_id w)))"
    by (simp add: delete_account_def flush_publish_commit_grows publish_grows split: option.split)
  show "fst (delete_account env account_id user_id w) = Inl e \<Longrightarrow>
      w_db (snd (delete_account env account_id user_id w)) = w_db w"
    by (auto simp: delete_account_def intro: flush_publish_commit_Inl split: option.splits if_splits)
qed

interpretation update_account_owned:
  owned_op find_account a_user_id "update_account env d" None BrokerAccountNotFoundError for env d
  by unfold_locales (auto simp: update_account_def)

interpretation delete_account_owned:
  owned_op find_account a_user_id "delete_account env" False BrokerAccountNotFoundError for env
  by unfold_locales (auto simp: delete_account_def)

section \<open>Deletes take nothing else along\<close>

lemma delete_broker_row_rest:
  "\<not> (\<exists>a \<in> set (broker_accounts db). a_broker_id a = i) \<Longrightarrow>
   delete_broker_row i db = db\<lparr>brokers := drop_row br_id i (brokers db)\<rparr>"
  by (auto simp: delete_broker_row_def Let_def filter_id_conv filter_empty_conv)

lemma delete_account_row_rest:
  "\<not> (\<exists>t \<in> set (transactions db). t_account_id t = i) \<Longrightarrow>
   \<not> (\<exists>p \<in> set (account_operations db). o_account_id p = i) \<Longrightarrow>
   delete_account_row i db = db\<lparr>broker_accounts := drop_row a_id i (broker_accounts db)\<rparr>"
proof -
  assume a: "\<not> (\<exists>t \<in> set (transactions db). t_account_id t = i)"
    "\<not> (\<exists>p \<in> set (account_operations db). o_account_id p = i)"
  then have "filter (\<lambda>t. t_account_id t \<noteq> i) (transactions db) = transactions db"
    "filter (\<lambda>p. o_account_id p \<noteq> i) (account_operations db) = account_operations db"
    by (auto simp: filter_id_conv)
  then show ?thesis by (simp add: delete_account_row_def)
qed

lemma joined_Some:
  assumes "db_wf db" and "a \<in> set (broker_accounts db)" shows "\<exists>x. joined db a = Some x \<and> d_account x = a"
proof -
  have "a_broker_id a \<in> br_id ` set (brokers db)" using assms by (simp add: put_wf_simps account_refs_def)
  then have "row_of br_id (a_broker_id a) (brokers db) \<noteq> None"
    by (simp add: row_of_def find_None_iff_keys)
  then show ?thesis by (auto simp: joined_def)
qed


section \<open>Properties\<close>

text \<open>
  Deletes in the broker registry never take other data along: whatever the outcome, deleting a
  broker leaves every account, transaction and account operation, and deleting an account leaves
  every broker, transaction and account operation.
\<close>

theorem broker_deletes_keep_history:
  "broker_accounts (w_db (snd (delete_broker env i w))) = broker_accounts (w_db w)
   \<and> transactions (w_db (snd (delete_broker env i w))) = transactions (w_db w)
   \<and> account_operations (w_db (snd (delete_broker env i w))) = account_operations (w_db w)
   \<and> brokers (w_db (snd (delete_account env j u w))) = brokers (w_db w)
   \<and> transactions (w_db (snd (delete_account env j u w))) = transactions (w_db w)
   \<and> account_operations (w_db (snd (delete_account env j u w))) = account_operations (w_db w)"
proof -
  have b: "w_db (snd (delete_broker env i w)) = w_db w
      \<or> w_db (snd (delete_broker env i w)) = (w_db w)\<lparr>brokers := drop_row br_id i (brokers (w_db w))\<rparr>"
    using delete_broker_row_rest [of "w_db w" i]
    by (auto simp: delete_broker_def flush_publish_commit_def filter_empty_conv publish_def
        split: option.split prod.split sum.split)
  have a: "w_db (snd (delete_account env j u w)) = w_db w
      \<or> w_db (snd (delete_account env j u w))
        = (w_db w)\<lparr>broker_accounts := drop_row a_id j (broker_accounts (w_db w))\<rparr>"
    using delete_account_row_rest [of "w_db w" j]
    by (auto simp: delete_account_def flush_publish_commit_def filter_empty_conv publish_def
        split: option.split prod.split sum.split)
  from b a show ?thesis by auto
qed

text \<open>
  A user's account listing is complete and private: in a well-formed database the inner join
  with the brokers drops nothing, and the listing has exactly the accounts of that user, in order of
  their ids, each readable by its owner and by nobody else.
\<close>

theorem account_listing_complete:
  assumes "db_wf db"
  shows "map d_account (list_accounts_for_user u db)
      = order_by a_id (filter (\<lambda>a. a_user_id a = u) (broker_accounts db))
    \<and> (\<forall>x \<in> set (list_accounts_for_user u db). get_account (a_id (d_account x)) u db = Some x
          \<and> (\<forall>v. v \<noteq> u \<longrightarrow> get_account (a_id (d_account x)) v db = None))"
proof -
  let ?as = "order_by a_id (filter (\<lambda>a. a_user_id a = u) (broker_accounts db))"
  have "map d_account (List.map_filter (joined db) as) = as"
    if "\<forall>a \<in> set as. a \<in> set (broker_accounts db)" for as
    using that
  proof (induction as)
    case (Cons a as)
    obtain x where "joined db a = Some x" "d_account x = a"
      using joined_Some [OF assms, of a] Cons.prems by auto
    with Cons show ?case by (simp add: List.map_filter_simps)
  qed (simp add: List.map_filter_simps)
  then have 1: "map d_account (list_accounts_for_user u db) = ?as"
    by (simp add: list_accounts_for_user_def)
  have 2: "joined db (d_account x) = Some x \<and> d_account x \<in> set (broker_accounts db) \<and> a_user_id (d_account x) = u"
    if "x \<in> set (list_accounts_for_user u db)" for x
  proof -
    from that obtain a where "a \<in> set (broker_accounts db)" "a_user_id a = u" "joined db a = Some x"
      by (auto simp: list_accounts_for_user_def List.map_filter_def)
    then show ?thesis by (auto simp: joined_def)
  qed
  have inv: "distinct (map a_id (broker_accounts db))" using assms by (simp add: put_wf_simps)
  have "get_account (a_id (d_account x)) v db = (if v = u then Some x else None)"
    if "x \<in> set (list_accounts_for_user u db)" for x v
  proof -
    have "find_account (a_id (d_account x)) db = Some (d_account x)"
      using rows.lookup_mem [OF inv] 2 [OF that] by (simp add: find_account_def)
    then show ?thesis using 2 [OF that] by (simp add: get_account_def)
  qed
  with 1 show ?thesis by simp
qed

theorem account_listing_complete_witness:
  "map d_account (list_accounts_for_user 2 sample_db) = [broker_accounts sample_db ! 1]"
  using account_listing_complete [OF sample_db_wf, of 2] by (simp add: sample_db_def order_by_def)

end
