(* ===== verification/AccountOps.thy ===== *)
theory AccountOps
  imports Brokers
begin

text \<open>
  \<open>account_operations/service.py\<close> and \<open>account_operations/dto.py\<close>: deposits, withdrawals and taxes on
  the caller's own broker accounts. The service publishes nothing.
\<close>

section \<open>Data\<close>

record op_create =
  no_account_id :: int
  no_type :: string
  no_amount :: rat
  no_date :: date
  no_note :: "string option"

record op_update =
  uo_account_id :: "int field"
  uo_type :: "string field"
  uo_amount :: "rat field"
  uo_date :: "date field"
  uo_note :: "string field"

definition note_ok :: "string \<Rightarrow> bool" where "note_ok s \<longleftrightarrow> length s \<le> 500"

definition op_create_ok :: "op_create \<Rightarrow> bool" where
  "op_create_ok d \<longleftrightarrow> no_type d \<in> set ACCOUNT_OPERATION_TYPES \<and> 0 < no_amount d
     \<and> (case no_note d of None \<Rightarrow> True | Some s \<Rightarrow> note_ok s)"

definition op_update_ok :: "op_update \<Rightarrow> bool" where
  "op_update_ok d \<longleftrightarrow> field_ok (\<lambda>t. t \<in> set ACCOUNT_OPERATION_TYPES) (uo_type d)
     \<and> field_ok (\<lambda>x. 0 < x) (uo_amount d) \<and> field_ok note_ok (uo_note d)"

section \<open>Operations\<close>

text \<open>\<open>flush(); commit()\<close> with a rollback on any exception.\<close>

definition flush_commit :: "database result \<Rightarrow> unit step" where
  "flush_commit fl w = flush_publish_commit fl (\<lambda>w. (Inr (), w)) w"

definition own_account :: "int \<Rightarrow> int \<Rightarrow> database \<Rightarrow> account_row option" where
  "own_account account_id user_id db =
     find (\<lambda>a. a_id a = account_id \<and> a_user_id a = user_id) (broker_accounts db)"

definition new_op :: "env \<Rightarrow> op_create \<Rightarrow> int \<Rightarrow> op_row" where
  "new_op env d user_id =
     \<lparr>o_id = e_new_id env, o_user_id = user_id, o_account_id = no_account_id d, o_type = no_type d,
      o_amount = no_amount d, o_date = no_date d, o_note = no_note d, o_created_at = e_now env\<rparr>"

definition create_op :: "env \<Rightarrow> op_create \<Rightarrow> int \<Rightarrow> op_row step" where
  "create_op env d user_id w =
     (case own_account (no_account_id d) user_id (w_db w) of
        None \<Rightarrow> (Inl BrokerAccountNotFoundError, w)
      | Some account \<Rightarrow>
          let operation = new_op env d user_id
          in returning operation (flush_commit (insert_op operation (w_db w)) w))"

definition list_ops_for_user :: "int \<Rightarrow> database \<Rightarrow> op_row list" where
  "list_ops_for_user user_id db =
     order_by (\<lambda>p. (o_date p, o_id p)) (filter (\<lambda>p. o_user_id p = user_id) (account_operations db))"

definition list_ops_for_account :: "int \<Rightarrow> int \<Rightarrow> database \<Rightarrow> op_row list" where
  "list_ops_for_account account_id user_id db =
     order_by (\<lambda>p. (o_date p, o_id p))
       (filter (\<lambda>p. o_user_id p = user_id \<and> o_account_id p = account_id) (account_operations db))"

definition find_op :: "int \<Rightarrow> database \<Rightarrow> op_row option" where
  "find_op operation_id db = row_of o_id operation_id (account_operations db)"

definition get_op :: "int \<Rightarrow> int \<Rightarrow> database \<Rightarrow> op_row option result" where
  "get_op operation_id user_id db =
     (case find_op operation_id db of
        None \<Rightarrow> Inr None
      | Some p \<Rightarrow> if o_user_id p \<noteq> user_id then Inl AccountOperationForbiddenError else Inr (Some p))"

definition apply_op_update :: "op_update \<Rightarrow> op_row \<Rightarrow> op_row" where
  "apply_op_update d p =
     p\<lparr>o_account_id := set_field (uo_account_id d) (o_account_id p), o_type := set_field (uo_type d) (o_type p),
       o_amount := set_field (uo_amount d) (o_amount p), o_date := set_field (uo_date d) (o_date p),
       o_note := set_nullable (uo_note d) (o_note p)\<rparr>"

definition update_op :: "op_update \<Rightarrow> int \<Rightarrow> int \<Rightarrow> op_row option step" where
  "update_op d operation_id user_id w =
     (case find_op operation_id (w_db w) of
        None \<Rightarrow> (Inr None, w)
      | Some p \<Rightarrow>
          if o_user_id p \<noteq> user_id then (Inl AccountOperationForbiddenError, w)
          else if (case uo_account_id d of
                     Given i \<Rightarrow> own_account i user_id (w_db w) = None
                   | _ \<Rightarrow> False)
          then (Inl BrokerAccountNotFoundError, w)
          else
            let p' = apply_op_update d p
            in returning (Some p') (flush_commit (update_op_row p' (w_db w)) w))"

definition delete_op :: "int \<Rightarrow> int \<Rightarrow> bool step" where
  "delete_op operation_id user_id w =
     (case find_op operation_id (w_db w) of
        None \<Rightarrow> (Inr False, w)
      | Some p \<Rightarrow>
          if o_user_id p \<noteq> user_id then (Inl AccountOperationForbiddenError, w)
          else returning True (flush_commit (Inr (delete_op_row operation_id (w_db w))) w))"

section \<open>The contracts\<close>

lemma flush_commit_cases:
  "flush_commit fl w = (case fl of Inl e \<Rightarrow> (Inl e, w) | Inr db \<Rightarrow> (Inr (), w\<lparr>w_db := db\<rparr>))"
  by (simp add: flush_commit_def flush_publish_commit_def split: sum.split)

interpretation create_op: atomic_op "create_op env d user_id" for env d user_id
  by unfold_locales
    (auto simp: create_op_def Let_def flush_commit_cases dest: insert_op_wf [rotated]
      split: option.splits sum.splits)

interpretation update_op: atomic_op "update_op d operation_id user_id" for d operation_id user_id
  by unfold_locales
    (auto simp: update_op_def Let_def flush_commit_cases dest: update_op_row_wf [rotated]
      split: option.splits sum.splits)

interpretation delete_op: atomic_op "delete_op operation_id user_id" for operation_id user_id
  by unfold_locales
    (auto simp: delete_op_def Let_def flush_commit_cases delete_op_row_wf split: option.splits sum.splits)

interpretation update_op_owned:
  owned_op find_op o_user_id "update_op d" None AccountOperationForbiddenError for d
  by unfold_locales (auto simp: update_op_def)

interpretation delete_op_owned:
  owned_op find_op o_user_id delete_op False AccountOperationForbiddenError
  by unfold_locales (auto simp: delete_op_def)

section \<open>Operations stay on the user's own accounts\<close>

definition on_own_account :: "database \<Rightarrow> int \<Rightarrow> int \<Rightarrow> bool" where
  "on_own_account db user_id account_id \<longleftrightarrow>
     (\<exists>a \<in> set (broker_accounts db). a_id a = account_id \<and> a_user_id a = user_id)"

definition ops_ok :: "database \<Rightarrow> bool" where
  "ops_ok db \<longleftrightarrow> (\<forall>p \<in> set (account_operations db). on_own_account db (o_user_id p) (o_account_id p) \<and> 0 < o_amount p)"

lemma own_account_Some: "own_account i u db = Some a \<Longrightarrow> on_own_account db u i"
  by (auto simp: own_account_def on_own_account_def find_Some_iff dest: nth_mem)

lemma own_account_None: "own_account i u db = None \<longleftrightarrow> \<not> on_own_account db u i"
  by (auto simp: own_account_def on_own_account_def find_None_iff)

lemma on_own_account_cong [simp]:
  "on_own_account (db\<lparr>account_operations := x\<rparr>) u i = on_own_account db u i"
  "on_own_account (db\<lparr>transactions := y\<rparr>) u i = on_own_account db u i"
  "on_own_account (db\<lparr>bonds := z\<rparr>) u i = on_own_account db u i"
  "on_own_account (db\<lparr>brokers := b\<rparr>) u i = on_own_account db u i"
  by (simp_all add: on_own_account_def)

lemma create_op_ok:
  assumes "ops_ok (w_db w)" and "op_create_ok d" shows "ops_ok (w_db (snd (create_op env d u w)))"
  using assms
  by (auto simp: create_op_def Let_def flush_commit_cases insert_op_def ops_ok_def new_op_def op_create_ok_def
      dest: own_account_Some split: option.splits)

lemma update_op_ok:
  assumes "db_wf (w_db w)" and "ops_ok (w_db w)" and "op_update_ok d"
  shows "ops_ok (w_db (snd (update_op d i u w)))"
proof (cases "find_op i (w_db w)")
  case None
  then show ?thesis using assms by (simp add: update_op_def)
next
  case (Some p)
  have inv: "distinct (map o_id (account_operations (w_db w)))" using assms(1) by (simp add: put_wf_simps)
  then have p: "p \<in> set (account_operations (w_db w))" using Some rows.lookup_mem [OF inv] by (simp add: find_op_def)
  let ?p = "apply_op_update d p"
  have amount: "0 < o_amount ?p"
    using p assms(2,3) by (cases "uo_amount d") (auto simp: ops_ok_def apply_op_update_def op_update_ok_def field_ok_def)
  have acc: "on_own_account (w_db w) (o_user_id ?p) (o_account_id ?p)"
    if "o_user_id p = u" "\<not> (case uo_account_id d of Given i \<Rightarrow> own_account i u (w_db w) = None | _ \<Rightarrow> False)"
    using that p assms(2)
    by (cases "uo_account_id d") (auto simp: ops_ok_def apply_op_update_def own_account_None)
  have "ops_ok (w_db w\<lparr>account_operations := put_row o_id ?p (account_operations (w_db w))\<rparr>)"
    if "on_own_account (w_db w) (o_user_id ?p) (o_account_id ?p)"
    using assms(2) amount that by (auto simp: ops_ok_def dest: set_put_row)
  then show ?thesis using assms(2) Some acc
    by (auto simp: update_op_def Let_def flush_commit_cases update_op_row_def)
qed

lemma delete_op_ok: "ops_ok (w_db w) \<Longrightarrow> ops_ok (w_db (snd (delete_op i u w)))"
  by (auto simp: delete_op_def flush_commit_cases delete_op_row_def ops_ok_def split: option.split)

section \<open>Properties\<close>

text \<open>
  A user only ever reads their own account operations: the two listings hold exactly the
  operations of that user (on that account), by date and then id; \<open>get\<close> returns them, and raises
  \<open>AccountOperationForbiddenError\<close> to anyone else.
\<close>

theorem account_operations_private:
  assumes "db_wf db"
  shows "set (list_ops_for_user u db) = {p \<in> set (account_operations db). o_user_id p = u}
    \<and> sorted (map (\<lambda>p. (o_date p, o_id p)) (list_ops_for_user u db))
    \<and> list_ops_for_account a u db = filter (\<lambda>p. o_account_id p = a) (list_ops_for_user u db)
    \<and> (\<forall>p \<in> set (account_operations db).
          get_op (o_id p) v db = (if o_user_id p = v then Inr (Some p) else Inl AccountOperationForbiddenError))"
proof -
  have inv: "distinct (map o_id (account_operations db))" using assms by (simp add: put_wf_simps)
  have "filter (\<lambda>p. o_account_id p = a) (list_ops_for_user u db) = list_ops_for_account a u db"
    by (simp add: list_ops_for_user_def list_ops_for_account_def filter_order_by conj_commute)
  moreover have "get_op (o_id p) v db = (if o_user_id p = v then Inr (Some p) else Inl AccountOperationForbiddenError)"
    if "p \<in> set (account_operations db)" for p
    using that rows.lookup_mem [OF inv, of "o_id p" p] by (simp add: get_op_def find_op_def)
  ultimately show ?thesis by (auto simp: list_ops_for_user_def)
qed

definition sample_op :: op_row where
  "sample_op = \<lparr>o_id = 1, o_user_id = 1, o_account_id = 1, o_type = ''DEPOSIT'', o_amount = 100,
     o_date = Date 739000, o_note = None, o_created_at = 0\<rparr>"

theorem account_operations_private_witness:
  "get_op 1 2 (sample_db\<lparr>account_operations := [sample_op]\<rparr>) = Inl AccountOperationForbiddenError"
proof -
  have "insert_op sample_op sample_db = Inr (sample_db\<lparr>account_operations := [sample_op]\<rparr>)"
    by (simp add: insert_op_def op_refs_def sample_op_def sample_db_def add_row_def ACCOUNT_OPERATION_TYPES_def)
  then have "db_wf (sample_db\<lparr>account_operations := [sample_op]\<rparr>)" using sample_db_wf by (rule insert_op_wf [rotated])
  from account_operations_private [OF this, of 1 1 2] show ?thesis
    by (simp add: sample_op_def)
qed

end

