(* ===== verification/Portfolio.thy ===== *)
theory Portfolio
  imports Netting AccountOps
begin

text \<open>
  \<open>portfolio/service.py\<close> and \<open>portfolio/dto.py\<close>: transactions, their position checks, and the
  derived positions. The check and the write happen in one database transaction under the lock on
  the user's row, so they are one step here. Unlike the other services this one commits first and
  publishes afterwards. A \<open>TransactionDTO\<close> has the fields of the row and is modelled by it.
\<close>

section \<open>Data\<close>

record txn_create =
  nt_bond_id :: int
  nt_account_id :: int
  nt_type :: string
  nt_quantity :: int
  nt_price :: rat
  nt_date :: date
  nt_commission :: rat

record txn_update =
  ut_bond_id :: "int field"
  ut_account_id :: "int field"
  ut_type :: "string field"
  ut_quantity :: "int field"
  ut_price :: "rat field"
  ut_date :: "date field"
  ut_commission :: "rat field"

record position =
  p_user_id :: int
  p_bond_id :: int
  p_quantity :: int
  p_avg_buy_price :: "rat option"
  p_total_invested :: rat

definition txn_create_ok :: "txn_create \<Rightarrow> bool" where
  "txn_create_ok d \<longleftrightarrow> 0 < nt_account_id d \<and> nt_type d \<in> set TRANSACTION_TYPES \<and> 0 < nt_quantity d
     \<and> 0 < nt_price d"

definition txn_update_ok :: "txn_update \<Rightarrow> bool" where
  "txn_update_ok d \<longleftrightarrow> field_ok (\<lambda>i. 0 < i) (ut_account_id d)
     \<and> field_ok (\<lambda>t. t \<in> set TRANSACTION_TYPES) (ut_type d)
     \<and> field_ok (\<lambda>q. 0 < q) (ut_quantity d) \<and> field_ok (\<lambda>p. 0 < p) (ut_price d)"

definition txn_payload :: "txn_row \<Rightarrow> payload" where
  "txn_payload t =
     [(''id'', VInt (t_id t)), (''user_id'', VInt (t_user_id t)), (''bond_id'', VInt (t_bond_id t)),
      (''broker_account_id'', VInt (t_account_id t)), (''type'', VStr (t_type t)),
      (''quantity'', VInt (t_quantity t)), (''price'', VNum (t_price t)), (''date'', VDate (t_date t)),
      (''commission'', VNum (t_commission t)), (''created_at'', VInt (t_created_at t))]"

definition position_payload :: "position \<Rightarrow> payload" where
  "position_payload p =
     [(''user_id'', VInt (p_user_id p)), (''bond_id'', VInt (p_bond_id p)), (''quantity'', VInt (p_quantity p)),
      (''avg_buy_price'', opt_value VNum (p_avg_buy_price p)), (''total_invested'', VNum (p_total_invested p))]"

section \<open>Queries\<close>

definition load_transactions :: "int \<Rightarrow> int \<Rightarrow> int option \<Rightarrow> database \<Rightarrow> txn_row list" where
  "load_transactions user_id bond_id account_id db =
     order_by (\<lambda>t. (t_date t, t_id t))
       (filter (\<lambda>t. t_user_id t = user_id \<and> t_bond_id t = bond_id
                   \<and> (case account_id of None \<Rightarrow> True | Some a \<Rightarrow> t_account_id t = a)) (transactions db))"

fun quantity_of_from :: "int \<Rightarrow> txn_row list \<Rightarrow> int" where
  "quantity_of_from quantity [] = quantity"
| "quantity_of_from quantity (t # ts) =
     quantity_of_from (if t_type t = ''BUY'' then quantity + t_quantity t else quantity - t_quantity t) ts"

definition quantity_of :: "txn_row list \<Rightarrow> int" where
  "quantity_of txns = quantity_of_from 0 txns"

definition to_position :: "int \<Rightarrow> int \<Rightarrow> txn_row list \<Rightarrow> position" where
  "to_position user_id bond_id txns =
     (case net_position fl64 txns of
        (quantity, Some avg) \<Rightarrow>
          if quantity > 0
          then \<lparr>p_user_id = user_id, p_bond_id = bond_id, p_quantity = quantity, p_avg_buy_price = Some avg,
                p_total_invested = fl64 (avg * fl64 (of_int quantity))\<rparr>
          else \<lparr>p_user_id = user_id, p_bond_id = bond_id, p_quantity = quantity, p_avg_buy_price = None,
                p_total_invested = 0\<rparr>
      | (quantity, None) \<Rightarrow>
          \<lparr>p_user_id = user_id, p_bond_id = bond_id, p_quantity = quantity, p_avg_buy_price = None,
           p_total_invested = 0\<rparr>)"

definition get_position :: "int \<Rightarrow> int \<Rightarrow> int option \<Rightarrow> database \<Rightarrow> position" where
  "get_position user_id bond_id account_id db =
     to_position user_id bond_id (load_transactions user_id bond_id account_id db)"

definition list_transactions :: "int \<Rightarrow> int option \<Rightarrow> int option \<Rightarrow> database \<Rightarrow> txn_row list" where
  "list_transactions user_id bond_id account_id db =
     order_by (\<lambda>t. (t_date t, t_id t))
       (filter (\<lambda>t. t_user_id t = user_id \<and> (case bond_id of None \<Rightarrow> True | Some b \<Rightarrow> t_bond_id t = b)
                   \<and> (case account_id of None \<Rightarrow> True | Some a \<Rightarrow> t_account_id t = a)) (transactions db))"

definition get_all_positions :: "int \<Rightarrow> int option \<Rightarrow> database \<Rightarrow> position list" where
  "get_all_positions user_id account_id db =
     filter (\<lambda>p. p_quantity p \<noteq> 0)
       (map (\<lambda>(bond_id, rows). to_position user_id bond_id rows)
          (group_rows t_bond_id (list_transactions user_id None account_id db)))"

definition get_position_value :: "int \<Rightarrow> int \<Rightarrow> int option \<Rightarrow> database \<Rightarrow> rat" where
  "get_position_value user_id bond_id account_id db =
     (case net_position fl64 (load_transactions user_id bond_id account_id db) of
        (quantity, Some avg) \<Rightarrow> if quantity > 0 then fl64 (fl64 (of_int quantity) * avg) else 0
      | (quantity, None) \<Rightarrow> 0)"

definition find_txn :: "int \<Rightarrow> database \<Rightarrow> txn_row option" where
  "find_txn transaction_id db = row_of t_id transaction_id (transactions db)"

definition get_transaction :: "int \<Rightarrow> int \<Rightarrow> database \<Rightarrow> txn_row option result" where
  "get_transaction transaction_id user_id db =
     (case find_txn transaction_id db of
        None \<Rightarrow> Inr None
      | Some t \<Rightarrow> if t_user_id t \<noteq> user_id then Inl TransactionForbiddenError else Inr (Some t))"

section \<open>Commands\<close>

definition publish_portfolio :: "env \<Rightarrow> string \<Rightarrow> payload \<Rightarrow> unit step" where
  "publish_portfolio env topic p = publish env ''portfolio'' topic p"

text \<open>\<open>dict.fromkeys\<close>: the distinct bonds in first-seen order.\<close>

fun publish_positions :: "env \<Rightarrow> int \<Rightarrow> int list \<Rightarrow> unit step" where
  "publish_positions env user_id [] w = (Inr (), w)"
| "publish_positions env user_id (b # bs) w =
     and_then
       (publish_portfolio env ''position.updated'' (position_payload (get_position user_id b None (w_db w))))
       (publish_positions env user_id (filter (\<lambda>x. x \<noteq> b) bs)) w"

definition new_txn :: "env \<Rightarrow> txn_create \<Rightarrow> int \<Rightarrow> txn_row" where
  "new_txn env d user_id =
     \<lparr>t_id = e_new_id env, t_user_id = user_id, t_bond_id = nt_bond_id d, t_account_id = nt_account_id d,
      t_type = nt_type d, t_quantity = nt_quantity d, t_price = nt_price d, t_date = nt_date d,
      t_commission = nt_commission d, t_created_at = e_now env\<rparr>"

definition add_transaction :: "env \<Rightarrow> int \<Rightarrow> txn_create \<Rightarrow> txn_row step" where
  "add_transaction env user_id d w =
     (if nt_type d \<notin> set TRANSACTION_TYPES then (Inl InvalidTransactionError, w)
      else if own_account (nt_account_id d) user_id (w_db w) = None then (Inl InvalidTransactionError, w)
      else if nt_type d \<in> {''SELL'', ''MATURE''}
           \<and> quantity_of (load_transactions user_id (nt_bond_id d) (Some (nt_account_id d)) (w_db w)) < nt_quantity d
      then (Inl InsufficientPositionError, w)
      else
        let txn = new_txn env d user_id
        in (case insert_txn txn (w_db w) of
              Inl e \<Rightarrow> (Inl InvalidTransactionError, w)
            | Inr db \<Rightarrow>
                let w1 = w\<lparr>w_db := db\<rparr>; position = get_position user_id (nt_bond_id d) None db
                in returning txn (and_then
                     (publish_portfolio env ''transaction.created'' (txn_payload txn))
                     (publish_portfolio env ''position.updated'' (position_payload position)) w1)))"

definition apply_txn_update :: "txn_update \<Rightarrow> txn_row \<Rightarrow> txn_row" where
  "apply_txn_update d t =
     t\<lparr>t_bond_id := set_field (ut_bond_id d) (t_bond_id t),
       t_account_id := set_field (ut_account_id d) (t_account_id t), t_type := set_field (ut_type d) (t_type t),
       t_quantity := set_field (ut_quantity d) (t_quantity t), t_price := set_field (ut_price d) (t_price t),
       t_date := set_field (ut_date d) (t_date t), t_commission := set_field (ut_commission d) (t_commission t)\<rparr>"

definition others :: "int \<Rightarrow> txn_row list \<Rightarrow> txn_row list" where
  "others i rows = filter (\<lambda>row. t_id row \<noteq> i) rows"

definition validate_transaction_shift ::
    "int \<Rightarrow> txn_row \<Rightarrow> int \<Rightarrow> int \<Rightarrow> string \<Rightarrow> int \<Rightarrow> database \<Rightarrow> unit result" where
  "validate_transaction_shift user_id txn new_bond_id new_account_id new_type new_quantity db =
     (let pair_changed = (new_bond_id \<noteq> t_bond_id txn \<or> new_account_id \<noteq> t_account_id txn)
      in if pair_changed \<and> t_type txn = ''BUY''
            \<and> quantity_of (others (t_id txn)
                 (load_transactions user_id (t_bond_id txn) (Some (t_account_id txn)) db)) < t_quantity txn
         then Inl InsufficientPositionError
         else
           let resulting = quantity_of (others (t_id txn)
                 (load_transactions user_id new_bond_id (Some new_account_id) db))
                 + (if new_type = ''BUY'' then new_quantity else - new_quantity)
           in if resulting < 0 then Inl InsufficientPositionError else Inr ())"

definition update_transaction :: "env \<Rightarrow> txn_update \<Rightarrow> int \<Rightarrow> int \<Rightarrow> txn_row option step" where
  "update_transaction env d transaction_id user_id w =
     (case find_txn transaction_id (w_db w) of
        None \<Rightarrow> (Inr None, w)
      | Some txn \<Rightarrow>
          if t_user_id txn \<noteq> user_id then (Inl TransactionForbiddenError, w)
          else
            let txn' = apply_txn_update d txn
            in if t_type txn' \<notin> set TRANSACTION_TYPES then (Inl InvalidTransactionError, w)
               else if own_account (t_account_id txn') user_id (w_db w) = None then (Inl InvalidTransactionError, w)
               else
                 (case validate_transaction_shift user_id txn (t_bond_id txn') (t_account_id txn') (t_type txn')
                         (t_quantity txn') (w_db w) of
                    Inl e \<Rightarrow> (Inl e, w)
                  | Inr _ \<Rightarrow>
                      (case update_txn_row txn' (w_db w) of
                         Inl e \<Rightarrow> (Inl InvalidTransactionError, w)
                       | Inr db \<Rightarrow>
                           returning (Some txn') (and_then
                             (publish_positions env user_id [t_bond_id txn, t_bond_id txn'])
                             (publish_portfolio env ''transaction.updated'' (txn_payload txn'))
                             (w\<lparr>w_db := db\<rparr>)))))"

definition delete_transaction :: "env \<Rightarrow> int \<Rightarrow> int \<Rightarrow> bool step" where
  "delete_transaction env transaction_id user_id w =
     (case find_txn transaction_id (w_db w) of
        None \<Rightarrow> (Inr False, w)
      | Some txn \<Rightarrow>
          if t_user_id txn \<noteq> user_id then (Inl TransactionForbiddenError, w)
          else if quantity_of (others (t_id txn)
                 (load_transactions user_id (t_bond_id txn) (Some (t_account_id txn)) (w_db w))) < 0
          then (Inl InsufficientPositionError, w)
          else
            returning True (and_then
              (publish_positions env user_id [t_bond_id txn])
              (publish_portfolio env ''transaction.deleted'' [(''transaction_id'', VInt transaction_id)])
              (w\<lparr>w_db := delete_txn_row transaction_id (w_db w)\<rparr>)))"


section \<open>Positions\<close>

lemma quantity_of_from: "quantity_of_from q txns = q + held txns"
  by (induction q txns rule: quantity_of_from.induct) simp_all

lemma quantity_of: "quantity_of txns = held txns"
  by (simp add: quantity_of_def quantity_of_from)

definition signed_quantity :: "txn_row \<Rightarrow> int" where
  "signed_quantity t = (if t_type t = ''BUY'' then t_quantity t else - t_quantity t)"

definition on_pair :: "int \<Rightarrow> int \<Rightarrow> int \<Rightarrow> txn_row \<Rightarrow> bool" where
  "on_pair u b a t \<longleftrightarrow> t_user_id t = u \<and> t_bond_id t = b \<and> t_account_id t = a"

text \<open>What a user holds of a bond on an account, as a sum over the table.\<close>

definition pair_position :: "int \<Rightarrow> int \<Rightarrow> int \<Rightarrow> txn_row list \<Rightarrow> int" where
  "pair_position u b a rows = sum_over (on_pair u b a) signed_quantity rows"

lemma held_sum: "held txns = sum_over (\<lambda>_. True) signed_quantity txns"
  by (induction txns) (simp_all add: signed_quantity_def)

lemma held_filter: "held (filter P txns) = sum_over P signed_quantity txns"
  by (simp add: held_sum sum_over_filter)

lemma held_order_by [simp]: "held (order_by k txns) = held txns"
  by (simp add: held_sum)

lemma quantity_of_loaded:
  "quantity_of (load_transactions u b (Some a) db) = pair_position u b a (transactions db)"
  by (simp add: quantity_of load_transactions_def held_filter pair_position_def on_pair_def [abs_def])

lemma quantity_of_others:
  "quantity_of (others i (load_transactions u b (Some a) db))
     = pair_position u b a (filter (\<lambda>t. t_id t \<noteq> i) (transactions db))"
  by (simp add: quantity_of others_def load_transactions_def filter_order_by held_filter pair_position_def
      sum_over_filter on_pair_def [abs_def] conj_ac)

definition positions_ok :: "database \<Rightarrow> bool" where
  "positions_ok db \<longleftrightarrow> (\<forall>u b a. 0 \<le> pair_position u b a (transactions db))"

definition txns_ok :: "database \<Rightarrow> bool" where
  "txns_ok db \<longleftrightarrow> (\<forall>t \<in> set (transactions db).
     0 < t_quantity t \<and> 0 < t_price t \<and> on_own_account db (t_user_id t) (t_account_id t))"

lemma pair_position_add:
  "pair_position u b a (add_row t rows) = pair_position u b a rows + (if on_pair u b a t then signed_quantity t else 0)"
  by (simp add: pair_position_def add_row_def)

lemma pair_position_put:
  assumes "distinct (map t_id rows)" and "row_of t_id (t_id t) rows \<noteq> None"
  shows "pair_position u b a (put_row t_id t rows) =
    (if on_pair u b a t then signed_quantity t else 0) + pair_position u b a (filter (\<lambda>x. t_id x \<noteq> t_id t) rows)"
  unfolding pair_position_def by (rule rows.put_sum [OF assms])

lemma pair_position_split:
  assumes "distinct (map t_id rows)" and "row_of t_id (t_id t) rows = Some t"
  shows "pair_position u b a rows =
    (if on_pair u b a t then signed_quantity t else 0) + pair_position u b a (filter (\<lambda>x. t_id x \<noteq> t_id t) rows)"
  unfolding pair_position_def by (rule rows.remove_sum [OF assms])

lemma find_txn_Some: "db_wf db \<Longrightarrow> find_txn i db = Some t \<longleftrightarrow> t \<in> set (transactions db) \<and> t_id t = i"
  by (simp add: find_txn_def rows.lookup_mem put_wf_simps)

lemma apply_txn_update_id [simp]:
  "t_id (apply_txn_update d t) = t_id t" "t_user_id (apply_txn_update d t) = t_user_id t"
  by (simp_all add: apply_txn_update_def)

lemma insert_txn_Inr: "insert_txn t db = Inr db' \<Longrightarrow> transactions db' = add_row t (transactions db)"
  and update_txn_row_Inr: "update_txn_row t db = Inr db' \<Longrightarrow> transactions db' = put_row t_id t (transactions db)"
  by (auto simp: insert_txn_def update_txn_row_def split: if_splits)

section \<open>What the commands do to the database\<close>

text \<open>After the commit only the bus changes.\<close>

lemma publish_portfolio_db [simp]: "w_db (snd (publish_portfolio env t p w)) = w_db w"
  by (simp add: publish_portfolio_def)

lemma publish_portfolio_grows: "bus_grows (w_bus w) (w_bus (snd (publish_portfolio env t p w)))"
  by (simp add: publish_portfolio_def publish_grows)

lemma publish_positions_db [simp]: "w_db (snd (publish_positions env u bs w)) = w_db w"
  by (induction env u bs w rule: publish_positions.induct) (simp_all add: and_then_db)

lemma publish_positions_grows: "bus_grows (w_bus w) (w_bus (snd (publish_positions env u bs w)))"
  by (induction env u bs w rule: publish_positions.induct) (simp_all add: and_then_grows publish_portfolio_grows)

declare publish_positions.simps [simp del]

lemmas command_publishes = and_then_db and_then_grows publish_portfolio_grows publish_positions_grows

text \<open>The database a command leaves: the old one, or the one its checks let through.\<close>

lemma add_transaction_db:
  "w_db (snd (add_transaction env u d w)) = w_db w \<or>
   (nt_type d \<in> set TRANSACTION_TYPES \<and> on_own_account (w_db w) u (nt_account_id d)
    \<and> (nt_type d \<noteq> ''BUY'' \<longrightarrow> nt_quantity d \<le> pair_position u (nt_bond_id d) (nt_account_id d) (transactions (w_db w)))
    \<and> insert_txn (new_txn env d u) (w_db w) = Inr (w_db (snd (add_transaction env u d w))))"
proof -
  have t: "nt_type d \<in> set TRANSACTION_TYPES \<Longrightarrow> nt_type d \<noteq> ''BUY'' \<Longrightarrow> nt_type d \<in> {''SELL'', ''MATURE''}"
    by (auto simp: TRANSACTION_TYPES_def)
  show ?thesis
    by (auto simp: add_transaction_def Let_def own_account_None quantity_of_loaded and_then_db dest: t split: sum.split)
qed

lemma update_transaction_db:
  "w_db (snd (update_transaction env d i u w)) = w_db w \<or>
   (\<exists>t. find_txn i (w_db w) = Some t \<and> t_user_id t = u
    \<and> on_own_account (w_db w) u (t_account_id (apply_txn_update d t))
    \<and> validate_transaction_shift u t (t_bond_id (apply_txn_update d t)) (t_account_id (apply_txn_update d t))
        (t_type (apply_txn_update d t)) (t_quantity (apply_txn_update d t)) (w_db w) = Inr ()
    \<and> update_txn_row (apply_txn_update d t) (w_db w) = Inr (w_db (snd (update_transaction env d i u w))))"
  by (auto simp: update_transaction_def Let_def own_account_None and_then_db split: option.split sum.split)

lemma delete_transaction_db:
  "w_db (snd (delete_transaction env i u w)) = w_db w \<or>
   (\<exists>t. find_txn i (w_db w) = Some t \<and> t_user_id t = u
    \<and> 0 \<le> pair_position u (t_bond_id t) (t_account_id t) (filter (\<lambda>x. t_id x \<noteq> t_id t) (transactions (w_db w)))
    \<and> w_db (snd (delete_transaction env i u w)) = delete_txn_row i (w_db w))"
  by (auto simp: delete_transaction_def quantity_of_others not_less and_then_db split: option.split)


section \<open>The contracts\<close>

interpretation add_transaction: service_op "add_transaction env u d" for env u d
proof unfold_locales
  fix w
  show "db_wf (w_db w) \<Longrightarrow> db_wf (w_db (snd (add_transaction env u d w)))"
    using add_transaction_db [of env u d w] by (auto dest: insert_txn_wf [rotated])
  show "bus_grows (w_bus w) (w_bus (snd (add_transaction env u d w)))"
  proof -
    have "bus_grows (w_bus (w\<lparr>w_db := v\<rparr>)) (w_bus (snd (and_then (publish_portfolio env t p)
        (publish_portfolio env t' p') (w\<lparr>w_db := v\<rparr>))))" for v t p t' p'
      by (intro and_then_grows publish_portfolio_grows)
    then show ?thesis by (simp add: add_transaction_def Let_def split: sum.split)
  qed
qed

interpretation update_transaction: service_op "update_transaction env d i u" for env d i u
proof unfold_locales
  fix w
  show "db_wf (w_db w) \<Longrightarrow> db_wf (w_db (snd (update_transaction env d i u w)))"
    using update_transaction_db [of env d i u w] by (auto dest: update_txn_row_wf [rotated])
  show "bus_grows (w_bus w) (w_bus (snd (update_transaction env d i u w)))"
  proof -
    have "bus_grows (w_bus (w\<lparr>w_db := v\<rparr>)) (w_bus (snd (and_then (publish_positions env u bs)
        (publish_portfolio env t p) (w\<lparr>w_db := v\<rparr>))))" for v bs t p
      by (intro and_then_grows publish_portfolio_grows publish_positions_grows)
    then show ?thesis by (simp add: update_transaction_def Let_def split: option.split sum.split)
  qed
qed

interpretation delete_transaction: service_op "delete_transaction env i u" for env i u
proof unfold_locales
  fix w
  show "db_wf (w_db w) \<Longrightarrow> db_wf (w_db (snd (delete_transaction env i u w)))"
    using delete_transaction_db [of env i u w] by (auto intro: delete_txn_row_wf)
  show "bus_grows (w_bus w) (w_bus (snd (delete_transaction env i u w)))"
  proof -
    have "bus_grows (w_bus (w\<lparr>w_db := v\<rparr>)) (w_bus (snd (and_then (publish_positions env u bs)
        (publish_portfolio env t p) (w\<lparr>w_db := v\<rparr>))))" for v bs t p
      by (intro and_then_grows publish_portfolio_grows publish_positions_grows)
    then show ?thesis by (simp add: delete_transaction_def split: option.split)
  qed
qed

interpretation update_transaction_owned:
  owned_op find_txn t_user_id "update_transaction env d" None TransactionForbiddenError for env d
  by unfold_locales (auto simp: update_transaction_def)

interpretation delete_transaction_owned:
  owned_op find_txn t_user_id "delete_transaction env" False TransactionForbiddenError for env
  by unfold_locales (auto simp: delete_transaction_def)

section \<open>Positions stay nonnegative\<close>

lemma add_transaction_positions:
  assumes "positions_ok (w_db w)" and "txn_create_ok d"
  shows "positions_ok (w_db (snd (add_transaction env u d w)))"
proof -
  let ?t = "new_txn env d u" and ?db = "w_db (snd (add_transaction env u d w))"
  from add_transaction_db [of env u d w] consider "?db = w_db w"
    | "nt_type d \<noteq> ''BUY'' \<longrightarrow> nt_quantity d \<le> pair_position u (nt_bond_id d) (nt_account_id d) (transactions (w_db w))"
      "insert_txn ?t (w_db w) = Inr ?db" by blast
  then show ?thesis
  proof cases
    case 1
    then show ?thesis using assms by simp
  next
    case 2
    then have "transactions ?db = add_row ?t (transactions (w_db w))"
      by (intro insert_txn_Inr) simp
    moreover have "0 \<le> pair_position v b a (add_row ?t (transactions (w_db w)))" for v b a
    proof -
      have "0 \<le> pair_position v b a (transactions (w_db w))" using assms(1) by (simp add: positions_ok_def)
      then show ?thesis using 2(1) assms(2)
        by (auto simp: pair_position_add on_pair_def new_txn_def signed_quantity_def txn_create_ok_def)
    qed
    ultimately show ?thesis by (simp add: positions_ok_def)
  qed
qed

lemma delete_transaction_positions:
  assumes "db_wf (w_db w)" and "positions_ok (w_db w)"
  shows "positions_ok (w_db (snd (delete_transaction env i u w)))"
proof -
  let ?db = "w_db (snd (delete_transaction env i u w))" and ?rows = "transactions (w_db w)"
  from delete_transaction_db [of env i u w] consider "?db = w_db w"
    | t where "find_txn i (w_db w) = Some t" "t_user_id t = u" "?db = delete_txn_row i (w_db w)"
      "0 \<le> pair_position u (t_bond_id t) (t_account_id t) (filter (\<lambda>x. t_id x \<noteq> t_id t) ?rows)" by blast
  then show ?thesis
  proof cases
    case 1
    then show ?thesis using assms by simp
  next
    case 2
    have inv: "distinct (map t_id ?rows)" using assms(1) by (simp add: put_wf_simps)
    have i: "t_id t = i" using 2(1) assms(1) by (simp add: find_txn_Some)
    have "0 \<le> pair_position v b a (filter (\<lambda>x. t_id x \<noteq> i) ?rows)" for v b a
    proof (cases "on_pair v b a t")
      case True
      then show ?thesis using 2(2,4) i by (auto simp: on_pair_def)
    next
      case False
      have "0 \<le> pair_position v b a ?rows" using assms(2) by (simp add: positions_ok_def)
      then show ?thesis
        using pair_position_split [OF inv, of t v b a] 2(1) False i by (simp add: find_txn_def)
    qed
    then show ?thesis using 2(3) by (simp add: positions_ok_def delete_txn_row_def drop_row_def)
  qed
qed

lemma update_transaction_positions:
  assumes "db_wf (w_db w)" and "positions_ok (w_db w)" and "txns_ok (w_db w)"
  shows "positions_ok (w_db (snd (update_transaction env d i u w)))"
proof -
  let ?db = "w_db (snd (update_transaction env d i u w))" and ?rows = "transactions (w_db w)"
  from update_transaction_db [of env d i u w] consider "?db = w_db w"
    | t where "find_txn i (w_db w) = Some t" "t_user_id t = u"
      "validate_transaction_shift u t (t_bond_id (apply_txn_update d t)) (t_account_id (apply_txn_update d t))
        (t_type (apply_txn_update d t)) (t_quantity (apply_txn_update d t)) (w_db w) = Inr ()"
      "update_txn_row (apply_txn_update d t) (w_db w) = Inr ?db" by blast
  then show ?thesis
  proof cases
    case 1
    then show ?thesis using assms by simp
  next
    case (2 t)
    let ?t = "apply_txn_update d t" and ?rest = "filter (\<lambda>x. t_id x \<noteq> t_id t) ?rows"
    have inv: "distinct (map t_id ?rows)" using assms(1) by (simp add: put_wf_simps)
    have t: "t \<in> set ?rows" "t_id t = i" using 2(1) assms(1) by (simp_all add: find_txn_Some)
    have found: "row_of t_id (t_id t) ?rows = Some t" using 2(1) t by (simp add: find_txn_def)
    have q: "0 < t_quantity t" using t assms(3) by (simp add: txns_ok_def)
    have moved: "t_quantity t \<le> pair_position u (t_bond_id t) (t_account_id t) ?rest"
      if "t_type t = ''BUY''" "t_bond_id ?t \<noteq> t_bond_id t \<or> t_account_id ?t \<noteq> t_account_id t"
      using 2(3) that by (auto simp: validate_transaction_shift_def Let_def quantity_of_others split: if_splits)
    have new: "0 \<le> pair_position u (t_bond_id ?t) (t_account_id ?t) ?rest + signed_quantity ?t"
      using 2(3) by (auto simp: validate_transaction_shift_def Let_def quantity_of_others signed_quantity_def
          split: if_splits)
    have split: "pair_position v b a ?rows =
        (if on_pair v b a t then signed_quantity t else 0) + pair_position v b a ?rest" for v b a
      by (rule pair_position_split [OF inv found])
    have "0 \<le> pair_position v b a (put_row t_id ?t ?rows)" for v b a
    proof -
      have put: "pair_position v b a (put_row t_id ?t ?rows) =
          (if on_pair v b a ?t then signed_quantity ?t else 0) + pair_position v b a ?rest"
        using pair_position_put [OF inv, of ?t v b a] found by simp
      have "0 \<le> pair_position v b a ?rows" using assms(2) by (simp add: positions_ok_def)
      then show ?thesis
        using put split [of v b a] new moved q 2(2)
        by (cases "on_pair v b a ?t"; cases "on_pair v b a t"; cases "t_type t = ''BUY''")
          (auto simp: on_pair_def signed_quantity_def)
    qed
    then show ?thesis using update_txn_row_Inr [OF 2(4)] by (simp add: positions_ok_def)
  qed
qed

section \<open>Rows stay positive and on the user's own accounts\<close>

lemma add_transaction_txns:
  assumes "txns_ok (w_db w)" and "txn_create_ok d" shows "txns_ok (w_db (snd (add_transaction env u d w)))"
proof -
  let ?db = "w_db (snd (add_transaction env u d w))"
  from add_transaction_db [of env u d w] consider "?db = w_db w"
    | "on_own_account (w_db w) u (nt_account_id d)" "?db = w_db w\<lparr>transactions := add_row (new_txn env d u) (transactions (w_db w))\<rparr>"
    by (auto simp: insert_txn_def split: if_splits)
  then show ?thesis
  proof cases
    case 2
    then show ?thesis using assms by (auto simp: txns_ok_def new_txn_def txn_create_ok_def)
  qed (use assms in simp)
qed

lemma apply_txn_update_ok:
  "txn_update_ok d \<Longrightarrow> 0 < t_quantity t \<and> 0 < t_price t \<Longrightarrow>
   0 < t_quantity (apply_txn_update d t) \<and> 0 < t_price (apply_txn_update d t)"
  by (cases "ut_quantity d"; cases "ut_price d") (auto simp: apply_txn_update_def txn_update_ok_def field_ok_def)

lemma update_transaction_txns:
  assumes "db_wf (w_db w)" and "txns_ok (w_db w)" and "txn_update_ok d"
  shows "txns_ok (w_db (snd (update_transaction env d i u w)))"
proof -
  let ?db = "w_db (snd (update_transaction env d i u w))"
  from update_transaction_db [of env d i u w] consider "?db = w_db w"
    | t where "find_txn i (w_db w) = Some t" "t_user_id t = u"
      "on_own_account (w_db w) u (t_account_id (apply_txn_update d t))"
      "?db = w_db w\<lparr>transactions := put_row t_id (apply_txn_update d t) (transactions (w_db w))\<rparr>"
    by (auto simp: update_txn_row_def split: if_splits)
  then show ?thesis
  proof cases
    case (2 t)
    then have "0 < t_quantity t \<and> 0 < t_price t" using assms(1,2) by (auto simp: find_txn_Some txns_ok_def)
    then have "0 < t_quantity (apply_txn_update d t) \<and> 0 < t_price (apply_txn_update d t)"
      by (rule apply_txn_update_ok [OF assms(3)])
    then show ?thesis using 2 assms(2) by (auto simp: txns_ok_def dest: set_put_row)
  qed (use assms in simp)
qed

lemma delete_transaction_txns:
  "txns_ok (w_db w) \<Longrightarrow> txns_ok (w_db (snd (delete_transaction env i u w)))"
  using delete_transaction_db [of env i u w] by (auto simp: txns_ok_def delete_txn_row_def)


section \<open>The listing of positions\<close>

lemma to_position_simps [simp]:
  "p_bond_id (to_position u b rows) = b" "p_quantity (to_position u b rows) = held rows"
proof -
  have "fst (net_position fl64 rows) = held rows" by (simp add: net_position_def netting_quantity Let_def)
  then show "p_bond_id (to_position u b rows) = b" "p_quantity (to_position u b rows) = held rows"
    by (auto simp: to_position_def split: prod.split option.split)
qed

lemma load_transactions_filter:
  "load_transactions u b a db = filter (\<lambda>t. t_bond_id t = b) (list_transactions u None a db)"
  by (auto simp: load_transactions_def list_transactions_def filter_order_by intro!: arg_cong [where f = "order_by _"] filter_cong)

lemma grouped_positions:
  "map (\<lambda>(b, rows). to_position u b rows) (group_rows t_bond_id (list_transactions u None a db))
     = map (\<lambda>b. get_position u b a db) (map fst (group_rows t_bond_id (list_transactions u None a db)))"
  by (auto simp: get_position_def load_transactions_filter group_rows_mem)

lemma get_all_positions_mem:
  "p \<in> set (get_all_positions u a db) \<longleftrightarrow> (\<exists>b. p = get_position u b a db) \<and> p_quantity p \<noteq> 0"
proof -
  let ?g = "group_rows t_bond_id (list_transactions u None a db)"
  have keys: "set (map fst ?g) = t_bond_id ` set (list_transactions u None a db)" by (simp add: keys_group_rows)
  have flat: "p_quantity (get_position u b a db) = 0" if "b \<notin> set (map fst ?g)" for b
  proof -
    have "filter (\<lambda>t. t_bond_id t = b) (list_transactions u None a db) = []"
      using that unfolding keys by (auto simp: filter_empty_conv)
    then show ?thesis by (simp add: get_position_def load_transactions_filter)
  qed
  have "set (get_all_positions u a db) = {p. p \<in> (\<lambda>b. get_position u b a db) ` set (map fst ?g) \<and> p_quantity p \<noteq> 0}"
    unfolding get_all_positions_def grouped_positions by auto
  then show ?thesis using flat by blast
qed

lemma distinct_all_positions: "distinct (map p_bond_id (get_all_positions u a db))"
proof -
  let ?g = "group_rows t_bond_id (list_transactions u None a db)"
  have "map p_bond_id (map (\<lambda>b. get_position u b a db) (map fst ?g)) = map fst ?g"
    by (simp add: get_position_def o_def)
  then have "distinct (map p_bond_id (map (\<lambda>b. get_position u b a db) (map fst ?g)))"
    using distinct_group_rows [of t_bond_id] by metis
  then show ?thesis unfolding get_all_positions_def grouped_positions by (rule distinct_map_filter_keys)
qed

section \<open>The outcome of an insert\<close>

lemma add_transaction_result:
  assumes "db_wf (w_db w)" and "txn_create_ok d" and "on_own_account (w_db w) u (nt_account_id d)"
    and "nt_bond_id d \<in> b_id ` set (bonds (w_db w))" and "e_new_id env \<notin> t_id ` set (transactions (w_db w))"
  shows "if nt_type d \<noteq> ''BUY''
        \<and> pair_position u (nt_bond_id d) (nt_account_id d) (transactions (w_db w)) < nt_quantity d
    then add_transaction env u d w = (Inl InsufficientPositionError, w)
    else \<exists>w'. add_transaction env u d w
          = (if bs_running (w_bus w) then Inr (new_txn env d u) else Inl RuntimeError, w')
      \<and> w_db w' = (w_db w)\<lparr>transactions := transactions (w_db w) @ [new_txn env d u]\<rparr>
      \<and> map (\<lambda>m. (m_topic m, m_payload m)) (bs_published (w_bus w'))
        = map (\<lambda>m. (m_topic m, m_payload m)) (bs_published (w_bus w))
          @ (if bs_running (w_bus w)
             then [(''transaction.created'', txn_payload (new_txn env d u)),
                   (''position.updated'', position_payload (get_position u (nt_bond_id d) None (w_db w')))]
             else [])"
proof -
  let ?t = "new_txn env d u"
  let ?db = "(w_db w)\<lparr>transactions := transactions (w_db w) @ [?t]\<rparr>"
  have type: "nt_type d \<in> set TRANSACTION_TYPES" using assms(2) by (simp add: txn_create_ok_def)
  have exits: "nt_type d \<in> {''SELL'', ''MATURE''} \<longleftrightarrow> nt_type d \<noteq> ''BUY''"
    using type by (auto simp: TRANSACTION_TYPES_def)
  have user: "u \<in> u_id ` set (users (w_db w))"
  proof -
    from assms(3) obtain a where "a \<in> set (broker_accounts (w_db w))" "a_user_id a = u"
      by (auto simp: on_own_account_def)
    then show ?thesis using assms(1) by (auto simp: put_wf_simps account_refs_def)
  qed
  have "nt_account_id d \<in> a_id ` set (broker_accounts (w_db w))"
    using assms(3) by (force simp: on_own_account_def)
  then have ins: "insert_txn ?t (w_db w) = Inr ?db"
    using type user assms(4,5) by (simp add: insert_txn_def txn_refs_def new_txn_def add_row_def)
  have t: "''transaction.created'' \<in> set ALL_TOPICS" "''position.updated'' \<in> set ALL_TOPICS"
    by (simp_all add: ALL_TOPICS_def)
  show ?thesis
    using type exits assms(3) ins
    by (auto simp: add_transaction_def own_account_None quantity_of_loaded Let_def and_then_def
        publish_portfolio_def publish_running t publish_stopped returning_def)
qed

section \<open>Properties\<close>

text \<open>
  No position is ever driven below zero: from a well-formed database whose rows have positive
  quantities and prices on their users' own accounts and whose positions (per user, bond and
  account) are nonnegative, adding, updating or deleting a transaction with validated data leads to
  such a database again, whatever the outcome, the caller and the state of the bus.
\<close>

theorem positions_never_negative:
  assumes "db_wf (w_db w)" and "txns_ok (w_db w)" and "positions_ok (w_db w)"
    and "txn_create_ok c" and "txn_update_ok d"
    and "w' \<in> {snd (add_transaction env u c w), snd (update_transaction env d i u w), snd (delete_transaction env i u w)}"
  shows "db_wf (w_db w') \<and> txns_ok (w_db w') \<and> positions_ok (w_db w')"
  using assms(6) add_transaction.keeps_wf [OF assms(1)] update_transaction.keeps_wf [OF assms(1)]
    delete_transaction.keeps_wf [OF assms(1)] add_transaction_txns [OF assms(2,4)]
    update_transaction_txns [OF assms(1,2,5)] delete_transaction_txns [OF assms(2)]
    add_transaction_positions [OF assms(3,4)] update_transaction_positions [OF assms(1,3,2)]
    delete_transaction_positions [OF assms(1,3)]
  by auto

definition sample_sell :: "int \<Rightarrow> txn_create" where
  "sample_sell q = \<lparr>nt_bond_id = 1, nt_account_id = 1, nt_type = ''SELL'', nt_quantity = q, nt_price = 1000,
     nt_date = Date 739010, nt_commission = 0\<rparr>"

definition sample_txn_update :: txn_update where
  "sample_txn_update = \<lparr>ut_bond_id = Omitted, ut_account_id = Omitted, ut_type = Omitted, ut_quantity = Given 7,
     ut_price = Omitted, ut_date = Omitted, ut_commission = Omitted\<rparr>"

lemma sample_txns_ok: "txns_ok sample_db"
  by (simp add: txns_ok_def on_own_account_def sample_db_def sample_holding_def)

lemma sample_positions_ok: "positions_ok sample_db"
  by (auto simp: positions_ok_def pair_position_def sum_over_def sample_db_def sample_holding_def signed_quantity_def)

theorem positions_never_negative_witness:
  "positions_ok (w_db (snd (add_transaction (sample_env 9) 1 (sample_sell 5) sample_world)))"
proof -
  have "txn_create_ok (sample_sell 5)" "txn_update_ok sample_txn_update"
    by (simp_all add: txn_create_ok_def sample_sell_def TRANSACTION_TYPES_def txn_update_ok_def
        sample_txn_update_def field_ok_def)
  then show ?thesis
    using positions_never_negative [of sample_world "sample_sell 5" sample_txn_update _ "sample_env 9" 1]
      sample_db_wf sample_txns_ok sample_positions_ok by auto
qed

text \<open>
  Recording a transaction on the caller's own account and an existing bond: an exit of more
  than is held on that account raises \<open>InsufficientPositionError\<close> and changes nothing; otherwise the
  row is stored and, on a running bus, \<open>transaction.created\<close> and then \<open>position.updated\<close> with the
  position over all the user's accounts are published. On a stopped bus the row is stored all the
  same, although the call raises \<open>RuntimeError\<close>.
\<close>

theorem add_transaction_outcome:
  assumes "db_wf (w_db w)" and "txn_create_ok d" and "on_own_account (w_db w) u (nt_account_id d)"
    and "nt_bond_id d \<in> b_id ` set (bonds (w_db w))" and "e_new_id env \<notin> t_id ` set (transactions (w_db w))"
  shows "if nt_type d \<noteq> ''BUY''
        \<and> pair_position u (nt_bond_id d) (nt_account_id d) (transactions (w_db w)) < nt_quantity d
    then add_transaction env u d w = (Inl InsufficientPositionError, w)
    else \<exists>w'. add_transaction env u d w
          = (if bs_running (w_bus w) then Inr (new_txn env d u) else Inl RuntimeError, w')
      \<and> w_db w' = (w_db w)\<lparr>transactions := transactions (w_db w) @ [new_txn env d u]\<rparr>
      \<and> map (\<lambda>m. (m_topic m, m_payload m)) (bs_published (w_bus w'))
        = map (\<lambda>m. (m_topic m, m_payload m)) (bs_published (w_bus w))
          @ (if bs_running (w_bus w)
             then [(''transaction.created'', txn_payload (new_txn env d u)),
                   (''position.updated'', position_payload (get_position u (nt_bond_id d) None (w_db w')))]
             else [])"
  by (rule add_transaction_result [OF assms])

theorem add_transaction_outcome_witness:
  "add_transaction (sample_env 9) 1 (sample_sell 6) sample_world = (Inl InsufficientPositionError, sample_world)"
proof -
  have "txn_create_ok (sample_sell 6)" "on_own_account (w_db sample_world) 1 (nt_account_id (sample_sell 6))"
    "nt_bond_id (sample_sell 6) \<in> b_id ` set (bonds (w_db sample_world))"
    "e_new_id (sample_env 9) \<notin> t_id ` set (transactions (w_db sample_world))"
    by (simp_all add: txn_create_ok_def sample_sell_def TRANSACTION_TYPES_def on_own_account_def sample_db_def
        sample_bond_def sample_env_def sample_holding_def)
  from add_transaction_outcome [OF _ this] show ?thesis
    using sample_db_wf
    by (simp add: sample_sell_def pair_position_def sum_over_def on_pair_def signed_quantity_def sample_db_def
        sample_holding_def)
qed

text \<open>
  The list of positions agrees with the single positions: it has one entry for each bond of
  which the user's net quantity (on the account, if one is given) is not zero, and that entry is
  what \<open>get_position\<close> returns for the bond.
\<close>

theorem positions_listing_agrees:
  "set (get_all_positions u a db) = {get_position u b a db |b. p_quantity (get_position u b a db) \<noteq> 0}
   \<and> distinct (map p_bond_id (get_all_positions u a db))
   \<and> (\<forall>b. p_bond_id (get_position u b a db) = b
        \<and> p_quantity (get_position u b a db) = held (load_transactions u b a db))"
proof -
  have "set (get_all_positions u a db) = {get_position u b a db |b. p_quantity (get_position u b a db) \<noteq> 0}"
    by (rule set_eqI) (unfold get_all_positions_mem mem_Collect_eq, blast)
  moreover have "p_bond_id (get_position u b a db) = b
      \<and> p_quantity (get_position u b a db) = held (load_transactions u b a db)" for b
    by (simp add: get_position_def)
  ultimately show ?thesis using distinct_all_positions [of u a db] by blast
qed

text \<open>
  A lone BUY cannot be moved: a user who moves the only transaction of a (bond, account) pair to
  another bond is refused with \<open>InsufficientPositionError\<close>, although the old pair would be left with
  a position of zero.
\<close>

theorem lone_buy_cannot_move:
  assumes "db_wf (w_db w)" and "txns_ok (w_db w)" and "find_txn i (w_db w) = Some t" and "is_buy t"
    and "\<forall>x \<in> set (transactions (w_db w)).
      on_pair (t_user_id t) (t_bond_id t) (t_account_id t) x \<longrightarrow> t_id x = i"
    and "ut_bond_id d = Given b" and "b \<noteq> t_bond_id t" and "ut_account_id d = Omitted" and "ut_type d = Omitted"
  shows "update_transaction env d i (t_user_id t) w = (Inl InsufficientPositionError, w)
    \<and> pair_position (t_user_id t) (t_bond_id t) (t_account_id t) (others i (transactions (w_db w))) = 0"
proof -
  let ?t = "apply_txn_update d t" and ?rest = "filter (\<lambda>x. t_id x \<noteq> i) (transactions (w_db w))"
  have t: "t \<in> set (transactions (w_db w))" "t_id t = i" using assms(1,3) by (simp_all add: find_txn_Some)
  have acc: "on_own_account (w_db w) (t_user_id t) (t_account_id t)" and q: "0 < t_quantity t"
    using t assms(2) by (simp_all add: txns_ok_def)
  have type: "t_type t \<in> set TRANSACTION_TYPES" using t assms(1) by (simp add: put_wf_simps txn_refs_def)
  have zero: "pair_position (t_user_id t) (t_bond_id t) (t_account_id t) ?rest = 0"
    unfolding pair_position_def by (rule sum_over_none) (use assms(5) in auto)
  have upd: "t_bond_id ?t = b" "t_account_id ?t = t_account_id t" "t_type ?t = t_type t"
    using assms(6,8,9) by (simp_all add: apply_txn_update_def)
  have "validate_transaction_shift (t_user_id t) t b (t_account_id t) (t_type t) (t_quantity ?t) (w_db w)
      = Inl InsufficientPositionError"
    using assms(4,7) zero q t(2) by (simp add: validate_transaction_shift_def Let_def quantity_of_others)
  then have "update_transaction env d i (t_user_id t) w = (Inl InsufficientPositionError, w)"
    using assms(3) acc type by (simp add: update_transaction_def Let_def upd own_account_None)
  then show ?thesis using zero by (simp add: others_def)
qed

theorem lone_buy_cannot_move_witness:
  "fst (update_transaction (sample_env 0) (sample_txn_update\<lparr>ut_bond_id := Given 2\<rparr>) 2 1 sample_world)
     = Inl InsufficientPositionError"
proof -
  have t: "find_txn 2 (w_db sample_world) = Some (sample_holding 2 1)" "is_buy (sample_holding 2 1)"
    "t_user_id (sample_holding 2 1) = 1" "2 \<noteq> t_bond_id (sample_holding 2 1)"
    "\<forall>x \<in> set (transactions (w_db sample_world)). on_pair (t_user_id (sample_holding 2 1))
       (t_bond_id (sample_holding 2 1)) (t_account_id (sample_holding 2 1)) x \<longrightarrow> t_id x = 2"
    by (simp_all add: find_txn_def row_of_def sample_db_def sample_holding_def on_pair_def)
  show ?thesis
    using lone_buy_cannot_move [of sample_world 2, OF _ _ t(1,2,5), of "sample_txn_update\<lparr>ut_bond_id := Given 2\<rparr>" 2]
      sample_db_wf sample_txns_ok t by (simp add: sample_txn_update_def)
qed

text \<open>
  The guard of an insert looks at the total, not at the dates: a SELL dated before the only BUY
  is accepted, and the chronological walk then sees an exit with nothing open, realizes no result
  for it and keeps the whole BUY open, so that the open quantity of the walk exceeds what is held.
\<close>

theorem backdated_sell_accepted:
  "let r = add_transaction (sample_env 9) 1 ((sample_sell 5)\<lparr>nt_date := Date 738000\<rparr>) sample_world;
       rows = load_transactions 1 1 None (w_db (snd r))
   in fst r = Inr (new_txn (sample_env 9) ((sample_sell 5)\<lparr>nt_date := Date 738000\<rparr>) 1)
      \<and> held rows = 0 \<and> ns_open (netting fl64 rows) = 5
      \<and> fst (realized_pnl fl64 rows) = 0 \<and> \<not> never_oversold rows"
proof -
  let ?d = "(sample_sell 5)\<lparr>nt_date := Date 738000\<rparr>" and ?w = sample_world
  let ?r = "add_transaction (sample_env 9) 1 ?d ?w"
  let ?t = "new_txn (sample_env 9) ?d 1"
  have ok: "txn_create_ok ?d" "on_own_account (w_db ?w) 1 (nt_account_id ?d)"
    "nt_bond_id ?d \<in> b_id ` set (bonds (w_db ?w))"
    "e_new_id (sample_env 9) \<notin> t_id ` set (transactions (w_db ?w))"
    "pair_position 1 (nt_bond_id ?d) (nt_account_id ?d) (transactions (w_db ?w)) = 5" "nt_quantity ?d = 5"
    by (simp_all add: txn_create_ok_def sample_sell_def TRANSACTION_TYPES_def on_own_account_def sample_db_def
        sample_bond_def sample_env_def sample_holding_def pair_position_def sum_over_def on_pair_def
        signed_quantity_def)
  obtain w' where r: "?r = (Inr ?t, w')"
    and db: "w_db w' = (w_db ?w)\<lparr>transactions := transactions (w_db ?w) @ [?t]\<rparr>"
    using add_transaction_result [OF _ ok(1-4)] sample_db_wf ok(5,6) by auto
  have rows: "load_transactions 1 1 None (w_db w') = [?t, sample_holding 2 1]"
    by (simp add: db load_transactions_def order_by_def sample_db_def sample_holding_def new_txn_def
        sample_sell_def sample_env_def)
  show ?thesis
    unfolding Let_def r fst_conv snd_conv rows
    by (simp add: new_txn_def sample_sell_def sample_holding_def netting_def netting_step_def Let_def
        realized_pnl_def never_oversold_def)
qed

end
