(* ===== verification/Analytics.thy ===== *)
theory Analytics
  imports Ytm Portfolio PyText
begin

text \<open>
  \<open>analytics/service.py\<close> and \<open>analytics/dto.py\<close>: the portfolio summary, its cache, and the handler of
  the change events. The helpers of \<open>yield_calc\<close> are used at floating point (\<open>fl64\<close>); \<open>pw\<close> is the C
  library's \<open>pow\<close>. The date loops and \<open>calculate_ytm\<close> are partial functions that always return (shown
  in \<open>CouponGrid\<close> and \<open>Ytm\<close>), so their values are taken with \<open>the\<close>. A coroutine that computes a
  summary and one that stores it are one step; the lock of the cache guards nothing else.
\<close>

section \<open>Data\<close>

record coupon_due =
  cd_bond_id :: int
  cd_isin :: string
  cd_name :: string
  cd_date :: date
  cd_amount :: rat

record cashflow =
  cf_date :: date
  cf_bond_id :: int
  cf_isin :: string
  cf_kind :: string
  cf_amount :: rat

record position_analytics =
  pa_bond_id :: int
  pa_isin :: string
  pa_name :: string
  pa_quantity :: int
  pa_avg_buy_price :: rat
  pa_total_invested :: rat
  pa_ytm :: "rat option"
  pa_current_yield :: "rat option"
  pa_accrued_coupon :: rat
  pa_next_coupon_date :: "date option"
  pa_maturity_date :: date

record realized =
  rp_sells :: rat
  rp_maturities :: rat
  rp_commissions :: rat
  rp_total :: rat

record summary =
  sm_user_id :: int
  sm_generated_at :: int
  sm_positions :: "position_analytics list"
  sm_total_invested :: rat
  sm_next_coupons :: "coupon_due list"
  sm_realized_pnl :: realized
  sm_upcoming_cashflows :: "cashflow list"

section \<open>One position\<close>

definition coupon_per_period :: "bond_row \<Rightarrow> rat" where
  "coupon_per_period bond =
     (if b_coupon_period_days bond = 0 then 0
      else period_coupon fl64 (b_nominal bond) (b_coupon_rate bond) (b_coupon_period_days bond))"

definition bond_position_cashflows :: "coupon_row list \<Rightarrow> bond_row \<Rightarrow> coupon_payment list option" where
  "bond_position_cashflows coupon_rows bond =
     (if coupon_rows = [] then None
      else
        let cashflows = map (\<lambda>r. let final = (c_date r = b_maturity_date bond) in
              \<lparr>payment_date = c_date r,
               amount = fl64 (c_amount r + (if final then fl64 (of_int (b_nominal bond)) else 0)),
               is_final = final\<rparr>) coupon_rows;
            has_maturity_row = list_ex (\<lambda>r. c_date r = b_maturity_date bond) coupon_rows
        in Some (if has_maturity_row then cashflows
                 else cashflows @ [\<lparr>payment_date = b_maturity_date bond, amount = of_int (b_nominal bond),
                                    is_final = True\<rparr>]))"

definition future_dates_of :: "bond_row \<Rightarrow> date \<Rightarrow> date list result" where
  "future_dates_of bond today =
     (if b_maturity_date bond > today
      then the (future_coupon_dates (b_maturity_date bond) (b_coupon_period_days bond) today) else Inr [])"

definition future_bond_cashflows ::
    "bond_row \<Rightarrow> int \<Rightarrow> date \<Rightarrow> date \<Rightarrow> (coupon_due list \<times> cashflow list) result" where
  "future_bond_cashflows bond quantity valuation_date horizon_end =
     (let coupon = fl64 (coupon_per_period bond * fl64 (of_int quantity))
      in bind_result (future_dates_of bond valuation_date) (\<lambda>future_dates.
           Inr (map (\<lambda>d. \<lparr>cd_bond_id = b_id bond, cd_isin = b_isin bond, cd_name = b_name bond, cd_date = d,
                          cd_amount = coupon\<rparr>)
                  (filter (\<lambda>d. d \<le> horizon_end) future_dates),
                map (\<lambda>d. \<lparr>cf_date = d, cf_bond_id = b_id bond, cf_isin = b_isin bond, cf_kind = ''COUPON'',
                          cf_amount = coupon\<rparr>) future_dates
                @ (if b_maturity_date bond > valuation_date
                   then [\<lparr>cf_date = b_maturity_date bond, cf_bond_id = b_id bond, cf_isin = b_isin bond,
                          cf_kind = ''MATURITY'', cf_amount = fl64 (of_int (b_nominal bond * quantity))\<rparr>]
                   else []))))"

text \<open>
  The \<open>try\<close> around the two yields: \<open>YtmCalculationError\<close> ends it, and a yield found before stays.
\<close>

definition position_yields ::
    "(rat \<Rightarrow> rat \<Rightarrow> rat) \<Rightarrow> rat \<Rightarrow> bond_row \<Rightarrow> date \<Rightarrow> coupon_payment list option
     \<Rightarrow> (rat option \<times> rat option) result" where
  "position_yields pw avg bond today cashflows =
     (case the (calculate_ytm fl64 pw avg (b_coupon_rate bond) (b_coupon_period_days bond)
             (b_maturity_date bond) (b_nominal bond) today cashflows) of
        Inl e \<Rightarrow> if e = YtmCalculationError then Inr (None, None) else Inl e
      | Inr ytm \<Rightarrow>
          (case calculate_current_yield fl64 avg (b_coupon_rate bond) (b_nominal bond) of
             Inl e \<Rightarrow> if e = YtmCalculationError then Inr (ytm, None) else Inl e
           | Inr y \<Rightarrow> Inr (ytm, Some y)))"

definition position_accrued :: "bond_row \<Rightarrow> date \<Rightarrow> rat result" where
  "position_accrued bond today =
     bind_result (the (last_coupon_date (b_maturity_date bond) (b_coupon_period_days bond) today)) (\<lambda>last_coupon.
       case last_coupon of
         None \<Rightarrow> Inr 0
       | Some d \<Rightarrow>
           (case calculate_accrued_coupon fl64 (b_coupon_rate bond) (b_coupon_period_days bond) d today
                   (b_nominal bond) of
              Inl e \<Rightarrow> if e = ValueError then Inr 0 else Inl e
            | Inr x \<Rightarrow> Inr x))"

definition build_position_analytics ::
    "(rat \<Rightarrow> rat \<Rightarrow> rat) \<Rightarrow> bond_row \<Rightarrow> txn_row list \<Rightarrow> date \<Rightarrow> coupon_payment list option
     \<Rightarrow> position_analytics result" where
  "build_position_analytics pw bond txns today cashflows =
     (case net_position fl64 txns of
        (quantity, None) \<Rightarrow> Inl ValueError
      | (quantity, Some avg) \<Rightarrow>
          let matured = (b_maturity_date bond \<le> today)
          in bind_result (if matured then Inr [] else future_dates_of bond today) (\<lambda>future_dates.
             bind_result (if matured then Inr (None, None) else position_yields pw avg bond today cashflows)
               (\<lambda>(ytm, current_yield).
             bind_result (position_accrued bond today) (\<lambda>accrued.
               Inr \<lparr>pa_bond_id = b_id bond, pa_isin = b_isin bond, pa_name = b_name bond,
                    pa_quantity = quantity, pa_avg_buy_price = avg,
                    pa_total_invested = fl64 (avg * fl64 (of_int quantity)), pa_ytm = ytm,
                    pa_current_yield = current_yield, pa_accrued_coupon = accrued,
                    pa_next_coupon_date = (case future_dates of [] \<Rightarrow> None | d # _ \<Rightarrow> Some d),
                    pa_maturity_date = b_maturity_date bond\<rparr>))))"

section \<open>The summary\<close>

text \<open>\<open>sum(floats, start=0.0)\<close> of CPython since 3.12: Neumaier's compensated summation.\<close>

fun py_sum_from :: "rat \<Rightarrow> rat \<Rightarrow> rat list \<Rightarrow> rat" where
  "py_sum_from acc c [] = (if c = 0 then acc else fl64 (acc + c))"
| "py_sum_from acc c (x # xs) =
     (let t = fl64 (acc + x)
      in py_sum_from t
           (if \<bar>acc\<bar> \<ge> \<bar>x\<bar> then fl64 (c + fl64 (fl64 (acc - t) + x))
            else fl64 (c + fl64 (fl64 (x - t) + acc))) xs)"

definition py_sum :: "rat list \<Rightarrow> rat" where "py_sum xs = py_sum_from 0 0 xs"

record summary_state =
  st_positions :: "position_analytics list"
  st_sells :: rat
  st_maturities :: rat
  st_commissions :: rat
  st_next_coupons :: "coupon_due list"
  st_cashflows :: "cashflow list"

definition coupons_of :: "int \<Rightarrow> database \<Rightarrow> coupon_row list" where
  "coupons_of bond_id db = order_by c_date (filter (\<lambda>c. c_bond_id c = bond_id) (bond_coupons db))"

definition rows_of :: "txn_row list \<Rightarrow> int \<Rightarrow> txn_row list" where
  "rows_of txns bond_id = (case map_of (group_rows t_bond_id txns) bond_id of None \<Rightarrow> [] | Some rows \<Rightarrow> rows)"

text \<open>One iteration of the loop over \<open>sorted(grouped)\<close>.\<close>

definition summary_step ::
    "(rat \<Rightarrow> rat \<Rightarrow> rat) \<Rightarrow> database \<Rightarrow> txn_row list \<Rightarrow> date \<Rightarrow> date \<Rightarrow> int \<Rightarrow> summary_state \<Rightarrow> summary_state result" where
  "summary_step pw db txns valuation_date horizon_end bond_id st =
     (let rows = rows_of txns bond_id;
          (sells, maturities, commissions) = realized_pnl fl64 rows;
          st1 = st\<lparr>st_sells := fl64 (st_sells st + sells), st_maturities := fl64 (st_maturities st + maturities),
                   st_commissions := fl64 (st_commissions st + commissions)\<rparr>
      in case get_bond bond_id db of
           None \<Rightarrow> Inr st1
         | Some bond \<Rightarrow>
             let quantity = fst (net_position fl64 rows)
             in if quantity \<le> 0 then Inr st1
                else
                  bind_result (build_position_analytics pw bond rows valuation_date
                      (bond_position_cashflows (coupons_of bond_id db) bond)) (\<lambda>position.
                  bind_result (future_bond_cashflows bond quantity valuation_date horizon_end) (\<lambda>(coupons, flows).
                    Inr (st1\<lparr>st_positions := st_positions st1 @ [position],
                             st_next_coupons := st_next_coupons st1 @ coupons,
                             st_cashflows := st_cashflows st1 @ flows\<rparr>))))"

fun summary_loop ::
    "(rat \<Rightarrow> rat \<Rightarrow> rat) \<Rightarrow> database \<Rightarrow> txn_row list \<Rightarrow> date \<Rightarrow> date \<Rightarrow> int list \<Rightarrow> summary_state \<Rightarrow> summary_state result" where
  "summary_loop pw db txns valuation_date horizon_end [] st = Inr st"
| "summary_loop pw db txns valuation_date horizon_end (b # bs) st =
     bind_result (summary_step pw db txns valuation_date horizon_end b st)
       (summary_loop pw db txns valuation_date horizon_end bs)"

definition summary_state_init :: summary_state where
  "summary_state_init = \<lparr>st_positions = [], st_sells = 0, st_maturities = 0, st_commissions = 0,
     st_next_coupons = [], st_cashflows = []\<rparr>"

definition NEXT_COUPONS_HORIZON_DAYS_DEFAULT :: int where "NEXT_COUPONS_HORIZON_DAYS_DEFAULT = 730"
definition NEXT_COUPONS_LIMIT_DEFAULT :: int where "NEXT_COUPONS_LIMIT_DEFAULT = 100"
definition CASHFLOWS_HORIZON_DAYS_DEFAULT :: int where "CASHFLOWS_HORIZON_DAYS_DEFAULT = 3650"
definition CASHFLOWS_LIMIT_DEFAULT :: int where "CASHFLOWS_LIMIT_DEFAULT = 500"

definition by_date_coupon :: "coupon_due \<Rightarrow> date \<times> int" where "by_date_coupon c = (cd_date c, cd_bond_id c)"
definition by_date_flow :: "cashflow \<Rightarrow> date \<times> int" where "by_date_flow f = (cf_date f, cf_bond_id f)"

definition sorted_bond_ids :: "txn_row list \<Rightarrow> int list" where
  "sorted_bond_ids txns = sort (map fst (group_rows t_bond_id txns))"

definition compute_summary ::
    "(rat \<Rightarrow> rat \<Rightarrow> rat) \<Rightarrow> env \<Rightarrow> int \<Rightarrow> date \<Rightarrow> int option \<Rightarrow> database \<Rightarrow> summary result" where
  "compute_summary pw env user_id valuation_date broker_account_id db =
     (let txns = list_transactions user_id None broker_account_id db
      in bind_result (date_add valuation_date NEXT_COUPONS_HORIZON_DAYS_DEFAULT) (\<lambda>horizon_end.
         bind_result (summary_loop pw db txns valuation_date horizon_end (sorted_bond_ids txns) summary_state_init)
           (\<lambda>st. Inr
              \<lparr>sm_user_id = user_id, sm_generated_at = e_now env, sm_positions = st_positions st,
               sm_total_invested = py_sum (map pa_total_invested (st_positions st)),
               sm_next_coupons = take (nat NEXT_COUPONS_LIMIT_DEFAULT) (order_by by_date_coupon (st_next_coupons st)),
               sm_realized_pnl =
                 \<lparr>rp_sells = st_sells st, rp_maturities = st_maturities st, rp_commissions = st_commissions st,
                  rp_total = fl64 (fl64 (st_sells st + st_maturities st) - st_commissions st)\<rparr>,
               sm_upcoming_cashflows = order_by by_date_flow (st_cashflows st)\<rparr>)))"

section \<open>Reading it\<close>

definition next_coupons_from_summary :: "summary \<Rightarrow> date \<Rightarrow> int \<Rightarrow> int \<Rightarrow> coupon_due list result" where
  "next_coupons_from_summary s base horizon_days limit =
     (let names = map (\<lambda>p. (pa_bond_id p, pa_name p)) (sm_positions s)
      in bind_result (date_add base horizon_days) (\<lambda>horizon_end.
         let coupons = map (\<lambda>f. \<lparr>cd_bond_id = cf_bond_id f, cd_isin = cf_isin f,
                 cd_name = (case map_of (rev names) (cf_bond_id f) of Some n \<Rightarrow> n | None \<Rightarrow> cf_isin f),
                 cd_date = cf_date f, cd_amount = cf_amount f\<rparr>)
               (filter (\<lambda>f. cf_kind f = ''COUPON'' \<and> cf_date f \<le> horizon_end) (sm_upcoming_cashflows s))
         in Inr (take (nat limit) (order_by by_date_coupon coupons))))"

definition cashflows_from_summary :: "summary \<Rightarrow> date \<Rightarrow> int \<Rightarrow> int \<Rightarrow> cashflow list result" where
  "cashflows_from_summary s base horizon_days limit =
     bind_result (date_add base horizon_days) (\<lambda>horizon_end.
       Inr (take (nat limit) (order_by by_date_flow
         (filter (\<lambda>f. cf_date f \<le> horizon_end) (sm_upcoming_cashflows s)))))"

text \<open>The arguments of a read, and the cache of the service: summaries by user, newest first.\<close>

record query =
  q_today :: "date option"
  q_horizon_days :: int
  q_limit :: int
  q_cashflows_horizon_days :: int
  q_cashflows_limit :: int
  q_broker_account_id :: "int option"

definition default_query :: query where
  "default_query = \<lparr>q_today = None, q_horizon_days = NEXT_COUPONS_HORIZON_DAYS_DEFAULT,
     q_limit = NEXT_COUPONS_LIMIT_DEFAULT, q_cashflows_horizon_days = CASHFLOWS_HORIZON_DAYS_DEFAULT,
     q_cashflows_limit = CASHFLOWS_LIMIT_DEFAULT, q_broker_account_id = None\<rparr>"

definition query_ok :: "query \<Rightarrow> bool" where
  "query_ok q \<longleftrightarrow> 1 \<le> q_horizon_days q \<and> q_horizon_days q \<le> 3650 \<and> 1 \<le> q_limit q \<and> q_limit q \<le> 1000
     \<and> 1 \<le> q_cashflows_horizon_days q \<and> q_cashflows_horizon_days q \<le> 7300
     \<and> 1 \<le> q_cashflows_limit q \<and> q_cashflows_limit q \<le> 5000"

type_synonym cache = "(int \<times> summary) list"

definition cached_or_fresh ::
    "(rat \<Rightarrow> rat \<Rightarrow> rat) \<Rightarrow> env \<Rightarrow> int \<Rightarrow> query \<Rightarrow> database \<Rightarrow> cache \<Rightarrow> (date \<times> summary) result \<times> cache" where
  "cached_or_fresh pw env user_id q db cache =
     (case q_broker_account_id q of
        Some account \<Rightarrow>
          let base = (case q_today q of Some d \<Rightarrow> d | None \<Rightarrow> e_today env)
          in (map_sum id (Pair base) (compute_summary pw env user_id base (Some account) db), cache)
      | None \<Rightarrow>
          (case q_today q of
             Some today \<Rightarrow> (map_sum id (Pair today) (compute_summary pw env user_id today None db), cache)
           | None \<Rightarrow>
               (case map_of cache user_id of
                  Some s \<Rightarrow> (Inr (e_today env, s), cache)
                | None \<Rightarrow>
                    (case compute_summary pw env user_id (e_today env) None db of
                       Inl e \<Rightarrow> (Inl e, cache)
                     | Inr s \<Rightarrow> (Inr (e_today env, s), (user_id, s) # cache)))))"

definition get_portfolio_summary ::
    "(rat \<Rightarrow> rat \<Rightarrow> rat) \<Rightarrow> env \<Rightarrow> int \<Rightarrow> query \<Rightarrow> database \<Rightarrow> cache \<Rightarrow> summary result \<times> cache" where
  "get_portfolio_summary pw env user_id q db cache =
     (if \<not> query_ok q then (Inl ValueError, cache)
      else
        (case cached_or_fresh pw env user_id q db cache of
           (Inl e, cache') \<Rightarrow> (Inl e, cache')
         | (Inr (base, s), cache') \<Rightarrow>
             (bind_result (next_coupons_from_summary s base (q_horizon_days q) (q_limit q)) (\<lambda>coupons.
              bind_result (cashflows_from_summary s base (q_cashflows_horizon_days q) (q_cashflows_limit q)) (\<lambda>flows.
                Inr (s\<lparr>sm_next_coupons := coupons, sm_upcoming_cashflows := flows\<rparr>))), cache')))"

definition get_position_analytics ::
    "(rat \<Rightarrow> rat \<Rightarrow> rat) \<Rightarrow> env \<Rightarrow> int \<Rightarrow> int \<Rightarrow> date option \<Rightarrow> int option \<Rightarrow> database \<Rightarrow> cache
     \<Rightarrow> position_analytics option result \<times> cache" where
  "get_position_analytics pw env user_id bond_id today broker_account_id db cache =
     (let pick = map_sum id (\<lambda>s. find (\<lambda>p. pa_bond_id p = bond_id) (sm_positions s))
      in case (broker_account_id, today) of
           (Some account, _) \<Rightarrow>
             (pick (compute_summary pw env user_id (case today of Some d \<Rightarrow> d | None \<Rightarrow> e_today env)
                (Some account) db), cache)
         | (None, Some d) \<Rightarrow> (pick (compute_summary pw env user_id d None db), cache)
         | (None, None) \<Rightarrow>
             (case get_portfolio_summary pw env user_id default_query db cache of
                (r, cache') \<Rightarrow> (pick r, cache')))"

section \<open>Recalculation on events\<close>

text \<open>
  The published payload is the whole summary; only its \<open>user_id\<close> is kept here. The cache is written
  before the publish, so it is fresh even if the publish raises.
\<close>

definition recalculate ::
    "(rat \<Rightarrow> rat \<Rightarrow> rat) \<Rightarrow> env \<Rightarrow> int \<Rightarrow> world \<times> cache \<Rightarrow> summary result \<times> world \<times> cache" where
  "recalculate pw env user_id s =
     (case s of (w, cache) \<Rightarrow>
        (case compute_summary pw env user_id (e_today env) None (w_db w) of
           Inl e \<Rightarrow> (Inl e, w, cache)
         | Inr summary \<Rightarrow>
             (case returning summary (publish env ''analytics'' ''portfolio.recalculated''
                     [(''user_id'', VInt user_id)] w) of
                (r, w') \<Rightarrow> (r, w', (user_id, summary) # cache))))"

definition CHANGE_TOPICS :: "string list" where
  "CHANGE_TOPICS = [''bond.updated'', ''bond.deleted'', ''transaction.created'', ''position.updated'']"

text \<open>
  The handler: every exception is logged and swallowed. Every publisher of the program stamps
  an \<open>int\<close>; \<open>int(raw_user_id)\<close> of other values is modelled too.
\<close>

fun int_of_value :: "payload_value \<Rightarrow> int option" where
  "int_of_value (VInt i) = Some i"
| "int_of_value (VNum x) = Some (if 0 \<le> x then \<lfloor>x\<rfloor> else \<lceil>x\<rceil>)"
| "int_of_value (VStr s) = int_of_string s"
| "int_of_value (VDate d) = None"
| "int_of_value VNone = None"

definition handle_event :: "(rat \<Rightarrow> rat \<Rightarrow> rat) \<Rightarrow> env \<Rightarrow> message \<Rightarrow> world \<times> cache \<Rightarrow> world \<times> cache" where
  "handle_event pw env m s =
     (case map_of (m_payload m) ''user_id'' of
        None \<Rightarrow> s
      | Some raw_user_id \<Rightarrow>
          (case int_of_value raw_user_id of
             None \<Rightarrow> s
           | Some user_id \<Rightarrow> snd (recalculate pw env user_id s)))"

fun attach_to_event_bus :: "string list \<Rightarrow> bus \<Rightarrow> bus" where
  "attach_to_event_bus [] b = b"
| "attach_to_event_bus (t # ts) b = attach_to_event_bus ts (snd (bus_subscribe t False ''analytics'' b))"

section \<open>Positions of the summary\<close>

lemma rows_of_loaded: "rows_of (list_transactions u None a db) b = load_transactions u b a db"
  by (auto simp: rows_of_def map_of_group_rows load_transactions_filter filter_empty_conv image_iff intro!: sym [of _ "[]"])

abbreviation open_bond :: "int \<Rightarrow> int option \<Rightarrow> database \<Rightarrow> int \<Rightarrow> bool" where
  "open_bond u a db b \<equiv> 0 < held (load_transactions u b a db)"

lemma net_position_quantity: "fst (net_position rnd txns) = held txns"
  by (simp add: net_position_def Let_def netting_quantity)

lemma build_position_Inr:
  assumes "build_position_analytics pw bond txns today cfs = Inr p"
  shows "pa_bond_id p = b_id bond \<and> pa_isin p = b_isin bond \<and> pa_name p = b_name bond \<and> pa_quantity p = held txns
    \<and> net_position fl64 txns = (held txns, Some (pa_avg_buy_price p))
    \<and> pa_total_invested p = fl64 (pa_avg_buy_price p * fl64 (of_int (held txns)))
    \<and> pa_maturity_date p = b_maturity_date bond"
proof -
  obtain q avg where n: "net_position fl64 txns = (q, avg)" by fastforce
  then have "q = held txns" using net_position_quantity [of fl64 txns] by simp
  with n assms show ?thesis
    by (cases avg) (auto simp: build_position_analytics_def Let_def bind_result_Inr_iff)
qed

text \<open>What the loop adds to its state: one position and its two lists of events per open bond.\<close>

lemma summary_loop_Inr:
  assumes "summary_loop pw db (list_transactions u None a db) d h bs st = Inr st'"
    and "\<forall>b \<in> set bs. get_bond b db \<noteq> None"
  shows "\<exists>ps cfs.
      list_all2 (\<lambda>b p. build_position_analytics pw (the (get_bond b db)) (load_transactions u b a db) d
          (bond_position_cashflows (coupons_of b db) (the (get_bond b db))) = Inr p)
        (filter (open_bond u a db) bs) ps
    \<and> list_all2 (\<lambda>b cf. future_bond_cashflows (the (get_bond b db)) (held (load_transactions u b a db)) d h = Inr cf)
        (filter (open_bond u a db) bs) cfs
    \<and> st_positions st' = st_positions st @ ps
    \<and> st_next_coupons st' = st_next_coupons st @ concat (map fst cfs)
    \<and> st_cashflows st' = st_cashflows st @ concat (map snd cfs)"
  using assms
proof (induction bs arbitrary: st)
  case Nil
  then show ?case by (intro exI [of _ "[]"]) simp
next
  case (Cons b bs)
  obtain bond where bond: "get_bond b db = Some bond" using Cons.prems(2) by auto
  obtain st1 where step: "summary_step pw db (list_transactions u None a db) d h b st = Inr st1"
    and rest: "summary_loop pw db (list_transactions u None a db) d h bs st1 = Inr st'"
    using Cons.prems(1) by (auto simp: bind_result_Inr_iff)
  obtain ps cfs where IH:
    "list_all2 (\<lambda>b p. build_position_analytics pw (the (get_bond b db)) (load_transactions u b a db) d
          (bond_position_cashflows (coupons_of b db) (the (get_bond b db))) = Inr p)
        (filter (open_bond u a db) bs) ps"
    "list_all2 (\<lambda>b cf. future_bond_cashflows (the (get_bond b db)) (held (load_transactions u b a db)) d h = Inr cf)
        (filter (open_bond u a db) bs) cfs"
    "st_positions st' = st_positions st1 @ ps"
    "st_next_coupons st' = st_next_coupons st1 @ concat (map fst cfs)"
    "st_cashflows st' = st_cashflows st1 @ concat (map snd cfs)"
    using Cons.IH [OF rest] Cons.prems(2) by auto
  show ?case
  proof (cases "open_bond u a db b")
    case False
    then have "st_positions st1 = st_positions st \<and> st_next_coupons st1 = st_next_coupons st
        \<and> st_cashflows st1 = st_cashflows st"
      using step bond by (auto simp: summary_step_def Let_def rows_of_loaded net_position_quantity split: prod.splits)
    with IH False show ?thesis by auto
  next
    case True
    then obtain p cs fs where
      "build_position_analytics pw bond (load_transactions u b a db) d
         (bond_position_cashflows (coupons_of b db) bond) = Inr p"
      "future_bond_cashflows bond (held (load_transactions u b a db)) d h = Inr (cs, fs)"
      "st_positions st1 = st_positions st @ [p]" "st_next_coupons st1 = st_next_coupons st @ cs"
      "st_cashflows st1 = st_cashflows st @ fs"
      using step bond
      by (auto simp: summary_step_def Let_def rows_of_loaded net_position_quantity bind_result_Inr_iff
          split: prod.splits)
    with IH True bond show ?thesis
      by (intro exI [of _ "p # ps"] exI [of _ "(cs, fs) # cfs"]) simp
  qed
qed

lemma compute_summary_Inr:
  assumes "compute_summary pw env u d a db = Inr s" and "db_wf db"
  shows "\<exists>ps cfs h.
      list_all2 (\<lambda>b p. build_position_analytics pw (the (get_bond b db)) (load_transactions u b a db) d
          (bond_position_cashflows (coupons_of b db) (the (get_bond b db))) = Inr p)
        (filter (open_bond u a db) (sorted_bond_ids (list_transactions u None a db))) ps
    \<and> list_all2 (\<lambda>b cf. future_bond_cashflows (the (get_bond b db)) (held (load_transactions u b a db)) d h = Inr cf)
        (filter (open_bond u a db) (sorted_bond_ids (list_transactions u None a db))) cfs
    \<and> sm_positions s = ps \<and> sm_upcoming_cashflows s = order_by by_date_flow (concat (map snd cfs))"
proof -
  have "\<forall>b \<in> set (sorted_bond_ids (list_transactions u None a db)). get_bond b db \<noteq> None"
    using assms(2)
    by (auto simp: sorted_bond_ids_def keys_group_rows list_transactions_def put_wf_simps txn_refs_def get_bond_def
        rows.lookup_None)
  then have bonds: "\<forall>b \<in> set (sorted_bond_ids (list_transactions u None a db)). get_bond b db \<noteq> None" .
  from assms(1) obtain h st where
    st: "summary_loop pw db (list_transactions u None a db) d h (sorted_bond_ids (list_transactions u None a db))
      summary_state_init = Inr st"
    and s: "sm_positions s = st_positions st" "sm_upcoming_cashflows s = order_by by_date_flow (st_cashflows st)"
    by (auto simp: compute_summary_def Let_def bind_result_Inr_iff)
  from summary_loop_Inr [OF st bonds] obtain ps cfs where
    "list_all2 (\<lambda>b p. build_position_analytics pw (the (get_bond b db)) (load_transactions u b a db) d
          (bond_position_cashflows (coupons_of b db) (the (get_bond b db))) = Inr p)
        (filter (open_bond u a db) (sorted_bond_ids (list_transactions u None a db))) ps"
    "list_all2 (\<lambda>b cf. future_bond_cashflows (the (get_bond b db)) (held (load_transactions u b a db)) d h = Inr cf)
        (filter (open_bond u a db) (sorted_bond_ids (list_transactions u None a db))) cfs"
    "st_positions st = ps" "st_cashflows st = concat (map snd cfs)"
    by (auto simp: summary_state_init_def)
  then show ?thesis by (intro exI [of _ ps] exI [of _ cfs] exI [of _ h]) (simp add: s)
qed

lemma sort_key_map: "(\<And>x. k (g x) = x) \<Longrightarrow> sort_key k (map g xs) = map g (sort xs)"
proof (induction xs)
  case (Cons x xs)
  have "insort_key k (g x) (map g ys) = map g (insort x ys)" for ys
    using Cons.prems by (induction ys) auto
  with Cons show ?case by simp
qed simp

lemma positions_sorted:
  "sort_key p_bond_id (filter (\<lambda>p. 0 < p_quantity p) (get_all_positions u a db))
     = map (\<lambda>b. get_position u b a db) (filter (open_bond u a db) (sorted_bond_ids (list_transactions u None a db)))"
proof -
  have q: "p_quantity (get_position u b a db) = held (load_transactions u b a db)" for b
    by (simp add: get_position_def)
  let ?keys = "map fst (group_rows t_bond_id (list_transactions u None a db))"
  have "filter (\<lambda>p. 0 < p_quantity p) (get_all_positions u a db)
      = filter (\<lambda>p. 0 < p_quantity p) (map (\<lambda>b. get_position u b a db) ?keys)"
    unfolding get_all_positions_def grouped_positions by (simp, rule filter_cong) auto
  also have "\<dots> = map (\<lambda>b. get_position u b a db) (filter (open_bond u a db) ?keys)"
    by (simp only: filter_map o_def q)
  also have "sort_key p_bond_id \<dots> = map (\<lambda>b. get_position u b a db) (sort (filter (open_bond u a db) ?keys))"
    by (rule sort_key_map) (simp add: get_position_def)
  finally show ?thesis by (simp only: filter_sort sorted_bond_ids_def)
qed

text \<open>The errors a summary can end in.\<close>

definition dates_valid :: "database \<Rightarrow> bool" where
  "dates_valid db \<longleftrightarrow> (\<forall>b \<in> set (bonds db). valid_date (b_maturity_date b))"

lemma future_dates_Inl:
  assumes "future_dates_of bond d = Inl e" and "valid_date (b_maturity_date bond)" shows "arithmetic_error e"
proof -
  have "ordinal (b_maturity_date bond) \<le> max_ordinal" using assms(2) by (simp add: valid_date_def)
  from analytics_dates.dates_grid [OF _ this, of "b_coupon_period_days bond" d] assms(1) show ?thesis
    by (cases "0 < b_coupon_period_days bond")
      (auto simp: future_dates_of_def future_coupon_dates_def split: if_splits)
qed

lemma position_yields_Inl:
  assumes "position_yields pw avg bond d cfs = Inl e" and "valid_date (b_maturity_date bond)"
  shows "arithmetic_error e"
proof -
  obtain r where r: "calculate_ytm fl64 pw avg (b_coupon_rate bond) (b_coupon_period_days bond)
      (b_maturity_date bond) (b_nominal bond) d cfs = Some r"
    using calculate_ytm_total [OF assms(2)] by blast
  then show ?thesis
    using assms(1) calculate_ytm_Inl [OF assms(2), of fl64 pw avg "b_coupon_rate bond" "b_coupon_period_days bond"
        "b_nominal bond" d cfs e]
    by (auto simp: position_yields_def calculate_current_yield_def Let_def split: sum.splits if_splits)
qed

lemma position_accrued_Inl:
  assumes "position_accrued bond d = Inl e" and "valid_date (b_maturity_date bond)" shows "arithmetic_error e"
proof -
  have "ordinal (b_maturity_date bond) \<le> max_ordinal" using assms(2) by (simp add: valid_date_def)
  from last_coupon_date_result [OF _ this, of "b_coupon_period_days bond" d] assms(1) show ?thesis
    by (cases "0 < b_coupon_period_days bond")
      (auto simp: position_accrued_def last_coupon_date_def calculate_accrued_coupon_def Let_def
        split: if_splits option.splits)
qed

lemma open_has_average:
  assumes "positive_rows txns" and "0 < held txns" shows "\<exists>avg. net_position rnd txns = (held txns, Some avg)"
  using assms netting_open [OF assms(1), of rnd] by (simp add: net_position_def Let_def netting_quantity)

lemma build_position_Inl:
  assumes "build_position_analytics pw bond txns d cfs = Inl e" and "valid_date (b_maturity_date bond)"
    and "positive_rows txns" and "0 < held txns"
  shows "arithmetic_error e"
  using assms(1) open_has_average [OF assms(3,4), of fl64] future_dates_Inl [OF _ assms(2)]
    position_yields_Inl [OF _ assms(2)] position_accrued_Inl [OF _ assms(2)]
  by (auto simp: build_position_analytics_def Let_def bind_result_Inl_iff split: if_splits)

lemma loaded_positive: "txns_ok db \<Longrightarrow> positive_rows (load_transactions u b a db)"
  by (auto simp: txns_ok_def positive_rows_def load_transactions_def)

lemma summary_loop_Inl:
  assumes "summary_loop pw db (list_transactions u None a db) d h bs st = Inl e"
    and "txns_ok db" and "dates_valid db" and "distinct (map b_id (bonds db))"
  shows "arithmetic_error e"
  using assms(1)
proof (induction bs arbitrary: st)
  case (Cons b bs)
  show ?case
  proof (cases "summary_step pw db (list_transactions u None a db) d h b st")
    case (Inr st1)
    with Cons show ?thesis by simp
  next
    case (Inl e')
    then obtain bond where bond: "get_bond b db = Some bond" "open_bond u a db b"
      by (auto simp: summary_step_def Let_def rows_of_loaded net_position_quantity split: prod.splits option.splits if_splits)
    then have v: "valid_date (b_maturity_date bond)"
      using assms(3,4) by (auto simp: dates_valid_def get_bond_def rows.lookup_mem)
    have "arithmetic_error e'"
      using Inl bond build_position_Inl [OF _ v loaded_positive [OF assms(2)] bond(2)] future_dates_Inl [OF _ v]
      by (auto simp: summary_step_def Let_def rows_of_loaded net_position_quantity bind_result_Inl_iff
          future_bond_cashflows_def split: prod.splits)
    with Inl Cons.prems show ?thesis by simp
  qed
qed simp

lemma compute_summary_Inl:
  assumes "compute_summary pw env u d a db = Inl e" and "db_wf db" and "txns_ok db" and "dates_valid db"
  shows "arithmetic_error e"
  using assms summary_loop_Inl [of pw db u a d _ _ summary_state_init e]
  by (auto simp: compute_summary_def Let_def bind_result_Inl_iff put_wf_simps dest: date_add_Inl)

section \<open>The calendar of a summary\<close>

lemma take_earliest:
  assumes "sorted (map k xs)" and "x \<in> set xs"
  shows "x \<in> set (take n xs) \<or> (length (take n xs) = n \<and> (\<forall>y \<in> set (take n xs). k y \<le> k x))"
proof (cases "x \<in> set (take n xs)")
  case False
  have split: "take n xs @ drop n xs = xs" by simp
  with assms(2) False have x: "x \<in> set (drop n xs)" by (metis Un_iff set_append)
  then have "length (take n xs) = n" by (cases "n \<le> length xs") auto
  moreover from assms(1) split have "sorted (map k (take n xs) @ map k (drop n xs))" by (metis map_append)
  ultimately show ?thesis using x by (auto simp: sorted_append)
qed simp

lemma all2_results:
  assumes "list_all2 (\<lambda>x y. g x = Inr y) xs ys"
  shows "(\<exists>y \<in> set ys. P y) \<longleftrightarrow> (\<exists>x \<in> set xs. \<exists>y. g x = Inr y \<and> P y)" and "\<forall>x \<in> set xs. \<exists>y. g x = Inr y"
  using assms by (induction rule: list_all2_induct) auto

lemma future_coupons:
  assumes "future_bond_cashflows bond q d h = Inr (cs, fs)" and "valid_date (b_maturity_date bond)"
  shows "f \<in> set fs \<and> cf_kind f = ''COUPON'' \<longleftrightarrow> cf_kind f = ''COUPON'' \<and> cf_bond_id f = b_id bond
    \<and> 0 < b_coupon_period_days bond \<and> cf_date f \<in> grid_after (b_maturity_date bond) (b_coupon_period_days bond) d
    \<and> cf_isin f = b_isin bond \<and> cf_amount f = fl64 (coupon_per_period bond * fl64 (of_int q))"
proof -
  let ?m = "b_maturity_date bond" and ?p = "b_coupon_period_days bond"
  have m: "ordinal ?m \<le> max_ordinal" using assms(2) by (simp add: valid_date_def)
  let ?c = "fl64 (coupon_per_period bond * fl64 (of_int q))"
  obtain ds rest where ds: "future_dates_of bond d = Inr ds"
    and flows: "fs = map (\<lambda>d. \<lparr>cf_date = d, cf_bond_id = b_id bond, cf_isin = b_isin bond, cf_kind = ''COUPON'',
        cf_amount = ?c\<rparr>) ds @ rest" "\<forall>f \<in> set rest. cf_kind f \<noteq> ''COUPON''"
    using assms(1) by (auto simp: future_bond_cashflows_def Let_def bind_result_Inr_iff split: if_splits)
  have fs: "f \<in> set fs \<and> cf_kind f = ''COUPON'' \<longleftrightarrow> cf_kind f = ''COUPON'' \<and> cf_bond_id f = b_id bond
      \<and> cf_date f \<in> set ds \<and> cf_isin f = b_isin bond \<and> cf_amount f = ?c"
    using flows(2) by (cases f) (auto simp: flows(1))
  have "set ds = (if 0 < ?p then grid_after ?m ?p d else {})"
  proof (cases "d < ?m \<and> 0 < ?p")
    case True
    then obtain r where "future_coupon_dates ?m ?p d = Some r"
      using future_coupon_dates_returns [OF m] by blast
    with True ds show ?thesis
      using analytics_dates.dates_Inr [of ?m ?p d ds] m by (simp add: future_dates_of_def)
  next
    case False
    then show ?thesis using ds grid_after_none [of ?m d ?p]
      by (auto simp: future_dates_of_def future_coupon_dates_def not_less split: if_splits)
  qed
  then show ?thesis using fs by auto
qed

lemma open_bond_exists:
  assumes "db_wf db" and "open_bond u a db b"
  obtains bond where "get_bond b db = Some bond" "b_id bond = b" "bond \<in> set (bonds db)"
    "b \<in> set (sorted_bond_ids (list_transactions u None a db))"
proof -
  have "load_transactions u b a db \<noteq> []" using assms(2) by auto
  then obtain t where t: "t \<in> set (list_transactions u None a db)" "t_bond_id t = b"
    by (auto simp: load_transactions_filter filter_empty_conv)
  then have "b \<in> b_id ` set (bonds db)"
    using assms(1) by (auto simp: list_transactions_def put_wf_simps txn_refs_def)
  then obtain bond where "bond \<in> set (bonds db)" "b_id bond = b" by auto
  with assms(1) t that show ?thesis
    by (auto simp: get_bond_Some sorted_bond_ids_def keys_group_rows)
qed

text \<open>A coupon that an open position of the user will pay after \<open>d\<close>.\<close>

definition coupon_event :: "int \<Rightarrow> int option \<Rightarrow> database \<Rightarrow> date \<Rightarrow> coupon_due \<Rightarrow> bool" where
  "coupon_event u a db d c \<longleftrightarrow> (\<exists>bond.
     get_bond (cd_bond_id c) db = Some bond \<and> open_bond u a db (cd_bond_id c)
     \<and> 0 < b_coupon_period_days bond
     \<and> cd_date c \<in> grid_after (b_maturity_date bond) (b_coupon_period_days bond) d
     \<and> cd_isin c = b_isin bond \<and> cd_name c = b_name bond
     \<and> cd_amount c = fl64 (coupon_per_period bond * fl64 (of_int (held (load_transactions u (cd_bond_id c) a db)))))"

lemma summary_calendar:
  assumes "compute_summary pw env u d a db = Inr s" and "db_wf db" and "dates_valid db"
  shows "f \<in> set (sm_upcoming_cashflows s) \<and> cf_kind f = ''COUPON'' \<longleftrightarrow> cf_kind f = ''COUPON'' \<and>
    (\<exists>bond. get_bond (cf_bond_id f) db = Some bond \<and>
     coupon_event u a db d \<lparr>cd_bond_id = cf_bond_id f, cd_isin = cf_isin f, cd_name = b_name bond,
       cd_date = cf_date f, cd_amount = cf_amount f\<rparr>)"
proof -
  let ?open = "filter (open_bond u a db) (sorted_bond_ids (list_transactions u None a db))"
  obtain cfs h where cfs: "list_all2 (\<lambda>b cf. future_bond_cashflows (the (get_bond b db))
      (held (load_transactions u b a db)) d h = Inr cf) ?open cfs"
    and s: "sm_upcoming_cashflows s = order_by by_date_flow (concat (map snd cfs))"
    using compute_summary_Inr [OF assms(1,2)] by blast
  have b: "(\<exists>cf \<in> set cfs. f \<in> set (snd cf) \<and> cf_kind f = ''COUPON'') \<longleftrightarrow> (\<exists>b \<in> set ?open. \<exists>cs fs.
      future_bond_cashflows (the (get_bond b db)) (held (load_transactions u b a db)) d h = Inr (cs, fs)
      \<and> f \<in> set fs \<and> cf_kind f = ''COUPON'')"
    unfolding all2_results(1) [OF cfs] by simp
  have tot: "\<exists>cs fs. future_bond_cashflows (the (get_bond b db)) (held (load_transactions u b a db)) d h = Inr (cs, fs)"
    if "b \<in> set ?open" for b
    using all2_results(2) [OF cfs] that by fastforce
  have one: "(f \<in> set fs \<and> cf_kind f = ''COUPON'') \<longleftrightarrow> cf_kind f = ''COUPON'' \<and> cf_bond_id f = b \<and>
      (\<exists>bond. get_bond (cf_bond_id f) db = Some bond \<and>
       coupon_event u a db d \<lparr>cd_bond_id = cf_bond_id f, cd_isin = cf_isin f, cd_name = b_name bond,
         cd_date = cf_date f, cd_amount = cf_amount f\<rparr>)"
    if "b \<in> set ?open" "future_bond_cashflows (the (get_bond b db)) (held (load_transactions u b a db)) d h = Inr (cs, fs)"
    for b cs fs
  proof -
    from that(1) have o: "open_bond u a db b" by simp
    then obtain bond where bond: "get_bond b db = Some bond" "b_id bond = b" "bond \<in> set (bonds db)"
      using open_bond_exists [OF assms(2)] by metis
    then have v: "valid_date (b_maturity_date bond)" using assms(3) by (simp add: dates_valid_def)
    from that(2) bond(1) have "future_bond_cashflows bond (held (load_transactions u b a db)) d h = Inr (cs, fs)" by simp
    from future_coupons [OF this v, of f] show ?thesis
      using bond o by (auto simp: coupon_event_def)
  qed
  have "f \<in> set (sm_upcoming_cashflows s) \<and> cf_kind f = ''COUPON'' \<longleftrightarrow>
      (\<exists>cf \<in> set cfs. f \<in> set (snd cf) \<and> cf_kind f = ''COUPON'')"
    by (auto simp: s)
  also have "\<dots> \<longleftrightarrow> (\<exists>b \<in> set ?open. cf_kind f = ''COUPON'' \<and> cf_bond_id f = b \<and>
      (\<exists>bond. get_bond (cf_bond_id f) db = Some bond \<and>
       coupon_event u a db d \<lparr>cd_bond_id = cf_bond_id f, cd_isin = cf_isin f, cd_name = b_name bond,
         cd_date = cf_date f, cd_amount = cf_amount f\<rparr>))"
    unfolding b using one tot by blast
  finally show ?thesis
    using open_bond_exists [OF assms(2)] by (auto simp: coupon_event_def)
qed

lemma summary_names:
  assumes "compute_summary pw env u d a db = Inr s" and "db_wf db" and "open_bond u a db b" and "get_bond b db = Some bond"
  shows "map_of (rev (map (\<lambda>p. (pa_bond_id p, pa_name p)) (sm_positions s))) b = Some (b_name bond)"
proof -
  let ?open = "filter (open_bond u a db) (sorted_bond_ids (list_transactions u None a db))"
  obtain ps where ps: "list_all2 (\<lambda>b p. build_position_analytics pw (the (get_bond b db))
      (load_transactions u b a db) d (bond_position_cashflows (coupons_of b db) (the (get_bond b db))) = Inr p) ?open ps"
    and s: "sm_positions s = ps"
    using compute_summary_Inr [OF assms(1,2)] by blast
  have "list_all2 (\<lambda>b p. (b, b_name (the (get_bond b db))) = (pa_bond_id p, pa_name p)) ?open ps"
  proof (rule list.rel_mono_strong [OF ps])
    fix b p
    assume b: "b \<in> set ?open" and p: "build_position_analytics pw (the (get_bond b db)) (load_transactions u b a db) d
        (bond_position_cashflows (coupons_of b db) (the (get_bond b db))) = Inr p"
    from b have "open_bond u a db b" by simp
    then obtain bd where "get_bond b db = Some bd" "b_id bd = b" using open_bond_exists [OF assms(2)] by metis
    with build_position_Inr [OF p] show "(b, b_name (the (get_bond b db))) = (pa_bond_id p, pa_name p)" by simp
  qed
  then have names: "map (\<lambda>p. (pa_bond_id p, pa_name p)) ps = map (\<lambda>b. (b, b_name (the (get_bond b db)))) ?open"
    by (auto simp: list_all2_conv_all_nth intro!: nth_equalityI)
  have "distinct ?open" by (simp add: sorted_bond_ids_def distinct_group_rows)
  then have "distinct (map fst (rev (map (\<lambda>b. (b, b_name (the (get_bond b db)))) ?open)))"
    by (simp add: rev_map o_def)
  moreover have "b \<in> set ?open" using open_bond_exists [OF assms(2,3)] assms(3) by auto
  ultimately show ?thesis unfolding s names by (simp add: map_of_eq_Some_iff assms(4) image_iff)
qed

lemma next_coupons_calendar:
  assumes "compute_summary pw env u d a db = Inr s" and "db_wf db" and "dates_valid db"
    and "next_coupons_from_summary s base horizon limit = Inr cs"
  shows "\<exists>all. cs = take (nat limit) all \<and> sorted (map by_date_coupon all)
    \<and> set all = {c. coupon_event u a db d c \<and> ordinal (cd_date c) \<le> ordinal base + horizon}"
proof -
  define due where "due f = \<lparr>cd_bond_id = cf_bond_id f, cd_isin = cf_isin f,
      cd_name = (case map_of (rev (map (\<lambda>p. (pa_bond_id p, pa_name p)) (sm_positions s))) (cf_bond_id f) of
        Some n \<Rightarrow> n | None \<Rightarrow> cf_isin f), cd_date = cf_date f, cd_amount = cf_amount f\<rparr>" for f :: cashflow
  let ?in = "\<lambda>f :: cashflow. cf_kind f = ''COUPON'' \<and> ordinal (cf_date f) \<le> ordinal base + horizon"
  have cs: "cs = take (nat limit) (order_by by_date_coupon (map due (filter ?in (sm_upcoming_cashflows s))))"
    using assms(4) by (auto simp: next_coupons_from_summary_def Let_def bind_result_Inr_iff date_add_Inr
        due_def [abs_def] less_eq_date_def)
  have due: "due f = \<lparr>cd_bond_id = cf_bond_id f, cd_isin = cf_isin f, cd_name = b_name bond,
      cd_date = cf_date f, cd_amount = cf_amount f\<rparr>"
    if "open_bond u a db (cf_bond_id f)" "get_bond (cf_bond_id f) db = Some bond" for f :: cashflow and bond
    using summary_names [OF assms(1,2) that] by (simp add: due_def)
  have "c \<in> due ` {f \<in> set (sm_upcoming_cashflows s). ?in f} \<longleftrightarrow>
      coupon_event u a db d c \<and> ordinal (cd_date c) \<le> ordinal base + horizon" (is "?l \<longleftrightarrow> ?r") for c
  proof
    assume ?l
    then obtain f where f: "c = due f" "f \<in> set (sm_upcoming_cashflows s)" "?in f" by blast
    with summary_calendar [OF assms(1-3), of f] obtain bond where
      "get_bond (cf_bond_id f) db = Some bond" "coupon_event u a db d \<lparr>cd_bond_id = cf_bond_id f, cd_isin = cf_isin f,
        cd_name = b_name bond, cd_date = cf_date f, cd_amount = cf_amount f\<rparr>" by blast
    with f(1,3) due [of f bond] show ?r by (auto simp: coupon_event_def)
  next
    assume r: ?r
    let ?f = "\<lparr>cf_date = cd_date c, cf_bond_id = cd_bond_id c, cf_isin = cd_isin c, cf_kind = ''COUPON'', cf_amount = cd_amount c\<rparr>"
    from r obtain bond where b: "get_bond (cd_bond_id c) db = Some bond" "open_bond u a db (cd_bond_id c)" "cd_name c = b_name bond"
      by (auto simp: coupon_event_def)
    then have "c = due ?f" using due [of ?f bond] by simp
    moreover have "?f \<in> set (sm_upcoming_cashflows s)"
      using summary_calendar [OF assms(1-3), of ?f] b r by (cases c) auto
    ultimately show ?l using r by (intro image_eqI [of _ _ ?f]) simp_all
  qed
  then show ?thesis unfolding cs
    by (intro exI [of _ "order_by by_date_coupon (map due (filter ?in (sm_upcoming_cashflows s)))"]) auto
qed

section \<open>Properties\<close>

text \<open>
  C27. The positions of a summary are the open positions of the portfolio service, in order of their
  bonds: the same bonds, quantities, average prices and invested totals that \<open>get_all_positions\<close>
  reports, whatever the day and the solver's \<open>pow\<close>. Computing it never stops with the
  \<open>ValueError\<close> of a corrupt history or with \<open>YtmCalculationError\<close>: only an arithmetic error can
  end it.
\<close>

theorem summary_positions_agree:
  assumes "db_wf db" and "txns_ok db" and "dates_valid db"
  shows "case compute_summary pw env u d a db of
      Inl e \<Rightarrow> e \<in> {ZeroDivisionError, OverflowError, TypeError}
    | Inr s \<Rightarrow>
        map (\<lambda>p. (pa_bond_id p, pa_quantity p, Some (pa_avg_buy_price p), pa_total_invested p)) (sm_positions s)
          = map (\<lambda>p. (p_bond_id p, p_quantity p, p_avg_buy_price p, p_total_invested p))
              (sort_key p_bond_id (filter (\<lambda>p. 0 < p_quantity p) (get_all_positions u a db)))"
proof (cases "compute_summary pw env u d a db")
  case (Inl e)
  then show ?thesis using compute_summary_Inl [OF Inl assms] by (simp add: arithmetic_error_def)
next
  case (Inr s)
  let ?open = "filter (open_bond u a db) (sorted_bond_ids (list_transactions u None a db))"
  obtain ps where ps: "list_all2 (\<lambda>b p. build_position_analytics pw (the (get_bond b db))
      (load_transactions u b a db) d (bond_position_cashflows (coupons_of b db) (the (get_bond b db))) = Inr p) ?open ps"
    and s: "sm_positions s = ps"
    using compute_summary_Inr [OF Inr assms(1)] by blast
  have "b_id (the (get_bond b db)) = b" if "b \<in> set ?open" for b
  proof -
    have "get_bond b db \<noteq> None"
      using that assms(1)
      by (auto simp: sorted_bond_ids_def keys_group_rows list_transactions_def put_wf_simps txn_refs_def get_bond_def
          rows.lookup_None)
    then obtain bond where bond: "get_bond b db = Some bond" by blast
    then have "b_id bond = b" using assms(1) by (simp add: get_bond_Some)
    with bond show ?thesis by simp
  qed
  then have "list_all2 (\<lambda>b p. (pa_bond_id p, pa_quantity p, Some (pa_avg_buy_price p), pa_total_invested p)
      = (\<lambda>p. (p_bond_id p, p_quantity p, p_avg_buy_price p, p_total_invested p)) (get_position u b a db)) ?open ps"
    by (intro list.rel_mono_strong [OF ps]) (auto simp: get_position_def to_position_def dest!: build_position_Inr)
  then have "map (\<lambda>p. (pa_bond_id p, pa_quantity p, Some (pa_avg_buy_price p), pa_total_invested p)) ps
      = map (\<lambda>p. (p_bond_id p, p_quantity p, p_avg_buy_price p, p_total_invested p))
          (map (\<lambda>b. get_position u b a db) ?open)"
    by (auto simp: list_all2_conv_all_nth intro!: nth_equalityI)
  then show ?thesis using Inr s by (simp add: positions_sorted)
qed

text \<open>
  A database for the witnesses: a yearly bond that user 1 holds, bought at twenty times its nominal,
  which is outside the prices that yields are computed for.
\<close>

definition yearly_db :: database where
  "yearly_db = sample_db\<lparr>bonds := [sample_bond\<lparr>b_coupon_period_days := 365\<rparr>],
     transactions := [(sample_holding 2 1)\<lparr>t_price := 20000\<rparr>]\<rparr>"

definition yearly_coupon :: "int \<Rightarrow> coupon_due" where
  "yearly_coupon n = \<lparr>cd_bond_id = 1, cd_isin = ''RU000A0JX0J2'', cd_name = ''OFZ'', cd_date = Date n, cd_amount = 500\<rparr>"

lemma yearly_ok: "db_wf yearly_db" "txns_ok yearly_db" "dates_valid yearly_db"
  by (simp_all add: yearly_db_def put_wf_simps refs_defs broker_check_def sample_db_def sample_bond_def
      sample_holding_def TRANSACTION_TYPES_def BROKER_ACCOUNT_TYPES_def MIN_COMMISSION_TYPES_def txns_ok_def
      on_own_account_def dates_valid_def valid_date_def min_ordinal_def max_ordinal_def)

lemma yearly_rows:
  "list_transactions 1 None None yearly_db = [(sample_holding 2 1)\<lparr>t_price := 20000\<rparr>]"
  "load_transactions 1 1 None yearly_db = [(sample_holding 2 1)\<lparr>t_price := 20000\<rparr>]"
  "get_bond 1 yearly_db = Some (sample_bond\<lparr>b_coupon_period_days := 365\<rparr>)" "coupons_of 1 yearly_db = []"
  by (simp_all add: list_transactions_def load_transactions_def order_by_def yearly_db_def sample_db_def
      sample_holding_def get_bond_def row_of_def coupons_of_def sample_bond_def)

definition yearly_position :: position_analytics where
  "yearly_position = \<lparr>pa_bond_id = 1, pa_isin = ''RU000A0JX0J2'', pa_name = ''OFZ'', pa_quantity = 5,
     pa_avg_buy_price = 20000, pa_total_invested = 100000, pa_ytm = None, pa_current_yield = None,
     pa_accrued_coupon = 20, pa_next_coupon_date = Some (Date 739435), pa_maturity_date = Date 739800\<rparr>"

lemma yearly_dates:
  "future_coupon_dates (Date 739800) 365 (Date 739143) = Some (Inr [Date 739435, Date 739800])"
  "last_coupon_date (Date 739800) 365 (Date 739143) = Some (Inr (Some (Date 739070)))"
  by (simp_all add: future_coupon_dates_def grid_loop.simps last_coupon_date_def last_coupon_loop.simps date_sub_cases
      min_ordinal_def max_ordinal_def MIN_COUPON_DATE_def)

lemma yearly_net: "net_position fl64 [(sample_holding 2 1)\<lparr>t_price := 20000\<rparr>] = (5, Some 20000)"
  by (simp add: net_position_def netting_def netting_step_def sample_holding_def Let_def)

lemma yearly_build:
  "build_position_analytics pw (sample_bond\<lparr>b_coupon_period_days := 365\<rparr>) [(sample_holding 2 1)\<lparr>t_price := 20000\<rparr>]
     (Date 739143) None = Inr yearly_position"
  by (simp add: build_position_analytics_def yearly_net sample_bond_def future_dates_of_def yearly_dates
      position_yields_def calculate_ytm_def validate_inputs_def price_bounds_def position_accrued_def
      calculate_accrued_coupon_def period_coupon_def days_between_def yearly_position_def Let_def)

definition yearly_flow :: "int \<Rightarrow> string \<Rightarrow> rat \<Rightarrow> cashflow" where
  "yearly_flow n kind x = \<lparr>cf_date = Date n, cf_bond_id = 1, cf_isin = ''RU000A0JX0J2'', cf_kind = kind, cf_amount = x\<rparr>"

definition yearly_summary :: summary where
  "yearly_summary = \<lparr>sm_user_id = 1, sm_generated_at = 0, sm_positions = [yearly_position],
     sm_total_invested = 100000, sm_next_coupons = [yearly_coupon 739435, yearly_coupon 739800],
     sm_realized_pnl = \<lparr>rp_sells = 0, rp_maturities = 0, rp_commissions = 0, rp_total = 0\<rparr>,
     sm_upcoming_cashflows = [yearly_flow 739435 ''COUPON'' 500, yearly_flow 739800 ''COUPON'' 500,
       yearly_flow 739800 ''MATURITY'' 5000]\<rparr>"

lemma yearly_future:
  "future_bond_cashflows (sample_bond\<lparr>b_coupon_period_days := 365\<rparr>) 5 (Date 739143) (Date 739873)
     = Inr ([yearly_coupon 739435, yearly_coupon 739800],
        [yearly_flow 739435 ''COUPON'' 500, yearly_flow 739800 ''COUPON'' 500, yearly_flow 739800 ''MATURITY'' 5000])"
  by (simp add: future_bond_cashflows_def future_dates_of_def yearly_dates sample_bond_def coupon_per_period_def
      period_coupon_def yearly_coupon_def yearly_flow_def Let_def)

lemma yearly_compute:
  assumes "e_now env = 0" shows "compute_summary pw env 1 (Date 739143) None yearly_db = Inr yearly_summary"
proof -
  have rows: "rows_of [(sample_holding 2 1)\<lparr>t_price := 20000\<rparr>] 1 = [(sample_holding 2 1)\<lparr>t_price := 20000\<rparr>]"
    by (simp add: rows_of_def group_rows_def sample_holding_def)
  have pnl: "realized_pnl fl64 [(sample_holding 2 1)\<lparr>t_price := 20000\<rparr>] = (0, 0, 0)"
    by (simp add: realized_pnl_def netting_def netting_step_def sample_holding_def Let_def)
  have ids: "sorted_bond_ids [(sample_holding 2 1)\<lparr>t_price := 20000\<rparr>] = [1]"
    by (simp add: sorted_bond_ids_def group_rows_def sample_holding_def)
  have step: "summary_step pw yearly_db [(sample_holding 2 1)\<lparr>t_price := 20000\<rparr>] (Date 739143) (Date 739873) 1
      summary_state_init = Inr (summary_state_init\<lparr>st_positions := [yearly_position],
        st_next_coupons := [yearly_coupon 739435, yearly_coupon 739800],
        st_cashflows := [yearly_flow 739435 ''COUPON'' 500, yearly_flow 739800 ''COUPON'' 500,
          yearly_flow 739800 ''MATURITY'' 5000]\<rparr>)"
    by (simp add: summary_step_def rows pnl yearly_rows yearly_net bond_position_cashflows_def yearly_build
        yearly_future summary_state_init_def)
  have "date_add (Date 739143) NEXT_COUPONS_HORIZON_DAYS_DEFAULT = Inr (Date 739873)"
    by (simp add: date_add_def NEXT_COUPONS_HORIZON_DAYS_DEFAULT_def min_ordinal_def max_ordinal_def)
  then show ?thesis using assms
    by (simp add: compute_summary_def yearly_rows ids step Let_def)
      (simp add: summary_state_init_def yearly_summary_def py_sum_def yearly_position_def order_by_def
        by_date_coupon_def by_date_flow_def yearly_coupon_def yearly_flow_def NEXT_COUPONS_LIMIT_DEFAULT_def)
qed

theorem summary_positions_agree_witness:
  "map pa_bond_id (sm_positions yearly_summary)
     = map p_bond_id (sort_key p_bond_id (filter (\<lambda>p. 0 < p_quantity p) (get_all_positions 1 None yearly_db)))"
proof -
  have "e_now (sample_env 0) = 0" by (simp add: sample_env_def)
  from summary_positions_agree [OF yearly_ok, where pw = "\<lambda>x y. x" and env = "sample_env 0" and u = 1
      and d = "Date 739143" and a = None]
  have "map (\<lambda>p. (pa_bond_id p, pa_quantity p, Some (pa_avg_buy_price p), pa_total_invested p)) (sm_positions yearly_summary)
      = map (\<lambda>p. (p_bond_id p, p_quantity p, p_avg_buy_price p, p_total_invested p))
          (sort_key p_bond_id (filter (\<lambda>p. 0 < p_quantity p) (get_all_positions 1 None yearly_db)))"
    by (simp only: yearly_compute [OF \<open>e_now (sample_env 0) = 0\<close>] sum.case)
  from arg_cong [OF this, of "map fst"] show ?thesis by (simp add: o_def)
qed

text \<open>
  C28. The coupons of a summary for a given day are the earliest ones of the calendar: they are in
  order of date and bond, at most \<open>limit\<close> many, each is a payment of an open position on a grid date
  after the day and within the horizon, with the amount of the held quantity, and every such
  payment is listed unless the limit was reached with earlier ones.
\<close>

theorem next_coupons_earliest:
  assumes "db_wf db" and "dates_valid db" and "q_today q = Some d"
    and "get_portfolio_summary pw env u q db cache = (Inr s, cache')"
  shows "sorted (map by_date_coupon (sm_next_coupons s))
    \<and> int (length (sm_next_coupons s)) \<le> q_limit q
    \<and> (\<forall>c \<in> set (sm_next_coupons s). coupon_event u (q_broker_account_id q) db d c
        \<and> days_between (cd_date c) d \<le> q_horizon_days q)
    \<and> (\<forall>c. coupon_event u (q_broker_account_id q) db d c \<and> days_between (cd_date c) d \<le> q_horizon_days q \<longrightarrow>
         c \<in> set (sm_next_coupons s)
         \<or> (int (length (sm_next_coupons s)) = q_limit q
            \<and> (\<forall>c' \<in> set (sm_next_coupons s). by_date_coupon c' \<le> by_date_coupon c)))"
proof -
  let ?a = "q_broker_account_id q"
  have ok: "query_ok q" using assms(4) by (simp add: get_portfolio_summary_def split: if_splits)
  then obtain s0 where s0: "compute_summary pw env u d ?a db = Inr s0"
    and s: "next_coupons_from_summary s0 d (q_horizon_days q) (q_limit q) = Inr (sm_next_coupons s)"
    using assms(3,4)
    by (cases "compute_summary pw env u d ?a db"; cases ?a)
      (auto simp: get_portfolio_summary_def cached_or_fresh_def bind_result_Inr_iff)
  from next_coupons_calendar [OF s0 assms(1,2) s] obtain all where
    all: "sm_next_coupons s = take (nat (q_limit q)) all" "sorted (map by_date_coupon all)"
      "set all = {c. coupon_event u ?a db d c \<and> ordinal (cd_date c) \<le> ordinal d + q_horizon_days q}"
    by blast
  have "sorted (map by_date_coupon (take (nat (q_limit q)) all))"
    using all(2) by (simp add: take_map [symmetric] sorted_wrt_take)
  moreover have "c \<in> set all \<longleftrightarrow> coupon_event u ?a db d c \<and> days_between (cd_date c) d \<le> q_horizon_days q" for c
    by (auto simp: all(3) days_between_def)
  moreover have lim: "int (nat (q_limit q)) = q_limit q" using ok by (simp add: query_ok_def)
  moreover have "c \<in> set (take (nat (q_limit q)) all)
      \<or> (int (length (take (nat (q_limit q)) all)) = q_limit q
        \<and> (\<forall>c' \<in> set (take (nat (q_limit q)) all). by_date_coupon c' \<le> by_date_coupon c))" if "c \<in> set all" for c
    using take_earliest [OF all(2) that, of "nat (q_limit q)"] lim by metis
  moreover have "int (length (take (nat (q_limit q)) all)) \<le> q_limit q"
    by (metis lim length_take min.cobounded2 of_nat_le_iff)
  ultimately show ?thesis
    unfolding all(1) using set_take_subset [of "nat (q_limit q)" all] by blast
qed

definition day_query :: "date \<Rightarrow> query" where
  "day_query d = default_query\<lparr>q_today := Some d, q_limit := 1\<rparr>"

lemma day_query_read:
  assumes "e_now env = 0"
  shows "get_portfolio_summary pw env 1 (day_query (Date 739143)) yearly_db []
    = (Inr (yearly_summary\<lparr>sm_next_coupons := [yearly_coupon 739435]\<rparr>), [])"
  by (simp add: get_portfolio_summary_def cached_or_fresh_def day_query_def default_query_def query_ok_def
      NEXT_COUPONS_HORIZON_DAYS_DEFAULT_def NEXT_COUPONS_LIMIT_DEFAULT_def CASHFLOWS_HORIZON_DAYS_DEFAULT_def
      CASHFLOWS_LIMIT_DEFAULT_def yearly_compute [OF assms] next_coupons_from_summary_def cashflows_from_summary_def
      date_add_def min_ordinal_def max_ordinal_def)
    (simp add: yearly_summary_def yearly_position_def yearly_flow_def yearly_coupon_def order_by_def by_date_coupon_def
      by_date_flow_def)

theorem next_coupons_earliest_witness:
  "coupon_event 1 None yearly_db (Date 739143) (yearly_coupon 739435)"
proof -
  have e: "e_now (sample_env 0) = 0" by (simp add: sample_env_def)
  have "q_today (day_query (Date 739143)) = Some (Date 739143)" "q_broker_account_id (day_query (Date 739143)) = None"
    by (simp_all add: day_query_def default_query_def)
  with next_coupons_earliest [OF yearly_ok(1,3) this(1) day_query_read [OF e, of "\<lambda>x y. x"]]
  show ?thesis by simp
qed

definition cache_fresh :: "(rat \<Rightarrow> rat \<Rightarrow> rat) \<Rightarrow> env \<Rightarrow> database \<Rightarrow> cache \<Rightarrow> bool" where
  "cache_fresh pw env db cache \<longleftrightarrow> (\<forall>u s. map_of cache u = Some s \<longrightarrow>
     (\<exists>now. compute_summary pw (env\<lparr>e_now := now\<rparr>) u (e_today env) None db = Inr s))"

lemma cache_fresh_add:
  "cache_fresh pw env db cache \<Longrightarrow> compute_summary pw (env\<lparr>e_now := now\<rparr>) u (e_today env) None db = Inr s \<Longrightarrow>
   cache_fresh pw env db ((u, s) # cache)"
  by (auto simp: cache_fresh_def)

text \<open>
  Reading through the cache changes nothing a caller can see: while the entries of the cache are
  summaries of the committed data for the current day, a read without a day answers what the
  uncached computation for that day answers (at the time its summary was generated), keeps the cache
  in that state, and touches only the entry of the user who reads.
\<close>

theorem cached_read_is_computed_read:
  assumes "cache_fresh pw env db cache" and "q_today q = None" and "q_broker_account_id q = None"
    and "get_portfolio_summary pw env u q db cache = (r, cache')"
  shows "(\<exists>now. get_portfolio_summary pw (env\<lparr>e_now := now\<rparr>) u (q\<lparr>q_today := Some (e_today env)\<rparr>) db cache = (r, cache))
    \<and> cache_fresh pw env db cache' \<and> (\<forall>v. v \<noteq> u \<longrightarrow> map_of cache' v = map_of cache v)"
proof (cases "map_of cache u")
  case None
  have e: "env\<lparr>e_now := e_now env\<rparr> = env" by simp
  have "cache_fresh pw env db cache' \<and> (\<forall>v. v \<noteq> u \<longrightarrow> map_of cache' v = map_of cache v)"
    using assms None cache_fresh_add [OF assms(1), of "e_now env" u]
    by (cases "compute_summary pw env u (e_today env) None db")
      (auto simp: get_portfolio_summary_def cached_or_fresh_def split: if_splits)
  moreover have "get_portfolio_summary pw (env\<lparr>e_now := e_now env\<rparr>) u (q\<lparr>q_today := Some (e_today env)\<rparr>) db cache = (r, cache)"
    using assms None unfolding e
    by (cases "compute_summary pw env u (e_today env) None db")
      (auto simp: get_portfolio_summary_def cached_or_fresh_def query_ok_def split: if_splits)
  ultimately show ?thesis by blast
next
  case (Some s)
  then obtain now where now: "compute_summary pw (env\<lparr>e_now := now\<rparr>) u (e_today env) None db = Inr s"
    using assms(1) unfolding cache_fresh_def by blast
  show ?thesis
    using assms Some now
    by (intro conjI exI [of _ now])
      (auto simp: get_portfolio_summary_def cached_or_fresh_def query_ok_def split: if_splits)
qed

lemma default_query_simps [simp]:
  "query_ok (default_query\<lparr>q_today := x\<rparr>)" "query_ok default_query"
  "q_today default_query = None" "q_broker_account_id default_query = None"
  by (simp_all add: query_ok_def default_query_def NEXT_COUPONS_HORIZON_DAYS_DEFAULT_def
      NEXT_COUPONS_LIMIT_DEFAULT_def CASHFLOWS_HORIZON_DAYS_DEFAULT_def CASHFLOWS_LIMIT_DEFAULT_def)

theorem cached_read_is_computed_read_witness:
  "fst (get_portfolio_summary (\<lambda>x y. x) ((sample_env 0)\<lparr>e_today := Date 739143\<rparr>) 1 default_query yearly_db
      [(1, yearly_summary)])
    = fst (get_portfolio_summary (\<lambda>x y. x) ((sample_env 0)\<lparr>e_today := Date 739143\<rparr>) 1
        (default_query\<lparr>q_today := Some (Date 739143)\<rparr>) yearly_db [])"
proof -
  let ?env = "(sample_env 0)\<lparr>e_today := Date 739143\<rparr>"
  let ?r = "get_portfolio_summary (\<lambda>x y. x) ?env 1 default_query yearly_db [(1, yearly_summary)]"
  have fresh: "cache_fresh (\<lambda>x y. x) ?env yearly_db [(1, yearly_summary)]"
    using yearly_compute [of "?env\<lparr>e_now := 0\<rparr>"] by (auto simp: cache_fresh_def split: if_splits)
  obtain now where "get_portfolio_summary (\<lambda>x y. x) (?env\<lparr>e_now := now\<rparr>) 1 (default_query\<lparr>q_today := Some (Date 739143)\<rparr>)
      yearly_db [(1, yearly_summary)] = (fst ?r, [(1, yearly_summary)])"
    using cached_read_is_computed_read [OF fresh, of default_query 1 "fst ?r" "snd ?r"] by auto
  moreover have "e_now ?env = 0" by (simp add: sample_env_def)
  ultimately show ?thesis
    by (simp add: get_portfolio_summary_def cached_or_fresh_def yearly_compute)
qed

definition announce :: "env \<Rightarrow> int \<Rightarrow> world \<Rightarrow> world" where
  "announce env u w = snd (publish env ''analytics'' ''portfolio.recalculated'' [(''user_id'', VInt u)] w)"

lemma snd_recalculate:
  "snd (recalculate pw env u (w, cache)) =
    (case compute_summary pw env u (e_today env) None (w_db w) of
       Inl e \<Rightarrow> (w, cache) | Inr s \<Rightarrow> (announce env u w, (u, s) # cache))"
proof -
  obtain r w' where "publish env ''analytics'' ''portfolio.recalculated'' [(''user_id'', VInt u)] w = (r, w')" by fastforce
  then show ?thesis by (simp add: recalculate_def announce_def returning_def split: sum.split)
qed

lemma announce_db [simp]: "w_db (announce env u w) = w_db w"
  by (simp add: announce_def)

lemma announce_topics:
  "new_topics (w_bus w) (w_bus (announce env u w)) = (if bs_running (w_bus w) then [''portfolio.recalculated''] else [])"
  by (cases "bs_running (w_bus w)")
    (simp_all add: announce_def publish_running publish_stopped ALL_TOPICS_def new_topics_def)

lemma handle_event_cases:
  obtains "handle_event pw env m (w, cache) = (w, cache)"
  | v s where "handle_event pw env m (w, cache) = (announce env v w, (v, s) # cache)"
proof (cases "Option.bind (map_of (m_payload m) ''user_id'') int_of_value")
  case None
  then show ?thesis using that(1) by (cases "map_of (m_payload m) ''user_id''") (simp_all add: handle_event_def)
next
  case (Some v)
  then have "handle_event pw env m (w, cache) = snd (recalculate pw env v (w, cache))"
    by (auto simp: handle_event_def Option.bind_eq_Some_conv)
  then show ?thesis using that by (cases "compute_summary pw env v (e_today env) None (w_db w)") (auto simp: snd_recalculate)
qed

text \<open>
  An event that names a user recomputes that user's summary from the committed data, replaces only
  that user's cache entry, never changes the database and never raises: if the computation fails,
  nothing changes at all. What it publishes is one \<open>portfolio.recalculated\<close>, and only on a running
  bus; analytics does not subscribe to that topic, so a recalculation never triggers another. An
  event without \<open>user_id\<close> is ignored.
\<close>

theorem handler_recalculates_named_user:
  "handle_event pw env (msg\<lparr>m_payload := [(''user_id'', VInt u)]\<rparr>) (w, cache) =
     (case compute_summary pw env u (e_today env) None (w_db w) of
        Inl e \<Rightarrow> (w, cache)
      | Inr s \<Rightarrow> (announce env u w, (u, s) # cache))
   \<and> w_db (fst (handle_event pw env m (w, cache))) = w_db w
   \<and> new_topics (w_bus w) (w_bus (announce env u w)) = (if bs_running (w_bus w) then [''portfolio.recalculated''] else [])
   \<and> set (new_topics (w_bus w) (w_bus (fst (handle_event pw env m (w, cache))))) \<inter> set CHANGE_TOPICS = {}
   \<and> handle_event pw env (msg\<lparr>m_payload := filter (\<lambda>(k, _). k \<noteq> ''user_id'') p\<rparr>) (w, cache) = (w, cache)"
proof -
  have "w_db (fst (handle_event pw env m (w, cache))) = w_db w
    \<and> set (new_topics (w_bus w) (w_bus (fst (handle_event pw env m (w, cache))))) \<inter> set CHANGE_TOPICS = {}"
    by (rule handle_event_cases [of pw env m w cache])
      (simp_all add: announce_topics new_topics_def [of "w_bus w" "w_bus w"] CHANGE_TOPICS_def)
  moreover have "map_of (filter (\<lambda>(k, _). k \<noteq> ''user_id'') p) ''user_id'' = None"
    by (auto simp: map_of_eq_None_iff)
  ultimately show ?thesis by (simp add: handle_event_def snd_recalculate announce_topics)
qed

text \<open>
  A cached summary grows stale with the calendar: a default read on a later day serves the entry
  whatever the database holds by then, and if a coupon of the entry has fallen due meanwhile, the
  first of the ``next'' coupons it answers lies before that day.
\<close>

theorem cached_summary_outlives_its_day:
  assumes "db_wf db" and "dates_valid db" and "compute_summary pw env u d None db = Inr s"
    and "coupon_event u None db d c" and "cd_date c < e_today later" and "map_of cache u = Some s"
    and "min_ordinal \<le> ordinal (e_today later)" and "ordinal (e_today later) + 3650 \<le> max_ordinal"
  shows "\<exists>r. get_portfolio_summary pw later u default_query db' cache = (Inr r, cache)
    \<and> sm_next_coupons r \<noteq> [] \<and> cd_date (hd (sm_next_coupons r)) < e_today later
    \<and> sm_positions r = sm_positions s"
proof -
  obtain cs where cs: "next_coupons_from_summary s (e_today later) NEXT_COUPONS_HORIZON_DAYS_DEFAULT
      NEXT_COUPONS_LIMIT_DEFAULT = Inr cs"
    using assms(7,8)
    by (auto simp: next_coupons_from_summary_def Let_def date_add_def NEXT_COUPONS_HORIZON_DAYS_DEFAULT_def)
  obtain flows where flows: "cashflows_from_summary s (e_today later) CASHFLOWS_HORIZON_DAYS_DEFAULT
      CASHFLOWS_LIMIT_DEFAULT = Inr flows"
    using assms(7,8) by (auto simp: cashflows_from_summary_def date_add_def CASHFLOWS_HORIZON_DAYS_DEFAULT_def)
  obtain all where all: "cs = take (nat NEXT_COUPONS_LIMIT_DEFAULT) all" "sorted (map by_date_coupon all)"
    "set all = {c. coupon_event u None db d c \<and> ordinal (cd_date c) \<le> ordinal (e_today later) + NEXT_COUPONS_HORIZON_DAYS_DEFAULT}"
    using next_coupons_calendar [OF assms(3,1,2) cs] by blast
  have "c \<in> set all" using assms(4,5) by (simp add: all(3) less_date_def NEXT_COUPONS_HORIZON_DAYS_DEFAULT_def)
  then obtain x xs where x: "all = x # xs" by (cases all) auto
  then have "by_date_coupon x \<le> by_date_coupon c" using \<open>c \<in> set all\<close> all(2) by auto
  then have "cd_date x \<le> cd_date c" by (auto simp: by_date_coupon_def)
  then have "cs \<noteq> [] \<and> cd_date (hd cs) < e_today later"
    using assms(5) by (simp add: all(1) x NEXT_COUPONS_LIMIT_DEFAULT_def)
  moreover have "get_portfolio_summary pw later u default_query db' cache
      = (Inr (s\<lparr>sm_next_coupons := cs, sm_upcoming_cashflows := flows\<rparr>), cache)"
    using cs flows assms(6) by (simp add: get_portfolio_summary_def cached_or_fresh_def) (simp add: default_query_def)
  ultimately show ?thesis by simp
qed

theorem cached_summary_outlives_its_day_witness:
  "\<exists>r. get_portfolio_summary (\<lambda>x y. x) ((sample_env 0)\<lparr>e_today := Date 739500\<rparr>) 1 default_query empty_db [(1, yearly_summary)]
      = (Inr r, [(1, yearly_summary)])
    \<and> cd_date (hd (sm_next_coupons r)) < Date 739500"
proof -
  have c: "coupon_event 1 None yearly_db (Date 739143) (yearly_coupon 739435)"
    by (simp add: coupon_event_def yearly_coupon_def yearly_rows grid_after_def on_grid_def sample_holding_def)
      (simp add: sample_bond_def coupon_per_period_def period_coupon_def)
  have e: "e_now (sample_env 0) = 0" by (simp add: sample_env_def)
  from cached_summary_outlives_its_day [OF yearly_ok(1,3) yearly_compute [OF e] c, of "(sample_env 0)\<lparr>e_today := Date 739500\<rparr>"
      "[(1, yearly_summary)]" "\<lambda>x y. x" empty_db]
  show ?thesis by (auto simp: yearly_coupon_def min_ordinal_def max_ordinal_def)
qed

text \<open>
  One bond can take all analytics of its holders away: if a user holds a bond without coupon
  period (\<open>coupon_period_days = 0\<close>) that has stored coupon rows, is not matured and was bought at a
  price the solver accepts, computing the user's summary raises, whatever else the user holds, and
  an event for the user leaves the cache as it was.
\<close>

theorem zero_period_bond_blocks_summary:
  assumes "db_wf db" and "get_bond b db = Some bond" and "b_coupon_period_days bond = 0" and "coupons_of b db \<noteq> []"
    and "e_today env < b_maturity_date bond" and "0 < b_nominal bond" and "0 \<le> b_coupon_rate bond"
    and "open_bond u None db b" and "snd (net_position fl64 (load_transactions u b None db)) = Some avg"
    and "1 \<le> avg" and "avg \<le> fl64 (10 * fl64 (of_int (b_nominal bond)))" and "w_db w = db"
  shows "(\<exists>e. compute_summary pw env u (e_today env) None db = Inl e)
    \<and> handle_event pw env (msg\<lparr>m_payload := [(''user_id'', VInt u)]\<rparr>) (w, cache) = (w, cache)"
proof -
  let ?txns = "load_transactions u b None db" and ?d = "e_today env"
  have n: "net_position fl64 ?txns = (held ?txns, Some avg)"
    using assms(9) net_position_quantity [of fl64 ?txns] by (cases "net_position fl64 ?txns") simp
  obtain cf where cfs: "bond_position_cashflows (coupons_of b db) bond = Some cf" "cf \<noteq> []"
    using assms(4) by (simp add: bond_position_cashflows_def Let_def)
  have "calculate_ytm fl64 pw avg (b_coupon_rate bond) 0 (b_maturity_date bond) (b_nominal bond) ?d (Some cf)
      = Some (Inl ZeroDivisionError)"
    using assms(5-7,10,11) by (simp add: calculate_ytm_def validate_inputs_def price_bounds_def Let_def not_le cfs(2))
  then have yields: "position_yields pw avg bond ?d (Some cf) = Inl ZeroDivisionError"
    by (simp add: position_yields_def assms(3))
  have none: "\<exists>e. compute_summary pw env u ?d None db = Inl e"
  proof (cases "compute_summary pw env u ?d None db")
    case (Inr s)
    obtain ps where l: "list_all2 (\<lambda>b p. build_position_analytics pw (the (get_bond b db)) (load_transactions u b None db) ?d
        (bond_position_cashflows (coupons_of b db) (the (get_bond b db))) = Inr p)
        (filter (open_bond u None db) (sorted_bond_ids (list_transactions u None None db))) ps"
      using compute_summary_Inr [OF Inr assms(1)] by blast
    have m: "b \<in> set (filter (open_bond u None db) (sorted_bond_ids (list_transactions u None None db)))"
      using open_bond_exists [OF assms(1,8)] assms(8) by auto
    from bspec [OF all2_results(2) [OF l] m] obtain p where "build_position_analytics pw bond ?txns ?d (Some cf) = Inr p"
      by (auto simp: assms(2) cfs(1))
    then show ?thesis
      by (simp add: build_position_analytics_def n yields bind_result_Inr_iff Let_def not_le [THEN iffD2, OF assms(5)])
  qed simp
  then show ?thesis by (auto simp: handle_event_def snd_recalculate assms(12))
qed

definition blocked_db :: database where
  "blocked_db = sample_db\<lparr>bonds := [sample_bond\<lparr>b_coupon_period_days := 0\<rparr>],
     bond_coupons := [\<lparr>c_id = 1, c_bond_id = 1, c_date = Date 739400, c_amount = 30\<rparr>],
     transactions := [(sample_holding 2 1)\<lparr>t_price := 1000\<rparr>]\<rparr>"

theorem zero_period_bond_blocks_summary_witness:
  "\<exists>e. compute_summary (\<lambda>x y. x) (sample_env 0) 1 (Date 739000) None blocked_db = Inl e"
proof -
  let ?bond = "sample_bond\<lparr>b_coupon_period_days := 0\<rparr>"
  have wf: "db_wf blocked_db"
    by (simp add: blocked_db_def put_wf_simps refs_defs broker_check_def sample_db_def sample_bond_def sample_holding_def
        TRANSACTION_TYPES_def BROKER_ACCOUNT_TYPES_def MIN_COMMISSION_TYPES_def)
  have rows: "load_transactions 1 1 None blocked_db = [(sample_holding 2 1)\<lparr>t_price := 1000\<rparr>]"
    "get_bond 1 blocked_db = Some ?bond" "coupons_of 1 blocked_db \<noteq> []"
    by (simp_all add: load_transactions_def order_by_def blocked_db_def sample_db_def sample_holding_def get_bond_def
        row_of_def coupons_of_def sample_bond_def)
  have n: "net_position fl64 [(sample_holding 2 1)\<lparr>t_price := 1000\<rparr>] = (5, Some 1000)"
    by (simp add: net_position_def netting_def netting_step_def sample_holding_def Let_def)
  show ?thesis
    using zero_period_bond_blocks_summary [OF wf rows(2) _ rows(3), of "sample_env 0" 1 1000
        "sample_world\<lparr>w_db := blocked_db\<rparr>" "\<lambda>x y. x"]
    by (simp add: rows n sample_env_def sample_bond_def) (simp add: sample_holding_def)
qed

end
