(* ===== verification/Auth.thy ===== *)
theory Auth
  imports PyText Bonds
begin

text \<open>
  \<open>auth/password.py\<close>, \<open>auth/jwt_service.py\<close> and \<open>auth/service.py\<close>: password hashing with its 72-byte
  limit, tokens, registration and login. The packages \<open>bcrypt\<close> and \<open>jwt\<close> are parameters: \<open>hashpw\<close>,
  \<open>checkpw\<close>, \<open>jwt_encode\<close> and \<open>jwt_decode\<close> answer \<open>None\<close> where the package raises the exceptions
  the code catches. A password is the list of its code points; the clock counts microseconds since
  1970. Registration publishes nothing.
\<close>

section \<open>Passwords\<close>

definition BCRYPT_MAX_PASSWORD_BYTES :: nat where "BCRYPT_MAX_PASSWORD_BYTES = 72"

definition hash_password :: "(int list \<Rightarrow> string \<Rightarrow> string option) \<Rightarrow> string \<Rightarrow> int list \<Rightarrow> string result" where
  "hash_password hashpw salt plaintext =
     bind_result (utf8 plaintext) (\<lambda>password_bytes.
       if length password_bytes > BCRYPT_MAX_PASSWORD_BYTES then Inl ValueError
       else case hashpw password_bytes salt of None \<Rightarrow> Inl ValueError | Some hashed \<Rightarrow> Inr hashed)"

definition verify_password :: "(int list \<Rightarrow> string \<Rightarrow> bool option) \<Rightarrow> int list \<Rightarrow> string \<Rightarrow> bool result" where
  "verify_password checkpw plaintext hashed =
     bind_result (utf8 plaintext) (\<lambda>password_bytes.
       if length password_bytes > BCRYPT_MAX_PASSWORD_BYTES then Inr False
       else case checkpw password_bytes hashed of None \<Rightarrow> Inr False | Some b \<Rightarrow> Inr b)"

section \<open>Tokens\<close>

type_synonym claims = "(string \<times> json) list"

record auth_config =
  jwt_secret :: string
  jwt_algorithm :: string
  jwt_expires_minutes :: int

record token_payload =
  tp_user_id :: int
  tp_username :: json
  tp_expires_at :: int

text \<open>\<open>datetime.max\<close> and \<open>datetime.min\<close> in UTC, in microseconds.\<close>

definition MAX_DATETIME :: int where "MAX_DATETIME = 253402300799999999"
definition MIN_DATETIME :: int where "MIN_DATETIME = - 62135596800000000"

text \<open>\<open>int(dt.timestamp())\<close>\<close>

definition whole_seconds :: "int \<Rightarrow> int" where
  "whole_seconds us = (let x = fl64 (of_int us / 1000000) in if 0 \<le> x then \<lfloor>x\<rfloor> else \<lceil>x\<rceil>)"

definition create_token ::
    "(claims \<Rightarrow> string \<Rightarrow> string \<Rightarrow> string option) \<Rightarrow> auth_config \<Rightarrow> int \<Rightarrow> int \<Rightarrow> string \<Rightarrow> int option \<Rightarrow> string result" where
  "create_token jwt_encode config now user_id username expires_minutes =
     (let minutes = (case expires_minutes of None \<Rightarrow> jwt_expires_minutes config | Some m \<Rightarrow> m);
          expires = now + minutes * 60000000
      in if expires < MIN_DATETIME \<or> MAX_DATETIME < expires then Inl OverflowError
         else
           let claims = [(''sub'', JStr (str_of_int user_id)), (''username'', JStr username),
                 (''iat'', JInt (whole_seconds now)), (''exp'', JInt (whole_seconds expires))]
           in case jwt_encode claims (jwt_secret config) (jwt_algorithm config) of
                None \<Rightarrow> Inl JwtError
              | Some token \<Rightarrow> Inr token)"

text \<open>
  \<open>datetime.fromtimestamp(x, tz=UTC)\<close>: rounded to microseconds; a year outside 1 to 9999 is a
  \<open>ValueError\<close>, one that the C library cannot hold an \<open>OSError\<close>, and seconds beyond 64 bits an
  \<open>OverflowError\<close>.
\<close>

definition from_seconds :: "rat \<Rightarrow> int result" where
  "from_seconds x =
     (let us = rne (x * 1000000)
      in if MIN_DATETIME \<le> us \<and> us \<le> MAX_DATETIME then Inr us
         else if \<bar>x\<bar> \<ge> 2 ^ 63 then Inl OverflowError
         else if \<bar>x\<bar> \<ge> 67768036191676800 then Inl OSError
         else Inl ValueError)"

fun from_timestamp :: "json \<Rightarrow> int result" where
  "from_timestamp (JInt n) = from_seconds (of_int n)"
| "from_timestamp (JBool b) = from_seconds (if b then 1 else 0)"
| "from_timestamp (JFloat (Fin x)) = from_seconds x"
| "from_timestamp (JFloat (Inf b)) = Inl OverflowError"
| "from_timestamp (JFloat NaN) = Inl ValueError"
| "from_timestamp _ = Inl TypeError"

definition claim :: "claims \<Rightarrow> string \<Rightarrow> json result" where
  "claim claims key = (case map_of claims key of None \<Rightarrow> Inl KeyError | Some x \<Rightarrow> Inr x)"

definition malformed_claims :: "'a result \<Rightarrow> 'a result" where
  "malformed_claims r =
     (case r of Inl e \<Rightarrow> Inl (if e \<in> {KeyError, TypeError, ValueError} then JwtError else e) | Inr x \<Rightarrow> Inr x)"

definition verify_token ::
    "(int \<Rightarrow> string \<Rightarrow> string \<Rightarrow> string \<Rightarrow> claims option) \<Rightarrow> auth_config \<Rightarrow> int \<Rightarrow> string \<Rightarrow> token_payload result" where
  "verify_token jwt_decode config now token =
     (case jwt_decode now token (jwt_secret config) (jwt_algorithm config) of
        None \<Rightarrow> Inl JwtError
      | Some claims \<Rightarrow>
          malformed_claims
            (bind_result (bind_result (claim claims ''sub'') int_of_json) (\<lambda>user_id.
             bind_result (claim claims ''username'') (\<lambda>username.
             bind_result (bind_result (claim claims ''exp'') from_timestamp) (\<lambda>expires_at.
               Inr \<lparr>tp_user_id = user_id, tp_username = username, tp_expires_at = expires_at\<rparr>)))))"

section \<open>The service\<close>

definition MIN_PASSWORD_LENGTH :: nat where "MIN_PASSWORD_LENGTH = 8"
definition MAX_PASSWORD_BYTES :: nat where "MAX_PASSWORD_BYTES = 72"

definition get_user_by_id :: "int \<Rightarrow> database \<Rightarrow> user_row option" where
  "get_user_by_id user_id db = row_of u_id user_id (users db)"

definition get_user_by_username :: "string \<Rightarrow> database \<Rightarrow> user_row option" where
  "get_user_by_username username db = find (\<lambda>u. u_username u = username) (users db)"

definition register ::
    "(int list \<Rightarrow> string \<Rightarrow> string option) \<Rightarrow> string \<Rightarrow> env \<Rightarrow> string \<Rightarrow> int list \<Rightarrow> user_row step" where
  "register hashpw salt env username password w =
     (if length password < MIN_PASSWORD_LENGTH then (Inl AuthError, w)
      else
        case utf8 password of
          Inl e \<Rightarrow> (Inl e, w)
        | Inr password_bytes \<Rightarrow>
            if length password_bytes > MAX_PASSWORD_BYTES then (Inl AuthError, w)
            else
              (case hash_password hashpw salt password of
                 Inl e \<Rightarrow> (Inl e, w)
               | Inr password_hash \<Rightarrow>
                   let user = \<lparr>u_id = e_new_id env, u_username = username, u_password_hash = password_hash\<rparr>
                   in case insert_user user (w_db w) of
                        Inl e \<Rightarrow> (Inl UsernameTakenError, w)
                      | Inr db \<Rightarrow> (Inr user, w\<lparr>w_db := db\<rparr>)))"

definition login ::
    "(int list \<Rightarrow> string \<Rightarrow> bool option) \<Rightarrow> (claims \<Rightarrow> string \<Rightarrow> string \<Rightarrow> string option) \<Rightarrow> auth_config
     \<Rightarrow> int \<Rightarrow> string \<Rightarrow> int list \<Rightarrow> database \<Rightarrow> string result" where
  "login checkpw jwt_encode config now username password db =
     (case get_user_by_username username db of
        None \<Rightarrow> Inl InvalidCredentialsError
      | Some user \<Rightarrow>
          bind_result (verify_password checkpw password (u_password_hash user)) (\<lambda>ok.
            if \<not> ok then Inl InvalidCredentialsError
            else create_token jwt_encode config now (u_id user) (u_username user) None))"

section \<open>What is relied on of the packages\<close>

text \<open>
  \<open>bcrypt.checkpw\<close> answers whether the bytes are the ones that were hashed (for bytes within its
  limit), and \<open>jwt.decode\<close> returns the claims of a token signed with the same key and algorithm
  from when it was issued until it expires.
\<close>

definition bcrypt_checks ::
    "(int list \<Rightarrow> string \<Rightarrow> string option) \<Rightarrow> (int list \<Rightarrow> string \<Rightarrow> bool option) \<Rightarrow> bool" where
  "bcrypt_checks hashpw checkpw \<longleftrightarrow> (\<forall>bs salt h cs. hashpw bs salt = Some h \<longrightarrow>
     length bs \<le> 72 \<longrightarrow> length cs \<le> 72 \<longrightarrow> (checkpw cs h = Some True \<longleftrightarrow> cs = bs))"

definition jwt_decodes ::
    "(claims \<Rightarrow> string \<Rightarrow> string \<Rightarrow> string option) \<Rightarrow> (int \<Rightarrow> string \<Rightarrow> string \<Rightarrow> string \<Rightarrow> claims option) \<Rightarrow> bool" where
  "jwt_decodes jwt_encode jwt_decode \<longleftrightarrow> (\<forall>claims secret algorithm token now iat exp.
     jwt_encode claims secret algorithm = Some token \<longrightarrow> map_of claims ''iat'' = Some (JInt iat) \<longrightarrow>
     map_of claims ''exp'' = Some (JInt exp) \<longrightarrow> iat * 1000000 \<le> now \<longrightarrow> now < exp * 1000000 \<longrightarrow>
     jwt_decode now token secret algorithm = Some claims)"

definition password :: "int list \<Rightarrow> bool" where "password p \<longleftrightarrow> list_all code_point p"

section \<open>Lemmas\<close>

lemma whole_seconds_of_seconds [simp]: "0 \<le> n \<Longrightarrow> n \<le> 2 ^ 53 \<Longrightarrow> whole_seconds (n * 1000000) = n"
  by (simp add: whole_seconds_def Let_def fl64_of_int)

lemma from_seconds_of_int: "MIN_DATETIME \<le> n * 1000000 \<Longrightarrow> n * 1000000 \<le> MAX_DATETIME \<Longrightarrow>
   from_seconds (of_int n) = Inr (n * 1000000)"
proof -
  have "rne (of_int n * 1000000) = n * 1000000" using rne_of_int [of "n * 1000000"] by simp
  then show "MIN_DATETIME \<le> n * 1000000 \<Longrightarrow> n * 1000000 \<le> MAX_DATETIME \<Longrightarrow> ?thesis"
    by (simp add: from_seconds_def Let_def)
qed

lemma verify_password_registered:
  assumes "bcrypt_checks hashpw checkpw" and "hash_password hashpw salt p = Inr h" and "password p" and "password q"
  shows "verify_password checkpw q h = (case utf8 q of Inl e \<Rightarrow> Inl UnicodeEncodeError | Inr _ \<Rightarrow> Inr (q = p))"
proof (cases "utf8 q")
  case (Inl e)
  then show ?thesis using utf8_Inl [OF Inl] by (simp add: verify_password_def)
next
  case (Inr cs)
  obtain bs where bs: "utf8 p = Inr bs" "length bs \<le> 72" "hashpw bs salt = Some h"
    using assms(2) by (auto simp: hash_password_def bind_result_Inr_iff BCRYPT_MAX_PASSWORD_BYTES_def
        split: if_splits option.splits)
  have same: "q = p \<longleftrightarrow> cs = bs"
    using utf8_inj [of q cs p] Inr bs(1) assms(3,4) by (auto simp: password_def)
  show ?thesis
  proof (cases "length cs \<le> 72")
    case True
    then have "checkpw cs h = Some True \<longleftrightarrow> q = p" using assms(1) bs same unfolding bcrypt_checks_def by metis
    then show ?thesis using Inr True
      by (cases "checkpw cs h") (auto simp: verify_password_def BCRYPT_MAX_PASSWORD_BYTES_def)
  next
    case False
    then have "q \<noteq> p" using same bs(2) by auto
    then show ?thesis using Inr False by (simp add: verify_password_def BCRYPT_MAX_PASSWORD_BYTES_def)
  qed
qed

lemma find_username: "db_wf db \<Longrightarrow> get_user_by_username n db = Some u \<longleftrightarrow> u \<in> set (users db) \<and> u_username u = n"
  by (simp add: get_user_by_username_def find_Some_iff_distinct put_wf_simps)

lemma insert_user_Inr:
  "insert_user u db = Inr db' \<longleftrightarrow> u_id u \<notin> u_id ` set (users db) \<and> u_username u \<notin> u_username ` set (users db)
     \<and> db' = db\<lparr>users := users db @ [u]\<rparr>"
  by (auto simp: insert_user_def add_row_def)

lemma register_Inr:
  assumes "register hashpw salt env n p w = (Inr u, w')"
  shows "u_username u = n \<and> u_id u = e_new_id env \<and> hash_password hashpw salt p = Inr (u_password_hash u)
    \<and> insert_user u (w_db w) = Inr (w_db w') \<and> w' = w\<lparr>w_db := w_db w'\<rparr>"
  using assms by (auto simp: register_def Let_def split: if_splits sum.splits)

lemma get_user_after_insert:
  assumes "insert_user u db = Inr db'"
  shows "get_user_by_username n db' = (if n = u_username u then Some u else get_user_by_username n db)"
proof -
  have ins: "users db' = users db @ [u]" "u_username u \<notin> u_username ` set (users db)"
    using assms by (simp_all add: insert_user_Inr)
  have "find P (xs @ [u]) = (case find P xs of Some x \<Rightarrow> Some x | None \<Rightarrow> if P u then Some u else None)" for P xs
    by (induction xs) auto
  then show ?thesis using ins find_None_iff_keys [of u_username n "users db"]
    by (auto simp: get_user_by_username_def split: option.splits)
qed

interpretation register: atomic_op "register hashpw salt env n p"
  for hashpw salt env n p
proof
  fix w e
  show "db_wf (w_db w) \<Longrightarrow> db_wf (w_db (snd (register hashpw salt env n p w)))"
    by (auto simp: register_def Let_def dest: insert_user_wf [rotated] split: sum.split)
  show "bus_grows (w_bus w) (w_bus (snd (register hashpw salt env n p w)))"
    by (auto simp: register_def Let_def split: sum.split)
  show "w_db (snd (register hashpw salt env n p w)) = w_db w" if "fst (register hashpw salt env n p w) = Inl e"
    using that by (auto simp: register_def Let_def split: sum.splits if_splits)
qed

section \<open>Properties\<close>

text \<open>
  After a registration the new user logs in with exactly the registered password: the same code
  points give a token for the new identifier, every other password is refused with
  \<open>InvalidCredentialsError\<close> (also one that shares its first 72 bytes with the registered one, and
  one too long for bcrypt), and logins under every other name answer as before. A password that
  cannot be encoded raises \<open>UnicodeEncodeError\<close>, though only where the name is known.
\<close>

theorem registered_password_logs_in:
  assumes "bcrypt_checks hashpw checkpw" and "register hashpw salt env n p w = (Inr u, w')"
    and "password p" and "password q"
  shows "login checkpw jwt_encode config now v q (w_db w') =
    (if v = n
     then (case utf8 q of
             Inl e \<Rightarrow> Inl UnicodeEncodeError
           | Inr bs \<Rightarrow> if q = p then create_token jwt_encode config now (u_id u) n None
                      else Inl InvalidCredentialsError)
     else login checkpw jwt_encode config now v q (w_db w))"
proof -
  note u = register_Inr [OF assms(2)]
  have "verify_password checkpw q (u_password_hash u) = (case utf8 q of Inl e \<Rightarrow> Inl UnicodeEncodeError | Inr _ \<Rightarrow> Inr (q = p))"
    using verify_password_registered [OF assms(1) _ assms(3,4)] u by blast
  then show ?thesis using u get_user_after_insert [of u "w_db w" "w_db w'" v]
    by (auto simp: login_def split: sum.split)
qed

definition toy_hashpw :: "int list \<Rightarrow> string \<Rightarrow> string option" where
  "toy_hashpw bs salt = (if list_all (\<lambda>b. 0 \<le> b \<and> b < 256) bs then Some (map char_of bs) else None)"

definition toy_checkpw :: "int list \<Rightarrow> string \<Rightarrow> bool option" where
  "toy_checkpw bs h = Some (map of_char h = bs)"

lemma toy_bcrypt: "bcrypt_checks toy_hashpw toy_checkpw"
proof -
  have "map of_char (map char_of bs :: string) = bs" if "list_all (\<lambda>b. 0 \<le> b \<and> b < 256) bs" for bs :: "int list"
    using that by (induction bs) simp_all
  then show ?thesis by (auto simp: bcrypt_checks_def toy_hashpw_def toy_checkpw_def split: if_splits)
qed

definition toy_config :: auth_config where
  "toy_config = \<lparr>jwt_secret = ''s'', jwt_algorithm = ''HS256'', jwt_expires_minutes = 60\<rparr>"

theorem registered_password_logs_in_witness:
  "\<exists>u w'. register toy_hashpw [] (sample_env 7) ''carol'' [112, 97, 115, 115, 119, 1086, 114, 100] sample_world = (Inr u, w')
    \<and> login toy_checkpw (\<lambda>c s a. Some s) toy_config 0 ''carol'' [112, 97, 115, 115, 119, 1086, 114, 100] (w_db w') = Inr ''s''
    \<and> login toy_checkpw (\<lambda>c s a. Some s) toy_config 0 ''carol'' [112, 97, 115, 115, 119, 111, 114, 100] (w_db w')
      = Inl InvalidCredentialsError"
proof -
  let ?p = "[112, 97, 115, 115, 119, 1086, 114, 100] :: int list" and ?q = "[112, 97, 115, 115, 119, 111, 114, 100] :: int list"
  obtain u w' where r: "register toy_hashpw [] (sample_env 7) ''carol'' ?p sample_world = (Inr u, w')"
    by (simp add: register_def utf8_char_def MIN_PASSWORD_LENGTH_def MAX_PASSWORD_BYTES_def hash_password_def
        BCRYPT_MAX_PASSWORD_BYTES_def toy_hashpw_def insert_user_def sample_db_def sample_env_def Let_def)
  have pw: "password ?p" "password ?q" by (simp_all add: password_def code_point_def)
  note li = registered_password_logs_in [OF toy_bcrypt r pw(1), where v = "''carol''" and config = toy_config and now = 0
      and jwt_encode = "\<lambda>c s a. Some s"]
  show ?thesis
    using r li [OF pw(1)] li [OF pw(2)]
    by (simp add: utf8_char_def create_token_def toy_config_def MIN_DATETIME_def MAX_DATETIME_def)
qed

lemma token_reads_back:
  assumes "jwt_decodes jwt_encode jwt_decode" and "create_token jwt_encode config now user_id name minutes = Inr token"
    and "expiry = whole_seconds (now + (case minutes of None \<Rightarrow> jwt_expires_minutes config | Some m \<Rightarrow> m) * 60000000)"
    and "whole_seconds now * 1000000 \<le> later" and "later < expiry * 1000000"
    and "0 \<le> expiry" and "expiry \<le> 253402300799"
  shows "verify_token jwt_decode config later token
    = Inr \<lparr>tp_user_id = user_id, tp_username = JStr name, tp_expires_at = expiry * 1000000\<rparr>"
proof -
  let ?claims = "[(''sub'', JStr (str_of_int user_id)), (''username'', JStr name), (''iat'', JInt (whole_seconds now)),
      (''exp'', JInt expiry)]"
  have "jwt_encode ?claims (jwt_secret config) (jwt_algorithm config) = Some token"
    using assms(2,3) by (auto simp: create_token_def Let_def split: if_splits option.splits)
  then have "jwt_decode later token (jwt_secret config) (jwt_algorithm config) = Some ?claims"
    using assms(1,4,5) unfolding jwt_decodes_def by (elim allE impE) simp_all
  moreover have "from_seconds (of_int expiry) = Inr (expiry * 1000000)"
    using assms(6,7) by (intro from_seconds_of_int) (simp_all add: MIN_DATETIME_def MAX_DATETIME_def)
  ultimately show ?thesis by (simp add: verify_token_def claim_def malformed_claims_def)
qed

text \<open>
  A token says who logged in: what \<open>create_token\<close> issues, \<open>verify_token\<close> reads back as the same
  user identifier (through its decimal text), name and expiry, from the second it was issued until
  it expires.
\<close>

theorem token_roundtrip:
  assumes "jwt_decodes jwt_encode jwt_decode" and "create_token jwt_encode config now user_id name minutes = Inr token"
    and "expiry = whole_seconds (now + (case minutes of None \<Rightarrow> jwt_expires_minutes config | Some m \<Rightarrow> m) * 60000000)"
    and "whole_seconds now * 1000000 \<le> later" and "later < expiry * 1000000"
    and "0 \<le> expiry" and "expiry \<le> 253402300799"
  shows "verify_token jwt_decode config later token
    = Inr \<lparr>tp_user_id = user_id, tp_username = JStr name, tp_expires_at = expiry * 1000000\<rparr>"
  by (rule token_reads_back [OF assms])

definition toy_claims :: claims where
  "toy_claims = [(''sub'', JStr ''7''), (''username'', JStr ''carol''), (''iat'', JInt 1000), (''exp'', JInt 4600)]"

theorem token_roundtrip_witness:
  "create_token (\<lambda>c s a. if c = toy_claims then Some ''t'' else None) toy_config 1000000000 7 ''carol'' None = Inr ''t''
   \<and> verify_token (\<lambda>now t s a. Some toy_claims) toy_config 2000000000 ''t''
     = Inr \<lparr>tp_user_id = 7, tp_username = JStr ''carol'', tp_expires_at = 4600000000\<rparr>"
proof -
  have sec: "whole_seconds 1000000000 = 1000" "whole_seconds 4600000000 = 4600"
    using whole_seconds_of_seconds [of 1000] whole_seconds_of_seconds [of 4600] by simp_all
  have str: "str_of_int 7 = ''7''" by code_simp
  have ok: "jwt_decodes (\<lambda>c s a. if c = toy_claims then Some ''t'' else None) (\<lambda>now t s a. Some toy_claims)"
    by (auto simp: jwt_decodes_def split: if_splits)
  have c: "create_token (\<lambda>c s a. if c = toy_claims then Some ''t'' else None) toy_config 1000000000 7 ''carol'' None = Inr ''t''"
    by (simp add: create_token_def toy_config_def MIN_DATETIME_def MAX_DATETIME_def sec str toy_claims_def)
  show ?thesis
    using token_roundtrip [OF ok c, of 4600 2000000000] c sec by (simp add: toy_config_def)
qed

end
