(* ===== verification/MoexClient.thy ===== *)
theory MoexClient
  imports PyText
begin

text \<open>
  \<open>market_data/schemas.py\<close> and \<open>market_data/client.py\<close>: the interpretation of MOEX ISS rows and the
  client that requests them. The HTTP library is a parameter, \<open>moex\<close>, which answers a path and the
  query parameters with a timeout, a transport error, or a status with the decoded body (\<open>None\<close> where
  the body is not JSON). No operation repeats a request whose answer could differ, except for two
  candidates with the same \<open>secid\<close>. The log messages are left out.
\<close>

section \<open>Rows\<close>

text \<open>
  A row is the dictionary of a column-keyed ISS row. The code reads text keys only, so keys that are
  not text are left out; a key that cannot be hashed is a \<open>TypeError\<close>.
\<close>

type_synonym row = "string \<rightharpoonup> json"

definition get :: "row \<Rightarrow> string \<Rightarrow> json" where
  "get row key = (case row key of None \<Rightarrow> JNull | Some x \<Rightarrow> x)"

definition setdefault :: "string \<Rightarrow> json \<Rightarrow> row \<Rightarrow> row" where
  "setdefault key x row = (if row key = None then row(key \<mapsto> x) else row)"

fun hashable :: "json \<Rightarrow> bool" where
  "hashable (JArr xs) = False" | "hashable (JObj kvs) = False" | "hashable _ = True"

fun put_key :: "json \<Rightarrow> json \<Rightarrow> row \<Rightarrow> row" where
  "put_key (JStr key) x row = row(key \<mapsto> x)" | "put_key _ x row = row"

definition dict_of :: "(json \<times> json) list \<Rightarrow> row result" where
  "dict_of kvs =
     (if list_all (\<lambda>(k, _). hashable k) kvs then Inr (fold (\<lambda>(k, x). put_key k x) kvs Map.empty)
      else Inl TypeError)"

section \<open>Fields\<close>

text \<open>\<open>float(n)\<close> of an integer that no float can hold is an \<open>OverflowError\<close>.\<close>

definition float_of_int :: "int \<Rightarrow> pyfloat result" where
  "float_of_int n = (case float64 (of_int n) of Fin x \<Rightarrow> Inr (Fin x) | _ \<Rightarrow> Inl OverflowError)"

definition comma_to_point :: "string \<Rightarrow> string" where
  "comma_to_point = map (\<lambda>c. if c = CHR '','' then CHR ''.'' else c)"

fun to_number :: "json \<Rightarrow> pyfloat option result" where
  "to_number (JInt n) = bind_result (float_of_int n) (\<lambda>x. Inr (Some x))"
| "to_number (JFloat x) = Inr (Some x)"
| "to_number (JStr s) = Inr (float_of_string (comma_to_point (strip s)))"
| "to_number _ = Inr None"

fun required_date :: "json \<Rightarrow> date result" where
  "required_date (JStr s) =
     (case strptime ''-'' (strip s) of
        Inr d \<Rightarrow> Inr d
      | Inl _ \<Rightarrow> (case strptime '''' (strip s) of Inr d \<Rightarrow> Inr d | Inl _ \<Rightarrow> Inl ProviderUnavailableError))"
| "required_date _ = Inl ProviderUnavailableError"

text \<open>\<open>Inr None\<close> for a row that no reference can represent, such as a perpetual bond.\<close>

fun maturity_date_of :: "json \<Rightarrow> date option result" where
  "maturity_date_of (JStr s) =
     (if strip s = [] then Inr None
      else case strptime ''-'' (strip s) of
        Inr d \<Rightarrow> Inr (Some d)
      | Inl _ \<Rightarrow> (case strptime '''' (strip s) of Inr d \<Rightarrow> Inr (Some d) | Inl _ \<Rightarrow> Inr None))"
| "maturity_date_of x = map_sum id Some (required_date x)"

fun required_str :: "json \<Rightarrow> string result" where
  "required_str (JStr s) = (if strip s = [] then Inl ProviderUnavailableError else Inr (strip s))"
| "required_str _ = Inl ProviderUnavailableError"

text \<open>The text \<open>str(value)\<close> of a value that is no string is kept as that value.\<close>

datatype text_of = Text string | StrOf json

fun optional_str :: "json \<Rightarrow> text_of option" where
  "optional_str JNull = None"
| "optional_str (JStr s) = (if strip s = [] then None else Some (Text (strip s)))"
| "optional_str x = Some (StrOf x)"

definition required_int :: "json \<Rightarrow> int result" where
  "required_int x = bind_result (to_number x) (\<lambda>v.
     case v of None \<Rightarrow> Inl ProviderUnavailableError | Some f \<Rightarrow> int_of_float f)"

definition optional_number :: "json \<Rightarrow> pyfloat \<Rightarrow> pyfloat result" where
  "optional_number x dflt = bind_result (to_number x) (\<lambda>v.
     case v of None \<Rightarrow> Inr dflt | Some f \<Rightarrow> Inr f)"

text \<open>\<open>max(1, round(365 / f))\<close> where \<open>f > 0\<close>, which \<open>nan\<close> is not.\<close>

fun round_float :: "pyfloat \<Rightarrow> int result" where
  "round_float (Fin x) = Inr (rne x)"
| "round_float (Inf b) = Inl OverflowError"
| "round_float NaN = Inl ValueError"

definition DAYS_PER_YEAR :: rat where "DAYS_PER_YEAR = 365"

fun period_of_frequency :: "pyfloat \<Rightarrow> int result" where
  "period_of_frequency (Fin f) =
     (if 0 < f then bind_result (round_float (float64 (DAYS_PER_YEAR / f))) (\<lambda>n. Inr (max 1 n)) else Inr 0)"
| "period_of_frequency (Inf b) = Inr (if b then 0 else 1)"
| "period_of_frequency NaN = Inr 0"

definition coupon_period_days_of :: "row \<Rightarrow> int result" where
  "coupon_period_days_of row =
     bind_result (to_number (get row ''COUPONPERIOD'')) (\<lambda>period.
       case period of
         Some p \<Rightarrow> int_of_float p
       | None \<Rightarrow> bind_result (to_number (get row ''COUPONFREQUENCY'')) (\<lambda>frequency.
           case frequency of Some f \<Rightarrow> period_of_frequency f | None \<Rightarrow> Inr 0))"

section \<open>References and schedule entries\<close>

record bond_reference =
  ref_isin :: string
  ref_name :: string
  ref_nominal :: int
  ref_coupon_rate :: pyfloat
  ref_coupon_period_days :: int
  ref_maturity_date :: date
  ref_issuer :: "text_of option"

definition bond_reference_from_moex :: "row \<Rightarrow> bond_reference option result" where
  "bond_reference_from_moex row =
     bind_result (maturity_date_of (get row ''MATDATE'')) (\<lambda>maturity.
       case maturity of
         None \<Rightarrow> Inr None
       | Some maturity_date \<Rightarrow>
           bind_result (required_str (get row ''ISIN'')) (\<lambda>isin.
           bind_result (required_str (get row ''SHORTNAME'')) (\<lambda>name.
           bind_result (required_int (get row ''FACEVALUE'')) (\<lambda>nominal.
           bind_result (optional_number (get row ''COUPONPERCENT'') (Fin 0)) (\<lambda>coupon_rate.
           bind_result (coupon_period_days_of row) (\<lambda>period.
             Inr (Some \<lparr>ref_isin = isin, ref_name = name, ref_nominal = nominal,
               ref_coupon_rate = coupon_rate, ref_coupon_period_days = period,
               ref_maturity_date = maturity_date,
               ref_issuer = optional_str (get row ''ISSUER'')\<rparr>)))))))"

record schedule_entry =
  se_date :: date
  se_amount :: pyfloat

text \<open>The columns are tried in their order until one holds a number.\<close>

definition COUPON_AMOUNT_COLUMNS :: "string list" where
  "COUPON_AMOUNT_COLUMNS = [''value_rub'', ''value'']"

fun coupon_amount_of :: "row \<Rightarrow> string list \<Rightarrow> pyfloat result" where
  "coupon_amount_of row [] = Inl ProviderUnavailableError"
| "coupon_amount_of row (column # columns) =
     bind_result (to_number (get row column)) (\<lambda>parsed.
       case parsed of Some x \<Rightarrow> Inr x | None \<Rightarrow> coupon_amount_of row columns)"

definition schedule_entry_of :: "row \<Rightarrow> schedule_entry result" where
  "schedule_entry_of row =
     bind_result (required_date (get row ''coupondate'')) (\<lambda>coupon_date.
     bind_result (coupon_amount_of row COUPON_AMOUNT_COLUMNS) (\<lambda>amount.
       Inr \<lparr>se_date = coupon_date, se_amount = amount\<rparr>))"

definition coupon_schedule_from_block :: "row list \<Rightarrow> schedule_entry list result" where
  "coupon_schedule_from_block rows = map_result schedule_entry_of rows"

section \<open>Responses\<close>

datatype param = PInt int | PStr string

datatype response = GetTimeout | GetFailed | Response int "json option"

type_synonym moex = "string \<Rightarrow> (string \<times> param) list \<Rightarrow> response"

definition get_json :: "moex \<Rightarrow> string \<Rightarrow> (string \<times> param) list \<Rightarrow> json result" where
  "get_json moex path params =
     (case moex path params of
        GetTimeout \<Rightarrow> Inl ProviderTimeoutError
      | GetFailed \<Rightarrow> Inl ProviderUnavailableError
      | Response status body \<Rightarrow>
          if status \<noteq> 200 then Inl ProviderUnavailableError
          else case body of None \<Rightarrow> Inl ProviderUnavailableError | Some payload \<Rightarrow> Inr payload)"

definition is_bond :: "row \<Rightarrow> bool" where
  "is_bond row \<longleftrightarrow>
     get row ''group'' = JStr ''stock_bonds''
     \<or> (case get row ''type'' of JStr s \<Rightarrow> take 5 (rev s) = rev ''_bond'' | _ \<Rightarrow> False)"

definition entry_row :: "json list \<Rightarrow> json \<Rightarrow> row result" where
  "entry_row columns entry =
     (case entry of JArr xs \<Rightarrow> dict_of (zip columns xs) | _ \<Rightarrow> Inl ProviderUnavailableError)"

text \<open>The lists \<open>columns\<close> and \<open>data\<close> of a block, where the payload has them.\<close>

definition block_of :: "json \<Rightarrow> string \<Rightarrow> (json list \<times> json list) option" where
  "block_of payload block =
     (case payload of
        JObj kvs \<Rightarrow>
          (case map_of kvs block of
             Some (JObj section) \<Rightarrow>
               (case (map_of section ''columns'', map_of section ''data'') of
                  (Some (JArr columns), Some (JArr data)) \<Rightarrow> Some (columns, data)
                | _ \<Rightarrow> None)
           | _ \<Rightarrow> None)
      | _ \<Rightarrow> None)"

definition iss_rows_of :: "json \<Rightarrow> string \<Rightarrow> row list result" where
  "iss_rows_of payload block =
     (case block_of payload block of
        None \<Rightarrow> Inl ProviderUnavailableError
      | Some (columns, data) \<Rightarrow> map_result (entry_row columns) data)"

text \<open>\<open>data[0][i]\<close>, which may be a character of a string; a name missing in an object is a \<open>KeyError\<close>.\<close>

fun item_at :: "json \<Rightarrow> nat \<Rightarrow> json result" where
  "item_at (JArr xs) i = (if i < length xs then Inr (xs ! i) else Inl IndexError)"
| "item_at (JStr s) i = (if i < length s then Inr (JStr [s ! i]) else Inl IndexError)"
| "item_at (JObj kvs) i = Inl KeyError"
| "item_at _ i = Inl TypeError"

fun names_total :: "json \<Rightarrow> bool" where
  "names_total (JStr s) \<longleftrightarrow> upper s = ''TOTAL''" | "names_total _ \<longleftrightarrow> False"

fun index_where :: "('a \<Rightarrow> bool) \<Rightarrow> 'a list \<Rightarrow> nat option" where
  "index_where P [] = None"
| "index_where P (x # xs) = (if P x then Some 0 else map_option Suc (index_where P xs))"

definition cursor_total :: "json \<Rightarrow> string \<Rightarrow> int result" where
  "cursor_total payload cursor_block =
     (case block_of payload cursor_block of
        None \<Rightarrow> Inr 0
      | Some (columns, data) \<Rightarrow>
          (case index_where names_total columns of
             None \<Rightarrow> Inr 0
           | Some i \<Rightarrow>
               (case data of
                  [] \<Rightarrow> Inr 0
                | entry # _ \<Rightarrow>
                    (case bind_result (item_at entry i) int_of_json of
                       Inr n \<Rightarrow> Inr n
                     | Inl e \<Rightarrow> if e \<in> {TypeError, ValueError, IndexError} then Inr 0 else Inl e))))"

section \<open>Requests\<close>

definition SEARCH_PATH :: string where "SEARCH_PATH = ''/iss/securities.json''"

definition BOND_DETAIL_PATH :: "string \<Rightarrow> string" where
  "BOND_DETAIL_PATH secid = ''/iss/engines/stock/markets/bonds/securities/'' @ secid @ ''.json''"

definition DESCRIPTION_PATH :: "string \<Rightarrow> string" where
  "DESCRIPTION_PATH secid = ''/iss/securities/'' @ secid @ ''.json''"

definition BONDIZATION_PATH :: "string \<Rightarrow> string" where
  "BONDIZATION_PATH secid =
     ''/iss/statistics/engines/stock/markets/bonds/bondization/'' @ secid @ ''.json''"

definition COUPON_ISIN_SEARCH_LIMIT :: int where "COUPON_ISIN_SEARCH_LIMIT = 10"

definition BONDIZATION_MAX_PAGES :: nat where "BONDIZATION_MAX_PAGES = 100"

definition search_candidates :: "moex \<Rightarrow> string \<Rightarrow> int \<Rightarrow> row list result" where
  "search_candidates moex query limit =
     bind_result (get_json moex SEARCH_PATH [(''q'', PStr query), (''limit'', PInt limit)]) (\<lambda>payload.
     bind_result (iss_rows_of payload ''securities'') (\<lambda>rows. Inr (filter is_bond rows)))"

text \<open>One step of the loop over the rows of a description block.\<close>

definition describe :: "row \<Rightarrow> row \<Rightarrow> row" where
  "describe row known =
     (case get row ''name'' of
        JStr name \<Rightarrow> if name = [] then known else known(name \<mapsto> get row ''value'')
      | _ \<Rightarrow> known)"

definition description_fields :: "moex \<Rightarrow> string \<Rightarrow> row result" where
  "description_fields moex secid =
     bind_result (get_json moex (DESCRIPTION_PATH secid) []) (\<lambda>payload.
     bind_result (iss_rows_of payload ''description'') (\<lambda>rows.
       let known = fold describe rows Map.empty
       in Inr (case known ''NAME'' of None \<Rightarrow> known | Some x \<Rightarrow> setdefault ''SECNAME'' x known)))"

definition merged :: "row \<Rightarrow> string \<Rightarrow> row \<Rightarrow> row" where
  "merged search_row secid known =
     setdefault ''ISSUER'' (get search_row ''emitent_title'')
     (setdefault ''SECNAME'' (get search_row ''name'')
     (setdefault ''SHORTNAME'' (get search_row ''shortname'')
     (setdefault ''ISIN'' (get search_row ''isin'')
     (setdefault ''SECID'' (JStr secid) known))))"

definition load_bond_row :: "moex \<Rightarrow> row \<Rightarrow> row result" where
  "load_bond_row moex search_row =
     (case get search_row ''secid'' of
        JStr secid \<Rightarrow>
          if secid = [] then Inl ProviderUnavailableError
          else bind_result (get_json moex (BOND_DETAIL_PATH secid) []) (\<lambda>payload.
               bind_result (iss_rows_of payload ''securities'') (\<lambda>rows.
               bind_result (case rows of known # _ \<Rightarrow> Inr known | [] \<Rightarrow> description_fields moex secid) (\<lambda>known.
                 Inr (merged search_row secid known))))
      | _ \<Rightarrow> Inl ProviderUnavailableError)"

text \<open>
  \<open>asyncio.gather\<close> raises the first exception in time; the tasks finish in the order the scheduler
  gives, of which \<open>order\<close> lists the indices.
\<close>

definition gather :: "nat list \<Rightarrow> 'a result list \<Rightarrow> 'a list result" where
  "gather order results =
     (case find (\<lambda>i. i < length results \<and> isl (results ! i)) (order @ [0..<length results]) of
        Some i \<Rightarrow> Inl (projl (results ! i))
      | None \<Rightarrow> Inr (map projr results))"

definition search_bonds :: "moex \<Rightarrow> nat list \<Rightarrow> string \<Rightarrow> int \<Rightarrow> row list result" where
  "search_bonds moex order query limit =
     bind_result (search_candidates moex query limit) (\<lambda>candidates.
       gather order (map (load_bond_row moex) candidates))"

text \<open>
  The first candidate whose ISIN agrees and whose \<open>secid\<close> is a text; a true value that is no text has
  no \<open>casefold\<close>.
\<close>

fun falsy :: "json \<Rightarrow> bool" where
  "falsy JNull = True"
| "falsy (JBool b) = (\<not> b)"
| "falsy (JInt n) = (n = 0)"
| "falsy (JFloat x) = (x = Fin 0)"
| "falsy (JStr s) = (s = [])"
| "falsy (JArr xs) = (xs = [])"
| "falsy (JObj kvs) = (kvs = [])"

fun secid_of_isin :: "string \<Rightarrow> row list \<Rightarrow> string result" where
  "secid_of_isin folded [] = Inl NoBondsFoundError"
| "secid_of_isin folded (row # rows) =
     (let isin = (if falsy (get row ''isin'') then JStr [] else get row ''isin'')
      in case isin of
           JStr s \<Rightarrow>
             (case get row ''secid'' of
                JStr secid \<Rightarrow> if casefold s = folded \<and> secid \<noteq> [] then Inr secid else secid_of_isin folded rows
              | _ \<Rightarrow> secid_of_isin folded rows)
         | _ \<Rightarrow> Inl AttributeError)"

definition resolve_bond_secid :: "moex \<Rightarrow> string \<Rightarrow> string result" where
  "resolve_bond_secid moex isin =
     bind_result (search_candidates moex isin COUPON_ISIN_SEARCH_LIMIT) (secid_of_isin (casefold isin))"

text \<open>
  The loop over the pages of a schedule, with the pages it may still fetch. It returns the rows and
  the offsets it requested.
\<close>

fun coupon_pages :: "moex \<Rightarrow> string \<Rightarrow> nat \<Rightarrow> int \<Rightarrow> row list \<Rightarrow> row list result" where
  "coupon_pages moex path 0 offset accumulated = Inr accumulated"
| "coupon_pages moex path (Suc pages_left) offset accumulated =
     bind_result (get_json moex path [(''start'', PInt offset)]) (\<lambda>payload.
     bind_result (iss_rows_of payload ''coupons'') (\<lambda>page.
     bind_result (cursor_total payload ''coupons.cursor'') (\<lambda>total.
       if page = [] \<or> total = 0 \<or> total \<le> int (length (accumulated @ page)) then Inr (accumulated @ page)
       else coupon_pages moex path pages_left (offset + int (length page)) (accumulated @ page))))"

definition fetch_bondization_coupons :: "moex \<Rightarrow> string \<Rightarrow> schedule_entry list result" where
  "fetch_bondization_coupons moex secid =
     bind_result (coupon_pages moex (BONDIZATION_PATH secid) BONDIZATION_MAX_PAGES 0 [])
       coupon_schedule_from_block"

definition fetch_coupon_schedule :: "moex \<Rightarrow> string \<Rightarrow> schedule_entry list result" where
  "fetch_coupon_schedule moex isin =
     bind_result (resolve_bond_secid moex isin) (fetch_bondization_coupons moex)"

section \<open>Which exceptions an operation raises\<close>

abbreviation provider_errors :: "error set" where
  "provider_errors \<equiv> {ProviderTimeoutError, ProviderUnavailableError}"

lemma raises_to_number [raises_intros]: "OverflowError \<in> E \<Longrightarrow> raises E (to_number x)"
  by (cases x) (auto simp: float_of_int_def split: pyfloat.splits intro!: raises_bind)

lemma raises_int_of_float [raises_intros]:
  "ValueError \<in> E \<Longrightarrow> OverflowError \<in> E \<Longrightarrow> raises E (int_of_float x)"
  by (cases x) auto

lemma raises_required_date [raises_intros]: "ProviderUnavailableError \<in> E \<Longrightarrow> raises E (required_date x)"
  by (cases x) (auto split: sum.splits)

lemma raises_maturity_date [raises_intros]: "ProviderUnavailableError \<in> E \<Longrightarrow> raises E (maturity_date_of x)"
  by (cases x) (auto split: sum.splits)

lemma raises_required_str [raises_intros]: "ProviderUnavailableError \<in> E \<Longrightarrow> raises E (required_str x)"
  by (cases x) auto

lemma raises_required_int [raises_intros]:
  "ProviderUnavailableError \<in> E \<Longrightarrow> ValueError \<in> E \<Longrightarrow> OverflowError \<in> E \<Longrightarrow> raises E (required_int x)"
  unfolding required_int_def by (auto intro!: raises_intros split: option.split)

lemma raises_optional_number [raises_intros]: "OverflowError \<in> E \<Longrightarrow> raises E (optional_number x d)"
  unfolding optional_number_def by (auto intro!: raises_intros split: option.split)

lemma raises_period_of_frequency [raises_intros]: "OverflowError \<in> E \<Longrightarrow> raises E (period_of_frequency f)"
  by (cases f) (auto simp: float64_def intro!: raises_intros)

lemma raises_coupon_period_days [raises_intros]:
  "ValueError \<in> E \<Longrightarrow> OverflowError \<in> E \<Longrightarrow> raises E (coupon_period_days_of row)"
  unfolding coupon_period_days_of_def by (auto intro!: raises_intros split: option.split)

lemma raises_bond_reference:
  "raises {ProviderUnavailableError, ValueError, OverflowError} (bond_reference_from_moex row)"
  unfolding bond_reference_from_moex_def by (auto intro!: raises_intros split: option.split)

lemma raises_coupon_amount [raises_intros]:
  "ProviderUnavailableError \<in> E \<Longrightarrow> OverflowError \<in> E \<Longrightarrow> raises E (coupon_amount_of row columns)"
  by (induction columns) (auto intro!: raises_intros split: option.split)

lemma raises_coupon_schedule [raises_intros]:
  "ProviderUnavailableError \<in> E \<Longrightarrow> OverflowError \<in> E \<Longrightarrow> raises E (coupon_schedule_from_block rows)"
  by (auto simp: coupon_schedule_from_block_def schedule_entry_of_def intro!: raises_intros)

lemma raises_get_json [raises_intros]: "provider_errors \<subseteq> E \<Longrightarrow> raises E (get_json moex path params)"
  by (auto simp: get_json_def split: response.split option.split)

lemma raises_iss_rows_of [raises_intros]:
  "ProviderUnavailableError \<in> E \<Longrightarrow> TypeError \<in> E \<Longrightarrow> raises E (iss_rows_of payload block)"
  by (auto simp: iss_rows_of_def entry_row_def dict_of_def split: option.split json.split intro!: raises_intros)

lemma int_of_json_errors: "int_of_json x = Inl e \<Longrightarrow> e \<in> {TypeError, ValueError, OverflowError}"
proof (cases x)
  case (JFloat f)
  then show "int_of_json x = Inl e \<Longrightarrow> e \<in> {TypeError, ValueError, OverflowError}" by (cases f) auto
qed (auto split: option.splits)

lemma item_at_errors: "item_at x i = Inl e \<Longrightarrow> e \<in> {TypeError, IndexError, KeyError}"
  by (cases x) (auto split: if_splits)

lemma raises_cursor_total [raises_intros]:
  assumes "KeyError \<in> E" and "OverflowError \<in> E" shows "raises E (cursor_total payload block)"
proof -
  have "e \<in> {TypeError, ValueError, IndexError, KeyError, OverflowError}"
    if "bind_result (item_at x i) int_of_json = Inl e" for x i e
    using that by (auto simp: bind_result_Inl_iff dest: item_at_errors int_of_json_errors)
  with assms show ?thesis
    by (fastforce simp: cursor_total_def split: option.split list.split sum.split)
qed

lemma raises_search_candidates [raises_intros]:
  "insert TypeError provider_errors \<subseteq> E \<Longrightarrow> raises E (search_candidates moex query limit)"
  unfolding search_candidates_def by (auto intro!: raises_intros)

lemma raises_description_fields [raises_intros]:
  "insert TypeError provider_errors \<subseteq> E \<Longrightarrow> raises E (description_fields moex secid)"
  unfolding description_fields_def Let_def by (auto intro!: raises_intros)

lemma raises_load_bond_row [raises_intros]:
  "insert TypeError provider_errors \<subseteq> E \<Longrightarrow> raises E (load_bond_row moex row)"
  unfolding load_bond_row_def by (auto intro!: raises_intros split: json.split list.split)

lemma gather_Inl:
  assumes "gather order rs = Inl e" shows "Inl e \<in> set rs"
proof -
  obtain i where "i < length rs" "isl (rs ! i)" "e = projl (rs ! i)"
    using assms by (auto simp: gather_def find_Some_iff split: option.splits)
  then have "rs ! i = Inl e" by (cases "rs ! i") auto
  with \<open>i < length rs\<close> show ?thesis by (metis nth_mem)
qed

text \<open>Whatever the order in which the requests finish, the rows come in the order of the candidates.\<close>

lemma gather_Inr: "gather order rs = Inr xs \<longleftrightarrow> rs = map Inr xs"
proof
  assume r: "gather order rs = Inr xs"
  then have "\<forall>i < length rs. \<not> isl (rs ! i)"
    by (auto simp: gather_def find_None_iff split: option.splits)
  then have "\<forall>i < length rs. rs ! i = Inr (projr (rs ! i))" by (auto simp: sum.expand)
  moreover have "xs = map projr rs" using r by (auto simp: gather_def split: option.splits)
  ultimately show "rs = map Inr xs" by (simp add: list_eq_iff_nth_eq)
next
  assume "rs = map Inr xs"
  then have "find (\<lambda>i. i < length rs \<and> isl (rs ! i)) (order @ [0..<length rs]) = None"
    by (auto simp: find_None_iff)
  with \<open>rs = map Inr xs\<close> show "gather order rs = Inr xs" by (simp add: gather_def o_def)
qed

lemma raises_gather [raises_intros]: "(\<And>r. r \<in> set rs \<Longrightarrow> raises E r) \<Longrightarrow> raises E (gather order rs)"
  by (cases "gather order rs") (auto dest!: gather_Inl dest: raisesD)

lemma raises_search_bonds [raises_intros]:
  "insert TypeError provider_errors \<subseteq> E \<Longrightarrow> raises E (search_bonds moex order query limit)"
  unfolding search_bonds_def by (auto intro!: raises_intros)

lemma raises_secid_of_isin [raises_intros]:
  "NoBondsFoundError \<in> E \<Longrightarrow> AttributeError \<in> E \<Longrightarrow> raises E (secid_of_isin folded rows)"
  by (induction rows) (auto simp: Let_def split: json.split)

lemma raises_coupon_pages [raises_intros]:
  "{TypeError, KeyError, OverflowError} \<union> provider_errors \<subseteq> E \<Longrightarrow>
   raises E (coupon_pages moex path n offset acc)"
  by (induction n arbitrary: offset acc) (auto intro!: raises_intros)

lemma raises_fetch_coupon_schedule:
  "raises ({NoBondsFoundError, TypeError, AttributeError, KeyError, OverflowError} \<union> provider_errors)
     (fetch_coupon_schedule moex isin)"
  unfolding fetch_coupon_schedule_def fetch_bondization_coupons_def resolve_bond_secid_def
  by (auto intro!: raises_intros)

section \<open>The pages of a schedule\<close>

text \<open>
  A provider that pages honestly: whatever the offset, it answers the next \<open>size\<close> rows of a schedule
  and a cursor with the number of all rows.
\<close>

definition serves_pages :: "moex \<Rightarrow> string \<Rightarrow> nat \<Rightarrow> row list \<Rightarrow> bool" where
  "serves_pages moex path page_size rows \<longleftrightarrow>
     (\<forall>offset. \<exists>payload. moex path [(''start'', PInt (int offset))] = Response 200 (Some payload)
        \<and> iss_rows_of payload ''coupons'' = Inr (take page_size (drop offset rows))
        \<and> cursor_total payload ''coupons.cursor'' = Inr (int (length rows)))"

lemma coupon_pages_serves:
  assumes "serves_pages moex path page_size rows" and "0 < page_size" and "acc = take (length acc) rows"
  shows "coupon_pages moex path n (int (length acc)) acc = Inr (take (length acc + n * page_size) rows)"
  using assms(3)
proof (induction n arbitrary: acc)
  case 0
  then show ?case by simp
next
  case (Suc n)
  let ?page = "take page_size (drop (length acc) rows)"
  obtain payload where p: "moex path [(''start'', PInt (int (length acc)))] = Response 200 (Some payload)"
    "iss_rows_of payload ''coupons'' = Inr ?page"
    "cursor_total payload ''coupons.cursor'' = Inr (int (length rows))"
    using assms(1) by (auto simp: serves_pages_def)
  have acc: "acc @ ?page = take (length acc + page_size) rows" by (subst Suc.prems) (simp only: take_add)
  show ?case
  proof (cases "length rows \<le> length acc + page_size")
    case True
    have "take (length acc + Suc n * page_size) rows = rows" "take (length acc + page_size) rows = rows"
      using True by simp_all
    moreover have "rows = [] \<Longrightarrow> acc = []" using Suc.prems by simp
    ultimately show ?thesis using p acc by (auto simp: get_json_def)
  next
    case False
    then have len: "length ?page = page_size" and "length (acc @ ?page) = length acc + page_size" by simp_all
    moreover have "?page \<noteq> []" "rows \<noteq> []" using len assms(2) by auto
    ultimately show ?thesis
      using p False acc Suc.IH [of "acc @ ?page"] by (simp add: get_json_def algebra_simps)
  qed
qed

lemma fetch_pages:
  assumes "resolve_bond_secid moex isin = Inr secid"
    and "serves_pages moex (BONDIZATION_PATH secid) page_size rows" and "0 < page_size"
  shows "fetch_coupon_schedule moex isin
    = coupon_schedule_from_block (take (BONDIZATION_MAX_PAGES * page_size) rows)"
  using assms coupon_pages_serves [OF assms(2,3), of "[]" BONDIZATION_MAX_PAGES]
  by (simp add: fetch_coupon_schedule_def fetch_bondization_coupons_def)

text \<open>
  The coupon schedule of a bond is read to its end: from a provider that pages honestly, with any
  page size, the client requests page after page until the cursor's total is reached and maps all the
  rows in the provider's order, at most the first hundred pages of them.
\<close>

theorem fetch_pages_complete:
  assumes "resolve_bond_secid moex isin = Inr secid"
    and "serves_pages moex (BONDIZATION_PATH secid) page_size rows" and "0 < page_size"
  shows "fetch_coupon_schedule moex isin
    = coupon_schedule_from_block (take (BONDIZATION_MAX_PAGES * page_size) rows)"
  by (rule fetch_pages [OF assms])

lemma map_result_take: "map_result f xs = Inr ys \<Longrightarrow> map_result f (take n xs) = Inr (take n ys)"
  by (induction xs arbitrary: n ys) (auto simp: bind_result_Inr_iff take_Cons split: nat.split)

lemma map_result_drop: "map_result f xs = Inr ys \<Longrightarrow> map_result f (drop n xs) = Inr (drop n ys)"
  by (induction xs arbitrary: n ys) (auto simp: bind_result_Inr_iff drop_Cons split: nat.split)

text \<open>A provider with one bond, whose coupons it serves two on a page.\<close>

definition toy_block :: "string \<Rightarrow> json list \<Rightarrow> json list \<Rightarrow> string \<times> json" where
  "toy_block name columns data = (name, JObj [(''columns'', JArr columns), (''data'', JArr data)])"

definition toy_page :: "json list \<Rightarrow> nat \<Rightarrow> json" where
  "toy_page coupons k = JObj
     [toy_block ''coupons'' [JStr ''coupondate'', JStr ''value''] (take 2 (drop k coupons)),
      toy_block ''coupons.cursor'' [JStr ''INDEX'', JStr ''TOTAL''] [JArr [JInt (int k), JInt (int (length coupons))]]]"

definition toy_found :: json where
  "toy_found = JObj [toy_block ''securities'' [JStr ''secid'', JStr ''isin'', JStr ''group'']
     [JArr [JStr ''S'', JStr ''I'', JStr ''stock_bonds'']]]"

definition toy_detail :: "json \<Rightarrow> json" where
  "toy_detail face = JObj [toy_block ''securities''
     [JStr ''ISIN'', JStr ''SHORTNAME'', JStr ''FACEVALUE'', JStr ''COUPONPERIOD'', JStr ''MATDATE'']
     [JArr [JStr ''I'', JStr ''Bond'', face, JInt 182, JStr ''2030-01-01'']]]"

definition toy_moex :: "json \<Rightarrow> json list \<Rightarrow> moex" where
  "toy_moex face coupons path params =
     (if path = SEARCH_PATH then Response 200 (Some toy_found)
      else case params of
             [(_, PInt k)] \<Rightarrow> Response 200 (Some (toy_page coupons (nat k)))
           | _ \<Rightarrow> Response 200 (Some (toy_detail face)))"

definition toy_row :: "string \<Rightarrow> int \<Rightarrow> row" where
  "toy_row d n = [''coupondate'' \<mapsto> JStr d, ''value'' \<mapsto> JInt n]"

definition toy_coupon :: "string \<Rightarrow> int \<Rightarrow> json" where
  "toy_coupon d n = JArr [JStr d, JInt n]"

lemma BONDIZATION_PATH_neq: "BONDIZATION_PATH secid \<noteq> SEARCH_PATH"
  by (simp add: BONDIZATION_PATH_def SEARCH_PATH_def)

lemma casefold_toy: "casefold ''i'' = ''i''" "casefold ''I'' = ''i''"
  by code_simp+

lemma toy_candidates:
  "search_candidates (toy_moex face coupons) query limit
     = Inr [[''secid'' \<mapsto> JStr ''S'', ''isin'' \<mapsto> JStr ''I'', ''group'' \<mapsto> JStr ''stock_bonds'']]"
  by (simp add: search_candidates_def get_json_def toy_moex_def toy_found_def toy_block_def
      iss_rows_of_def block_of_def entry_row_def dict_of_def is_bond_def get_def)

lemma toy_resolve: "resolve_bond_secid (toy_moex face coupons) ''i'' = Inr ''S''"
  by (simp add: resolve_bond_secid_def toy_candidates get_def casefold_toy)

lemma toy_entry_row: "entry_row [JStr ''coupondate'', JStr ''value''] (toy_coupon d n) = Inr (toy_row d n)"
  by (simp add: toy_coupon_def toy_row_def entry_row_def dict_of_def)

lemma toy_serves:
  "serves_pages (toy_moex face (map (\<lambda>(d, n). toy_coupon d n) cs)) (BONDIZATION_PATH secid) 2
     (map (\<lambda>(d, n). toy_row d n) cs)"
proof -
  have rows: "map_result (entry_row [JStr ''coupondate'', JStr ''value'']) (map (\<lambda>(d, n). toy_coupon d n) cs)
      = Inr (map (\<lambda>(d, n). toy_row d n) cs)"
    by (induction cs) (auto simp: toy_entry_row)
  show ?thesis
    unfolding serves_pages_def
    by (auto simp: toy_moex_def BONDIZATION_PATH_neq toy_page_def toy_block_def iss_rows_of_def block_of_def
        cursor_total_def map_result_take [OF map_result_drop [OF rows]] upper_def upper_char_def code_def)
qed

lemma toy_amount: "n \<in> {35, 36, 37} \<Longrightarrow> float_of_int n = Inr (Fin (of_int n))"
  by (auto simp: float_of_int_def float64_def is_finite64_def)

lemma toy_dates:
  "required_date (JStr ''2024-06-01'') = Inr (Date 739038)"
  "required_date (JStr ''20241130'') = Inr (Date 739220)"
  "required_date (JStr ''2025-06-01'') = Inr (Date 739403)"
  by code_simp+

lemma toy_entry:
  "required_date (JStr d) = Inr e \<Longrightarrow> n \<in> {35, 36, 37} \<Longrightarrow>
   schedule_entry_of (toy_row d n) = Inr \<lparr>se_date = e, se_amount = Fin (of_int n)\<rparr>"
  by (simp add: toy_row_def schedule_entry_of_def get_def COUPON_AMOUNT_COLUMNS_def toy_amount
      del: required_date.simps)

theorem fetch_pages_complete_witness:
  "fetch_coupon_schedule (toy_moex (JInt 1000)
       [toy_coupon ''2024-06-01'' 35, toy_coupon ''20241130'' 36, toy_coupon ''2025-06-01'' 37]) ''i'' = Inr
     [\<lparr>se_date = Date 739038, se_amount = Fin 35\<rparr>, \<lparr>se_date = Date 739220, se_amount = Fin 36\<rparr>,
      \<lparr>se_date = Date 739403, se_amount = Fin 37\<rparr>]"
  using fetch_pages_complete [OF toy_resolve
      toy_serves [of "JInt 1000" "[(''2024-06-01'', 35), (''20241130'', 36), (''2025-06-01'', 37)]"]]
  by (simp add: BONDIZATION_MAX_PAGES_def coupon_schedule_from_block_def toy_entry [OF toy_dates(1)]
      toy_entry [OF toy_dates(2)] toy_entry [OF toy_dates(3)])

end
