(* ===== verification/MarketData.thy ===== *)
theory MarketData
  imports MoexClient World "HOL-Library.AList"
begin

text \<open>
  \<open>market_data/service.py\<close>: the cached search, the lookup by ISIN, and the population of a bond's
  coupon schedule with its background tasks. Times are readings of \<open>time.monotonic\<close>, binary64 values.
  An \<open>await\<close> lets other operations run: what a search does before it asks the provider and what it
  does with the answer are separate definitions, and \<open>populate_coupons\<close> reads the bond in one
  database and writes into a later one.
\<close>

section \<open>State\<close>

record reference_service =
  rs_enabled :: bool
  rs_cache_ttl_s :: int
  rs_has_sessions :: bool
  rs_cache :: "((string \<times> int) \<times> (rat \<times> bond_reference list)) list"
  rs_populate_tasks :: "nat set"

definition ensure_enabled :: "reference_service \<Rightarrow> unit result" where
  "ensure_enabled s = (if rs_enabled s then Inr () else Inl ProviderUnavailableError)"

section \<open>Search\<close>

definition age :: "rat \<Rightarrow> rat \<Rightarrow> rat" where "age now t = fl64 (now - t)"

text \<open>A hit, or \<open>None\<close> where the provider has to be asked.\<close>

definition search_begin :: "rat \<Rightarrow> string \<times> int \<Rightarrow> reference_service \<Rightarrow> bond_reference list option result" where
  "search_begin now key s =
     bind_result (ensure_enabled s) (\<lambda>_.
       case map_of (rs_cache s) key of
         Some (t, references) \<Rightarrow> Inr (if age now t < of_int (rs_cache_ttl_s s) then Some references else None)
       | None \<Rightarrow> Inr None)"

definition references_of :: "row list \<Rightarrow> bond_reference list result" where
  "references_of rows = map_sum id (List.map_filter id) (map_result bond_reference_from_moex rows)"

definition search_fetch :: "moex \<Rightarrow> nat list \<Rightarrow> string \<times> int \<Rightarrow> bond_reference list result" where
  "search_fetch moex order key =
     bind_result (search_bonds moex order (fst key) (snd key)) references_of"

definition prune_expired :: "rat \<Rightarrow> reference_service \<Rightarrow> reference_service" where
  "prune_expired now s =
     s\<lparr>rs_cache := filter (\<lambda>(_, t, _). \<not> of_int (rs_cache_ttl_s s) \<le> age now t) (rs_cache s)\<rparr>"

definition search_end ::
    "rat \<Rightarrow> string \<times> int \<Rightarrow> bond_reference list \<Rightarrow> reference_service \<Rightarrow> reference_service" where
  "search_end now key references s =
     (let s' = prune_expired now s
      in s'\<lparr>rs_cache := AList.update key (now, references) (rs_cache s')\<rparr>)"

definition search ::
    "moex \<Rightarrow> nat list \<Rightarrow> rat \<Rightarrow> string \<times> int \<Rightarrow> reference_service \<Rightarrow> bond_reference list result \<times> reference_service" where
  "search moex order now key s =
     (case search_begin now key s of
        Inl e \<Rightarrow> (Inl e, s)
      | Inr (Some references) \<Rightarrow> (Inr references, s)
      | Inr None \<Rightarrow>
          (case search_fetch moex order key of
             Inl e \<Rightarrow> (Inl e, s)
           | Inr references \<Rightarrow> (Inr references, search_end now key references s)))"

definition SEARCH_LIMIT :: int where "SEARCH_LIMIT = 10"

definition find_reference :: "string \<Rightarrow> bond_reference list \<Rightarrow> bond_reference result" where
  "find_reference isin references =
     (case find (\<lambda>r. casefold (ref_isin r) = casefold isin) references of
        None \<Rightarrow> Inl NoBondsFoundError
      | Some r \<Rightarrow> Inr r)"

definition get_by_isin ::
    "moex \<Rightarrow> nat list \<Rightarrow> rat \<Rightarrow> string \<Rightarrow> reference_service \<Rightarrow> bond_reference result \<times> reference_service" where
  "get_by_isin moex order now isin s =
     (case ensure_enabled s of
        Inl e \<Rightarrow> (Inl e, s)
      | Inr _ \<Rightarrow>
          (case search moex order now (isin, SEARCH_LIMIT) s of
             (r, s') \<Rightarrow> (bind_result r (find_reference isin), s')))"

section \<open>Population of a schedule\<close>

definition bond_by_isin :: "string \<Rightarrow> database \<Rightarrow> bond_row option" where
  "bond_by_isin isin db = find (\<lambda>b. casefold (b_isin b) = casefold isin) (bonds db)"

text \<open>
  SQLite stores \<open>nan\<close> as \<open>NULL\<close>, which the column does not allow; the column of the model holds no
  infinity.
\<close>

fun coupon_row_of :: "int \<Rightarrow> int \<Rightarrow> schedule_entry \<Rightarrow> coupon_row result" where
  "coupon_row_of i bond_id e =
     (case se_amount e of
        Fin x \<Rightarrow> Inr \<lparr>c_id = i, c_bond_id = bond_id, c_date = se_date e, c_amount = x\<rparr>
      | NaN \<Rightarrow> Inl IntegrityError
      | Inf b \<Rightarrow> Inl Unmodelled)"

definition insert_coupon :: "coupon_row \<Rightarrow> database \<Rightarrow> database result" where
  "insert_coupon c db =
     (if c_id c \<in> c_id ` set (bond_coupons db)
         \<or> (c_bond_id c, c_date c) \<in> (\<lambda>c. (c_bond_id c, c_date c)) ` set (bond_coupons db)
         \<or> \<not> coupon_refs db c
      then Inl IntegrityError else Inr (db\<lparr>bond_coupons := add_row c (bond_coupons db)\<rparr>))"

text \<open>\<open>add_all\<close>: the rows in their order, with identifiers from the \<open>k\<close>-th new one on.\<close>

fun add_coupons :: "(nat \<Rightarrow> int) \<Rightarrow> nat \<Rightarrow> int \<Rightarrow> schedule_entry list \<Rightarrow> database \<Rightarrow> database result" where
  "add_coupons ids k bond_id [] db = Inr db"
| "add_coupons ids k bond_id (e # es) db =
     bind_result (coupon_row_of (ids k) bond_id e) (\<lambda>c.
     bind_result (insert_coupon c db) (add_coupons ids (Suc k) bond_id es))"

definition delete_coupons :: "int \<Rightarrow> database \<Rightarrow> database" where
  "delete_coupons bond_id db = db\<lparr>bond_coupons := filter (\<lambda>c. c_bond_id c \<noteq> bond_id) (bond_coupons db)\<rparr>"

definition populate_coupons ::
    "moex \<Rightarrow> reference_service \<Rightarrow> (nat \<Rightarrow> int) \<Rightarrow> string \<Rightarrow> database \<Rightarrow> int step" where
  "populate_coupons moex s ids isin db0 w =
     (case ensure_enabled s of
        Inl e \<Rightarrow> (Inl e, w)
      | Inr _ \<Rightarrow>
          (case bond_by_isin isin db0 of
             None \<Rightarrow> (Inl NoBondsFoundError, w)
           | Some bond \<Rightarrow>
               (case fetch_coupon_schedule moex isin of
                  Inl e \<Rightarrow> (Inl e, w)
                | Inr entries \<Rightarrow>
                    if entries = [] then (Inr 0, w)
                    else
                      (case add_coupons ids 0 (b_id bond) entries (delete_coupons (b_id bond) (w_db w)) of
                         Inl e \<Rightarrow> (Inl e, w)
                       | Inr db \<Rightarrow> (Inr (int (length entries)), w\<lparr>w_db := db\<rparr>)))))"

section \<open>Background tasks\<close>

definition schedule_populate_coupons :: "nat \<Rightarrow> reference_service \<Rightarrow> nat result \<times> reference_service" where
  "schedule_populate_coupons task s =
     (if \<not> rs_has_sessions s then (Inl RuntimeError, s)
      else (Inr task, s\<lparr>rs_populate_tasks := insert task (rs_populate_tasks s)\<rparr>))"

text \<open>The body of a task: no exception leaves it.\<close>

definition run_populate_coupons ::
    "moex \<Rightarrow> reference_service \<Rightarrow> (nat \<Rightarrow> int) \<Rightarrow> string \<Rightarrow> database \<Rightarrow> unit step" where
  "run_populate_coupons moex s ids isin db0 w =
     (if \<not> rs_has_sessions s then (Inl RuntimeError, w)
      else
        (case populate_coupons moex s ids isin db0 w of
           (r, w') \<Rightarrow> (if r = Inl Unmodelled then Inl Unmodelled else Inr (), w')))"

definition task_done :: "nat \<Rightarrow> reference_service \<Rightarrow> reference_service" where
  "task_done task s = s\<lparr>rs_populate_tasks := rs_populate_tasks s - {task}\<rparr>"

text \<open>The tasks that are cancelled, and the registry once they have settled.\<close>

definition shutdown :: "(nat \<Rightarrow> bool) \<Rightarrow> reference_service \<Rightarrow> nat set \<times> reference_service" where
  "shutdown settled s =
     (let outstanding = {t \<in> rs_populate_tasks s. \<not> settled t}
      in (outstanding, s\<lparr>rs_populate_tasks := rs_populate_tasks s - outstanding\<rparr>))"

section \<open>The statements keep the constraints\<close>

lemma insert_coupon_wf: "db_wf db \<Longrightarrow> insert_coupon c db = Inr db' \<Longrightarrow> db_wf db'"
  by (auto simp: insert_coupon_def wf_defs split: if_splits)

lemma delete_coupons_wf: "db_wf db \<Longrightarrow> db_wf (delete_coupons i db)"
  by (auto simp: delete_coupons_def wf_defs distinct_map_filter_keys)

lemma add_coupons_wf: "db_wf db \<Longrightarrow> add_coupons ids k b es db = Inr db' \<Longrightarrow> db_wf db'"
  by (induction es arbitrary: k db) (auto simp: bind_result_Inr_iff dest: insert_coupon_wf)

lemma populate_cases:
  obtains (kept) r where "populate_coupons moex s ids isin db0 w = (r, w)"
      "\<And>n. r = Inr n \<Longrightarrow> n = 0 \<and> fetch_coupon_schedule moex isin = Inr []"
  | (replaced) bond es db where
      "populate_coupons moex s ids isin db0 w = (Inr (int (length es)), w\<lparr>w_db := db\<rparr>)"
      "bond_by_isin isin db0 = Some bond" "fetch_coupon_schedule moex isin = Inr es" "es \<noteq> []"
      "add_coupons ids 0 (b_id bond) es (delete_coupons (b_id bond) (w_db w)) = Inr db"
proof -
  consider e where "ensure_enabled s = Inl e"
    | "ensure_enabled s = Inr ()" "bond_by_isin isin db0 = None"
    | bond e where "ensure_enabled s = Inr ()" "bond_by_isin isin db0 = Some bond"
        "fetch_coupon_schedule moex isin = Inl e"
    | bond es where "ensure_enabled s = Inr ()" "bond_by_isin isin db0 = Some bond"
        "fetch_coupon_schedule moex isin = Inr es"
    by (cases "ensure_enabled s"; cases "bond_by_isin isin db0"; cases "fetch_coupon_schedule moex isin") auto
  then show ?thesis
  proof cases
    case (4 bond es)
    show ?thesis
    proof (cases "es = []")
      case True
      then show ?thesis using 4 by (intro kept [of "Inr 0"]) (simp_all add: populate_coupons_def)
    next
      case False
      let ?r = "add_coupons ids 0 (b_id bond) es (delete_coupons (b_id bond) (w_db w))"
      show ?thesis
      proof (cases ?r)
        case (Inl e)
        then show ?thesis using 4 False by (intro kept [of "Inl e"]) (simp_all add: populate_coupons_def)
      next
        case (Inr db)
        then show ?thesis using 4 False by (intro replaced [of es db bond]) (simp_all add: populate_coupons_def)
      qed
    qed
  qed (rule kept, simp add: populate_coupons_def, simp)+
qed

interpretation populate: atomic_op "populate_coupons moex s ids isin db0" for moex s ids isin db0
proof unfold_locales
  fix w :: world
  assume wf: "db_wf (w_db w)"
  show "db_wf (w_db (snd (populate_coupons moex s ids isin db0 w)))"
  proof (rule populate_cases [of moex s ids isin db0 w])
    fix bond es db
    assume p: "populate_coupons moex s ids isin db0 w = (Inr (int (length es)), w\<lparr>w_db := db\<rparr>)"
      and a: "add_coupons ids 0 (b_id bond) es (delete_coupons (b_id bond) (w_db w)) = Inr db"
    show ?thesis using add_coupons_wf [OF delete_coupons_wf [OF wf] a] p by simp
  qed (use wf in simp)
next
  fix w :: world
  show "bus_grows (w_bus w) (w_bus (snd (populate_coupons moex s ids isin db0 w)))"
    by (rule populate_cases [of moex s ids isin db0 w]) simp_all
  show "w_db (snd (populate_coupons moex s ids isin db0 w)) = w_db w"
    if "fst (populate_coupons moex s ids isin db0 w) = Inl e" for e
    by (rule populate_cases [of moex s ids isin db0 w]) (use that in simp_all)
qed

section \<open>What a population leaves\<close>

text \<open>The schedule of a bond in the database, and the one the provider answered.\<close>

definition stored_schedule :: "int \<Rightarrow> database \<Rightarrow> (date \<times> pyfloat) list" where
  "stored_schedule bond_id db =
     map (\<lambda>c. (c_date c, Fin (c_amount c))) (filter (\<lambda>c. c_bond_id c = bond_id) (bond_coupons db))"

definition entry_pairs :: "schedule_entry list \<Rightarrow> (date \<times> pyfloat) list" where
  "entry_pairs es = map (\<lambda>e. (se_date e, se_amount e)) es"

lemma add_coupons_Inr:
  assumes "add_coupons ids k b es db = Inr db'"
  obtains cs where "db' = db\<lparr>bond_coupons := bond_coupons db @ cs\<rparr>" "\<forall>c \<in> set cs. c_bond_id c = b"
    "map (\<lambda>c. (c_date c, Fin (c_amount c))) cs = entry_pairs es"
  using assms
proof (induction es arbitrary: k db thesis)
  case Nil
  then show ?case by (simp add: entry_pairs_def)
next
  case (Cons e es)
  obtain x where x: "se_amount e = Fin x"
    and rest: "bind_result (insert_coupon \<lparr>c_id = ids k, c_bond_id = b, c_date = se_date e, c_amount = x\<rparr> db)
      (add_coupons ids (Suc k) b es) = Inr db'"
    using Cons.prems(2) by (auto simp: bind_result_Inr_iff split: pyfloat.splits)
  let ?c = "\<lparr>c_id = ids k, c_bond_id = b, c_date = se_date e, c_amount = x\<rparr>"
  have next_rows: "add_coupons ids (Suc k) b es (db\<lparr>bond_coupons := bond_coupons db @ [?c]\<rparr>) = Inr db'"
    using rest by (auto simp: insert_coupon_def add_row_def split: if_splits)
  obtain cs where cs: "db' = db\<lparr>bond_coupons := (bond_coupons db @ [?c]) @ cs\<rparr>"
    "\<forall>c \<in> set cs. c_bond_id c = b" "map (\<lambda>c. (c_date c, Fin (c_amount c))) cs = entry_pairs es"
    using Cons.IH [OF _ next_rows] by auto
  show ?case by (rule Cons.prems(1) [of "?c # cs"]) (use cs x in \<open>simp_all add: entry_pairs_def\<close>)
qed

lemma stored_schedule_replaced:
  assumes "add_coupons ids k b es (delete_coupons b db) = Inr db'"
  shows "stored_schedule b db' = entry_pairs es"
    and "i \<noteq> b \<Longrightarrow> stored_schedule i db' = stored_schedule i db"
    and "db' = db\<lparr>bond_coupons := bond_coupons db'\<rparr>"
proof -
  obtain cs where cs: "db' = (delete_coupons b db)\<lparr>bond_coupons := bond_coupons (delete_coupons b db) @ cs\<rparr>"
    "\<forall>c \<in> set cs. c_bond_id c = b" "map (\<lambda>c. (c_date c, Fin (c_amount c))) cs = entry_pairs es"
    by (rule add_coupons_Inr [OF assms])
  have mine: "filter (\<lambda>c. c_bond_id c = b) cs = cs" using cs(2) by (simp add: filter_id_conv)
  have other: "i \<noteq> b \<Longrightarrow> filter (\<lambda>c. c_bond_id c = i) cs = []" for i
    using cs(2) by (auto simp: filter_empty_conv)
  have none: "filter (\<lambda>c. c_bond_id c = b \<and> c_bond_id c \<noteq> b) xs = []" for xs :: "coupon_row list"
    by (induction xs) auto
  show "stored_schedule b db' = entry_pairs es"
    using cs(1,3) by (simp add: stored_schedule_def delete_coupons_def mine none)
  have "i \<noteq> b \<Longrightarrow> filter (\<lambda>c. c_bond_id c = i \<and> c_bond_id c \<noteq> b) xs = filter (\<lambda>c. c_bond_id c = i) xs"
    for xs :: "coupon_row list"
    by (auto intro: filter_cong)
  then show "i \<noteq> b \<Longrightarrow> stored_schedule i db' = stored_schedule i db"
    using cs(1) by (simp add: stored_schedule_def delete_coupons_def other conj_commute)
  show "db' = db\<lparr>bond_coupons := bond_coupons db'\<rparr>" using cs(1) by (simp add: delete_coupons_def)
qed

text \<open>When the rows can be stored: the dates differ and are new, and no amount is \<open>nan\<close>.\<close>

definition storable :: "int \<Rightarrow> database \<Rightarrow> schedule_entry list \<Rightarrow> bool" where
  "storable b db es \<longleftrightarrow> distinct (map se_date es) \<and> (\<forall>e \<in> set es. se_amount e \<noteq> NaN)
     \<and> (\<forall>e \<in> set es. \<forall>c \<in> set (bond_coupons db). c_bond_id c = b \<longrightarrow> c_date c \<noteq> se_date e)"

lemma add_coupons_outcome:
  assumes "inj ids" and "\<forall>n \<ge> k. ids n \<notin> c_id ` set (bond_coupons db)" and "b \<in> b_id ` set (bonds db)"
    and "\<forall>e \<in> set es. \<forall>sign. se_amount e \<noteq> Inf sign"
  shows "if storable b db es then \<exists>db'. add_coupons ids k b es db = Inr db'
         else add_coupons ids k b es db = Inl IntegrityError"
  using assms(2-4)
proof (induction es arbitrary: k db)
  case Nil
  then show ?case by (simp add: storable_def)
next
  case (Cons e es)
  have fresh: "ids k \<notin> c_id ` set (bond_coupons db)" using Cons.prems(1) by simp
  show ?case
  proof (cases "se_amount e")
    case NaN
    then show ?thesis by (simp add: storable_def)
  next
    case (Inf sign)
    then show ?thesis using Cons.prems(3) by auto
  next
    case (Fin x)
    let ?c = "\<lparr>c_id = ids k, c_bond_id = b, c_date = se_date e, c_amount = x\<rparr>"
    let ?db = "db\<lparr>bond_coupons := bond_coupons db @ [?c]\<rparr>"
    let ?taken = "\<exists>c \<in> set (bond_coupons db). c_bond_id c = b \<and> c_date c = se_date e"
    have new: "\<forall>n \<ge> Suc k. ids n \<notin> c_id ` set (bond_coupons ?db)"
      using Cons.prems(1) assms(1) by (auto dest: injD)
    have taken: "(b, se_date e) \<in> (\<lambda>c. (c_bond_id c, c_date c)) ` set (bond_coupons db) \<longleftrightarrow> ?taken"
      by (auto simp: image_iff)
    have one: "insert_coupon ?c db = (if ?taken then Inl IntegrityError else Inr ?db)"
      using fresh Cons.prems(2) by (simp add: insert_coupon_def coupon_refs_def add_row_def taken)
    have "storable b db (e # es) \<longleftrightarrow> \<not> ?taken \<and> storable b ?db es"
      using Fin by (auto simp: storable_def)
    then show ?thesis using Cons.IH [OF new] Cons.prems(2,3) Fin one by (cases ?taken) simp_all
  qed
qed

text \<open>
  A population replaces the schedule of its bond, or leaves the world as it was. On success the
  stored schedule of that bond is the provider's, entry for entry, and nothing else in the database
  has changed; an empty schedule removes nothing and answers 0. On any exception, and whatever other
  operations did while the provider was asked, the database keeps its rows. Nothing is published, so
  no cached summary is recalculated.
\<close>

theorem populate_replaces_schedule:
  "case populate_coupons moex s ids isin db0 w of
     (Inl e, w') \<Rightarrow> w' = w
   | (Inr n, w') \<Rightarrow>
       (\<exists>es. fetch_coupon_schedule moex isin = Inr es \<and> n = int (length es)
          \<and> (if es = [] then w' = w
             else \<exists>bond db'. bond_by_isin isin db0 = Some bond \<and> w' = w\<lparr>w_db := db'\<rparr>
               \<and> db' = (w_db w)\<lparr>bond_coupons := bond_coupons db'\<rparr>
               \<and> stored_schedule (b_id bond) db' = entry_pairs es
               \<and> (\<forall>i. i = b_id bond \<or> stored_schedule i db' = stored_schedule i (w_db w))))"
proof (rule populate_cases [of moex s ids isin db0 w])
  fix r assume "populate_coupons moex s ids isin db0 w = (r, w)"
    and "\<And>n. r = Inr n \<Longrightarrow> n = 0 \<and> fetch_coupon_schedule moex isin = Inr []"
  then show ?thesis by (cases r) simp_all
next
  fix bond es db
  assume p: "populate_coupons moex s ids isin db0 w = (Inr (int (length es)), w\<lparr>w_db := db\<rparr>)"
    and b: "bond_by_isin isin db0 = Some bond" and f: "fetch_coupon_schedule moex isin = Inr es"
    and a: "add_coupons ids 0 (b_id bond) es (delete_coupons (b_id bond) (w_db w)) = Inr db"
  assume "es \<noteq> []"
  then show ?thesis
    using p b f stored_schedule_replaced [OF a] by (auto intro!: exI [of _ bond] exI [of _ db])
qed

text \<open>
  A schedule in which the provider lists a date twice, or an amount of \<open>nan\<close>, cannot be stored:
  the commit fails with \<open>IntegrityError\<close>, which is no error of the provider contract, and the bond
  keeps its old schedule. Every other schedule with finite amounts is stored.
\<close>

theorem populate_needs_distinct_dates:
  assumes "rs_enabled s" and "bond_by_isin isin db0 = Some bond"
    and "fetch_coupon_schedule moex isin = Inr es" and "es \<noteq> []"
    and "b_id bond \<in> b_id ` set (bonds (w_db w))" and "inj ids"
    and "\<forall>n. ids n \<notin> c_id ` set (bond_coupons (w_db w))"
    and "\<forall>e \<in> set es. \<forall>sign. se_amount e \<noteq> Inf sign"
  shows "fst (populate_coupons moex s ids isin db0 w)
    = (if distinct (map se_date es) \<and> NaN \<notin> se_amount ` set es then Inr (int (length es))
       else Inl IntegrityError)"
proof -
  let ?db = "delete_coupons (b_id bond) (w_db w)"
  have "\<forall>n \<ge> 0. ids n \<notin> c_id ` set (bond_coupons ?db)" using assms(7) by (auto simp: delete_coupons_def)
  moreover have "b_id bond \<in> b_id ` set (bonds ?db)" using assms(5) by (simp add: delete_coupons_def)
  moreover have "NaN \<notin> se_amount ` set es \<longleftrightarrow> (\<forall>e \<in> set es. se_amount e \<noteq> NaN)" by (metis image_iff)
  then have "storable (b_id bond) ?db es \<longleftrightarrow> distinct (map se_date es) \<and> NaN \<notin> se_amount ` set es"
    by (auto simp: storable_def delete_coupons_def)
  ultimately show ?thesis
    using add_coupons_outcome [OF assms(6) _ _ assms(8), of 0 ?db "b_id bond"] assms(1-4)
    by (auto simp: populate_coupons_def ensure_enabled_def split: if_splits)
qed

section \<open>What a cached search answers\<close>

text \<open>
  The states of the cache: every search that asked the provider stores its answer when it ends, in
  whatever order the searches end. \<open>moex\<close> and \<open>order\<close> may change with the time.
\<close>

inductive cache_reachable ::
    "(rat \<Rightarrow> moex) \<Rightarrow> (rat \<Rightarrow> nat list) \<Rightarrow> reference_service \<Rightarrow> reference_service \<Rightarrow> bool"
  for moex order s0 where
  start: "cache_reachable moex order s0 (s0\<lparr>rs_cache := []\<rparr>)"
| ended: "cache_reachable moex order s0 s \<Longrightarrow> search_fetch (moex t) (order t) key = Inr references \<Longrightarrow>
    cache_reachable moex order s0 (search_end t key references s)"

lemma map_of_filter_Some:
  "distinct (map fst al) \<Longrightarrow> map_of (filter P al) k = Some v \<Longrightarrow> map_of al k = Some v \<and> P (k, v)"
  by (simp add: map_of_eq_Some_iff distinct_map_filter_keys)

lemma search_end_cache:
  "rs_cache (search_end t key refs s)
     = AList.update key (t, refs) (filter (\<lambda>(_, u, _). age t u < of_int (rs_cache_ttl_s s)) (rs_cache s))"
  by (simp add: search_end_def prune_expired_def Let_def not_le)

lemma cache_reachable_entries:
  assumes "cache_reachable moex order s0 s"
  shows "distinct (map fst (rs_cache s)) \<and>
    (\<forall>key t refs. map_of (rs_cache s) key = Some (t, refs) \<longrightarrow> search_fetch (moex t) (order t) key = Inr refs)"
  using assms
proof induction
  case start
  then show ?case by simp
next
  case (ended s t key references)
  have d: "distinct (map fst (rs_cache s))" using ended.IH by simp
  show ?case
    using ended map_of_filter_Some [OF d]
    by (auto simp: search_end_cache update_conv' distinct_update d distinct_map_filter_keys split: if_splits)
qed

text \<open>
  What a search answers is what the provider answered to the same query and limit, either now or
  less than the configured lifetime ago, whatever searches ran before or while it waited; and once the
  provider was asked, no other entry older than the lifetime is left in the cache.
\<close>

theorem search_serves_recent_answer:
  assumes "cache_reachable moex order s0 s"
    and "search (moex now) (order now) now key s = (Inr references, s')"
  shows "cache_reachable moex order s0 s' \<and>
    (\<exists>t. (t = now \<or> age now t < of_int (rs_cache_ttl_s s)) \<and>
         search_fetch (moex t) (order t) key = Inr references) \<and>
    (s' = s \<or> (\<forall>x \<in> set (rs_cache s'). fst x = key \<or> age now (fst (snd x)) < of_int (rs_cache_ttl_s s)))"
proof (cases "search_begin now key s")
  case (Inl e)
  then show ?thesis using assms(2) by (simp add: search_def)
next
  case (Inr hit)
  show ?thesis
  proof (cases hit)
    case (Some refs)
    then obtain t where t: "map_of (rs_cache s) key = Some (t, refs)" "age now t < of_int (rs_cache_ttl_s s)"
      using Inr by (auto simp: search_begin_def bind_result_Inr_iff split: option.splits if_splits)
    have "search_fetch (moex t) (order t) key = Inr refs"
      using cache_reachable_entries [OF assms(1)] t(1) by blast
    then show ?thesis using Some Inr assms t(2) by (auto simp: search_def)
  next
    case None
    then have f: "search_fetch (moex now) (order now) key = Inr references"
      and s': "s' = search_end now key references s"
      using Inr assms(2) by (auto simp: search_def split: sum.splits)
    have "fst x = key \<or> age now (fst (snd x)) < of_int (rs_cache_ttl_s s)"
      if x: "x \<in> set (rs_cache s')" for x
    proof -
      have d: "distinct (map fst (rs_cache s))" using cache_reachable_entries [OF assms(1)] by simp
      then have "map_of (rs_cache s') (fst x) = Some (snd x)"
        using x unfolding s' search_end_cache
        by (intro map_of_is_SomeI distinct_update distinct_map_filter_keys) simp_all
      then show ?thesis
        using map_of_filter_Some [OF d] unfolding s' search_end_cache
        by (cases x) (fastforce simp: update_conv' split: if_splits)
    qed
    then show ?thesis using f ended [OF assms(1) f] s' by auto
  qed
qed

text \<open>Which exceptions a search can end with, beyond those of the provider contract.\<close>

lemma raises_search:
  "fst (search moex order now key s) = Inl e \<Longrightarrow>
   e \<in> {TypeError, ValueError, OverflowError} \<union> provider_errors"
proof -
  have "raises ({TypeError, ValueError, OverflowError} \<union> provider_errors) (search_fetch moex order key)"
    unfolding search_fetch_def references_of_def
    by (intro raises_intros) (auto intro: raises_mono [OF raises_bond_reference])
  then show "fst (search moex order now key s) = Inl e \<Longrightarrow> ?thesis"
    by (auto simp: search_def search_begin_def ensure_enabled_def raises_def
        split: sum.splits option.splits if_splits)
qed

text \<open>
  One row can fail a whole search with an exception outside the contract: where the face value of
  a row that is otherwise readable is \<open>nan\<close> or infinite, as a text such as \<open>nan\<close> is, the search raises
  \<open>ValueError\<close> or \<open>OverflowError\<close>, and not an error of the provider; it caches nothing.
\<close>

theorem face_value_fails_search:
  assumes "search_begin now key s = Inr None"
    and "search_bonds moex order (fst key) (snd key) = Inr (earlier @ row # later)"
    and "map_result bond_reference_from_moex earlier = Inr refs"
    and "maturity_date_of (get row ''MATDATE'') = Inr (Some d)"
    and "required_str (get row ''ISIN'') = Inr isin" and "required_str (get row ''SHORTNAME'') = Inr name"
    and "to_number (get row ''FACEVALUE'') = Inr (Some x)" and "x \<notin> range Fin"
  shows "search moex order now key s = (Inl (if x = NaN then ValueError else OverflowError), s)"
proof -
  have "int_of_float x = Inl (if x = NaN then ValueError else OverflowError)"
    using assms(8) by (cases x) auto
  then have row: "bond_reference_from_moex row = Inl (if x = NaN then ValueError else OverflowError)"
    using assms(4-7) by (simp add: bond_reference_from_moex_def required_int_def)
  have "map_result bond_reference_from_moex (earlier @ row # later)
      = Inl (if x = NaN then ValueError else OverflowError)"
    using assms(3) row by (induction earlier arbitrary: refs) (auto simp: bind_result_Inr_iff)
  then show ?thesis
    using assms(1,2) by (simp add: search_def search_fetch_def references_of_def)
qed

section \<open>Witnesses\<close>

definition toy_service :: reference_service where
  "toy_service = \<lparr>rs_enabled = True, rs_cache_ttl_s = 300, rs_has_sessions = True, rs_cache = [],
     rs_populate_tasks = {}\<rparr>"

definition toy_bond :: bond_row where
  "toy_bond = \<lparr>b_id = 4, b_owner_id = 1, b_isin = ''I'', b_name = ''Bond'', b_nominal = 1000, b_coupon_rate = 7,
     b_coupon_period_days = 182, b_maturity_date = Date 739403, b_issuer = None\<rparr>"

definition toy_world :: world where
  "toy_world = \<lparr>w_db = empty_db\<lparr>bonds := [toy_bond],
     bond_coupons := [\<lparr>c_id = 9, c_bond_id = 4, c_date = Date 739403, c_amount = 30\<rparr>]\<rparr>, w_bus = bus_init 0\<rparr>"

definition toy_twice :: "json list" where
  "toy_twice = [toy_coupon ''2024-06-01'' 35, toy_coupon ''2024-06-01'' 36]"

lemma toy_twice_schedule:
  "fetch_coupon_schedule (toy_moex face toy_twice) ''i'' = Inr
     [\<lparr>se_date = Date 739038, se_amount = Fin 35\<rparr>, \<lparr>se_date = Date 739038, se_amount = Fin 36\<rparr>]"
  using fetch_pages [OF toy_resolve toy_serves [of face "[(''2024-06-01'', 35), (''2024-06-01'', 36)]"]]
  by (simp add: BONDIZATION_MAX_PAGES_def coupon_schedule_from_block_def toy_entry [OF toy_dates(1)] toy_twice_def)

theorem populate_needs_distinct_dates_witness:
  "fst (populate_coupons (toy_moex (JInt 1000) toy_twice) toy_service (\<lambda>k. 10 + int k) ''i''
     (w_db toy_world) toy_world) = Inl IntegrityError"
proof -
  have b: "bond_by_isin ''i'' (w_db toy_world) = Some toy_bond"
    by (simp add: bond_by_isin_def toy_world_def toy_bond_def casefold_toy empty_db_def)
  show ?thesis
    using populate_needs_distinct_dates [OF _ b toy_twice_schedule, of toy_service toy_world "\<lambda>k. 10 + int k"]
    by (simp add: toy_service_def toy_world_def toy_bond_def inj_on_def empty_db_def)
qed

lemma toy_search:
  "search_bonds (toy_moex face coupons) [] ''i'' 10 = Inr [merged
     [''secid'' \<mapsto> JStr ''S'', ''isin'' \<mapsto> JStr ''I'', ''group'' \<mapsto> JStr ''stock_bonds''] ''S''
     [''ISIN'' \<mapsto> JStr ''I'', ''SHORTNAME'' \<mapsto> JStr ''Bond'', ''FACEVALUE'' \<mapsto> face,
      ''COUPONPERIOD'' \<mapsto> JInt 182, ''MATDATE'' \<mapsto> JStr ''2030-01-01'']]"
  by (simp add: search_bonds_def toy_candidates gather_def load_bond_row_def get_def get_json_def toy_moex_def
      BOND_DETAIL_PATH_def SEARCH_PATH_def toy_detail_def toy_block_def iss_rows_of_def block_of_def entry_row_def
      dict_of_def)

theorem face_value_fails_search_witness:
  "search (toy_moex (JStr ''nan'') []) [] 0 (''i'', 10) toy_service = (Inl ValueError, toy_service)"
proof -
  have m: "search_begin 0 (''i'', 10) toy_service = Inr None"
    by (simp add: search_begin_def toy_service_def ensure_enabled_def)
  have d: "maturity_date_of (JStr ''2030-01-01'') = Inr (Some (Date 741078))" by code_simp
  have t: "required_str (JStr ''I'') = Inr ''I''" "required_str (JStr ''Bond'') = Inr ''Bond''"
    "to_number (JStr ''nan'') = Inr (Some NaN)"
    by code_simp+
  have x: "NaN \<notin> range Fin" by auto
  show ?thesis
    using face_value_fails_search [of 0 "(''i'', 10)" toy_service _ "[]" "[]", OF m, simplified, OF toy_search [of "JStr ''nan''" "[]"]]
    by (simp add: merged_def setdefault_def get_def d t x del: maturity_date_of.simps required_str.simps to_number.simps)
qed

definition toy_reference :: bond_reference where
  "toy_reference = \<lparr>ref_isin = ''I'', ref_name = ''Bond'', ref_nominal = 1000, ref_coupon_rate = Fin 0,
     ref_coupon_period_days = 182, ref_maturity_date = Date 741078, ref_issuer = None\<rparr>"

lemma toy_references: "search_fetch (toy_moex (JInt 1000) coupons) [] (''i'', 10) = Inr [toy_reference]"
proof -
  have d: "maturity_date_of (JStr ''2030-01-01'') = Inr (Some (Date 741078))"
    "required_str (JStr ''I'') = Inr ''I''" "required_str (JStr ''Bond'') = Inr ''Bond''"
    by code_simp+
  have n: "float_of_int 1000 = Inr (Fin 1000)" "float_of_int 182 = Inr (Fin 182)"
    by (simp_all add: float_of_int_def float64_def is_finite64_def)
  show ?thesis
    by (simp add: search_fetch_def toy_search references_of_def bond_reference_from_moex_def merged_def
        setdefault_def get_def d required_int_def optional_number_def coupon_period_days_of_def n
        toy_reference_def List.map_filter_def del: maturity_date_of.simps required_str.simps)
qed

text \<open>The provider stops answering; the search still finds what it answered before.\<close>

theorem search_serves_recent_answer_witness:
  "\<exists>s. search (\<lambda>_ _. GetTimeout) [] 100 (''i'', 10) s = (Inr [toy_reference], s) \<and>
     (\<exists>t. age 100 t < 300 \<and>
        search_fetch (if t < 50 then toy_moex (JInt 1000) [] else (\<lambda>_ _. GetTimeout)) [] (''i'', 10) = Inr [toy_reference])"
proof -
  let ?moex = "\<lambda>t :: rat. if t < 50 then toy_moex (JInt 1000) [] else (\<lambda>_ _. GetTimeout)"
  let ?s = "search_end 0 (''i'', 10) [toy_reference] (toy_service\<lparr>rs_cache := []\<rparr>)"
  have r: "cache_reachable ?moex (\<lambda>_. []) toy_service ?s"
    by (rule ended [OF start]) (simp add: toy_references)
  have hit: "search (?moex 100) [] 100 (''i'', 10) ?s = (Inr [toy_reference], ?s)"
    by (simp add: search_def search_begin_def ensure_enabled_def search_end_def prune_expired_def Let_def
        toy_service_def age_def)
  have ttl: "rs_cache_ttl_s ?s = 300" by (simp add: search_end_def prune_expired_def Let_def toy_service_def)
  have "age 100 100 < 300" by (simp add: age_def)
  then obtain t where "age 100 t < 300" "search_fetch (?moex t) [] (''i'', 10) = Inr [toy_reference]"
    using search_serves_recent_answer [OF r hit] ttl by auto
  then show ?thesis using hit by auto
qed

end
