(* ===== verification/Api.thy ===== *)
theory Api
  imports Analytics Auth MarketData
begin

text \<open>
  \<open>api/deps.py\<close> and \<open>api/router.py\<close>: the REST interface over the services. A request is one
  constructor per route with its validated parameters; \<open>handle\<close> resolves the caller from the bearer
  token, applies the constraints FastAPI checks (422), runs the handler and maps an exception to a
  status. The state is what the services keep: the world, the cache of the summaries and the
  reference service. What the packages and the clock supply to one call is in \<open>server\<close> and \<open>call\<close>.
  Routing, the texts of the details and the encoding of the answers are left out.
\<close>

section \<open>State and requests\<close>

record app =
  ap_world :: world
  ap_summaries :: cache
  ap_references :: reference_service

record server =
  sv_config :: auth_config
  sv_hashpw :: "int list \<Rightarrow> string \<Rightarrow> string option"
  sv_checkpw :: "int list \<Rightarrow> string \<Rightarrow> bool option"
  sv_jwt_encode :: "claims \<Rightarrow> string \<Rightarrow> string \<Rightarrow> string option"
  sv_jwt_decode :: "int \<Rightarrow> string \<Rightarrow> string \<Rightarrow> string \<Rightarrow> claims option"
  sv_pow :: "rat \<Rightarrow> rat \<Rightarrow> rat"
  sv_moex :: moex

record call =
  cl_env :: env
  cl_salt :: string
  cl_monotonic :: rat
  cl_order :: "nat list"
  cl_task :: nat
  cl_uuid :: string

datatype request =
    RegisterUser string "int list"
  | Login string "int list"
  | ListBonds
  | CreateBond bond_create
  | GetBond int
  | UpdateBond int bond_update
  | DeleteBond int
  | SearchBondReferences string int
  | GetBondReference string
  | GetBondCoupons string
  | SyncBondCoupons string
  | ListBrokers
  | CreateBroker broker_create
  | GetBroker int
  | UpdateBroker int broker_update
  | DeleteBroker int
  | ListBrokerAccounts
  | CreateBrokerAccount account_create
  | GetBrokerAccount int
  | UpdateBrokerAccount int account_update
  | DeleteBrokerAccount int
  | ListTransactions "int option" "int option"
  | CreateTransaction txn_create
  | GetTransaction int
  | UpdateTransaction int txn_update
  | DeleteTransaction int
  | ListAccountOperations "int option"
  | CreateAccountOperation op_create
  | GetAccountOperation int
  | UpdateAccountOperation int op_update
  | DeleteAccountOperation int
  | GetPortfolio query
  | GetPortfolioPositions "int option"
  | GetBondYield int

datatype body =
    UserResponse int string
  | TokenResponse string
  | BondBody bond_row
  | BondsBody "bond_row list"
  | ReferenceBody bond_reference
  | ReferencesBody "bond_reference list"
  | CouponsBody "(date \<times> rat) list"
  | SyncCouponsResponse string
  | BrokerBody broker_row
  | BrokersBody "broker_row list"
  | AccountBody account_dto
  | AccountsBody "account_dto list"
  | TransactionBody txn_row
  | TransactionsBody "txn_row list"
  | OperationBody op_row
  | OperationsBody "op_row list"
  | SummaryBody summary
  | PositionsBody "position list"
  | AnalyticsBody position_analytics
  | NoContent
  | Detail

datatype answer = Answer (status: int) (content: body)

section \<open>Errors\<close>

definition exception_handlers :: "(error \<times> int) list" where
  "exception_handlers =
     [(BondNotFoundError, 404), (BondIsinDuplicateError, 409), (BondDeletionBlockedError, 409),
      (BondNotOwnedError, 403), (NoBondsFoundError, 404), (ProviderUnavailableError, 503),
      (ProviderTimeoutError, 503), (BrokerNotFoundError, 404), (BrokerAccountNotFoundError, 404),
      (BrokerHasAccountsError, 409), (BrokerNameDuplicateError, 409),
      (BrokerAccountHasTransactionsError, 409), (BrokerAccountHasOperationsError, 409),
      (AccountOperationForbiddenError, 403), (InsufficientPositionError, 422),
      (InvalidTransactionError, 400), (TransactionForbiddenError, 403), (UsernameTakenError, 409),
      (InvalidCredentialsError, 401), (AuthError, 400)]"

text \<open>The classes with a handler among those an exception is an instance of, most specific first.\<close>

fun classes_of :: "error \<Rightarrow> error list" where
  "classes_of UsernameTakenError = [UsernameTakenError, AuthError]"
| "classes_of InvalidCredentialsError = [InvalidCredentialsError, AuthError]"
| "classes_of e = [e]"

fun status_of_error :: "error \<Rightarrow> int" where
  "status_of_error (HTTPException st) = st"
| "status_of_error e = (case List.map_filter (map_of exception_handlers) (classes_of e) of st # _ \<Rightarrow> st | [] \<Rightarrow> 500)"

definition get_current_user_id :: "server \<Rightarrow> call \<Rightarrow> string option \<Rightarrow> int result" where
  "get_current_user_id sv cl credentials =
     (case credentials of
        None \<Rightarrow> Inl (HTTPException 401)
      | Some token \<Rightarrow>
          (case verify_token (sv_jwt_decode sv) (sv_config sv) (e_now (cl_env cl)) token of
             Inl e \<Rightarrow> Inl (if e = JwtError then HTTPException 401 else e)
           | Inr p \<Rightarrow> Inr (tp_user_id p)))"

section \<open>Handlers\<close>

type_synonym handler = "app \<Rightarrow> body result \<times> app"

abbreviation db_of :: "app \<Rightarrow> database" where "db_of s \<equiv> w_db (ap_world s)"

text \<open>A read of the database, an operation of a service, and what is made of its result.\<close>

definition read :: "(database \<Rightarrow> body result) \<Rightarrow> handler" where
  "read f s = (f (db_of s), s)"

definition run :: "'a step \<Rightarrow> ('a \<Rightarrow> body result) \<Rightarrow> handler" where
  "run f g s = (case f (ap_world s) of (r, w) \<Rightarrow> (bind_result r g, s\<lparr>ap_world := w\<rparr>))"

definition found :: "('a \<Rightarrow> body) \<Rightarrow> 'a option \<Rightarrow> body result" where
  "found f x = (case x of None \<Rightarrow> Inl (HTTPException 404) | Some y \<Rightarrow> Inr (f y))"

definition deleted :: "bool \<Rightarrow> body result" where
  "deleted ok = (if \<not> ok then Inl (HTTPException 404) else Inr NoContent)"

subsection \<open>Authentication\<close>

definition register_user :: "server \<Rightarrow> call \<Rightarrow> string \<Rightarrow> int list \<Rightarrow> handler" where
  "register_user sv cl username pw =
     run (register (sv_hashpw sv) (cl_salt cl) (cl_env cl) username pw)
       (\<lambda>user. Inr (UserResponse (u_id user) (u_username user)))"

definition login_user :: "server \<Rightarrow> call \<Rightarrow> string \<Rightarrow> int list \<Rightarrow> handler" where
  "login_user sv cl username pw =
     read (\<lambda>db. map_sum id TokenResponse
       (login (sv_checkpw sv) (sv_jwt_encode sv) (sv_config sv) (e_now (cl_env cl)) username pw db))"

subsection \<open>Bonds\<close>

definition list_bonds :: handler where
  "list_bonds = read (\<lambda>db. Inr (BondsBody (list_all_bonds db)))"

text \<open>An exception of the scheduling is logged and swallowed.\<close>

definition schedule_quietly :: "call \<Rightarrow> app \<Rightarrow> app" where
  "schedule_quietly cl s =
     s\<lparr>ap_references := snd (schedule_populate_coupons (cl_task cl) (ap_references s))\<rparr>"

definition create_bond_endpoint :: "call \<Rightarrow> int \<Rightarrow> bond_create \<Rightarrow> handler" where
  "create_bond_endpoint cl user_id d s =
     (case run (create_bond (cl_env cl) d user_id) (\<lambda>bond. Inr (BondBody bond)) s of
        (Inl e, s') \<Rightarrow> (Inl e, s')
      | (Inr b, s') \<Rightarrow> (Inr b, schedule_quietly cl s'))"

definition get_bond_endpoint :: "int \<Rightarrow> handler" where
  "get_bond_endpoint bond_id = read (\<lambda>db. found BondBody (get_bond bond_id db))"

definition update_bond_endpoint :: "call \<Rightarrow> int \<Rightarrow> int \<Rightarrow> bond_update \<Rightarrow> handler" where
  "update_bond_endpoint cl user_id bond_id d =
     run (update_bond (cl_env cl) d bond_id user_id) (found BondBody)"

definition delete_bond_endpoint :: "call \<Rightarrow> int \<Rightarrow> int \<Rightarrow> handler" where
  "delete_bond_endpoint cl user_id bond_id = run (delete_bond (cl_env cl) bond_id user_id) deleted"

definition search_bond_references :: "server \<Rightarrow> call \<Rightarrow> string \<Rightarrow> int \<Rightarrow> handler" where
  "search_bond_references sv cl q limit s =
     (case search (sv_moex sv) (cl_order cl) (cl_monotonic cl) (q, limit) (ap_references s) of
        (r, refs) \<Rightarrow> (map_sum id ReferencesBody r, s\<lparr>ap_references := refs\<rparr>))"

definition get_bond_reference :: "server \<Rightarrow> call \<Rightarrow> string \<Rightarrow> handler" where
  "get_bond_reference sv cl isin s =
     (case get_by_isin (sv_moex sv) (cl_order cl) (cl_monotonic cl) isin (ap_references s) of
        (r, refs) \<Rightarrow> (map_sum id ReferenceBody r, s\<lparr>ap_references := refs\<rparr>))"

definition get_bond_coupons :: "string \<Rightarrow> handler" where
  "get_bond_coupons isin =
     read (\<lambda>db. case get_bond_by_isin isin db of
        None \<Rightarrow> Inl BondNotFoundError
      | Some bond \<Rightarrow> Inr (CouponsBody (map (\<lambda>c. (c_date c, c_amount c))
          (order_by (\<lambda>c. (c_date c, c_id c)) (filter (\<lambda>c. c_bond_id c = b_id bond) (bond_coupons db))))))"

definition sync_bond_coupons :: "call \<Rightarrow> string \<Rightarrow> handler" where
  "sync_bond_coupons cl isin s =
     (case get_bond_by_isin isin (db_of s) of
        None \<Rightarrow> (Inl BondNotFoundError, s)
      | Some bond \<Rightarrow>
          if \<not> rs_enabled (ap_references s) then (Inl ProviderUnavailableError, s)
          else
            (case schedule_populate_coupons (cl_task cl) (ap_references s) of
               (Inl e, refs) \<Rightarrow> (Inl e, s\<lparr>ap_references := refs\<rparr>)
             | (Inr _, refs) \<Rightarrow> (Inr (SyncCouponsResponse (cl_uuid cl)), s\<lparr>ap_references := refs\<rparr>)))"

subsection \<open>Brokers and broker accounts\<close>

definition list_brokers :: handler where
  "list_brokers = read (\<lambda>db. Inr (BrokersBody (list_all_brokers db)))"

definition create_broker_endpoint :: "call \<Rightarrow> broker_create \<Rightarrow> handler" where
  "create_broker_endpoint cl d = run (create_broker (cl_env cl) d) (\<lambda>b. Inr (BrokerBody b))"

definition get_broker_endpoint :: "int \<Rightarrow> handler" where
  "get_broker_endpoint broker_id = read (\<lambda>db. found BrokerBody (get_broker broker_id db))"

text \<open>
  \<open>Update(**data.model_dump())\<close>: the dump of a request model holds every field, so a field that the
  client omitted is given as \<open>None\<close>.
\<close>

fun dumped :: "'a field \<Rightarrow> 'a field" where
  "dumped (Given x) = Given x" | "dumped Null = Null" | "dumped Omitted = Null"

definition dumped_broker_update :: "broker_update \<Rightarrow> broker_update" where
  "dumped_broker_update d =
     \<lparr>ur_name = dumped (ur_name d), ur_commission = dumped (ur_commission d),
      ur_min_commission = dumped (ur_min_commission d),
      ur_min_commission_type = dumped (ur_min_commission_type d), ur_description = dumped (ur_description d)\<rparr>"

definition update_broker_endpoint :: "call \<Rightarrow> int \<Rightarrow> broker_update \<Rightarrow> handler" where
  "update_broker_endpoint cl broker_id d =
     run (update_broker (cl_env cl) (dumped_broker_update d) broker_id) (found BrokerBody)"

definition delete_broker_endpoint :: "call \<Rightarrow> int \<Rightarrow> handler" where
  "delete_broker_endpoint cl broker_id = run (delete_broker (cl_env cl) broker_id) deleted"

definition list_broker_accounts :: "int \<Rightarrow> handler" where
  "list_broker_accounts user_id = read (\<lambda>db. Inr (AccountsBody (list_accounts_for_user user_id db)))"

definition create_broker_account :: "call \<Rightarrow> int \<Rightarrow> account_create \<Rightarrow> handler" where
  "create_broker_account cl user_id d =
     run (create_account (cl_env cl) d user_id) (\<lambda>a. Inr (AccountBody a))"

definition get_broker_account :: "int \<Rightarrow> int \<Rightarrow> handler" where
  "get_broker_account user_id account_id = read (\<lambda>db. found AccountBody (get_account account_id user_id db))"

definition dumped_account_update :: "account_update \<Rightarrow> account_update" where
  "dumped_account_update d =
     \<lparr>ua_name = dumped (ua_name d), ua_account_number = dumped (ua_account_number d),
      ua_account_type = dumped (ua_account_type d), ua_opened_at = dumped (ua_opened_at d),
      ua_closed_at = dumped (ua_closed_at d)\<rparr>"

definition update_broker_account :: "call \<Rightarrow> int \<Rightarrow> int \<Rightarrow> account_update \<Rightarrow> handler" where
  "update_broker_account cl user_id account_id d =
     run (update_account (cl_env cl) (dumped_account_update d) account_id user_id) (found AccountBody)"

definition delete_broker_account :: "call \<Rightarrow> int \<Rightarrow> int \<Rightarrow> handler" where
  "delete_broker_account cl user_id account_id = run (delete_account (cl_env cl) account_id user_id) deleted"

subsection \<open>Transactions and account operations\<close>

definition list_transactions_endpoint :: "int \<Rightarrow> int option \<Rightarrow> int option \<Rightarrow> handler" where
  "list_transactions_endpoint user_id bond_id account_id =
     read (\<lambda>db. Inr (TransactionsBody (list_transactions user_id bond_id account_id db)))"

definition create_transaction :: "call \<Rightarrow> int \<Rightarrow> txn_create \<Rightarrow> handler" where
  "create_transaction cl user_id d = run (add_transaction (cl_env cl) user_id d) (\<lambda>t. Inr (TransactionBody t))"

definition get_transaction_endpoint :: "int \<Rightarrow> int \<Rightarrow> handler" where
  "get_transaction_endpoint user_id transaction_id =
     read (\<lambda>db. bind_result (get_transaction transaction_id user_id db) (found TransactionBody))"

definition update_transaction_endpoint :: "call \<Rightarrow> int \<Rightarrow> int \<Rightarrow> txn_update \<Rightarrow> handler" where
  "update_transaction_endpoint cl user_id transaction_id d =
     run (update_transaction (cl_env cl) d transaction_id user_id) (found TransactionBody)"

definition delete_transaction_endpoint :: "call \<Rightarrow> int \<Rightarrow> int \<Rightarrow> handler" where
  "delete_transaction_endpoint cl user_id transaction_id =
     run (delete_transaction (cl_env cl) transaction_id user_id) deleted"

definition list_account_operations :: "int \<Rightarrow> int option \<Rightarrow> handler" where
  "list_account_operations user_id account_id =
     read (\<lambda>db. Inr (OperationsBody (case account_id of
        Some a \<Rightarrow> list_ops_for_account a user_id db
      | None \<Rightarrow> list_ops_for_user user_id db)))"

definition create_account_operation :: "call \<Rightarrow> int \<Rightarrow> op_create \<Rightarrow> handler" where
  "create_account_operation cl user_id d = run (create_op (cl_env cl) d user_id) (\<lambda>p. Inr (OperationBody p))"

definition get_account_operation :: "int \<Rightarrow> int \<Rightarrow> handler" where
  "get_account_operation user_id operation_id =
     read (\<lambda>db. bind_result (get_op operation_id user_id db) (found OperationBody))"

definition update_account_operation :: "int \<Rightarrow> int \<Rightarrow> op_update \<Rightarrow> handler" where
  "update_account_operation user_id operation_id d = run (update_op d operation_id user_id) (found OperationBody)"

definition delete_account_operation :: "int \<Rightarrow> int \<Rightarrow> handler" where
  "delete_account_operation user_id operation_id = run (delete_op operation_id user_id) deleted"

subsection \<open>Portfolio and analytics\<close>

definition get_portfolio :: "server \<Rightarrow> call \<Rightarrow> int \<Rightarrow> query \<Rightarrow> handler" where
  "get_portfolio sv cl user_id q s =
     (case get_portfolio_summary (sv_pow sv) (cl_env cl) user_id (q\<lparr>q_today := None\<rparr>) (db_of s) (ap_summaries s) of
        (r, cache) \<Rightarrow> (map_sum id SummaryBody r, s\<lparr>ap_summaries := cache\<rparr>))"

definition get_portfolio_positions :: "int \<Rightarrow> int option \<Rightarrow> handler" where
  "get_portfolio_positions user_id account_id =
     read (\<lambda>db. Inr (PositionsBody (get_all_positions user_id account_id db)))"

definition get_bond_yield :: "server \<Rightarrow> call \<Rightarrow> int \<Rightarrow> int \<Rightarrow> handler" where
  "get_bond_yield sv cl user_id bond_id s =
     (case get_position_analytics (sv_pow sv) (cl_env cl) user_id bond_id None None (db_of s) (ap_summaries s) of
        (r, cache) \<Rightarrow> (bind_result r (found AnalyticsBody), s\<lparr>ap_summaries := cache\<rparr>))"

section \<open>The interface\<close>

text \<open>The constraints of the path, query and body parameters beyond their types.\<close>

fun request_ok :: "request \<Rightarrow> bool" where
  "request_ok (RegisterUser u p) \<longleftrightarrow> \<not> isl (utf8 p)"
| "request_ok (Login u p) \<longleftrightarrow> \<not> isl (utf8 p)"
| "request_ok (CreateBond d) \<longleftrightarrow> bond_create_ok d"
| "request_ok (UpdateBond i d) \<longleftrightarrow> bond_update_ok d"
| "request_ok (SearchBondReferences q limit) \<longleftrightarrow> 1 \<le> length q \<and> length q \<le> 100 \<and> 1 \<le> limit \<and> limit \<le> 50"
| "request_ok (GetBondReference isin) \<longleftrightarrow> 1 \<le> length isin \<and> length isin \<le> 64"
| "request_ok (GetBondCoupons isin) \<longleftrightarrow> 1 \<le> length isin \<and> length isin \<le> 64"
| "request_ok (SyncBondCoupons isin) \<longleftrightarrow> 1 \<le> length isin \<and> length isin \<le> 64"
| "request_ok (CreateBroker d) \<longleftrightarrow> broker_create_ok d"
| "request_ok (UpdateBroker i d) \<longleftrightarrow> broker_update_ok d"
| "request_ok (CreateBrokerAccount d) \<longleftrightarrow> account_create_ok d"
| "request_ok (UpdateBrokerAccount i d) \<longleftrightarrow> account_update_ok d"
| "request_ok (CreateTransaction d) \<longleftrightarrow> txn_create_ok d"
| "request_ok (UpdateTransaction i d) \<longleftrightarrow> txn_update_ok d"
| "request_ok (CreateAccountOperation d) \<longleftrightarrow> op_create_ok d"
| "request_ok (UpdateAccountOperation i d) \<longleftrightarrow> op_update_ok d"
| "request_ok (GetPortfolio q) \<longleftrightarrow> query_ok q"
| "request_ok _ \<longleftrightarrow> True"

fun public_request :: "request \<Rightarrow> bool" where
  "public_request (RegisterUser u p) = True" | "public_request (Login u p) = True" | "public_request _ = False"

fun success_status :: "request \<Rightarrow> int" where
  "success_status (RegisterUser u p) = 201"
| "success_status (CreateBond d) = 201"
| "success_status (CreateBroker d) = 201"
| "success_status (CreateBrokerAccount d) = 201"
| "success_status (CreateTransaction d) = 201"
| "success_status (CreateAccountOperation d) = 201"
| "success_status (SyncBondCoupons isin) = 202"
| "success_status (DeleteBond i) = 204"
| "success_status (DeleteBroker i) = 204"
| "success_status (DeleteBrokerAccount i) = 204"
| "success_status (DeleteTransaction i) = 204"
| "success_status (DeleteAccountOperation i) = 204"
| "success_status _ = 200"

fun endpoint :: "server \<Rightarrow> call \<Rightarrow> int \<Rightarrow> request \<Rightarrow> handler" where
  "endpoint sv cl u (RegisterUser n p) = register_user sv cl n p"
| "endpoint sv cl u (Login n p) = login_user sv cl n p"
| "endpoint sv cl u ListBonds = list_bonds"
| "endpoint sv cl u (CreateBond d) = create_bond_endpoint cl u d"
| "endpoint sv cl u (GetBond i) = get_bond_endpoint i"
| "endpoint sv cl u (UpdateBond i d) = update_bond_endpoint cl u i d"
| "endpoint sv cl u (DeleteBond i) = delete_bond_endpoint cl u i"
| "endpoint sv cl u (SearchBondReferences q n) = search_bond_references sv cl q n"
| "endpoint sv cl u (GetBondReference isin) = get_bond_reference sv cl isin"
| "endpoint sv cl u (GetBondCoupons isin) = get_bond_coupons isin"
| "endpoint sv cl u (SyncBondCoupons isin) = sync_bond_coupons cl isin"
| "endpoint sv cl u ListBrokers = list_brokers"
| "endpoint sv cl u (CreateBroker d) = create_broker_endpoint cl d"
| "endpoint sv cl u (GetBroker i) = get_broker_endpoint i"
| "endpoint sv cl u (UpdateBroker i d) = update_broker_endpoint cl i d"
| "endpoint sv cl u (DeleteBroker i) = delete_broker_endpoint cl i"
| "endpoint sv cl u ListBrokerAccounts = list_broker_accounts u"
| "endpoint sv cl u (CreateBrokerAccount d) = create_broker_account cl u d"
| "endpoint sv cl u (GetBrokerAccount i) = get_broker_account u i"
| "endpoint sv cl u (UpdateBrokerAccount i d) = update_broker_account cl u i d"
| "endpoint sv cl u (DeleteBrokerAccount i) = delete_broker_account cl u i"
| "endpoint sv cl u (ListTransactions b a) = list_transactions_endpoint u b a"
| "endpoint sv cl u (CreateTransaction d) = create_transaction cl u d"
| "endpoint sv cl u (GetTransaction i) = get_transaction_endpoint u i"
| "endpoint sv cl u (UpdateTransaction i d) = update_transaction_endpoint cl u i d"
| "endpoint sv cl u (DeleteTransaction i) = delete_transaction_endpoint cl u i"
| "endpoint sv cl u (ListAccountOperations a) = list_account_operations u a"
| "endpoint sv cl u (CreateAccountOperation d) = create_account_operation cl u d"
| "endpoint sv cl u (GetAccountOperation i) = get_account_operation u i"
| "endpoint sv cl u (UpdateAccountOperation i d) = update_account_operation u i d"
| "endpoint sv cl u (DeleteAccountOperation i) = delete_account_operation u i"
| "endpoint sv cl u (GetPortfolio q) = get_portfolio sv cl u q"
| "endpoint sv cl u (GetPortfolioPositions a) = get_portfolio_positions u a"
| "endpoint sv cl u (GetBondYield i) = get_bond_yield sv cl u i"

definition answered :: "request \<Rightarrow> body result \<Rightarrow> answer" where
  "answered req r =
     (case r of Inl e \<Rightarrow> Answer (status_of_error e) Detail | Inr b \<Rightarrow> Answer (success_status req) b)"

definition handle :: "server \<Rightarrow> call \<Rightarrow> string option \<Rightarrow> request \<Rightarrow> app \<Rightarrow> answer \<times> app" where
  "handle sv cl credentials req s =
     (case (if public_request req then Inr 0 else get_current_user_id sv cl credentials) of
        Inl e \<Rightarrow> (Answer (status_of_error e) Detail, s)
      | Inr user_id \<Rightarrow>
          if \<not> request_ok req then (Answer 422 Detail, s)
          else (case endpoint sv cl user_id req s of (r, s') \<Rightarrow> (answered req r, s')))"

end
