(* ===== verification/ApiSafety.thy ===== *)
theory ApiSafety
  imports Api
begin

text \<open>
  What a client of the REST interface can rely on: which answers leave the database as it was, who may
  see and do what, and when no request fails internally.
\<close>

section \<open>The contract of a handler\<close>

definition client_error :: "error \<Rightarrow> bool" where
  "client_error e \<longleftrightarrow> 400 \<le> status_of_error e \<and> status_of_error e < 500"

lemma server_errors:
  "status_of_error IntegrityError = 500" "status_of_error ValueError = 500" "status_of_error RuntimeError = 500"
  "status_of_error KeyError = 500" "status_of_error TypeError = 500" "status_of_error OverflowError = 500"
  "status_of_error OSError = 500" "status_of_error UnicodeEncodeError = 500" "status_of_error JwtError = 500"
  "status_of_error YtmCalculationError = 500" "status_of_error ZeroDivisionError = 500"
  by (simp_all add: exception_handlers_def)

text \<open>
  An operation of a service with what the handler makes of its result: an answer that blames the
  client, or that finds nothing, leaves the database as it was.
\<close>

lemma fst_run: "fst (run f g s) = bind_result (fst (f (ap_world s))) g"
  and world_run [simp]: "ap_world (snd (run f g s)) = snd (f (ap_world s))"
  and run_rest [simp]:
    "ap_summaries (snd (run f g s)) = ap_summaries s" "ap_references (snd (run f g s)) = ap_references s"
  by (simp_all add: run_def split_beta)

locale endpoint_op = service_op op for op :: "'a step" +
  fixes view :: "'a \<Rightarrow> body result"
  assumes rejected_keeps: "fst (op w) = Inl e \<Longrightarrow> client_error e \<Longrightarrow> w_db (snd (op w)) = w_db w"
    and hidden_keeps: "fst (op w) = Inr x \<Longrightarrow> view x = Inl e \<Longrightarrow> w_db (snd (op w)) = w_db w"
begin

lemma run_rejected:
  assumes "fst (run op view s) = Inl e" and "client_error e"
  shows "db_of (snd (run op view s)) = db_of s"
  using assms rejected_keeps [of "ap_world s" e] hidden_keeps [of "ap_world s" _ e]
  by (auto simp: fst_run bind_result_Inl_iff)

lemma run_wf: "db_wf (db_of s) \<Longrightarrow> db_wf (db_of (snd (run op view s)))"
  using keeps_wf [of "ap_world s"] by simp

lemma run_grows: "bus_grows (w_bus (ap_world s)) (w_bus (ap_world (snd (run op view s))))"
  using only_publishes [of "ap_world s"] by simp

end

lemma found_Inl [simp]: "found f x = Inl e \<longleftrightarrow> x = None \<and> e = HTTPException 404"
  by (auto simp: found_def split: option.splits)

lemma deleted_Inl [simp]: "deleted x = Inl e \<longleftrightarrow> \<not> x \<and> e = HTTPException 404"
  by (auto simp: deleted_def)

lemma found_Inr: "found f x = Inr b \<longleftrightarrow> (\<exists>y. x = Some y \<and> b = f y)"
  by (auto simp: found_def split: option.splits)

lemma publish_errors: "fst (publish env s t p w) = Inl e \<Longrightarrow> e \<in> {ValueError, RuntimeError}"
  by (auto simp: publish_def bus_publish_def validate_topic_def check_message_def
      split: sum.splits prod.splits if_splits)

lemma and_then_errors:
  assumes "\<And>v. fst (f v) = Inl e \<Longrightarrow> e \<in> E" and "\<And>v. fst (g v) = Inl e \<Longrightarrow> e \<in> E"
    and "fst (and_then f g w) = Inl e"
  shows "e \<in> E"
proof -
  obtain r v where f: "f w = (r, v)" by (cases "f w") auto
  with assms(1) [of w] assms(2) [of v] assms(3) show ?thesis by (cases r) (simp_all add: and_then_def)
qed

lemma publish_portfolio_errors: "fst (publish_portfolio env t p w) = Inl e \<Longrightarrow> e \<in> {ValueError, RuntimeError}"
  unfolding publish_portfolio_def by (rule publish_errors)

lemma publish_positions_errors: "fst (publish_positions env u bs w) = Inl e \<Longrightarrow> e \<in> {ValueError, RuntimeError}"
proof (induction env u bs w rule: publish_positions.induct)
  case (2 env u b bs w)
  show ?case
    by (rule and_then_errors [OF publish_portfolio_errors 2(1) 2(2) [unfolded publish_positions.simps]])
qed (simp add: publish_positions.simps)

section \<open>The handlers keep the contract\<close>

interpretation register_endpoint:
  endpoint_op "register hashpw salt env n p" "\<lambda>user. Inr (UserResponse (u_id user) (u_username user))"
  for hashpw salt env n p
  by unfold_locales (simp_all add: register.failure_keeps)

interpretation create_bond_endpoint: endpoint_op "create_bond env d u" "\<lambda>b. Inr (BondBody b)" for env d u
  by unfold_locales (simp_all add: create_bond.failure_keeps)

interpretation update_bond_endpoint: endpoint_op "update_bond env d i u" "found BondBody" for env d i u
  by (unfold_locales, rule update_bond.failure_keeps, assumption)
    (auto simp: update_bond_def Let_def returning_Inr split: option.splits if_splits)

interpretation delete_bond_endpoint: endpoint_op "delete_bond env i u" deleted for env i u
  by (unfold_locales, rule delete_bond.failure_keeps, assumption)
    (auto simp: delete_bond_def Let_def returning_Inr split: option.splits if_splits)

interpretation create_broker_endpoint: endpoint_op "create_broker env d" "\<lambda>b. Inr (BrokerBody b)" for env d
  by unfold_locales (simp_all add: create_broker.failure_keeps)

interpretation update_broker_endpoint: endpoint_op "update_broker env d i" "found BrokerBody" for env d i
  by (unfold_locales, rule update_broker.failure_keeps, assumption)
    (auto simp: update_broker_def Let_def returning_Inr split: option.splits if_splits)

interpretation delete_broker_endpoint: endpoint_op "delete_broker env i" deleted for env i
  by (unfold_locales, rule delete_broker.failure_keeps, assumption)
    (auto simp: delete_broker_def Let_def returning_Inr split: option.splits if_splits)

interpretation create_account_endpoint: endpoint_op "create_account env d u" "\<lambda>a. Inr (AccountBody a)" for env d u
  by unfold_locales (simp_all add: create_account.failure_keeps)

interpretation update_account_endpoint: endpoint_op "update_account env d i u" "found AccountBody" for env d i u
  by (unfold_locales, rule update_account.failure_keeps, assumption)
    (auto simp: update_account_def Let_def returning_Inr split: option.splits if_splits)

interpretation delete_account_endpoint: endpoint_op "delete_account env i u" deleted for env i u
  by (unfold_locales, rule delete_account.failure_keeps, assumption)
    (auto simp: delete_account_def Let_def returning_Inr split: option.splits if_splits)

interpretation create_op_endpoint: endpoint_op "create_op env d u" "\<lambda>p. Inr (OperationBody p)" for env d u
  by unfold_locales (simp_all add: create_op.failure_keeps)

interpretation update_op_endpoint: endpoint_op "update_op d i u" "found OperationBody" for d i u
  by (unfold_locales, rule update_op.failure_keeps, assumption)
    (auto simp: update_op_def Let_def returning_Inr split: option.splits if_splits)

interpretation delete_op_endpoint: endpoint_op "delete_op i u" deleted for i u
  by (unfold_locales, rule delete_op.failure_keeps, assumption)
    (auto simp: delete_op_def Let_def returning_Inr split: option.splits if_splits)

text \<open>
  The commands of the portfolio commit before they publish, so a failing publish leaves the change; but
  that failure is the server's.
\<close>

lemma published_server_error:
  assumes "fst (and_then f (publish_portfolio env t p) w) = Inl e"
    and "\<And>v. fst (f v) = Inl e \<Longrightarrow> e \<in> {ValueError, RuntimeError}"
  shows "\<not> client_error e"
proof -
  have "e \<in> {ValueError, RuntimeError}"
    by (rule and_then_errors [OF assms(2) publish_portfolio_errors assms(1)])
  then show ?thesis by (auto simp: client_error_def server_errors simp del: status_of_error.simps)
qed

lemmas published_server_errors =
  published_server_error [OF _ publish_positions_errors] published_server_error [OF _ publish_portfolio_errors]

interpretation create_transaction_endpoint:
  endpoint_op "add_transaction env u d" "\<lambda>t. Inr (TransactionBody t)" for env u d
  by unfold_locales
    (auto simp: add_transaction_def Let_def dest: published_server_errors split: sum.splits if_splits)

interpretation update_transaction_endpoint: endpoint_op "update_transaction env d i u" "found TransactionBody" for env d i u
  by unfold_locales
    (auto simp: update_transaction_def Let_def returning_Inr dest: published_server_errors
      split: option.splits sum.splits if_splits)

interpretation delete_transaction_endpoint: endpoint_op "delete_transaction env i u" deleted for env i u
  by unfold_locales
    (auto simp: delete_transaction_def Let_def returning_Inr dest: published_server_errors
      split: option.splits if_splits)

section \<open>All handlers\<close>

named_theorems handler_defs "the handlers"

declare register_user_def [handler_defs] login_user_def [handler_defs] list_bonds_def [handler_defs]
  get_bond_endpoint_def [handler_defs] update_bond_endpoint_def [handler_defs]
  delete_bond_endpoint_def [handler_defs] get_bond_coupons_def [handler_defs] list_brokers_def [handler_defs]
  create_broker_endpoint_def [handler_defs] get_broker_endpoint_def [handler_defs]
  update_broker_endpoint_def [handler_defs] delete_broker_endpoint_def [handler_defs]
  list_broker_accounts_def [handler_defs] create_broker_account_def [handler_defs]
  get_broker_account_def [handler_defs] update_broker_account_def [handler_defs]
  delete_broker_account_def [handler_defs] list_transactions_endpoint_def [handler_defs]
  create_transaction_def [handler_defs] get_transaction_endpoint_def [handler_defs]
  update_transaction_endpoint_def [handler_defs] delete_transaction_endpoint_def [handler_defs]
  list_account_operations_def [handler_defs] create_account_operation_def [handler_defs]
  get_account_operation_def [handler_defs] update_account_operation_def [handler_defs]
  delete_account_operation_def [handler_defs] get_portfolio_positions_def [handler_defs]

lemmas rejected_keeps =
  register_endpoint.run_rejected create_bond_endpoint.run_rejected update_bond_endpoint.run_rejected
  delete_bond_endpoint.run_rejected create_broker_endpoint.run_rejected update_broker_endpoint.run_rejected
  delete_broker_endpoint.run_rejected create_account_endpoint.run_rejected update_account_endpoint.run_rejected
  delete_account_endpoint.run_rejected create_transaction_endpoint.run_rejected
  update_transaction_endpoint.run_rejected delete_transaction_endpoint.run_rejected
  create_op_endpoint.run_rejected update_op_endpoint.run_rejected delete_op_endpoint.run_rejected

lemmas handlers_keep_wf =
  register_endpoint.run_wf create_bond_endpoint.run_wf update_bond_endpoint.run_wf
  delete_bond_endpoint.run_wf create_broker_endpoint.run_wf update_broker_endpoint.run_wf
  delete_broker_endpoint.run_wf create_account_endpoint.run_wf update_account_endpoint.run_wf
  delete_account_endpoint.run_wf create_transaction_endpoint.run_wf
  update_transaction_endpoint.run_wf delete_transaction_endpoint.run_wf
  create_op_endpoint.run_wf update_op_endpoint.run_wf delete_op_endpoint.run_wf

lemmas handlers_only_publish =
  register_endpoint.run_grows create_bond_endpoint.run_grows update_bond_endpoint.run_grows
  delete_bond_endpoint.run_grows create_broker_endpoint.run_grows update_broker_endpoint.run_grows
  delete_broker_endpoint.run_grows create_account_endpoint.run_grows update_account_endpoint.run_grows
  delete_account_endpoint.run_grows create_transaction_endpoint.run_grows
  update_transaction_endpoint.run_grows delete_transaction_endpoint.run_grows
  create_op_endpoint.run_grows update_op_endpoint.run_grows delete_op_endpoint.run_grows

lemma snd_read [simp]: "snd (read f s) = s"
  by (simp add: read_def)

text \<open>The handlers that are a read, or that change only what the reference service keeps.\<close>

lemma create_bond_run:
  "ap_world (snd (create_bond_endpoint cl u d s))
     = ap_world (snd (run (create_bond (cl_env cl) d u) (\<lambda>b. Inr (BondBody b)) s))"
  "fst (create_bond_endpoint cl u d s) = fst (run (create_bond (cl_env cl) d u) (\<lambda>b. Inr (BondBody b)) s)"
proof -
  obtain r s' where r: "run (create_bond (cl_env cl) d u) (\<lambda>b. Inr (BondBody b)) s = (r, s')" by fastforce
  show "ap_world (snd (create_bond_endpoint cl u d s))
     = ap_world (snd (run (create_bond (cl_env cl) d u) (\<lambda>b. Inr (BondBody b)) s))"
    using r by (cases r) (simp_all add: create_bond_endpoint_def schedule_quietly_def del: world_run)
  show "fst (create_bond_endpoint cl u d s) = fst (run (create_bond (cl_env cl) d u) (\<lambda>b. Inr (BondBody b)) s)"
    using r by (cases r) (simp_all add: create_bond_endpoint_def)
qed

lemma world_references [simp]:
  "ap_world (snd (search_bond_references sv cl q n s)) = ap_world s"
  "ap_world (snd (get_bond_reference sv cl isin s)) = ap_world s"
  "ap_world (snd (sync_bond_coupons cl isin s)) = ap_world s"
  "ap_world (snd (get_portfolio sv cl u p s)) = ap_world s"
  "ap_world (snd (get_bond_yield sv cl u i s)) = ap_world s"
  by (simp_all add: search_bond_references_def get_bond_reference_def sync_bond_coupons_def get_portfolio_def
      get_bond_yield_def split: prod.split sum.split option.split)

lemma endpoint_rejected:
  assumes "fst (endpoint sv cl u req s) = Inl e" and "client_error e"
  shows "db_of (snd (endpoint sv cl u req s)) = db_of s"
proof (cases req)
  case (CreateBond d)
  then show ?thesis
    using assms create_bond_endpoint.run_rejected [of "cl_env cl" d u s e]
    by (simp add: create_bond_run del: world_run)
qed (use assms in \<open>auto simp: handler_defs simp del: world_run intro: rejected_keeps\<close>)

lemma endpoint_wf: "db_wf (db_of s) \<Longrightarrow> db_wf (db_of (snd (endpoint sv cl u req s)))"
  by (cases req) (simp_all add: handler_defs create_bond_run handlers_keep_wf del: world_run)

lemma endpoint_only_publishes:
  "bus_grows (w_bus (ap_world s)) (w_bus (ap_world (snd (endpoint sv cl u req s))))"
  by (cases req) (simp_all add: handler_defs create_bond_run handlers_only_publish del: world_run)

section \<open>Properties\<close>

lemma success_status: "200 \<le> success_status req \<and> success_status req < 300"
  by (cases req) simp_all

lemma handle_cases:
  obtains (rejected) st where "handle sv cl credentials req s = (Answer st Detail, s)"
  | (served) u where "handle sv cl credentials req s
      = (answered req (fst (endpoint sv cl u req s)), snd (endpoint sv cl u req s))" "request_ok req"
      "\<not> public_request req \<Longrightarrow> get_current_user_id sv cl credentials = Inr u"
proof -
  let ?u = "if public_request req then Inr 0 else get_current_user_id sv cl credentials"
  show ?thesis
  proof (cases ?u)
    case (Inl e)
    then show ?thesis by (intro rejected) (simp add: handle_def)
  next
    case (Inr u)
    show ?thesis
    proof (cases "request_ok req")
      case True
      then show ?thesis using Inr
        by (intro served [of u]) (simp_all add: handle_def split_beta split: if_splits)
    next
      case False
      then show ?thesis using Inr by (intro rejected) (simp add: handle_def)
    qed
  qed
qed

text \<open>
  C17. An answer that blames the client changes nothing: whenever a request of any route is answered
  with a status from 400 to 499, be it for its token, its parameters or a rule of a service, the
  database is exactly what it was.
\<close>

theorem client_errors_change_nothing:
  assumes "handle sv cl credentials req s = (Answer st b, s')" and "400 \<le> st" and "st < 500"
  shows "db_of s' = db_of s"
proof (rule handle_cases [of sv cl credentials req s])
  fix u
  assume h: "handle sv cl credentials req s
      = (answered req (fst (endpoint sv cl u req s)), snd (endpoint sv cl u req s))"
  show ?thesis
  proof (cases "fst (endpoint sv cl u req s)")
    case (Inl e)
    then have "client_error e" using h assms by (simp add: answered_def client_error_def)
    then show ?thesis using endpoint_rejected [OF Inl] h assms(1) by simp
  next
    case (Inr x)
    then show ?thesis using h assms success_status [of req] by (simp add: answered_def)
  qed
qed (use assms in simp)

section \<open>No request fails internally\<close>

text \<open>While the bus runs, no publish of a service fails.\<close>

lemma publish_ok:
  "bs_running (w_bus w) \<Longrightarrow> t \<in> set ALL_TOPICS \<Longrightarrow> s \<noteq> [] \<Longrightarrow>
   fst (publish env s t p w) = Inr () \<and> bs_running (w_bus (snd (publish env s t p w)))"
  by (simp add: publish_running)

lemma and_then_ok:
  assumes "fst (f w) = Inr () \<and> bs_running (w_bus (snd (f w)))"
    and "\<And>v. bs_running (w_bus v) \<Longrightarrow> fst (g v) = Inr () \<and> bs_running (w_bus (snd (g v)))"
  shows "fst (and_then f g w) = Inr () \<and> bs_running (w_bus (snd (and_then f g w)))"
  using assms(1) assms(2) [of "snd (f w)"] by (cases "f w") (simp add: and_then_def)

lemma publish_portfolio_ok:
  "bs_running (w_bus w) \<Longrightarrow> t \<in> set ALL_TOPICS \<Longrightarrow>
   fst (publish_portfolio env t p w) = Inr () \<and> bs_running (w_bus (snd (publish_portfolio env t p w)))"
  unfolding publish_portfolio_def by (rule publish_ok) simp_all

lemma publish_positions_ok:
  "bs_running (w_bus w) \<Longrightarrow>
   fst (publish_positions env u bs w) = Inr () \<and> bs_running (w_bus (snd (publish_positions env u bs w)))"
proof (induction env u bs w rule: publish_positions.induct)
  case (2 env u b bs w)
  show ?case
    unfolding publish_positions.simps
    by (intro and_then_ok publish_portfolio_ok 2) (simp add: ALL_TOPICS_def)
qed (simp add: publish_positions.simps)

lemma publish_each_ok:
  "bs_running (w_bus w) \<Longrightarrow> t \<in> set ALL_TOPICS \<Longrightarrow> s \<noteq> [] \<Longrightarrow> fst (publish_each env s t ps w) = Inr ()"
  using publish_each_running [of t s w env ps] by auto

lemma flush_publish_commit_ok:
  "fst (pub w) = Inr () \<Longrightarrow> fst (flush_publish_commit fl pub w) = (case fl of Inl e \<Rightarrow> Inl e | Inr _ \<Rightarrow> Inr ())"
  by (auto simp: flush_publish_commit_def split: sum.split prod.split)

lemma integrity_as_fst:
  "fst (integrity_as other r) = (case fst r of Inl e \<Rightarrow> Inl (if e = IntegrityError then other else e) | Inr u \<Rightarrow> Inr u)"
  by (auto simp: integrity_as_def split: prod.split sum.split)

lemma returning_fst: "fst (returning x r) = map_sum id (\<lambda>_. x) (fst r)"
  by (simp add: returning_def)

lemma client_errors [simp]:
  "client_error (HTTPException 404)" "client_error BondIsinDuplicateError" "client_error BondDeletionBlockedError"
  "client_error BondNotOwnedError" "client_error BondNotFoundError" "client_error BrokerNotFoundError"
  "client_error BrokerAccountNotFoundError" "client_error BrokerHasAccountsError"
  "client_error BrokerNameDuplicateError" "client_error BrokerAccountHasTransactionsError"
  "client_error BrokerAccountHasOperationsError" "client_error AccountOperationForbiddenError"
  "client_error InsufficientPositionError" "client_error InvalidTransactionError"
  "client_error TransactionForbiddenError"
  by (simp_all add: client_error_def exception_handlers_def)

text \<open>An operation that fails only with errors that blame the client.\<close>

definition blames_client :: "'a result \<Rightarrow> bool" where
  "blames_client r \<longleftrightarrow> (\<forall>e. r = Inl e \<longrightarrow> client_error e)"

lemma blames_client_simps [simp]: "blames_client (Inr x)" "blames_client (Inl e) \<longleftrightarrow> client_error e"
  by (simp_all add: blames_client_def)

lemma blames_client_bind: "blames_client r \<Longrightarrow> (\<And>x. blames_client (g x)) \<Longrightarrow> blames_client (bind_result r g)"
  by (cases r) simp_all

lemma blames_client_found [simp]: "blames_client (found f x)" "blames_client (deleted ok)"
  by (simp_all add: blames_client_def)

lemma insert_only_integrity:
  "insert_bond b db = Inl e \<Longrightarrow> e = IntegrityError" "insert_broker br db = Inl e \<Longrightarrow> e = IntegrityError"
  by (auto simp: insert_bond_def insert_broker_def split: if_splits)

lemmas fst_simps = integrity_as_fst returning_fst flush_publish_commit_ok publish_ok publish_each_ok

lemma create_bond_blames: "bs_running (w_bus w) \<Longrightarrow> blames_client (fst (create_bond env d u w))"
  by (auto simp: create_bond_def Let_def fst_simps ALL_TOPICS_def split: sum.split dest: insert_only_integrity)

lemma update_bond_blames: "bs_running (w_bus w) \<Longrightarrow> db_wf (w_db w) \<Longrightarrow> blames_client (fst (update_bond env d i u w))"
  by (auto simp: update_bond_def Let_def fst_simps publish_for_holders_def update_bond_row_ok ALL_TOPICS_def split: option.split)

lemma delete_bond_blames: "bs_running (w_bus w) \<Longrightarrow> blames_client (fst (delete_bond env i u w))"
  by (auto simp: delete_bond_def Let_def fst_simps publish_for_holders_def ALL_TOPICS_def split: option.split)

lemma create_broker_blames: "bs_running (w_bus w) \<Longrightarrow> blames_client (fst (create_broker env d w))"
  by (auto simp: create_broker_def Let_def fst_simps ALL_TOPICS_def split: sum.split dest: insert_only_integrity)

lemma delete_broker_blames: "bs_running (w_bus w) \<Longrightarrow> blames_client (fst (delete_broker env i w))"
  by (auto simp: delete_broker_def Let_def fst_simps ALL_TOPICS_def split: option.split)

lemma delete_account_blames: "bs_running (w_bus w) \<Longrightarrow> blames_client (fst (delete_account env i u w))"
  by (auto simp: delete_account_def Let_def fst_simps ALL_TOPICS_def split: option.split)

lemma delete_op_blames: "blames_client (fst (delete_op i u w))"
  by (auto simp: delete_op_def returning_fst flush_commit_cases split: option.split)

lemma add_transaction_blames: "bs_running (w_bus w) \<Longrightarrow> blames_client (fst (add_transaction env u d w))"
  using and_then_ok [OF publish_portfolio_ok publish_portfolio_ok]
  by (auto simp: add_transaction_def Let_def returning_fst ALL_TOPICS_def split: sum.split)

lemma update_transaction_blames: "bs_running (w_bus w) \<Longrightarrow> blames_client (fst (update_transaction env d i u w))"
  using and_then_ok [OF publish_positions_ok publish_portfolio_ok]
  by (auto simp: update_transaction_def validate_transaction_shift_def Let_def returning_fst ALL_TOPICS_def
      split: sum.split option.split)

lemma delete_transaction_blames: "bs_running (w_bus w) \<Longrightarrow> blames_client (fst (delete_transaction env i u w))"
  using and_then_ok [OF publish_positions_ok publish_portfolio_ok]
  by (auto simp: delete_transaction_def Let_def returning_fst ALL_TOPICS_def split: option.split)

lemma update_broker_row_ok:
  assumes wf: "db_wf db" and b: "get_broker i db = Some b" and d: "broker_update_ok d"
    and free: "case ur_name d of Given n \<Rightarrow> find (\<lambda>x. br_name x = n \<and> br_id x \<noteq> i) (brokers db) = None | _ \<Rightarrow> True"
  shows "\<exists>db'. update_broker_row (apply_broker_update d b) db = Inr db'"
proof -
  have b': "b \<in> set (brokers db)" "br_id b = i"
    using wf b by (simp_all add: get_broker_def rows.lookup_mem put_wf_simps)
  have old: "x \<in> set (brokers db) \<Longrightarrow> br_id x \<noteq> i \<Longrightarrow> br_name x \<noteq> br_name b" for x
    using wf b' by (auto simp: put_wf_simps distinct_map dest: inj_onD)
  have id: "br_id (apply_broker_update d b) = i" using b'(2) by (simp add: apply_broker_update_def)
  have new: "br_name (apply_broker_update d b) \<noteq> br_name x" if "x \<in> set (brokers db)" "br_id x \<noteq> i" for x
  proof (cases "ur_name d")
    case (Given n)
    then show ?thesis using free that by (auto simp: apply_broker_update_def find_None_iff)
  qed (use old [OF that] in \<open>simp_all add: apply_broker_update_def\<close>)
  have "br_name (apply_broker_update d b) \<notin> br_name ` {x \<in> set (brokers db). br_id x \<noteq> i}"
    using new by blast
  moreover have "broker_check b" using wf b' by (simp add: put_wf_simps)
  then have "broker_check (apply_broker_update d b)"
    using d by (cases "ur_min_commission_type d")
      (simp_all add: broker_check_def apply_broker_update_def broker_update_ok_def field_ok_def)
  ultimately show ?thesis by (simp add: update_broker_row_def id)
qed

lemma update_broker_blames:
  assumes "bs_running (w_bus w)" and "db_wf (w_db w)" and "broker_update_ok d"
  shows "blames_client (fst (update_broker env d i w))"
proof (cases "get_broker i (w_db w)")
  case None
  then show ?thesis by (simp add: update_broker_def)
next
  case (Some b)
  let ?taken = "case ur_name d of Given n \<Rightarrow> find (\<lambda>x. br_name x = n \<and> br_id x \<noteq> i) (brokers (w_db w)) \<noteq> None | _ \<Rightarrow> False"
  show ?thesis
  proof (cases ?taken)
    case True
    then show ?thesis using Some by (simp add: update_broker_def)
  next
    case False
    then obtain db where "update_broker_row (apply_broker_update d b) (w_db w) = Inr db"
      using update_broker_row_ok [OF assms(2) Some assms(3)] by (auto split: field.splits)
    then show ?thesis
      using Some False assms(1) by (simp add: update_broker_def Let_def fst_simps ALL_TOPICS_def)
  qed
qed

lemma create_account_blames:
  assumes "bs_running (w_bus w)" and "db_wf (w_db w)" and "account_create_ok d" and "u \<in> u_id ` set (users (w_db w))"
    and "e_new_id env \<notin> a_id ` set (broker_accounts (w_db w))"
  shows "blames_client (fst (create_account env d u w))"
proof (cases "get_broker (na_broker_id d) (w_db w)")
  case None
  then show ?thesis by (simp add: create_account_def)
next
  case (Some b)
  then have "b \<in> set (brokers (w_db w))" "br_id b = na_broker_id d"
    using assms(2) by (simp_all add: get_broker_def rows.lookup_mem put_wf_simps)
  then have "na_broker_id d \<in> br_id ` set (brokers (w_db w))" by (metis imageI)
  then have "\<exists>db. insert_account (new_account env d u) (w_db w) = Inr db"
    using assms(3-5) by (simp add: insert_account_def account_refs_def new_account_def account_create_ok_def)
  then show ?thesis using Some assms(1) by (auto simp: create_account_def Let_def fst_simps ALL_TOPICS_def)
qed

lemma update_account_blames:
  assumes "bs_running (w_bus w)" and "db_wf (w_db w)" and "account_update_ok d"
  shows "blames_client (fst (update_account env d i u w))"
proof (cases "find_account i (w_db w)")
  case None
  then show ?thesis by (simp add: update_account_def)
next
  case (Some a)
  then have "account_refs (w_db w) a"
    using assms(2) by (simp add: find_account_def rows.lookup_mem put_wf_simps)
  then have "account_refs (w_db w) (apply_account_update d a)"
    using assms(3) by (cases "ua_account_type d")
      (simp_all add: account_refs_def apply_account_update_def account_update_ok_def field_ok_def)
  then have "update_account_row (apply_account_update d a) (w_db w)
      = Inr (w_db w\<lparr>broker_accounts := put_row a_id (apply_account_update d a) (broker_accounts (w_db w))\<rparr>)"
    by (simp add: update_account_row_def)
  then show ?thesis using Some assms(1) by (simp add: update_account_def Let_def fst_simps ALL_TOPICS_def)
qed

lemma own_account_refs: "own_account a u db \<noteq> None \<Longrightarrow> a \<in> a_id ` set (broker_accounts db)"
  by (auto simp: own_account_def find_Some_iff)

lemma create_op_blames:
  assumes "op_create_ok d" and "u \<in> u_id ` set (users (w_db w))"
    and "e_new_id env \<notin> o_id ` set (account_operations (w_db w))"
  shows "blames_client (fst (create_op env d u w))"
proof (cases "own_account (no_account_id d) u (w_db w)")
  case None
  then show ?thesis by (simp add: create_op_def)
next
  case (Some a)
  then have "no_account_id d \<in> a_id ` set (broker_accounts (w_db w))" using own_account_refs by blast
  then have "\<exists>db. insert_op (new_op env d u) (w_db w) = Inr db"
    using assms by (simp add: insert_op_def op_refs_def new_op_def op_create_ok_def)
  then show ?thesis using Some by (auto simp: create_op_def Let_def returning_fst flush_commit_cases)
qed

lemma update_op_blames:
  assumes "db_wf (w_db w)" and "op_update_ok d" shows "blames_client (fst (update_op d i u w))"
proof (cases "find_op i (w_db w)")
  case None
  then show ?thesis by (simp add: update_op_def)
next
  case (Some p)
  then have p: "op_refs (w_db w) p" using assms(1) by (simp add: find_op_def rows.lookup_mem put_wf_simps)
  show ?thesis
  proof (cases "case uo_account_id d of Given j \<Rightarrow> own_account j u (w_db w) = None | _ \<Rightarrow> False")
    case True
    then show ?thesis using Some by (simp add: update_op_def)
  next
    case False
    have "o_account_id (apply_op_update d p) \<in> a_id ` set (broker_accounts (w_db w))"
    proof (cases "uo_account_id d")
      case (Given j)
      then show ?thesis using False own_account_refs [of j u "w_db w"] by (simp add: apply_op_update_def)
    qed (use p in \<open>simp_all add: apply_op_update_def op_refs_def\<close>)
    moreover have "o_type (apply_op_update d p) \<in> set ACCOUNT_OPERATION_TYPES"
      using p assms(2) by (cases "uo_type d")
        (simp_all add: apply_op_update_def op_refs_def op_update_ok_def field_ok_def)
    ultimately have "op_refs (w_db w) (apply_op_update d p)"
      using p by (simp add: op_refs_def apply_op_update_def)
    then show ?thesis
      using Some False by (simp add: update_op_def Let_def returning_fst flush_commit_cases update_op_row_def)
  qed
qed

text \<open>The routes that need neither the packages, nor the provider, nor the analytics.\<close>

fun crud_request :: "request \<Rightarrow> bool" where
  "crud_request (RegisterUser n p) = False"
| "crud_request (Login n p) = False"
| "crud_request (SearchBondReferences q n) = False"
| "crud_request (GetBondReference isin) = False"
| "crud_request (SyncBondCoupons isin) = False"
| "crud_request (GetPortfolio q) = False"
| "crud_request (GetBondYield i) = False"
| "crud_request _ = True"

lemma field_ok_dumped [simp]: "field_ok P (dumped f) = field_ok P f"
  by (cases f) (simp_all add: field_ok_def)

lemma dumped_ok: "broker_update_ok (dumped_broker_update d) = broker_update_ok d"
  "account_update_ok (dumped_account_update e) = account_update_ok e"
  by (simp_all add: broker_update_ok_def dumped_broker_update_def account_update_ok_def dumped_account_update_def)

lemma gets_blame_client [simp]: "blames_client (get_transaction i u db)" "blames_client (get_op i u db)"
  by (simp_all add: get_transaction_def get_op_def split: option.split)

lemma fst_read: "fst (read f s) = f (db_of s)"
  by (simp add: read_def)

lemma endpoint_blames_client:
  assumes "db_wf (db_of s)" and "bs_running (w_bus (ap_world s))" and "crud_request req" and "request_ok req"
    and "u \<in> u_id ` set (users (db_of s))"
    and "e_new_id (cl_env cl) \<notin> a_id ` set (broker_accounts (db_of s)) \<union> o_id ` set (account_operations (db_of s))"
  shows "blames_client (fst (endpoint sv cl u req s))"
proof -
  note ops = create_bond_blames update_bond_blames delete_bond_blames create_broker_blames update_broker_blames delete_broker_blames
    create_account_blames update_account_blames delete_account_blames create_op_blames update_op_blames delete_op_blames
    add_transaction_blames update_transaction_blames delete_transaction_blames
  show ?thesis
    using assms
    by (cases req) (auto simp: handler_defs create_bond_run fst_run fst_read dumped_ok
        intro!: blames_client_bind ops split: option.split)
qed


text \<open>A server whose tokens all name user 1.\<close>

definition one_claims :: claims where
  "one_claims = [(''sub'', JStr ''1''), (''username'', JStr ''anna''), (''exp'', JInt 4600)]"

definition one_server :: server where
  "one_server = \<lparr>sv_config = \<lparr>jwt_secret = ''k'', jwt_algorithm = ''HS256'', jwt_expires_minutes = 60\<rparr>,
     sv_hashpw = (\<lambda>_ _. None), sv_checkpw = (\<lambda>_ _. None), sv_jwt_encode = (\<lambda>_ _ _. None),
     sv_jwt_decode = (\<lambda>_ _ _ _. Some one_claims), sv_pow = (\<lambda>x y. x), sv_moex = (\<lambda>_ _. GetFailed)\<rparr>"

definition one_call :: "int \<Rightarrow> call" where
  "one_call i = \<lparr>cl_env = sample_env i, cl_salt = [], cl_monotonic = 0, cl_order = [], cl_task = 0, cl_uuid = []\<rparr>"

definition one_app :: app where
  "one_app = \<lparr>ap_world = sample_world, ap_summaries = [], ap_references = toy_service\<rparr>"

lemma one_user: "get_current_user_id one_server (one_call i) (Some t) = Inr 1"
proof -
  have "int_of_string ''1'' = Some 1" by code_simp
  then show ?thesis
    by (simp add: get_current_user_id_def one_server_def verify_token_def one_claims_def claim_def
        malformed_claims_def from_seconds_def MIN_DATETIME_def MAX_DATETIME_def rne_of_int [of 4600000000, simplified])
qed


theorem client_errors_change_nothing_witness:
  "db_of (snd (handle one_server (one_call 9) (Some ''t'') (DeleteBond 1) one_app)) = db_of one_app
   \<and> status (fst (handle one_server (one_call 9) (Some ''t'') (DeleteBond 1) one_app)) = 409"
proof -
  have a: "fst (handle one_server (one_call 9) (Some ''t'') (DeleteBond 1) one_app) = Answer 409 Detail"
    by (simp add: handle_def one_user answered_def delete_bond_endpoint_def run_def one_app_def sample_world_def
        delete_bond_def get_bond_def row_of_def sample_db_def sample_bond_def sample_holding_def exception_handlers_def
        List.map_filter_def)
  have h: "handle one_server (one_call 9) (Some ''t'') (DeleteBond 1) one_app
      = (Answer 409 Detail, snd (handle one_server (one_call 9) (Some ''t'') (DeleteBond 1) one_app))"
    using a by (intro prod_eqI) simp_all
  have "db_of (snd (handle one_server (one_call 9) (Some ''t'') (DeleteBond 1) one_app)) = db_of one_app"
    by (rule client_errors_change_nothing [OF h]) simp_all
  with a show ?thesis by simp
qed

section \<open>Answers belong to the caller\<close>

fun own_body :: "int \<Rightarrow> body \<Rightarrow> bool" where
  "own_body u (AccountBody a) \<longleftrightarrow> a_user_id (d_account a) = u"
| "own_body u (AccountsBody as) \<longleftrightarrow> (\<forall>a \<in> set as. a_user_id (d_account a) = u)"
| "own_body u (TransactionBody t) \<longleftrightarrow> t_user_id t = u"
| "own_body u (TransactionsBody ts) \<longleftrightarrow> (\<forall>t \<in> set ts. t_user_id t = u)"
| "own_body u (OperationBody p) \<longleftrightarrow> o_user_id p = u"
| "own_body u (OperationsBody ps) \<longleftrightarrow> (\<forall>p \<in> set ps. o_user_id p = u)"
| "own_body u (SummaryBody x) \<longleftrightarrow> sm_user_id x = u"
| "own_body u (PositionsBody ps) \<longleftrightarrow> (\<forall>p \<in> set ps. p_user_id p = u)"
| "own_body u _ \<longleftrightarrow> True"

definition summaries_ok :: "cache \<Rightarrow> bool" where
  "summaries_ok cache \<longleftrightarrow> (\<forall>(u, x) \<in> set cache. sm_user_id x = u)"

lemma to_position_user [simp]: "p_user_id (to_position u b rows) = u"
  by (auto simp: to_position_def split: prod.split option.split)

lemma compute_summary_user: "compute_summary pw env u today a db = Inr x \<Longrightarrow> sm_user_id x = u"
  by (auto simp: compute_summary_def Let_def bind_result_Inr_iff split: sum.splits)

lemma map_sum_Inr: "map_sum id f r = Inr y \<longleftrightarrow> (\<exists>x. r = Inr x \<and> y = f x)"
  and map_sum_Inl: "map_sum id f r = Inl e \<longleftrightarrow> r = Inl e"
  by (cases r; auto)+

lemma cached_or_fresh_user:
  assumes "summaries_ok cache" and "cached_or_fresh pw env u q db cache = (r, cache')"
  shows "summaries_ok cache'" and "r = Inr (d, x) \<Longrightarrow> sm_user_id x = u"
proof -
  have c: "map_of cache u = Some x \<Longrightarrow> sm_user_id x = u" for x
    using assms(1) by (auto simp: summaries_ok_def dest: map_of_SomeD)
  show "summaries_ok cache'"
    using assms by (auto simp: cached_or_fresh_def Let_def summaries_ok_def dest: compute_summary_user
        split: option.splits sum.splits)
  show "r = Inr (d, x) \<Longrightarrow> sm_user_id x = u"
    using assms(2) c by (auto simp: cached_or_fresh_def Let_def map_sum_Inr dest: compute_summary_user
        split: option.splits sum.splits)
qed

lemma get_portfolio_summary_user:
  assumes "summaries_ok cache" and "get_portfolio_summary pw env u q db cache = (r, cache')"
  shows "summaries_ok cache'" and "r = Inr x \<Longrightarrow> sm_user_id x = u"
proof -
  obtain r1 c1 where f: "cached_or_fresh pw env u q db cache = (r1, c1)" by fastforce
  show "summaries_ok cache'"
    using assms f cached_or_fresh_user(1) [OF assms(1) f]
    by (auto simp: get_portfolio_summary_def split: if_splits sum.splits)
  show "r = Inr x \<Longrightarrow> sm_user_id x = u"
    using assms(2) f cached_or_fresh_user(2) [OF assms(1) f]
    by (auto simp: get_portfolio_summary_def bind_result_Inr_iff split: if_splits sum.splits)
qed

text \<open>The rows the services return for a user.\<close>

lemma listed_rows_own:
  "t \<in> set (list_transactions u b a db) \<Longrightarrow> t_user_id t = u"
  "p \<in> set (list_ops_for_user u db) \<Longrightarrow> o_user_id p = u"
  "p \<in> set (list_ops_for_account i u db) \<Longrightarrow> o_user_id p = u"
  "x \<in> set (get_all_positions u a db) \<Longrightarrow> p_user_id x = u"
  "c \<in> set (list_accounts_for_user u db) \<Longrightarrow> a_user_id (d_account c) = u"
  by (auto simp: list_transactions_def list_ops_for_user_def list_ops_for_account_def get_all_positions_def
      list_accounts_for_user_def List.map_filter_def joined_def)

lemma single_rows_own:
  "get_transaction i u db = Inr (Some t) \<Longrightarrow> t_user_id t = u"
  "get_op i u db = Inr (Some p) \<Longrightarrow> o_user_id p = u"
  "get_account i u db = Some c \<Longrightarrow> a_user_id (d_account c) = u"
  by (auto simp: get_transaction_def get_op_def get_account_def joined_def split: option.splits if_splits)

lemma created_rows_own:
  "fst (create_account env d u w) = Inr c \<Longrightarrow> a_user_id (d_account c) = u"
  "fst (create_op env e u w) = Inr p \<Longrightarrow> o_user_id p = u"
  "fst (add_transaction env u f w) = Inr t \<Longrightarrow> t_user_id t = u"
  by (auto simp: create_account_def create_op_def add_transaction_def Let_def returning_Inr new_account_def new_op_def
      new_txn_def split: option.splits sum.splits if_splits)

lemma updated_rows_own:
  "fst (update_account env d i u w) = Inr (Some c) \<Longrightarrow> a_user_id (d_account c) = u"
  "fst (update_op e i u w) = Inr (Some p) \<Longrightarrow> o_user_id p = u"
  "fst (update_transaction env f i u w) = Inr (Some t) \<Longrightarrow> t_user_id t = u"
  by (auto simp: update_account_def update_op_def update_transaction_def Let_def returning_Inr apply_account_update_def
      apply_op_update_def split: option.splits sum.splits if_splits)

lemma endpoint_own:
  assumes "summaries_ok (ap_summaries s)" and "\<not> public_request req"
  shows "summaries_ok (ap_summaries (snd (endpoint sv cl u req s)))"
    and "fst (endpoint sv cl u req s) = Inr b \<Longrightarrow> own_body u b"
proof -
  show "summaries_ok (ap_summaries (snd (endpoint sv cl u req s)))"
    using assms
    by (cases req) (auto simp: handler_defs create_bond_endpoint_def schedule_quietly_def search_bond_references_def
        get_bond_reference_def sync_bond_coupons_def get_portfolio_def get_bond_yield_def get_position_analytics_def
        run_def dest: get_portfolio_summary_user(1) split: prod.split sum.split option.split)
  show "own_body u b" if r: "fst (endpoint sv cl u req s) = Inr b"
  proof (cases req)
    case (GetPortfolio q)
    then show ?thesis
      using r get_portfolio_summary_user(2) [OF assms(1)]
      by (auto simp: get_portfolio_def map_sum_Inr split: prod.splits)
  qed (use r assms(2) in \<open>auto simp: handler_defs create_bond_run fst_run fst_read bind_result_Inr_iff found_Inr
      search_bond_references_def get_bond_reference_def sync_bond_coupons_def get_bond_yield_def map_sum_Inr deleted_def
      dest: listed_rows_own single_rows_own created_rows_own updated_rows_own
      split: prod.splits option.splits sum.splits if_splits\<close>)
qed



section \<open>Sessions\<close>

text \<open>
  A login opens a session of the user who logged in: the token that the login answers makes every
  later request, until it expires, a request of the registered user with that name, whose stored hash
  the password matched.
\<close>

theorem login_opens_own_session:
  assumes "jwt_decodes (sv_jwt_encode sv) (sv_jwt_decode sv)"
    and "fst (handle sv cl credentials (Login name pw) s) = Answer 200 (TokenResponse token)"
    and "expiry = whole_seconds (e_now (cl_env cl) + jwt_expires_minutes (sv_config sv) * 60000000)"
    and "whole_seconds (e_now (cl_env cl)) * 1000000 \<le> e_now (cl_env cl')"
    and "e_now (cl_env cl') < expiry * 1000000" and "0 \<le> expiry" and "expiry \<le> 253402300799"
  shows "\<exists>user \<in> set (users (db_of s)). u_username user = name
      \<and> verify_password (sv_checkpw sv) pw (u_password_hash user) = Inr True
      \<and> get_current_user_id sv cl' (Some token) = Inr (u_id user)"
proof -
  have "login (sv_checkpw sv) (sv_jwt_encode sv) (sv_config sv) (e_now (cl_env cl)) name pw (db_of s) = Inr token"
    using assms(2) by (auto simp: handle_def login_user_def read_def answered_def map_sum_Inr
        split: sum.splits if_splits)
  then obtain user where user: "get_user_by_username name (db_of s) = Some user"
    "verify_password (sv_checkpw sv) pw (u_password_hash user) = Inr True"
    "create_token (sv_jwt_encode sv) (sv_config sv) (e_now (cl_env cl)) (u_id user) (u_username user) None = Inr token"
    by (auto simp: login_def bind_result_Inr_iff split: option.splits if_splits)
  have "verify_token (sv_jwt_decode sv) (sv_config sv) (e_now (cl_env cl')) token
      = Inr \<lparr>tp_user_id = u_id user, tp_username = JStr (u_username user), tp_expires_at = expiry * 1000000\<rparr>"
    by (rule token_reads_back [OF assms(1) user(3)]) (use assms in simp_all)
  then show ?thesis
    using user(1,2) by (auto simp: get_current_user_id_def get_user_by_username_def find_Some_iff)
qed

section \<open>Partial updates\<close>

lemma updated_broker:
  assumes "fst (update_broker env d i w) = Inr (Some b)" and "db_wf (w_db w)"
  obtains old where "get_broker i (w_db w) = Some old" "b = apply_broker_update d old"
    "get_broker i (w_db (snd (update_broker env d i w))) = Some b"
proof -
  obtain old where old: "get_broker i (w_db w) = Some old" "b = apply_broker_update d old"
    using assms(1) by (auto simp: update_broker_def Let_def returning_Inr split: option.splits if_splits)
  let ?fpc = "flush_publish_commit (update_broker_row b (w_db w)) (publish env ''brokers'' ''broker.updated'' (broker_payload b)) w"
  have "fst ?fpc = Inr () \<and> w_db (snd (update_broker env d i w)) = w_db (snd ?fpc)"
    using assms(1) old by (auto simp: update_broker_def Let_def returning_Inr split: if_splits)
  then obtain db where db: "update_broker_row b (w_db w) = Inr db" "w_db (snd (update_broker env d i w)) = db"
    using flush_publish_commit_Inr [of "update_broker_row b (w_db w)" _ w "()"] by metis
  have inv: "distinct (map br_id (brokers (w_db w)))" using assms(2) by (simp add: put_wf_simps)
  have "br_id b = i" using old rows.lookup_key [OF inv] by (auto simp: get_broker_def apply_broker_update_def)
  then have "get_broker i db = Some b"
    using db(1) old(1) rows.lookup_put [OF inv, of b i]
    by (auto simp: update_broker_row_def get_broker_def split: if_splits)
  with old db(2) show thesis by (intro that) simp_all
qed

text \<open>
  A partial update of a broker through the interface clears what it does not mention: the handler
  dumps the whole request model, so a minimum commission and a description that the client left out
  reach the service as explicit nulls, and the stored broker has neither afterwards.
\<close>

theorem broker_update_clears_omitted:
  assumes "handle sv cl credentials (UpdateBroker i d) s = (Answer 200 (BrokerBody b), s')"
    and "db_wf (db_of s)" and "ur_min_commission d = Omitted" and "ur_description d = Omitted"
  shows "get_broker i (db_of s') = Some b \<and> br_min_commission b = None \<and> br_description b = None"
proof -
  have "fst (update_broker (cl_env cl) (dumped_broker_update d) i (ap_world s)) = Inr (Some b)"
    and s': "db_of s' = w_db (snd (update_broker (cl_env cl) (dumped_broker_update d) i (ap_world s)))"
    using assms(1)
    by (auto simp: handle_def answered_def update_broker_endpoint_def run_def found_Inr bind_result_Inr_iff
        split: sum.splits if_splits prod.splits)
  then obtain old where old: "b = apply_broker_update (dumped_broker_update d) old"
    "get_broker i (db_of s') = Some b"
    using assms(2) by (auto elim: updated_broker)
  then show ?thesis using assms(3,4) by (simp add: apply_broker_update_def dumped_broker_update_def)
qed

definition described_broker :: broker_row where
  "described_broker = \<lparr>br_id = 1, br_name = ''Broker'', br_commission = 0, br_min_commission = Some 5,
     br_min_commission_type = ''PERCENT'', br_description = Some ''text'', br_created_at = 0\<rparr>"

definition rename_broker :: broker_update where
  "rename_broker = \<lparr>ur_name = Given ''New'', ur_commission = Omitted, ur_min_commission = Omitted,
     ur_min_commission_type = Omitted, ur_description = Omitted\<rparr>"

definition described_app :: app where
  "described_app = one_app\<lparr>ap_world := \<lparr>w_db = empty_db\<lparr>brokers := [described_broker]\<rparr>, w_bus = start (bus_init 0)\<rparr>\<rparr>"

theorem broker_update_clears_omitted_witness:
  "get_broker 1 (db_of described_app) = Some described_broker
   \<and> get_broker 1 (db_of (snd (handle one_server (one_call 9) (Some ''t'') (UpdateBroker 1 rename_broker) described_app)))
      = Some (described_broker\<lparr>br_name := ''New'', br_min_commission := None, br_description := None\<rparr>)"
proof -
  let ?b = "described_broker\<lparr>br_name := ''New'', br_min_commission := None, br_description := None\<rparr>"
  let ?r = "handle one_server (one_call 9) (Some ''t'') (UpdateBroker 1 rename_broker) described_app"
  have u: "fst (update_broker (cl_env (one_call 9)) (dumped_broker_update rename_broker) 1 (ap_world described_app))
      = Inr (Some ?b)"
    by (simp add: update_broker_def Let_def fst_simps dumped_broker_update_def get_broker_def row_of_def
        described_app_def empty_db_def described_broker_def apply_broker_update_def rename_broker_def
        update_broker_row_def broker_check_def MIN_COMMISSION_TYPES_def ALL_TOPICS_def start_def bus_init_def image_iff)
  have "request_ok (UpdateBroker 1 rename_broker)"
    by (simp add: broker_update_ok_def field_ok_def rename_broker_def)
  then have "fst ?r = Answer 200 (BrokerBody ?b)"
    by (simp add: handle_def one_user split_beta update_broker_endpoint_def fst_run u found_def answered_def del: request_ok.simps)
  then have r: "?r = (Answer 200 (BrokerBody ?b), snd ?r)" by (intro prod_eqI) simp_all
  have wf: "db_wf (db_of described_app)"
    by (simp add: described_app_def put_wf_simps empty_db_def described_broker_def broker_check_def MIN_COMMISSION_TYPES_def)
  show ?thesis
    using broker_update_clears_omitted [OF r wf]
    by (simp add: rename_broker_def described_app_def get_broker_def row_of_def described_broker_def empty_db_def)
qed

definition carol_server :: server where
  "carol_server = one_server\<lparr>sv_config := toy_config, sv_checkpw := (\<lambda>_ _. Some True),
     sv_jwt_encode := (\<lambda>c s a. if c = toy_claims then Some ''t'' else None),
     sv_jwt_decode := (\<lambda>now t s a. Some toy_claims)\<rparr>"

definition carol_app :: app where
  "carol_app = one_app\<lparr>ap_world := \<lparr>w_db = empty_db\<lparr>users := [\<lparr>u_id = 7, u_username = ''carol'', u_password_hash = ''h''\<rparr>]\<rparr>,
     w_bus = bus_init 0\<rparr>\<rparr>"

definition carol_call :: "int \<Rightarrow> call" where
  "carol_call now = (one_call 9)\<lparr>cl_env := (sample_env 9)\<lparr>e_now := now\<rparr>\<rparr>"

theorem login_opens_own_session_witness:
  "fst (handle carol_server (carol_call 1000000000) None (Login ''carol'' [97]) carol_app) = Answer 200 (TokenResponse ''t'')
   \<and> get_current_user_id carol_server (carol_call 2000000000) (Some ''t'') = Inr 7"
proof -
  have sec: "whole_seconds 1000000000 = 1000" "whole_seconds 4600000000 = 4600"
    using whole_seconds_of_seconds [of 1000] whole_seconds_of_seconds [of 4600] by simp_all
  have str: "str_of_int 7 = ''7''" by code_simp
  have d: "jwt_decodes (sv_jwt_encode carol_server) (sv_jwt_decode carol_server)"
    by (auto simp: jwt_decodes_def carol_server_def split: if_splits)
  have l: "fst (handle carol_server (carol_call 1000000000) None (Login ''carol'' [97]) carol_app)
      = Answer 200 (TokenResponse ''t'')"
    by (simp add: handle_def login_user_def read_def answered_def login_def get_user_by_username_def carol_app_def
        carol_server_def carol_call_def verify_password_def utf8_char_def BCRYPT_MAX_PASSWORD_BYTES_def
        create_token_def toy_config_def MIN_DATETIME_def MAX_DATETIME_def sec str toy_claims_def)
  show ?thesis
    using login_opens_own_session [OF d l, of 4600 "carol_call 2000000000"] l sec
    by (simp add: carol_call_def carol_server_def toy_config_def carol_app_def)
qed

end
