(* ===== verification/EndpointInvariants.thy ===== *)
theory EndpointInvariants
  imports ApiSafety
begin

text \<open>
  What every endpoint of \<open>api/router.py\<close> keeps: the invariant \<open>db_ok\<close> of the database, which joins the
  constraints of the tables with the invariants of the transactions, the positions and the account
  operations; and \<open>typed_bus\<close>, that a message on a topic analytics listens to names a user.
\<close>

section \<open>The invariant of the database\<close>

definition db_ok :: "database \<Rightarrow> bool" where
  "db_ok db \<longleftrightarrow> db_wf db \<and> txns_ok db \<and> positions_ok db \<and> ops_ok db"

text \<open>
  A change that leaves transactions and account operations alone, and the accounts they are on with
  their owners.
\<close>

definition keeps_rows :: "database \<Rightarrow> database \<Rightarrow> bool" where
  "keeps_rows db db' \<longleftrightarrow> transactions db' = transactions db \<and> account_operations db' = account_operations db
     \<and> (\<forall>t \<in> set (transactions db). on_own_account db (t_user_id t) (t_account_id t) \<longrightarrow>
          on_own_account db' (t_user_id t) (t_account_id t))
     \<and> (\<forall>p \<in> set (account_operations db). on_own_account db (o_user_id p) (o_account_id p) \<longrightarrow>
          on_own_account db' (o_user_id p) (o_account_id p))"

lemma keeps_rows_refl [simp]: "keeps_rows db db"
  by (simp add: keeps_rows_def)

lemma keeps_rows_same:
  "transactions db' = transactions db \<Longrightarrow> account_operations db' = account_operations db \<Longrightarrow>
   broker_accounts db' = broker_accounts db \<Longrightarrow> keeps_rows db db'"
  by (simp add: keeps_rows_def on_own_account_def)

lemma keeps_rows_ok: "db_ok db \<Longrightarrow> keeps_rows db db' \<Longrightarrow> db_wf db' \<Longrightarrow> db_ok db'"
  by (auto simp: db_ok_def keeps_rows_def txns_ok_def positions_ok_def ops_ok_def)

section \<open>What the operations write\<close>

lemma flush_publish_commit_keeps_rows:
  assumes "\<And>v. w_db (snd (pub v)) = w_db v" and "\<And>db. fl = Inr db \<Longrightarrow> keeps_rows (w_db w) db"
  shows "keeps_rows (w_db w) (w_db (snd (flush_publish_commit fl pub w)))"
  using assms(1) [of w] assms(2) by (auto simp: flush_publish_commit_def split: sum.split prod.splits)

lemma statements_keep_rows:
  "insert_user u db = Inr db' \<Longrightarrow> keeps_rows db db'"
  "insert_bond b db = Inr db' \<Longrightarrow> keeps_rows db db'"
  "update_bond_row b db = Inr db' \<Longrightarrow> keeps_rows db db'"
  "insert_broker br db = Inr db' \<Longrightarrow> keeps_rows db db'"
  "update_broker_row br db = Inr db' \<Longrightarrow> keeps_rows db db'"
  by (auto simp: insert_user_def insert_bond_def update_bond_row_def insert_broker_def update_broker_row_def
      intro!: keeps_rows_same split: if_splits)

lemma insert_account_keeps_rows: "insert_account a db = Inr db' \<Longrightarrow> keeps_rows db db'"
  by (auto simp: insert_account_def keeps_rows_def on_own_account_def split: if_splits)

lemma put_account_keeps_own:
  assumes "find_account (a_id a) db = Some old" and "a_user_id a = a_user_id old" and "db_wf db"
    and "on_own_account db u i"
  shows "on_own_account (db\<lparr>broker_accounts := put_row a_id a (broker_accounts db)\<rparr>) u i"
proof -
  obtain x where x: "x \<in> set (broker_accounts db)" "a_id x = i" "a_user_id x = u"
    using assms(4) by (auto simp: on_own_account_def)
  have inv: "distinct (map a_id (broker_accounts db))" using assms(3) by (simp add: put_wf_simps)
  show ?thesis
  proof (cases "i = a_id a")
    case True
    then have "x = old" using assms(1) x rows.lookup_mem [OF inv, of i x] by (simp add: find_account_def)
    moreover have "a \<in> set (put_row a_id a (broker_accounts db))"
      using assms(1) by (simp add: rows.put_content [OF inv] find_account_def)
    ultimately show ?thesis using True x assms(2) by (auto simp: on_own_account_def)
  next
    case False
    then have "x \<in> set (put_row a_id a (broker_accounts db))" using x by (simp add: rows.put_content [OF inv])
    then show ?thesis using x by (auto simp: on_own_account_def)
  qed
qed

lemma deletes_keep_rows:
  "filter (\<lambda>t. t_bond_id t = i) (transactions db) = [] \<Longrightarrow> keeps_rows db (delete_bond_row i db)"
  "filter (\<lambda>a. a_broker_id a = i) (broker_accounts db) = [] \<Longrightarrow> keeps_rows db (delete_broker_row i db)"
proof -
  show "filter (\<lambda>t. t_bond_id t = i) (transactions db) = [] \<Longrightarrow> keeps_rows db (delete_bond_row i db)"
    by (intro keeps_rows_same) (auto simp: delete_bond_row_def filter_empty_conv filter_id_conv)
  show "filter (\<lambda>a. a_broker_id a = i) (broker_accounts db) = [] \<Longrightarrow> keeps_rows db (delete_broker_row i db)"
    using delete_broker_row_rest [of db i] by (intro keeps_rows_same) (auto simp: filter_empty_conv)
qed

lemma delete_account_row_keeps_rows:
  assumes "filter (\<lambda>t. t_account_id t = i) (transactions db) = []"
    and "filter (\<lambda>p. o_account_id p = i) (account_operations db) = []"
  shows "keeps_rows db (delete_account_row i db)"
proof -
  have "delete_account_row i db = db\<lparr>broker_accounts := drop_row a_id i (broker_accounts db)\<rparr>"
    using assms by (intro delete_account_row_rest) (auto simp: filter_empty_conv)
  moreover have "on_own_account db u a \<Longrightarrow> a \<noteq> i \<Longrightarrow>
      on_own_account (db\<lparr>broker_accounts := drop_row a_id i (broker_accounts db)\<rparr>) u a" for u a
    by (auto simp: on_own_account_def)
  ultimately show ?thesis using assms by (auto simp: keeps_rows_def filter_empty_conv)
qed

lemma update_account_row_keeps_rows:
  assumes "db_wf db" and "find_account i db = Some a" and "update_account_row (apply_account_update d a) db = Inr db'"
  shows "keeps_rows db db'"
proof -
  have inv: "distinct (map a_id (broker_accounts db))" using assms(1) by (simp add: put_wf_simps)
  have "a_id (apply_account_update d a) = i" "a_user_id (apply_account_update d a) = a_user_id a"
    using assms(2) rows.lookup_key [OF inv] by (simp_all add: apply_account_update_def find_account_def)
  then show ?thesis
    using put_account_keeps_own [of "apply_account_update d a" db a] assms
    by (auto simp: update_account_row_def keeps_rows_def split: if_splits)
qed

text \<open>Every operation but those on transactions and account operations keeps the rows of these tables.\<close>

lemma create_bond_keeps_rows: "keeps_rows (w_db w) (w_db (snd (create_bond env d u w)))"
  by (auto simp: create_bond_def Let_def intro!: flush_publish_commit_keeps_rows dest: statements_keep_rows)

lemma update_bond_keeps_rows: "keeps_rows (w_db w) (w_db (snd (update_bond env d i u w)))"
  by (auto simp: update_bond_def Let_def intro!: flush_publish_commit_keeps_rows dest: statements_keep_rows
      split: option.split)

lemma delete_bond_keeps_rows: "keeps_rows (w_db w) (w_db (snd (delete_bond env i u w)))"
  by (auto simp: delete_bond_def Let_def intro!: flush_publish_commit_keeps_rows deletes_keep_rows split: option.split)

lemma create_broker_keeps_rows: "keeps_rows (w_db w) (w_db (snd (create_broker env d w)))"
  by (auto simp: create_broker_def Let_def intro!: flush_publish_commit_keeps_rows dest: statements_keep_rows)

lemma update_broker_keeps_rows: "keeps_rows (w_db w) (w_db (snd (update_broker env d i w)))"
  by (auto simp: update_broker_def Let_def intro!: flush_publish_commit_keeps_rows dest: statements_keep_rows
      split: option.split)

lemma delete_broker_keeps_rows: "keeps_rows (w_db w) (w_db (snd (delete_broker env i w)))"
  by (auto simp: delete_broker_def intro!: flush_publish_commit_keeps_rows deletes_keep_rows split: option.split)

lemma create_account_keeps_rows: "keeps_rows (w_db w) (w_db (snd (create_account env d u w)))"
  by (auto simp: create_account_def Let_def intro!: flush_publish_commit_keeps_rows dest: insert_account_keeps_rows
      split: option.split)

lemma update_account_keeps_rows:
  "db_wf (w_db w) \<Longrightarrow> keeps_rows (w_db w) (w_db (snd (update_account env d i u w)))"
  by (auto simp: update_account_def Let_def intro!: flush_publish_commit_keeps_rows
      intro: update_account_row_keeps_rows split: option.split)

lemma delete_account_keeps_rows: "keeps_rows (w_db w) (w_db (snd (delete_account env i u w)))"
  by (auto simp: delete_account_def intro!: flush_publish_commit_keeps_rows delete_account_row_keeps_rows
      split: option.split)

lemma register_keeps_rows: "keeps_rows (w_db w) (w_db (snd (register hashpw salt env n p w)))"
  by (auto simp: register_def Let_def dest: statements_keep_rows split: sum.split)

lemma populate_keeps_rows: "keeps_rows (w_db w) (w_db (snd (populate_coupons moex s ids isin db0 w)))"
proof (rule populate_cases [of moex s ids isin db0 w])
  fix bond es db
  assume p: "populate_coupons moex s ids isin db0 w = (Inr (int (length es)), w\<lparr>w_db := db\<rparr>)"
    and a: "add_coupons ids 0 (b_id bond) es (delete_coupons (b_id bond) (w_db w)) = Inr db"
  have "keeps_rows (w_db w) db"
    by (subst stored_schedule_replaced(3) [OF a]) (rule keeps_rows_same; simp)
  then show ?thesis using p by simp
qed simp

section \<open>The invariant under the operations\<close>

lemma tables_apart [simp]:
  "txns_ok (db\<lparr>account_operations := x\<rparr>) = txns_ok db"
  "positions_ok (db\<lparr>account_operations := x\<rparr>) = positions_ok db"
  "ops_ok (db\<lparr>transactions := y\<rparr>) = ops_ok db"
  by (simp_all add: txns_ok_def positions_ok_def ops_ok_def)

lemma op_commands_db:
  "\<exists>x. w_db (snd (create_op env d u w)) = w_db w\<lparr>account_operations := x\<rparr>"
  "\<exists>x. w_db (snd (update_op e i u w)) = w_db w\<lparr>account_operations := x\<rparr>"
  "\<exists>x. w_db (snd (delete_op i u w)) = w_db w\<lparr>account_operations := x\<rparr>"
proof -
  have same: "\<exists>x. db = db\<lparr>account_operations := x\<rparr>" for db :: database
    by (rule exI [of _ "account_operations db"]) simp
  show "\<exists>x. w_db (snd (create_op env d u w)) = w_db w\<lparr>account_operations := x\<rparr>"
    by (auto simp: create_op_def Let_def flush_commit_cases insert_op_def same split: option.split)
  show "\<exists>x. w_db (snd (update_op e i u w)) = w_db w\<lparr>account_operations := x\<rparr>"
    by (auto simp: update_op_def Let_def flush_commit_cases update_op_row_def same split: option.split)
  show "\<exists>x. w_db (snd (delete_op i u w)) = w_db w\<lparr>account_operations := x\<rparr>"
    by (auto simp: delete_op_def flush_commit_cases delete_op_row_def same split: option.split)
qed

lemma txn_commands_db:
  "\<exists>x. w_db (snd (add_transaction env u c w)) = w_db w\<lparr>transactions := x\<rparr>"
  "\<exists>x. w_db (snd (update_transaction env d i u w)) = w_db w\<lparr>transactions := x\<rparr>"
  "\<exists>x. w_db (snd (delete_transaction env i u w)) = w_db w\<lparr>transactions := x\<rparr>"
proof -
  have same: "\<exists>x. db = db\<lparr>transactions := x\<rparr>" for db :: database
    by (rule exI [of _ "transactions db"]) simp
  have insert: "insert_txn t db = Inr db' \<Longrightarrow> \<exists>x. db' = db\<lparr>transactions := x\<rparr>"
    and update: "update_txn_row t db = Inr db' \<Longrightarrow> \<exists>x. db' = db\<lparr>transactions := x\<rparr>" for t db db'
    by (auto simp: insert_txn_def update_txn_row_def split: if_splits)
  show "\<exists>x. w_db (snd (add_transaction env u c w)) = w_db w\<lparr>transactions := x\<rparr>"
    using add_transaction_db [of env u c w] insert same [of "w_db w"] by metis
  show "\<exists>x. w_db (snd (update_transaction env d i u w)) = w_db w\<lparr>transactions := x\<rparr>"
    using update_transaction_db [of env d i u w] update same [of "w_db w"] by metis
  show "\<exists>x. w_db (snd (delete_transaction env i u w)) = w_db w\<lparr>transactions := x\<rparr>"
    using delete_transaction_db [of env i u w] same [of "w_db w"] unfolding delete_txn_row_def by metis
qed

lemma op_commands_db_ok:
  assumes "db_ok (w_db w)"
  shows "op_create_ok d \<Longrightarrow> db_ok (w_db (snd (create_op env d u w)))"
    and "op_update_ok e \<Longrightarrow> db_ok (w_db (snd (update_op e i u w)))"
    and "db_ok (w_db (snd (delete_op i u w)))"
proof -
  have parts: "db_wf (w_db w)" "txns_ok (w_db w)" "positions_ok (w_db w)" "ops_ok (w_db w)"
    using assms by (simp_all add: db_ok_def)
  have ok: "db_ok db" if "db_wf db" "ops_ok db" "\<exists>x. db = w_db w\<lparr>account_operations := x\<rparr>" for db
    using that parts by (auto simp: db_ok_def)
  show "op_create_ok d \<Longrightarrow> db_ok (w_db (snd (create_op env d u w)))"
    by (intro ok create_op.keeps_wf create_op_ok op_commands_db parts)
  show "op_update_ok e \<Longrightarrow> db_ok (w_db (snd (update_op e i u w)))"
    by (intro ok update_op.keeps_wf update_op_ok op_commands_db parts)
  show "db_ok (w_db (snd (delete_op i u w)))"
    by (intro ok delete_op.keeps_wf delete_op_ok op_commands_db parts)
qed

lemma txn_commands_db_ok:
  assumes "db_ok (w_db w)"
  shows "txn_create_ok c \<Longrightarrow> db_ok (w_db (snd (add_transaction env u c w)))"
    and "txn_update_ok d \<Longrightarrow> db_ok (w_db (snd (update_transaction env d i u w)))"
    and "db_ok (w_db (snd (delete_transaction env i u w)))"
proof -
  have parts: "db_wf (w_db w)" "txns_ok (w_db w)" "positions_ok (w_db w)" "ops_ok (w_db w)"
    using assms by (simp_all add: db_ok_def)
  have ok: "db_ok db" if "db_wf db" "txns_ok db" "positions_ok db" "\<exists>x. db = w_db w\<lparr>transactions := x\<rparr>" for db
    using that parts by (auto simp: db_ok_def)
  show "txn_create_ok c \<Longrightarrow> db_ok (w_db (snd (add_transaction env u c w)))"
    by (intro ok add_transaction.keeps_wf add_transaction_txns add_transaction_positions txn_commands_db parts)
  show "txn_update_ok d \<Longrightarrow> db_ok (w_db (snd (update_transaction env d i u w)))"
    by (intro ok update_transaction.keeps_wf update_transaction_txns update_transaction_positions txn_commands_db parts)
  show "db_ok (w_db (snd (delete_transaction env i u w)))"
    by (intro ok delete_transaction.keeps_wf delete_transaction_txns delete_transaction_positions txn_commands_db parts)
qed

lemma endpoint_db_ok:
  assumes "db_ok (db_of s)" and "request_ok req"
  shows "db_ok (db_of (snd (endpoint sv cl u req s)))"
proof -
  note keep = create_bond_keeps_rows update_bond_keeps_rows delete_bond_keeps_rows create_broker_keeps_rows
    update_broker_keeps_rows delete_broker_keeps_rows create_account_keeps_rows update_account_keeps_rows
    delete_account_keeps_rows register_keeps_rows
  note wf = create_bond.keeps_wf update_bond.keeps_wf delete_bond.keeps_wf create_broker.keeps_wf
    update_broker.keeps_wf delete_broker.keeps_wf create_account.keeps_wf update_account.keeps_wf
    delete_account.keeps_wf register.keeps_wf
  have "db_wf (db_of s)" using assms(1) by (simp add: db_ok_def)
  then show ?thesis
    using assms
    by (cases req) (auto simp: handler_defs create_bond_run
        intro: keeps_rows_ok keep wf op_commands_db_ok txn_commands_db_ok)
qed

section \<open>Messages that announce a change name a user\<close>

definition names_user :: "string \<Rightarrow> payload \<Rightarrow> bool" where
  "names_user t p \<longleftrightarrow> t \<in> set CHANGE_TOPICS \<longrightarrow> (\<exists>u. map_of p ''user_id'' = Some (VInt u))"

definition typed_bus :: "bus \<Rightarrow> bool" where
  "typed_bus b \<longleftrightarrow> (\<forall>m \<in> set (bs_published b). names_user (m_topic m) (m_payload m))"

definition typed :: "'a step \<Rightarrow> bool" where
  "typed f \<longleftrightarrow> (\<forall>w. typed_bus (w_bus w) \<longrightarrow> typed_bus (w_bus (snd (f w))))"

named_theorems typed_intros "operations that publish typed messages"

lemma typedD: "typed f \<Longrightarrow> typed_bus (w_bus w) \<Longrightarrow> typed_bus (w_bus (snd (f w)))"
  by (simp add: typed_def)

lemma typed_bus_db [simp]: "w_bus (w\<lparr>w_db := db\<rparr>) = w_bus w"
  by simp

lemma typed_publish [typed_intros]: "names_user t p \<Longrightarrow> typed (publish env s t p)"
  by (auto simp: typed_def typed_bus_def publish_def bus_publish_def split: sum.split)

lemma typed_pass [typed_intros]: "typed (\<lambda>w. (r w, w))"
  by (simp add: typed_def)

lemma typed_and_then [typed_intros]:
  assumes "typed f" and "typed g" shows "typed (and_then f g)"
  unfolding typed_def
proof (intro allI impI)
  fix w :: world assume w: "typed_bus (w_bus w)"
  obtain r v where f: "f w = (r, v)" by fastforce
  then show "typed_bus (w_bus (snd (and_then f g w)))"
    using typedD [OF assms(1) w] typedD [OF assms(2), of v] by (cases r) (simp_all add: and_then_def)
qed

lemma typed_publish_each [typed_intros]:
  assumes "\<And>p. p \<in> set ps \<Longrightarrow> names_user t p" shows "typed (publish_each env s t ps)"
proof -
  have "typed_bus (w_bus w) \<Longrightarrow> typed_bus (w_bus (snd (publish_each env s t ps w)))" for w
    using assms
  proof (induction ps arbitrary: w)
    case (Cons p ps)
    then have "typed (publish_each env s t ps)" by (simp add: typed_def)
    then have "typed (and_then (publish env s t p) (publish_each env s t ps))"
      using Cons.prems by (intro typed_intros) simp_all
    from typedD [OF this Cons.prems(1)] show ?case by simp
  qed simp
  then show ?thesis by (simp add: typed_def)
qed

lemma typed_positions [typed_intros]: "typed (publish_positions env u bs)"
proof -
  have "typed_bus (w_bus w) \<Longrightarrow> typed_bus (w_bus (snd (publish_positions env u bs w)))" for w
  proof (induction env u bs w rule: publish_positions.induct)
    case (2 env u b bs w)
    have "names_user ''position.updated'' (position_payload p)" for p
      by (simp add: names_user_def position_payload_def)
    then have "typed (publish_portfolio env ''position.updated'' (position_payload (get_position u b None (w_db w))))"
      unfolding publish_portfolio_def by (rule typed_publish)
    moreover have "typed (publish_positions env u (filter (\<lambda>x. x \<noteq> b) bs))" using 2(1) by (simp add: typed_def)
    ultimately show ?case
      unfolding publish_positions.simps by (intro typedD [OF typed_and_then] 2(2))
  qed (simp add: publish_positions.simps)
  then show ?thesis by (simp add: typed_def)
qed

lemma typed_flush_publish_commit:
  "typed pub \<Longrightarrow> typed_bus (w_bus w) \<Longrightarrow> typed_bus (w_bus (snd (flush_publish_commit fl pub w)))"
  using typedD [of pub w] by (auto simp: flush_publish_commit_def split: sum.split prod.splits)

lemma for_holder_names_user: "names_user t (for_holder p u)"
  by (auto simp: names_user_def for_holder_def map_of_append map_add_def split: option.split dest: map_of_SomeD)

lemma names_user_other: "t \<notin> set CHANGE_TOPICS \<Longrightarrow> names_user t p"
  by (simp add: names_user_def)

lemma typed_holders [typed_intros]: "typed (publish_for_holders env t hs p)"
  unfolding publish_for_holders_def by (rule typed_publish_each) (auto simp: for_holder_names_user)

lemma typed_portfolio [typed_intros]: "names_user t p \<Longrightarrow> typed (publish_portfolio env t p)"
  unfolding publish_portfolio_def by (rule typed_publish)

lemma portfolio_payloads: "names_user t (txn_payload x)" "names_user t (position_payload y)"
  by (simp_all add: names_user_def txn_payload_def position_payload_def)

lemma typed_bond_commands:
  "typed (create_bond env d u)" "typed (update_bond env e i u)" "typed (delete_bond env i u)"
proof -
  have "typed (publish env s ''bond.created'' p)" for s p
    by (intro typed_intros names_user_other) (simp add: CHANGE_TOPICS_def)
  then show "typed (create_bond env d u)"
    by (auto simp: typed_def [of "create_bond env d u"] create_bond_def Let_def intro: typed_flush_publish_commit)
  show "typed (update_bond env e i u)"
    by (auto simp: typed_def [of "update_bond env e i u"] update_bond_def Let_def
        intro: typed_flush_publish_commit typed_intros split: option.split)
  show "typed (delete_bond env i u)"
    by (auto simp: typed_def [of "delete_bond env i u"] delete_bond_def Let_def
        intro: typed_flush_publish_commit typed_intros split: option.split)
qed

lemma typed_broker_commands:
  "typed (create_broker env d)" "typed (update_broker env e i)" "typed (delete_broker env i)"
  "typed (create_account env f u)" "typed (update_account env g i u)" "typed (delete_account env i u)"
proof -
  have commit: "t \<in> set [''broker.created'', ''broker.updated'', ''broker.deleted'', ''broker_account.created'',
      ''broker_account.updated'', ''broker_account.deleted''] \<Longrightarrow> typed_bus (w_bus w) \<Longrightarrow>
    typed_bus (w_bus (snd (flush_publish_commit fl (publish env s t p) w)))" for t w fl s p
    by (intro typed_flush_publish_commit typed_intros names_user_other) (auto simp: CHANGE_TOPICS_def)
  show "typed (create_broker env d)"
    by (simp add: typed_def create_broker_def Let_def commit)
  show "typed (update_broker env e i)"
    by (simp add: typed_def update_broker_def Let_def commit split: option.split)
  show "typed (delete_broker env i)"
    by (simp add: typed_def delete_broker_def Let_def commit split: option.split)
  show "typed (create_account env f u)"
    by (simp add: typed_def create_account_def Let_def commit split: option.split)
  show "typed (update_account env g i u)"
    by (simp add: typed_def update_account_def Let_def commit split: option.split)
  show "typed (delete_account env i u)"
    by (simp add: typed_def delete_account_def Let_def commit split: option.split)
qed

lemma typed_silent_commands:
  "typed (create_op env d u)" "typed (update_op e i u)" "typed (delete_op i u)" "typed (register hashpw salt env n p)"
  "typed (populate_coupons moex s ids isin db0)"
proof -
  show "typed (create_op env d u)" "typed (update_op e i u)" "typed (delete_op i u)"
    by (auto simp: typed_def create_op_def update_op_def delete_op_def Let_def flush_commit_cases split: option.split sum.split)
  show "typed (register hashpw salt env n p)"
    by (auto simp: typed_def register_def Let_def split: sum.split)
  show "typed (populate_coupons moex s ids isin db0)"
    unfolding typed_def
  proof (intro allI impI)
    fix w :: world assume "typed_bus (w_bus w)"
    then show "typed_bus (w_bus (snd (populate_coupons moex s ids isin db0 w)))"
      by (rule_tac populate_cases [of moex s ids isin db0 w]) simp_all
  qed
qed

lemma typed_txn_commands:
  "typed (add_transaction env u c)" "typed (update_transaction env d i u)" "typed (delete_transaction env i u)"
proof -
  have after: "typed f \<Longrightarrow> typed_bus (w_bus w) \<Longrightarrow> typed_bus (w_bus (snd (f (w\<lparr>w_db := db\<rparr>))))" for f :: "unit step" and w db
    by (rule typedD) simp_all
  have deleted: "names_user ''transaction.deleted'' p" for p
    by (rule names_user_other) (simp add: CHANGE_TOPICS_def)
  show "typed (add_transaction env u c)"
    by (auto simp: typed_def [of "add_transaction env u c"] add_transaction_def Let_def
        intro!: after typed_intros portfolio_payloads split: sum.split)
  show "typed (update_transaction env d i u)"
    by (auto simp: typed_def [of "update_transaction env d i u"] update_transaction_def Let_def
        intro!: after typed_intros portfolio_payloads split: sum.split option.split)
  show "typed (delete_transaction env i u)"
    by (auto simp: typed_def [of "delete_transaction env i u"] delete_transaction_def Let_def
        intro!: after typed_intros portfolio_payloads deleted split: option.split)
qed

lemma endpoint_typed:
  "typed_bus (w_bus (ap_world s)) \<Longrightarrow> typed_bus (w_bus (ap_world (snd (endpoint sv cl u req s))))"
  by (cases req) (auto simp: handler_defs create_bond_run
      intro: typedD typed_bond_commands typed_broker_commands typed_silent_commands typed_txn_commands)

end
