(* ===== verification/UiCommon.thy ===== *)
theory UiCommon
  imports Calendar EndpointInvariants
begin

text \<open>
  \<open>ui/common.py\<close> and \<open>ui/base_page.py\<close>: what the pages share. NiceGUI is third-party code; a page is
  modelled by the values its widgets hold and by what it asks of the browser. A text field holds
  \<open>None\<close> or a string, a number field \<open>None\<close> or a finite number, a date field \<open>None\<close> or a string, and a
  selection one of its keys or \<open>None\<close>. Cyrillic texts are constructors: a toast is a \<open>notice\<close>, the dash
  of an empty cell is \<open>Dash\<close>.
\<close>

section \<open>Toasts\<close>

text \<open>
  \<open>Failed\<close> is \<open>notify_error\<close>; \<open>Invalid\<close> and \<open>Refused\<close> carry the exception whose text they show, \<open>Told\<close> is
  the text of an exception alone.
\<close>

datatype notice =
    Failed error
  | Invalid error
  | Refused error
  | Told error
  | ChooseFirst
  | NotFound
  | Created
  | Updated
  | Deleted
  | NameRequired
  | ChooseBroker
  | ChooseAccount
  | ChooseBond
  | QuantityNotPositive
  | AmountNotPositive
  | FillCredentials
  | PasswordsDiffer
  | Registered

text \<open>\<open>except (ValidationError, ValueError)\<close>: pydantic's error is a \<open>ValueError\<close>, and so is a failed encoding.\<close>

definition is_value_error :: "error \<Rightarrow> bool" where
  "is_value_error e \<longleftrightarrow> e = ValueError \<or> e = UnicodeEncodeError"

section \<open>Cells\<close>

text \<open>\<open>Rubles\<close> is followed by the sign of the currency.\<close>

datatype cell = Dash | Shown string | Rubles string

definition fmt_money :: "rat option \<Rightarrow> cell" where
  "fmt_money x = (case x of None \<Rightarrow> Dash | Some v \<Rightarrow> Shown (fixed2 v))"

definition fmt_percent :: "rat option \<Rightarrow> cell" where
  "fmt_percent x = (case x of None \<Rightarrow> Dash | Some v \<Rightarrow> Shown (percent2 v))"

definition fmt_date :: "date option \<Rightarrow> cell" where
  "fmt_date x = (case x of None \<Rightarrow> Dash | Some d \<Rightarrow> Shown (dotted d))"

definition fmt_datetime :: "int \<Rightarrow> string" where
  "fmt_datetime us = dotted_minute us"

text \<open>\<open>value or "-"\<close> of an optional text, where the dash is the long one.\<close>

definition or_dash :: "string option \<Rightarrow> cell" where
  "or_dash x = (case x of None \<Rightarrow> Dash | Some s \<Rightarrow> if s = [] then Dash else Shown s)"

section \<open>Values of the forms\<close>

text \<open>\<open>value or None\<close>, \<open>value or ""\<close> and \<open>value or 0\<close>\<close>

definition or_none :: "string option \<Rightarrow> string option" where
  "or_none x = (if x = Some [] then None else x)"

definition or_empty :: "string option \<Rightarrow> string" where
  "or_empty x = (case x of None \<Rightarrow> [] | Some s \<Rightarrow> s)"

definition or_zero :: "rat option \<Rightarrow> rat" where
  "or_zero x = (case x of None \<Rightarrow> 0 | Some v \<Rightarrow> v)"

definition is_filled :: "string option \<Rightarrow> bool" where
  "is_filled x \<longleftrightarrow> x \<noteq> None \<and> x \<noteq> Some []"

text \<open>\<open>int(value)\<close> of a finite number, and \<open>float(value)\<close>\<close>

definition truncated :: "rat \<Rightarrow> int" where
  "truncated x = (if 0 \<le> x then \<lfloor>x\<rfloor> else \<lceil>x\<rceil>)"

text \<open>A field of an update model that is built with every field given.\<close>

definition given :: "'a option \<Rightarrow> 'a field" where
  "given x = (case x of None \<Rightarrow> Null | Some v \<Rightarrow> Given v)"

definition parse_date :: "string option \<Rightarrow> date result" where
  "parse_date x = (case x of None \<Rightarrow> Inl ValueError | Some s \<Rightarrow> if s = [] then Inl ValueError else fromisoformat s)"

text \<open>\<open>parse_date(value) if value else None\<close>\<close>

definition optional_date :: "string option \<Rightarrow> date option result" where
  "optional_date x = (if is_filled x then map_sum id Some (parse_date x) else Inr None)"

lemma truncated_of_int [simp]: "truncated (of_int n) = n"
  by (simp add: truncated_def)

lemma given_simps [simp]: "given None = Null" "given (Some x) = Given x"
  by (simp_all add: given_def)

lemma set_given [simp]:
  "set_field (given (Some x)) y = x" "set_field (given None) y = y" "set_nullable (given x) z = x"
  by (cases x; simp)+

lemma or_none_empty [simp]: "or_none (Some (or_empty x)) = or_none x"
  by (cases x) (simp_all add: or_none_def or_empty_def)

lemma or_none_same [simp]: "x \<noteq> Some [] \<Longrightarrow> or_none x = x"
  by (simp add: or_none_def)

lemma parse_isoformat [simp]: "valid_date d \<Longrightarrow> parse_date (Some (isoformat d)) = Inr d"
  by (simp add: parse_date_def)

lemma optional_isoformat [simp]:
  "pred_option valid_date x \<Longrightarrow> optional_date (map_option isoformat x) = Inr x"
  by (cases x) (simp_all add: optional_date_def is_filled_def)

lemma parse_date_valid: "parse_date x = Inr d \<Longrightarrow> valid_date d"
  by (auto simp: parse_date_def split: option.splits if_splits dest: fromisoformat_valid)

lemma parse_date_raises: "raises {ValueError} (parse_date x)"
proof -
  have "raises {ValueError} (make_date y m k)" "raises {ValueError} (date_of_week y m k)" for y m k
    by (simp_all add: make_date_def date_of_week_def)
  then have "raises {ValueError} (fromisoformat s)" for s
    by (auto simp: fromisoformat_def Let_def split: option.split prod.split list.split)
  then show ?thesis by (simp add: parse_date_def split: option.split)
qed

section \<open>Rows and accounts\<close>

text \<open>
  The arguments of an event: the first dictionary with the key of the rows. A key finds the rows
  whose identifier equals it, and \<open>1.0\<close> and \<open>True\<close> equal 1; a list or a dictionary is no key.
\<close>

definition row_from_event :: "json \<Rightarrow> string \<Rightarrow> (string \<times> json) list option" where
  "row_from_event args row_key =
     (let items = (case args of JArr xs \<Rightarrow> xs | x \<Rightarrow> [x])
      in case List.map_filter (\<lambda>item. case item of
                JObj kv \<Rightarrow> if map_of kv row_key = None then None else Some kv | _ \<Rightarrow> None) items of
           [] \<Rightarrow> None | kv # _ \<Rightarrow> Some kv)"

fun as_key :: "json \<Rightarrow> int option result" where
  "as_key (JInt n) = Inr (Some n)"
| "as_key (JBool b) = Inr (Some (if b then 1 else 0))"
| "as_key (JFloat (Fin x)) = Inr (if of_int \<lfloor>x\<rfloor> = x then Some \<lfloor>x\<rfloor> else None)"
| "as_key (JArr xs) = Inl TypeError"
| "as_key (JObj kv) = Inl TypeError"
| "as_key _ = Inr None"

definition resolve_account_id :: "int option \<Rightarrow> int option" where
  "resolve_account_id x = (if x = None \<or> x = Some 0 then None else x)"

text \<open>\<open>AllAccounts\<close> is the first entry of a selection that is not mandatory.\<close>

datatype option_label = AllAccounts | Label string

definition account_label :: "account_dto \<Rightarrow> string" where
  "account_label a = d_broker_name a @ '' / '' @ a_name (d_account a)"

record selector =
  sl_options :: "(int \<times> option_label) list"
  sl_value :: "int option"

definition build_account_selector :: "int \<Rightarrow> bool \<Rightarrow> database \<Rightarrow> selector" where
  "build_account_selector user_id mandatory db =
     (let options = fold (\<lambda>a. AList.update (a_id (d_account a)) (Label (account_label a)))
            (list_accounts_for_user user_id db) (if mandatory then [] else [(0, AllAccounts)])
      in \<lparr>sl_options = options, sl_value = (case options of [] \<Rightarrow> None | kv # _ \<Rightarrow> Some (fst kv))\<rparr>)"

text \<open>The names of the user's accounts, and the name shown for an account that is not among them.\<close>

definition account_names :: "int \<Rightarrow> database \<Rightarrow> (int \<times> string) list" where
  "account_names u db = map (\<lambda>a. (a_id (d_account a), account_label a)) (list_accounts_for_user u db)"

definition name_or_number :: "(int \<times> string) list \<Rightarrow> int \<Rightarrow> string" where
  "name_or_number names i = (case map_of (rev names) i of None \<Rightarrow> ''#'' @ str_of_int i | Some s \<Rightarrow> s)"

text \<open>An operation of a service on the world of the application.\<close>

definition on_world :: "'a step \<Rightarrow> app \<Rightarrow> 'a result \<times> app" where
  "on_world f s = (case f (ap_world s) of (r, w) \<Rightarrow> (r, s\<lparr>ap_world := w\<rparr>))"

lemma on_world_simps [simp]:
  "fst (on_world f s) = fst (f (ap_world s))" "ap_world (snd (on_world f s)) = snd (f (ap_world s))"
  "ap_summaries (snd (on_world f s)) = ap_summaries s" "ap_references (snd (on_world f s)) = ap_references s"
  by (simp_all add: on_world_def split: prod.split)

text \<open>The states of the application in which services work, and updates that write back the row they found.\<close>

definition app_ready :: "app \<Rightarrow> bool" where
  "app_ready s \<longleftrightarrow> db_wf (db_of s) \<and> bs_running (w_bus (ap_world s))"

lemma put_same:
  assumes "distinct (map key rows)" and "r \<in> set rows" shows "put_row key r rows = rows"
proof -
  have "(if key x = key r then r else x) = x" if "x \<in> set rows" for x
    using assms that by (auto simp: distinct_map inj_on_def)
  then show ?thesis by (simp add: put_row_def map_idI)
qed

lemma commit_same:
  assumes "bs_running (w_bus w)" and "t \<in> set ALL_TOPICS" and "sd \<noteq> []"
  shows "fst (flush_publish_commit (Inr (w_db w)) (publish env sd t p) w) = Inr ()"
    and "w_db (snd (flush_publish_commit (Inr (w_db w)) (publish env sd t p) w)) = w_db w"
  using publish_running [OF assms(2,3,1)] by (simp_all add: flush_publish_commit_def)

section \<open>The session of the browser\<close>

text \<open>What a page asks of the browser.\<close>

datatype effect = NavigateTo string | WriteCookie string

definition TOKEN_COOKIE :: string where "TOKEN_COOKIE = ''token''"

definition FALLBACK_MAX_AGE :: int where "FALLBACK_MAX_AGE = 1440 * 60"

definition get_current_user :: "server \<Rightarrow> int \<Rightarrow> string option \<Rightarrow> (token_payload option \<times> effect list) result" where
  "get_current_user sv now cookie =
     (case cookie of
        None \<Rightarrow> Inr (None, [NavigateTo ''/login''])
      | Some token \<Rightarrow>
          if token = [] then Inr (None, [NavigateTo ''/login''])
          else (case verify_token (sv_jwt_decode sv) (sv_config sv) now token of
                  Inr p \<Rightarrow> Inr (Some p, [])
                | Inl e \<Rightarrow> if e = JwtError then Inr (None, [NavigateTo ''/login'']) else Inl e))"

text \<open>\<open>BasePage._handle_page\<close>: the page is rendered for the user of a verified token only.\<close>

definition handle_page :: "server \<Rightarrow> int \<Rightarrow> string option \<Rightarrow> (token_payload \<Rightarrow> 'p) \<Rightarrow> ('p option \<times> effect list) result" where
  "handle_page sv now cookie render =
     bind_result (get_current_user sv now cookie) (\<lambda>(user, effects). Inr (map_option render user, effects))"

text \<open>\<open>token.split(".")[1]\<close>, and \<open>claims["exp"]\<close> of whatever the JSON text holds.\<close>

definition payload_part :: "string \<Rightarrow> string result" where
  "payload_part token =
     (case split_at (CHR ''.'') token of
        (_, None) \<Rightarrow> Inl IndexError
      | (_, Some rest) \<Rightarrow> Inr (fst (split_at (CHR ''.'') rest)))"

fun item :: "json \<Rightarrow> string \<Rightarrow> json result" where
  "item (JObj kv) key = (case map_of kv key of None \<Rightarrow> Inl KeyError | Some x \<Rightarrow> Inr x)"
| "item _ key = Inl TypeError"

text \<open>
  \<open>json.loads(base64.urlsafe_b64decode(part))\<close> is the parameter \<open>loads\<close>.
\<close>

definition token_max_age :: "(string \<Rightarrow> json result) \<Rightarrow> int \<Rightarrow> string \<Rightarrow> int result" where
  "token_max_age loads now token =
     (case bind_result (payload_part token) (\<lambda>part.
             bind_result (loads part) (\<lambda>claims. bind_result (item claims ''exp'') int_of_json)) of
        Inl e \<Rightarrow> if e \<in> {IndexError, KeyError, TypeError} \<or> is_value_error e then Inr FALLBACK_MAX_AGE else Inl e
      | Inr expires \<Rightarrow> Inr (max 0 (expires - whole_seconds now)))"

definition cookie_text :: "string \<Rightarrow> int \<Rightarrow> bool \<Rightarrow> string" where
  "cookie_text token max_age https =
     TOKEN_COOKIE @ ''='' @ token @ ''; Path=/; Max-Age='' @ str_of_int max_age @ ''; SameSite=Lax''
     @ (if https then ''; Secure'' else [])"

definition set_token_cookie :: "(string \<Rightarrow> json result) \<Rightarrow> int \<Rightarrow> bool \<Rightarrow> string \<Rightarrow> effect result" where
  "set_token_cookie loads now https token =
     map_sum id (\<lambda>age. WriteCookie (cookie_text token age https)) (token_max_age loads now token)"

definition clear_token_cookie :: "bool \<Rightarrow> effect" where
  "clear_token_cookie https = WriteCookie (cookie_text [] 0 https)"

definition logout :: "bool \<Rightarrow> effect list" where
  "logout https = [clear_token_cookie https, NavigateTo ''/login'']"

definition NAV_ITEMS :: "string list" where
  "NAV_ITEMS = [''/'', ''/bonds'', ''/brokers'', ''/accounts'', ''/transactions'', ''/operations'', ''/analytics'']"

text \<open>The links of the side menu, with the one that is highlighted.\<close>

definition page_header :: "string \<Rightarrow> (string \<times> bool) list" where
  "page_header active_path = map (\<lambda>path. (path, path = active_path)) NAV_ITEMS"

end
