(* ===== verification/CrudPage.thy ===== *)
theory CrudPage
  imports UiCommon
begin

text \<open>
  \<open>ui/crud_mixin.py\<close>: the scenario shared by the pages of bonds, brokers, accounts and account operations.
  The abstract methods of \<open>CrudPageMixin\<close> are the fields of \<open>crud_hooks\<close>, the state object of a page is
  \<open>page\<close>, and each method is a function of both. A page works on a state \<open>'s\<close> of the application that
  other requests change between its events. A dialog is modal: while one is open, only its own
  widgets receive events.
\<close>

section \<open>State and hooks\<close>

text \<open>
  \<open>pg_confirm_message\<close> is the record that the question before a deletion names. The tables have no
  selection, so \<open>table.selected\<close> is always empty and left out.
\<close>

record ('e, 'r, 'c, 'u) page =
  pg_cache :: "(int \<times> 'e) list"
  pg_selected_id :: "int option"
  pg_rows :: "'r list"
  pg_create_dialog :: bool
  pg_edit_dialog :: bool
  pg_confirm_dialog :: bool
  pg_create_form :: 'c
  pg_edit_form :: 'u
  pg_confirm_message :: "'e option"
  pg_notices :: "notice list"

text \<open>
  \<open>load_rows\<close> returns the records it puts into the cache with the rows of the table;
  \<open>create_closed\<close> is the callback on the closing of the create dialog.
\<close>

record ('s, 'e, 'r, 'c, 'u, 'n, 'm) crud_hooks =
  entity_id :: "'e \<Rightarrow> int"
  load_rows :: "'s \<Rightarrow> ('e list \<times> 'r list) result"
  fill_edit_form :: "'e \<Rightarrow> 'u \<Rightarrow> 'u"
  prevalidate_create :: "'c \<Rightarrow> notice option"
  prevalidate_update :: "'u \<Rightarrow> notice option"
  build_create_dto :: "'c \<Rightarrow> 'n result"
  build_update_dto :: "'u \<Rightarrow> 'm result"
  service_create :: "call \<Rightarrow> 'n \<Rightarrow> 's \<Rightarrow> 'e result \<times> 's"
  service_update :: "call \<Rightarrow> int \<Rightarrow> 'm \<Rightarrow> 's \<Rightarrow> 'e option result \<times> 's"
  service_delete :: "call \<Rightarrow> int \<Rightarrow> 's \<Rightarrow> bool result \<times> 's"
  delete_guard_error :: "error list"
  reset_create_form :: "'c \<Rightarrow> 'c"
  create_closed :: "'c \<Rightarrow> 'c"

definition notify :: "notice \<Rightarrow> ('e, 'r, 'c, 'u) page \<Rightarrow> ('e, 'r, 'c, 'u) page" where
  "notify n p = p\<lparr>pg_notices := pg_notices p @ [n]\<rparr>"

text \<open>\<open>{record.id: record for record in records}\<close>\<close>

definition cache_of :: "('e \<Rightarrow> int) \<Rightarrow> 'e list \<Rightarrow> (int \<times> 'e) list" where
  "cache_of k xs = fold (\<lambda>x. AList.update (k x) x) xs []"

section \<open>The methods\<close>

definition reload ::
    "('s, 'e, 'r, 'c, 'u, 'n, 'm) crud_hooks \<Rightarrow> 's \<Rightarrow> ('e, 'r, 'c, 'u) page \<Rightarrow> ('e, 'r, 'c, 'u) page" where
  "reload hk s p =
     (case load_rows hk s of
        Inl e \<Rightarrow> notify (Failed e) p
      | Inr (xs, rows) \<Rightarrow>
          p\<lparr>pg_cache := cache_of (entity_id hk) xs, pg_rows := rows, pg_selected_id := None\<rparr>)"

definition show_edit_form ::
    "('s, 'e, 'r, 'c, 'u, 'n, 'm) crud_hooks \<Rightarrow> 'e \<Rightarrow> ('e, 'r, 'c, 'u) page \<Rightarrow> ('e, 'r, 'c, 'u) page" where
  "show_edit_form hk x p =
     p\<lparr>pg_edit_form := fill_edit_form hk x (pg_edit_form p), pg_confirm_message := Some x, pg_edit_dialog := True\<rparr>"

definition on_table_select ::
    "('s, 'e, 'r, 'c, 'u, 'n, 'm) crud_hooks \<Rightarrow> json \<Rightarrow> ('e, 'r, 'c, 'u) page \<Rightarrow> ('e, 'r, 'c, 'u) page result" where
  "on_table_select hk args p =
     (case Option.bind (row_from_event args ''id'') (\<lambda>row. map_of row ''id'') of
        None \<Rightarrow> Inr p
      | Some v \<Rightarrow> bind_result (as_key v) (\<lambda>k.
          case Option.bind k (map_of (pg_cache p)) of
            None \<Rightarrow> Inr p
          | Some x \<Rightarrow> Inr (show_edit_form hk x (p\<lparr>pg_selected_id := Some (entity_id hk x)\<rparr>))))"

definition failure_notice :: "error \<Rightarrow> notice" where
  "failure_notice e = (if is_value_error e then Invalid e else Failed e)"

definition close_create ::
    "('s, 'e, 'r, 'c, 'u, 'n, 'm) crud_hooks \<Rightarrow> ('e, 'r, 'c, 'u) page \<Rightarrow> ('e, 'r, 'c, 'u) page" where
  "close_create hk p =
     (if pg_create_dialog p
      then p\<lparr>pg_create_dialog := False, pg_create_form := create_closed hk (pg_create_form p)\<rparr> else p)"

definition handle_create ::
    "('s, 'e, 'r, 'c, 'u, 'n, 'm) crud_hooks \<Rightarrow> call \<Rightarrow> ('e, 'r, 'c, 'u) page \<times> 's \<Rightarrow> ('e, 'r, 'c, 'u) page \<times> 's" where
  "handle_create hk cl ps =
     (case ps of (p, s) \<Rightarrow>
      case prevalidate_create hk (pg_create_form p) of
        Some n \<Rightarrow> (notify n p, s)
      | None \<Rightarrow>
          (case build_create_dto hk (pg_create_form p) of
             Inl e \<Rightarrow> (notify (failure_notice e) p, s)
           | Inr dto \<Rightarrow>
               (case service_create hk cl dto s of
                  (Inl e, s') \<Rightarrow> (notify (failure_notice e) p, s')
                | (Inr x, s') \<Rightarrow> (reload hk s' (close_create hk (notify Created p)), s'))))"

definition open_create_dialog ::
    "('s, 'e, 'r, 'c, 'u, 'n, 'm) crud_hooks \<Rightarrow> ('e, 'r, 'c, 'u) page \<Rightarrow> ('e, 'r, 'c, 'u) page" where
  "open_create_dialog hk p =
     p\<lparr>pg_create_form := reset_create_form hk (pg_create_form p), pg_create_dialog := True\<rparr>"

definition handle_update ::
    "('s, 'e, 'r, 'c, 'u, 'n, 'm) crud_hooks \<Rightarrow> call \<Rightarrow> ('e, 'r, 'c, 'u) page \<times> 's \<Rightarrow> ('e, 'r, 'c, 'u) page \<times> 's" where
  "handle_update hk cl ps =
     (case ps of (p, s) \<Rightarrow>
      case pg_selected_id p of
        None \<Rightarrow> (notify ChooseFirst p, s)
      | Some i \<Rightarrow>
          (case prevalidate_update hk (pg_edit_form p) of
             Some n \<Rightarrow> (notify n p, s)
           | None \<Rightarrow>
               (case build_update_dto hk (pg_edit_form p) of
                  Inl e \<Rightarrow> (notify (failure_notice e) p, s)
                | Inr dto \<Rightarrow>
                    (case service_update hk cl i dto s of
                       (Inl e, s') \<Rightarrow> (notify (failure_notice e) p, s')
                     | (Inr None, s') \<Rightarrow> (reload hk s' (notify NotFound p), s')
                     | (Inr (Some x), s') \<Rightarrow>
                         (reload hk s' ((notify Updated p)\<lparr>pg_edit_dialog := False\<rparr>), s')))))"

definition handle_delete :: "('e, 'r, 'c, 'u) page \<Rightarrow> ('e, 'r, 'c, 'u) page" where
  "handle_delete p =
     (if pg_selected_id p = None then notify ChooseFirst p
      else p\<lparr>pg_edit_dialog := False, pg_confirm_dialog := True\<rparr>)"

definition confirm_delete ::
    "('s, 'e, 'r, 'c, 'u, 'n, 'm) crud_hooks \<Rightarrow> call \<Rightarrow> ('e, 'r, 'c, 'u) page \<times> 's \<Rightarrow> ('e, 'r, 'c, 'u) page \<times> 's" where
  "confirm_delete hk cl ps =
     (case ps of (p0, s) \<Rightarrow>
      let p = p0\<lparr>pg_confirm_dialog := False\<rparr>
      in case pg_selected_id p of
           None \<Rightarrow> (p, s)
         | Some i \<Rightarrow>
             (case service_delete hk cl i s of
                (Inl e, s') \<Rightarrow>
                  if e \<in> set (delete_guard_error hk)
                  then (case map_of (pg_cache p) i of
                          None \<Rightarrow> (notify (Refused e) p, s')
                        | Some x \<Rightarrow> (show_edit_form hk x (notify (Refused e) p), s'))
                  else (notify (Failed e) p, s')
              | (Inr True, s') \<Rightarrow> (reload hk s' (notify Deleted p), s')
              | (Inr False, s') \<Rightarrow> (reload hk s' (notify NotFound p), s')))"

section \<open>Events of a page\<close>

text \<open>
  The page as \<open>render\<close> opens it, and the wiring of its widgets. \<open>CreateEdited\<close> and \<open>EditEdited\<close> are the
  user's input into the fields of an open form.
\<close>

definition open_page ::
    "('s, 'e, 'r, 'c, 'u, 'n, 'm) crud_hooks \<Rightarrow> 'c \<Rightarrow> 'u \<Rightarrow> 's \<Rightarrow> ('e, 'r, 'c, 'u) page" where
  "open_page hk c u s =
     reload hk s \<lparr>pg_cache = [], pg_selected_id = None, pg_rows = [], pg_create_dialog = False,
       pg_edit_dialog = False, pg_confirm_dialog = False, pg_create_form = c, pg_edit_form = u,
       pg_confirm_message = None, pg_notices = []\<rparr>"

datatype ('c, 'u) page_event =
    AddClicked
  | CreateEdited 'c
  | ReadyClicked
  | CreateDismissed
  | RowClicked json
  | EditEdited 'u
  | SaveClicked
  | DeleteClicked
  | EditDismissed
  | YesClicked
  | NoClicked

definition no_dialog :: "('e, 'r, 'c, 'u) page \<Rightarrow> bool" where
  "no_dialog p \<longleftrightarrow> \<not> pg_create_dialog p \<and> \<not> pg_edit_dialog p \<and> \<not> pg_confirm_dialog p"

fun receives :: "('e, 'r, 'c, 'u) page \<Rightarrow> ('c, 'u) page_event \<Rightarrow> bool" where
  "receives p AddClicked = no_dialog p"
| "receives p (RowClicked args) = no_dialog p"
| "receives p (CreateEdited c) = pg_create_dialog p"
| "receives p ReadyClicked = pg_create_dialog p"
| "receives p CreateDismissed = pg_create_dialog p"
| "receives p (EditEdited u) = pg_edit_dialog p"
| "receives p SaveClicked = pg_edit_dialog p"
| "receives p DeleteClicked = pg_edit_dialog p"
| "receives p EditDismissed = pg_edit_dialog p"
| "receives p YesClicked = pg_confirm_dialog p"
| "receives p NoClicked = pg_confirm_dialog p"

fun on_event ::
    "('s, 'e, 'r, 'c, 'u, 'n, 'm) crud_hooks \<Rightarrow> call \<Rightarrow> ('c, 'u) page_event
     \<Rightarrow> ('e, 'r, 'c, 'u) page \<times> 's \<Rightarrow> ('e, 'r, 'c, 'u) page \<times> 's" where
  "on_event hk cl AddClicked (p, s) = (open_create_dialog hk p, s)"
| "on_event hk cl (CreateEdited c) (p, s) = (p\<lparr>pg_create_form := c\<rparr>, s)"
| "on_event hk cl ReadyClicked (p, s) = handle_create hk cl (p, s)"
| "on_event hk cl CreateDismissed (p, s) = (close_create hk p, s)"
| "on_event hk cl (RowClicked args) (p, s) =
     ((case on_table_select hk args p of Inl e \<Rightarrow> p | Inr p' \<Rightarrow> p'), s)"
| "on_event hk cl (EditEdited u) (p, s) = (p\<lparr>pg_edit_form := u\<rparr>, s)"
| "on_event hk cl SaveClicked (p, s) = handle_update hk cl (p, s)"
| "on_event hk cl DeleteClicked (p, s) = (handle_delete p, s)"
| "on_event hk cl EditDismissed (p, s) = (p\<lparr>pg_edit_dialog := False\<rparr>, s)"
| "on_event hk cl YesClicked (p, s) = confirm_delete hk cl (p, s)"
| "on_event hk cl NoClicked (p, s) = (p\<lparr>pg_confirm_dialog := False\<rparr>, s)"

text \<open>
  The states of an open page: it starts at some state of the application, receives events, and the
  application changes meanwhile.
\<close>

inductive page_session ::
    "('s, 'e, 'r, 'c, 'u, 'n, 'm) crud_hooks \<Rightarrow> 'c \<Rightarrow> 'u \<Rightarrow> ('e, 'r, 'c, 'u) page \<times> 's \<Rightarrow> bool" for hk c u where
  session_opens: "page_session hk c u (open_page hk c u s, s)"
| session_event: "page_session hk c u (p, s) \<Longrightarrow> receives p e \<Longrightarrow> page_session hk c u (on_event hk cl e (p, s))"
| session_elsewhere: "page_session hk c u (p, s) \<Longrightarrow> page_session hk c u (p, s')"

inductive_cases page_sessionE: "page_session hk c u ps"

section \<open>What every page keeps\<close>

text \<open>
  The cache files a record under its identifier; a selected record is in the cache, and the question
  before a deletion is asked about the selected record; one dialog is open at most.
\<close>

definition page_ok :: "('e \<Rightarrow> int) \<Rightarrow> ('e, 'r, 'c, 'u) page \<Rightarrow> bool" where
  "page_ok k p \<longleftrightarrow> (\<forall>i x. map_of (pg_cache p) i = Some x \<longrightarrow> k x = i)
     \<and> (\<forall>i. pg_selected_id p = Some i \<longrightarrow> (\<exists>x. map_of (pg_cache p) i = Some x \<and> pg_confirm_message p = Some x))
     \<and> (pg_confirm_dialog p \<longrightarrow> pg_selected_id p \<noteq> None \<and> \<not> pg_edit_dialog p)
     \<and> (pg_create_dialog p \<longrightarrow> \<not> pg_edit_dialog p \<and> \<not> pg_confirm_dialog p)"

lemma cache_of_Nil [simp]: "cache_of k [] = []"
  by (simp add: cache_of_def)

lemma cache_of_snoc [simp]: "map_of (cache_of k (xs @ [y])) = (map_of (cache_of k xs))(k y \<mapsto> y)"
  by (simp add: cache_of_def update_conv' fun_eq_iff)

lemma cache_of_keys: "map_of (cache_of k xs) i = Some x \<Longrightarrow> k x = i \<and> x \<in> set xs"
  by (induction xs arbitrary: x rule: rev_induct) (auto split: if_splits)

lemma map_of_cache_of: "distinct (map k xs) \<Longrightarrow> x \<in> set xs \<Longrightarrow> map_of (cache_of k xs) (k x) = Some x"
proof (induction xs rule: rev_induct)
  case (snoc y xs)
  then show ?case by (cases "x = y") (auto simp: rev_image_eqI)
qed simp

lemma notify_simps [simp]:
  "pg_cache (notify n p) = pg_cache p" "pg_selected_id (notify n p) = pg_selected_id p"
  "pg_rows (notify n p) = pg_rows p" "pg_create_dialog (notify n p) = pg_create_dialog p"
  "pg_edit_dialog (notify n p) = pg_edit_dialog p" "pg_confirm_dialog (notify n p) = pg_confirm_dialog p"
  "pg_create_form (notify n p) = pg_create_form p" "pg_edit_form (notify n p) = pg_edit_form p"
  "pg_confirm_message (notify n p) = pg_confirm_message p" "pg_notices (notify n p) = pg_notices p @ [n]"
  by (simp_all add: notify_def)

lemma page_ok_notify [simp]: "page_ok k (notify n p) = page_ok k p"
  by (simp add: page_ok_def)

lemma page_ok_close: 
  "page_ok k p \<Longrightarrow> page_ok k (close_create hk p)" "page_ok k p \<Longrightarrow> page_ok k (p\<lparr>pg_edit_dialog := False\<rparr>)"
  "page_ok k p \<Longrightarrow> page_ok k (p\<lparr>pg_confirm_dialog := False\<rparr>)"
  by (auto simp: page_ok_def close_create_def)

lemma page_ok_reload:
  "page_ok (entity_id hk) p \<Longrightarrow> \<not> pg_confirm_dialog p \<Longrightarrow> page_ok (entity_id hk) (reload hk s p)"
  by (auto simp: reload_def page_ok_def dest: cache_of_keys split: sum.split)

lemma page_ok_shown:
  assumes "page_ok (entity_id hk) p" and "map_of (pg_cache p) i = Some x" and "pg_selected_id q = Some i"
    and "pg_cache q = pg_cache p" and "\<not> pg_create_dialog q" and "\<not> pg_confirm_dialog q"
  shows "page_ok (entity_id hk) (show_edit_form hk x q)"
  using assms by (simp add: page_ok_def show_edit_form_def)

lemma close_create_simps [simp]:
  "pg_confirm_dialog (close_create hk p) = pg_confirm_dialog p" "pg_edit_dialog (close_create hk p) = pg_edit_dialog p"
  "pg_selected_id (close_create hk p) = pg_selected_id p" "pg_cache (close_create hk p) = pg_cache p"
  "pg_notices (close_create hk p) = pg_notices p" "pg_rows (close_create hk p) = pg_rows p"
  "pg_confirm_message (close_create hk p) = pg_confirm_message p"
  by (simp_all add: close_create_def)

lemma page_ok_event:
  assumes p: "page_ok (entity_id hk) p" and r: "receives p e"
  shows "page_ok (entity_id hk) (fst (on_event hk cl e (p, s)))"
proof (cases e)
  case ReadyClicked
  then have "\<not> pg_confirm_dialog p" using p r by (simp add: page_ok_def)
  then show ?thesis using p ReadyClicked
    by (auto simp: handle_create_def intro!: page_ok_reload page_ok_close split: option.split sum.split prod.split)
next
  case (RowClicked args)
  have "page_ok (entity_id hk) q" if q: "on_table_select hk args p = Inr q" for q
  proof (rule ccontr)
    assume n: "\<not> ?thesis"
    then have "q \<noteq> p" using p by blast
    then obtain i x where x: "map_of (pg_cache p) i = Some x" "q = show_edit_form hk x (p\<lparr>pg_selected_id := Some (entity_id hk x)\<rparr>)"
      using q by (auto simp: on_table_select_def bind_result_Inr_iff Option.bind_eq_Some_conv split: option.splits)
    then have "entity_id hk x = i" using p by (simp add: page_ok_def)
    then show False using n r RowClicked page_ok_shown [OF p x(1), of "p\<lparr>pg_selected_id := Some i\<rparr>"] x(2) by (simp add: no_dialog_def)
  qed
  then show ?thesis using RowClicked p by (simp split: sum.split)
next
  case SaveClicked
  then have "\<not> pg_confirm_dialog p" using p r by (auto simp: page_ok_def)
  then show ?thesis using p SaveClicked
    by (auto simp: handle_update_def intro!: page_ok_reload page_ok_close split: option.split sum.split prod.split)
next
  case YesClicked
  let ?p = "p\<lparr>pg_confirm_dialog := False\<rparr>"
  have q: "page_ok (entity_id hk) ?p" "\<not> pg_create_dialog p" using p r YesClicked by (auto simp: page_ok_def page_ok_close)
  have "page_ok (entity_id hk) (show_edit_form hk x (notify n ?p))"
    if "map_of (pg_cache p) i = Some x" "pg_selected_id p = Some i" for i x n
    using page_ok_shown [OF q(1), of i x "notify n ?p"] that q(2) by simp
  then show ?thesis using q YesClicked
    by (auto simp: confirm_delete_def Let_def intro!: page_ok_reload split: option.split sum.split prod.split bool.split)
next
  case DeleteClicked
  then show ?thesis using p r by (auto simp: handle_delete_def page_ok_def)
qed (use p r in \<open>auto simp: page_ok_close page_ok_def open_create_dialog_def no_dialog_def\<close>)

lemma page_ok_open: "page_ok (entity_id hk) (open_page hk c u s)"
  unfolding open_page_def by (rule page_ok_reload) (simp_all add: page_ok_def)

lemma page_ok_session: "page_session hk c u ps \<Longrightarrow> page_ok (entity_id hk) (fst ps)"
  by (induction rule: page_session.induct) (simp_all add: page_ok_open page_ok_event)

text \<open>
  C20. Whatever the user and the other requests do while a page of bonds, brokers, accounts or account
  operations is open: the question before a deletion names a record, that record is the selected one,
  and answering yes asks the service to delete exactly the record that was named.
\<close>

theorem deletion_is_of_the_named_record:
  assumes "page_session hk c u (p, s)" and "pg_confirm_dialog p"
  shows "\<exists>x. pg_confirm_message p = Some x \<and> pg_selected_id p = Some (entity_id hk x)
    \<and> snd (on_event hk cl YesClicked (p, s)) = snd (service_delete hk cl (entity_id hk x) s)"
proof -
  have "page_ok (entity_id hk) p" using page_ok_session [OF assms(1)] by simp
  then obtain i x where "pg_selected_id p = Some i" "pg_confirm_message p = Some x" "entity_id hk x = i"
    using assms(2) by (auto simp: page_ok_def)
  then show ?thesis by (auto simp: confirm_delete_def Let_def split: sum.split prod.split bool.split option.split)
qed

section \<open>What a page relies on\<close>

text \<open>
  The contract between a page and its service. In a state that is \<open>ok\<close> the records can be loaded and have
  identifiers of their own; saving the form of an \<open>editable\<close> record without a change is accepted and
  changes no data. What follows is proved once for all pages.
\<close>

locale crud_contract =
  fixes hk :: "('s, 'e, 'r, 'c, 'u, 'n, 'm) crud_hooks"
    and ok :: "'s \<Rightarrow> bool"
    and editable :: "'e \<Rightarrow> bool"
    and data :: "'s \<Rightarrow> 'd"
  assumes loads: "ok s \<Longrightarrow> \<exists>xs rows. load_rows hk s = Inr (xs, rows) \<and> distinct (map (entity_id hk) xs)"
    and same_data: "data s' = data s \<Longrightarrow> load_rows hk s' = load_rows hk s"
    and form_accepted: "editable x \<Longrightarrow> prevalidate_update hk (fill_edit_form hk x u) = None"
    and form_builds: "editable x \<Longrightarrow> \<exists>m. build_update_dto hk (fill_edit_form hk x u) = Inr m"
    and save_keeps: "ok s \<Longrightarrow> load_rows hk s = Inr (xs, rows) \<Longrightarrow> x \<in> set xs \<Longrightarrow> editable x \<Longrightarrow>
      build_update_dto hk (fill_edit_form hk x u) = Inr m \<Longrightarrow>
      fst (service_update hk cl (entity_id hk x) m s) = Inr (Some x)
      \<and> data (snd (service_update hk cl (entity_id hk x) m s)) = data s"
begin

text \<open>The table and the cache show what a state holds.\<close>

definition displays :: "'s \<Rightarrow> ('e, 'r, 'c, 'u) page \<Rightarrow> bool" where
  "displays s p \<longleftrightarrow> (\<exists>xs rows. load_rows hk s = Inr (xs, rows) \<and> pg_rows p = rows
     \<and> pg_cache p = cache_of (entity_id hk) xs \<and> pg_selected_id p = None)"

lemma reload_displays: "ok s \<Longrightarrow> displays s (reload hk s p)"
  using loads [of s] by (auto simp: displays_def reload_def)

lemma reload_notices [simp]: "ok s \<Longrightarrow> pg_notices (reload hk s p) = pg_notices p"
  using loads [of s] by (auto simp: reload_def)

lemma done_displays:
  assumes "on_event hk cl e (p, s) = (p', s')" and "ok s'"
    and "pg_notices p' = pg_notices p @ [n]" and "n \<in> {Created, Updated, Deleted, NotFound}"
    and "prevalidate_create hk (pg_create_form p) \<noteq> Some n" and "prevalidate_update hk (pg_edit_form p) \<noteq> Some n"
  shows "displays s' p'"
proof (cases e)
  case ReadyClicked
  then show ?thesis using assms reload_displays [OF assms(2)]
    by (auto simp: handle_create_def failure_notice_def split: option.splits sum.splits prod.splits if_splits)
next
  case SaveClicked
  then show ?thesis using assms reload_displays [OF assms(2)]
    by (auto simp: handle_update_def failure_notice_def split: option.splits sum.splits prod.splits if_splits)
next
  case YesClicked
  then show ?thesis using assms reload_displays [OF assms(2)]
    by (auto simp: confirm_delete_def Let_def show_edit_form_def
        split: option.splits sum.splits prod.splits if_splits bool.splits)
next
  case (RowClicked args)
  then show ?thesis using assms
    by (auto simp: on_table_select_def show_edit_form_def bind_result_Inr_iff
        split: option.splits sum.splits)
qed (use assms in \<open>auto simp: open_create_dialog_def handle_delete_def split: if_splits\<close>)

text \<open>Clicking a row and saving at once.\<close>

lemma untouched_save:
  assumes s: "ok s" and p: "displays s p" and x: "load_rows hk s = Inr (xs, rows)" "x \<in> set xs" "editable x"
    and click: "row_from_event args ''id'' = Some row" "map_of row ''id'' = Some (JInt (entity_id hk x))"
    and done_: "(p', s') = on_event hk cl SaveClicked (on_event hk cl (RowClicked args) (p, s))"
  shows "data s' = data s \<and> pg_rows p' = pg_rows p \<and> \<not> pg_edit_dialog p' \<and> pg_notices p' = pg_notices p @ [Updated]"
proof -
  let ?q = "show_edit_form hk x (p\<lparr>pg_selected_id := Some (entity_id hk x)\<rparr>)"
  obtain ys where ys: "load_rows hk s = Inr (ys, pg_rows p)" "pg_cache p = cache_of (entity_id hk) ys"
    using p by (auto simp: displays_def)
  then have same: "ys = xs" "rows = pg_rows p" using x(1) by simp_all
  have "distinct (map (entity_id hk) xs)" using loads [OF s] x(1) by auto
  then have "map_of (pg_cache p) (entity_id hk x) = Some x" using ys same x(2) by (simp add: map_of_cache_of)
  then have q: "on_table_select hk args p = Inr ?q"
    by (simp add: on_table_select_def click)
  obtain m where m: "build_update_dto hk (pg_edit_form ?q) = Inr m" "prevalidate_update hk (pg_edit_form ?q) = None"
    using form_builds [OF x(3)] form_accepted [OF x(3)] by (auto simp: show_edit_form_def)
  obtain r t where t: "service_update hk cl (entity_id hk x) m s = (r, t)" by fastforce
  have r: "r = Inr (Some x)" "data t = data s"
    using save_keeps [OF s x, of "pg_edit_form p" m cl] m(1) t by (simp_all add: show_edit_form_def)
  have "(p', s') = (reload hk t ((notify Updated ?q)\<lparr>pg_edit_dialog := False\<rparr>), t)"
    using done_ q m t r(1) by (simp add: handle_update_def) (simp add: show_edit_form_def)
  moreover have "load_rows hk t = Inr (xs, rows)" using same_data [OF r(2)] x(1) by simp
  ultimately show ?thesis using r(2) same by (simp add: reload_def) (simp add: show_edit_form_def)
qed

end

end
