(* ===== verification/BrokersPage.thy ===== *)
theory BrokersPage
  imports CrudPage
begin

text \<open>\<open>ui/pages_brokers.py\<close>: the hooks of the page of brokers over \<open>BrokerService\<close>.\<close>

section \<open>Forms and rows\<close>

text \<open>The widgets of the create form and of the edit form are of the same kinds.\<close>

record broker_form =
  bf_name :: "string option"
  bf_commission :: "rat option"
  bf_min_commission :: "rat option"
  bf_min_commission_type :: "string option"
  bf_description :: "string option"

record broker_line =
  bl_id :: int
  bl_name :: string
  bl_commission :: string
  bl_min_commission :: cell
  bl_description :: cell

definition fmt_min_commission :: "rat option \<Rightarrow> string \<Rightarrow> cell" where
  "fmt_min_commission x commission_type =
     (case x of
        None \<Rightarrow> Dash
      | Some v \<Rightarrow> if commission_type = ''RUBLES'' then Rubles (fixed2 v) else Shown (fixed2 v @ ''%''))"

definition broker_line_of :: "broker_row \<Rightarrow> broker_line" where
  "broker_line_of b =
     \<lparr>bl_id = br_id b, bl_name = br_name b, bl_commission = fixed2 (br_commission b) @ ''%'',
      bl_min_commission = fmt_min_commission (br_min_commission b) (br_min_commission_type b),
      bl_description = or_dash (br_description b)\<rparr>"

section \<open>Hooks\<close>

definition load_brokers :: "app \<Rightarrow> (broker_row list \<times> broker_line list) result" where
  "load_brokers s = (let brokers = list_all_brokers (db_of s) in Inr (brokers, map broker_line_of brokers))"

definition fill_broker_form :: "broker_row \<Rightarrow> broker_form \<Rightarrow> broker_form" where
  "fill_broker_form b f =
     f\<lparr>bf_name := Some (br_name b), bf_commission := Some (br_commission b),
       bf_min_commission := br_min_commission b, bf_min_commission_type := Some (br_min_commission_type b),
       bf_description := Some (or_empty (br_description b))\<rparr>"

definition build_broker_create :: "broker_form \<Rightarrow> broker_create result" where
  "build_broker_create f =
     (let dto = \<lparr>nr_name = or_empty (bf_name f), nr_commission = or_zero (bf_commission f),
            nr_min_commission = bf_min_commission f,
            nr_min_commission_type =
              (case or_none (bf_min_commission_type f) of None \<Rightarrow> ''PERCENT'' | Some t \<Rightarrow> t),
            nr_description = or_none (bf_description f)\<rparr>
      in if broker_create_ok dto then Inr dto else Inl ValueError)"

definition build_broker_update :: "broker_form \<Rightarrow> broker_update result" where
  "build_broker_update f =
     (let dto = \<lparr>ur_name = given (bf_name f), ur_commission = given (bf_commission f),
            ur_min_commission = given (bf_min_commission f),
            ur_min_commission_type = given (or_none (bf_min_commission_type f)),
            ur_description = given (or_none (bf_description f))\<rparr>
      in if broker_update_ok dto then Inr dto else Inl ValueError)"

definition prevalidate_broker_update :: "broker_form \<Rightarrow> notice option" where
  "prevalidate_broker_update f = (if is_filled (bf_name f) then None else Some NameRequired)"

definition reset_broker_form :: "broker_form \<Rightarrow> broker_form" where
  "reset_broker_form f =
     f\<lparr>bf_name := None, bf_commission := Some 0, bf_min_commission := None,
       bf_min_commission_type := Some ''PERCENT'', bf_description := None\<rparr>"

definition brokers_page ::
    "(app, broker_row, broker_line, broker_form, broker_form, broker_create, broker_update) crud_hooks" where
  "brokers_page =
     \<lparr>entity_id = br_id, load_rows = load_brokers, fill_edit_form = fill_broker_form,
      prevalidate_create = (\<lambda>f. None), prevalidate_update = prevalidate_broker_update,
      build_create_dto = build_broker_create, build_update_dto = build_broker_update,
      service_create = (\<lambda>cl dto. on_world (create_broker (cl_env cl) dto)),
      service_update = (\<lambda>cl i dto. on_world (update_broker (cl_env cl) dto i)),
      service_delete = (\<lambda>cl i. on_world (delete_broker (cl_env cl) i)),
      delete_guard_error = [BrokerHasAccountsError], reset_create_form = reset_broker_form,
      create_closed = (\<lambda>f. f)\<rparr>"

text \<open>The widgets as \<open>render\<close> builds them.\<close>

definition new_broker_form :: broker_form where
  "new_broker_form = \<lparr>bf_name = Some [], bf_commission = Some 0, bf_min_commission = None,
     bf_min_commission_type = Some ''PERCENT'', bf_description = Some []\<rparr>"

definition edit_broker_form :: broker_form where
  "edit_broker_form = \<lparr>bf_name = Some [], bf_commission = None, bf_min_commission = None,
     bf_min_commission_type = Some ''PERCENT'', bf_description = Some []\<rparr>"

definition render_brokers :: "app \<Rightarrow> (broker_row, broker_line, broker_form, broker_form) page" where
  "render_brokers s = open_page brokers_page new_broker_form edit_broker_form s"

section \<open>The contract\<close>

text \<open>
  A form can hold every broker but one without a name or with an empty description, which it would
  clear.
\<close>

definition broker_editable :: "broker_row \<Rightarrow> bool" where
  "broker_editable b \<longleftrightarrow> br_name b \<noteq> [] \<and> br_description b \<noteq> Some [] \<and> 0 \<le> br_commission b
     \<and> pred_option (\<lambda>m. 0 \<le> m) (br_min_commission b) \<and> br_min_commission_type b \<in> set MIN_COMMISSION_TYPES"

lemma update_same_broker:
  assumes "app_ready s" and "b \<in> set (brokers (db_of s))" and "broker_editable b" and "apply_broker_update d b = b"
    and "ur_name d = Given (br_name b)"
  shows "fst (update_broker env d (br_id b) (ap_world s)) = Inr (Some b)
    \<and> w_db (snd (update_broker env d (br_id b) (ap_world s))) = db_of s"
proof -
  let ?w = "ap_world s"
  have wf: "distinct (map br_id (brokers (w_db ?w)))" "distinct (map br_name (brokers (w_db ?w)))" "bs_running (w_bus ?w)"
    using assms(1) by (simp_all add: app_ready_def db_wf_def db_keys_def db_uniques_def)
  have get: "get_broker (br_id b) (w_db ?w) = Some b"
    using assms(2) rows.lookup_mem [OF wf(1)] by (simp add: get_broker_def)
  have same_name: "x = b" if "x \<in> set (brokers (w_db ?w))" "br_name x = br_name b" for x
    using wf(2) that assms(2) by (auto simp: distinct_map inj_on_def)
  then have find: "find (\<lambda>x. br_name x = br_name b \<and> br_id x \<noteq> br_id b) (brokers (w_db ?w)) = None"
    by (auto simp: find_None_iff)
  have "update_broker_row b (w_db ?w) = Inr (w_db ?w)"
    using same_name assms(3) put_same [OF wf(1) assms(2)]
    by (auto simp: update_broker_row_def broker_check_def broker_editable_def)
  then show ?thesis
    using commit_same [OF wf(3), of "''broker.updated''" "''brokers''" env "broker_payload b"] get find assms(4,5)
    by (simp add: update_broker_def returning_Inr ALL_TOPICS_def)
qed

interpretation brokers_page: crud_contract brokers_page app_ready broker_editable db_of
proof unfold_locales
  fix s :: app assume "app_ready s"
  then have "distinct (map br_id (list_all_brokers (db_of s)))"
    by (simp add: list_all_brokers_def app_ready_def db_wf_def db_keys_def order_by_def distinct_map)
  then show "\<exists>xs rows. load_rows brokers_page s = Inr (xs, rows) \<and> distinct (map (entity_id brokers_page) xs)"
    by (simp add: brokers_page_def load_brokers_def Let_def)
next
  fix s s' :: app assume "db_of s' = db_of s"
  then show "load_rows brokers_page s' = load_rows brokers_page s" by (simp add: brokers_page_def load_brokers_def)
next
  fix b u assume "broker_editable b"
  then show "prevalidate_update brokers_page (fill_edit_form brokers_page b u) = None"
    "\<exists>m. build_update_dto brokers_page (fill_edit_form brokers_page b u) = Inr m"
    by (auto simp: brokers_page_def prevalidate_broker_update_def fill_broker_form_def is_filled_def broker_editable_def
        build_broker_update_def Let_def broker_update_ok_def field_ok_def MIN_COMMISSION_TYPES_def or_none_def given_def
        split: option.split)
next
  fix s xs rows b u m cl
  assume s: "app_ready s" and xs: "load_rows brokers_page s = Inr (xs, rows)" and b: "b \<in> set xs" "broker_editable b"
    and m: "build_update_dto brokers_page (fill_edit_form brokers_page b u) = Inr m"
  have mem: "b \<in> set (brokers (db_of s))"
    using xs b(1) by (auto simp: brokers_page_def load_brokers_def Let_def list_all_brokers_def)
  have m': "m = \<lparr>ur_name = Given (br_name b), ur_commission = Given (br_commission b),
      ur_min_commission = given (br_min_commission b), ur_min_commission_type = Given (br_min_commission_type b),
      ur_description = given (br_description b)\<rparr>"
    using m b(2)
    by (auto simp: brokers_page_def fill_broker_form_def build_broker_update_def Let_def broker_editable_def
        MIN_COMMISSION_TYPES_def split: if_splits)
  then have "apply_broker_update m b = b" "ur_name m = Given (br_name b)" by (simp_all add: apply_broker_update_def)
  from update_same_broker [OF s mem b(2) this]
  show "fst (service_update brokers_page cl (entity_id brokers_page b) m s) = Inr (Some b)
    \<and> db_of (snd (service_update brokers_page cl (entity_id brokers_page b) m s)) = db_of s"
    by (simp add: brokers_page_def)
qed

section \<open>Properties\<close>

text \<open>
  The name of a broker is required where an existing broker is saved, but not where a new one is created:
  the create form that is opened and confirmed at once makes a broker without a name, announces and lists it,
  and afterwards that broker cannot be saved without being given a name.
\<close>

theorem nameless_broker_is_created:
  assumes "app_ready s" and "\<forall>b \<in> set (brokers (db_of s)). br_name b \<noteq> []"
    and "e_new_id (cl_env cl) \<notin> br_id ` set (brokers (db_of s))"
    and "(p', s') = on_event brokers_page cl ReadyClicked (on_event brokers_page cl AddClicked (p, s))"
  shows "pg_notices p' = pg_notices p @ [Created]
    \<and> (\<exists>b \<in> set (brokers (db_of s')). br_name b = [] \<and> broker_line_of b \<in> set (pg_rows p')
        \<and> prevalidate_update brokers_page (fill_edit_form brokers_page b f) = Some NameRequired)"
proof -
  let ?f = "reset_broker_form (pg_create_form p)" and ?w = "ap_world s"
  let ?d = "\<lparr>nr_name = [], nr_commission = 0, nr_min_commission = None, nr_min_commission_type = ''PERCENT'', nr_description = None\<rparr>"
  let ?b = "new_broker (cl_env cl) ?d"
  have d: "build_broker_create ?f = Inr ?d"
    by (simp add: build_broker_create_def reset_broker_form_def or_empty_def or_zero_def or_none_def broker_create_ok_def
        MIN_COMMISSION_TYPES_def Let_def)
  have ins: "insert_broker ?b (w_db ?w) = Inr ((w_db ?w)\<lparr>brokers := add_row ?b (brokers (w_db ?w))\<rparr>)"
    using assms(2,3) by (auto simp: insert_broker_def broker_check_def new_broker_def MIN_COMMISSION_TYPES_def)
  have none: "find (\<lambda>b. br_name b = []) (brokers (w_db ?w)) = None" using assms(2) by (auto simp: find_None_iff)
  have run: "bs_running (w_bus ?w)" using assms(1) by (simp add: app_ready_def)
  note pub = publish_running [of "''broker.created''" "''brokers''" ?w "cl_env cl" "broker_payload ?b"]
  define w where "w = snd (create_broker (cl_env cl) ?d ?w)"
  have r: "create_broker (cl_env cl) ?d ?w = (Inr ?b, w)" "brokers (w_db w) = brokers (w_db ?w) @ [?b]"
    using run pub unfolding w_def
    by (simp_all add: create_broker_def none ins Let_def flush_publish_commit_def integrity_as_def returning_def
        ALL_TOPICS_def add_row_def)
  have hooks: "prevalidate_create brokers_page = (\<lambda>f. None)" "build_create_dto brokers_page = build_broker_create"
    "service_create brokers_page = (\<lambda>cl dto. on_world (create_broker (cl_env cl) dto))" "load_rows brokers_page = load_brokers"
    "reset_create_form brokers_page = reset_broker_form"
    by (simp_all add: brokers_page_def)
  let ?q = "p\<lparr>pg_create_form := ?f, pg_create_dialog := True\<rparr>"
  have "(p', s') = handle_create brokers_page cl (?q, s)" using assms(4) by (simp add: open_create_dialog_def hooks)
  also have "\<dots> = (reload brokers_page (s\<lparr>ap_world := w\<rparr>) (close_create brokers_page (notify Created ?q)), s\<lparr>ap_world := w\<rparr>)"
    by (simp add: handle_create_def hooks d on_world_def r(1))
  finally have s': "s' = s\<lparr>ap_world := w\<rparr>" "pg_notices p' = pg_notices p @ [Created]" "pg_rows p' = map broker_line_of (list_all_brokers (w_db w))"
    by (simp_all add: reload_def hooks load_brokers_def Let_def)
  have "?b \<in> set (brokers (w_db w))" "br_name ?b = []" using r(2) by (simp_all add: new_broker_def)
  then show ?thesis using s'
    by (intro conjI bexI [of _ ?b])
      (simp_all add: list_all_brokers_def brokers_page_def prevalidate_broker_update_def fill_broker_form_def is_filled_def)
qed

theorem nameless_broker_is_created_witness:
  "\<exists>b \<in> set (brokers (db_of (snd (on_event brokers_page (one_call 9) ReadyClicked
      (on_event brokers_page (one_call 9) AddClicked (render_brokers one_app, one_app)))))). br_name b = []"
proof -
  have "app_ready one_app" "\<forall>b \<in> set (brokers (db_of one_app)). br_name b \<noteq> []"
    "e_new_id (cl_env (one_call 9)) \<notin> br_id ` set (brokers (db_of one_app))"
    by (simp_all add: app_ready_def one_app_def sample_db_wf) (simp_all add: sample_db_def one_call_def sample_env_def)
  from nameless_broker_is_created [OF this, where p = "render_brokers one_app"] show ?thesis by (metis surj_pair prod.collapse)
qed

end
