(* ===== verification/AccountsPage.thy ===== *)
theory AccountsPage
  imports CrudPage
begin

text \<open>
  \<open>ui/pages_accounts.py\<close>: the hooks of the page of brokerage accounts over \<open>BrokerService\<close>, for the user
  whose token opened the page.
\<close>

section \<open>Forms and rows\<close>

record new_account_form =
  af_broker :: "int option"
  af_name :: "string option"
  af_number :: "string option"
  af_type :: "string option"
  af_opened_at :: "string option"

record edit_account_form =
  ef_name :: "string option"
  ef_number :: "string option"
  ef_type :: "string option"
  ef_opened_at :: "string option"
  ef_closed_at :: "string option"

text \<open>The cell of the type shows the label of the key \<open>al_account_type\<close>.\<close>

record account_line =
  al_id :: int
  al_broker_name :: string
  al_name :: string
  al_account_number :: cell
  al_account_type :: string
  al_opened_at :: cell
  al_closed_at :: cell

definition ACCOUNT_TYPE_OPTIONS :: "string list" where
  "ACCOUNT_TYPE_OPTIONS = [''STANDARD'', ''IIS'', ''LTD'']"

abbreviation account_id :: "account_dto \<Rightarrow> int" where "account_id x \<equiv> a_id (d_account x)"

definition account_line_of :: "account_dto \<Rightarrow> account_line" where
  "account_line_of x =
     \<lparr>al_id = account_id x, al_broker_name = d_broker_name x, al_name = a_name (d_account x),
      al_account_number = or_dash (a_account_number (d_account x)), al_account_type = a_account_type (d_account x),
      al_opened_at = fmt_date (a_opened_at (d_account x)), al_closed_at = fmt_date (a_closed_at (d_account x))\<rparr>"

section \<open>Hooks\<close>

definition load_accounts :: "int \<Rightarrow> app \<Rightarrow> (account_dto list \<times> account_line list) result" where
  "load_accounts u s =
     (let accounts = list_accounts_for_user u (db_of s) in Inr (accounts, map account_line_of accounts))"

definition fill_account_form :: "account_dto \<Rightarrow> edit_account_form \<Rightarrow> edit_account_form" where
  "fill_account_form x f =
     f\<lparr>ef_name := Some (a_name (d_account x)), ef_number := Some (or_empty (a_account_number (d_account x))),
       ef_type := Some (a_account_type (d_account x)),
       ef_opened_at := map_option isoformat (a_opened_at (d_account x)),
       ef_closed_at := map_option isoformat (a_closed_at (d_account x))\<rparr>"

definition build_account_create :: "new_account_form \<Rightarrow> account_create result" where
  "build_account_create f =
     bind_result (optional_date (af_opened_at f)) (\<lambda>opened_at.
       case (af_broker f, af_name f, af_type f) of
         (Some broker, Some name, Some type) \<Rightarrow>
           let dto = \<lparr>na_broker_id = broker, na_name = name, na_account_number = or_none (af_number f),
                 na_account_type = type, na_opened_at = opened_at\<rparr>
           in if account_create_ok dto then Inr dto else Inl ValueError
       | _ \<Rightarrow> Inl ValueError)"

definition build_account_update :: "edit_account_form \<Rightarrow> account_update result" where
  "build_account_update f =
     bind_result (optional_date (ef_opened_at f)) (\<lambda>opened_at.
     bind_result (optional_date (ef_closed_at f)) (\<lambda>closed_at.
       let dto = \<lparr>ua_name = given (ef_name f), ua_account_number = given (or_none (ef_number f)),
             ua_account_type = given (ef_type f), ua_opened_at = given opened_at, ua_closed_at = given closed_at\<rparr>
       in if account_update_ok dto then Inr dto else Inl ValueError))"

definition prevalidate_account_create :: "new_account_form \<Rightarrow> notice option" where
  "prevalidate_account_create f =
     (if af_broker f = None then Some ChooseBroker
      else if \<not> is_filled (af_name f) then Some NameRequired else None)"

definition prevalidate_account_update :: "edit_account_form \<Rightarrow> notice option" where
  "prevalidate_account_update f = (if is_filled (ef_name f) then None else Some NameRequired)"

definition reset_account_form :: "new_account_form \<Rightarrow> new_account_form" where
  "reset_account_form f =
     f\<lparr>af_broker := None, af_name := None, af_number := None, af_type := Some ''STANDARD'', af_opened_at := None\<rparr>"

definition accounts_page ::
    "int \<Rightarrow> (app, account_dto, account_line, new_account_form, edit_account_form, account_create, account_update) crud_hooks" where
  "accounts_page u =
     \<lparr>entity_id = (\<lambda>x. account_id x), load_rows = load_accounts u, fill_edit_form = fill_account_form,
      prevalidate_create = prevalidate_account_create, prevalidate_update = prevalidate_account_update,
      build_create_dto = build_account_create, build_update_dto = build_account_update,
      service_create = (\<lambda>cl dto. on_world (create_account (cl_env cl) dto u)),
      service_update = (\<lambda>cl i dto. on_world (update_account (cl_env cl) dto i u)),
      service_delete = (\<lambda>cl i. on_world (delete_account (cl_env cl) i u)),
      delete_guard_error = [BrokerAccountHasTransactionsError], reset_create_form = reset_account_form,
      create_closed = (\<lambda>f. f)\<rparr>"

text \<open>The widgets as \<open>render\<close> builds them, with the brokers to choose from.\<close>

definition new_account_widgets :: new_account_form where
  "new_account_widgets = \<lparr>af_broker = None, af_name = Some [], af_number = Some [], af_type = Some ''STANDARD'',
     af_opened_at = Some []\<rparr>"

definition edit_account_widgets :: edit_account_form where
  "edit_account_widgets = \<lparr>ef_name = Some [], ef_number = Some [], ef_type = None, ef_opened_at = Some [],
     ef_closed_at = Some []\<rparr>"

definition broker_options :: "app \<Rightarrow> (int \<times> string) list" where
  "broker_options s = map (\<lambda>b. (br_id b, br_name b)) (list_all_brokers (db_of s))"

definition render_accounts ::
    "int \<Rightarrow> app \<Rightarrow> (int \<times> string) list \<times> (account_dto, account_line, new_account_form, edit_account_form) page" where
  "render_accounts u s =
     (broker_options s, open_page (accounts_page u) new_account_widgets edit_account_widgets s)"

section \<open>The contract\<close>

definition account_editable :: "account_dto \<Rightarrow> bool" where
  "account_editable x \<longleftrightarrow> (let a = d_account x in a_name a \<noteq> [] \<and> a_account_number a \<noteq> Some []
     \<and> a_account_type a \<in> set BROKER_ACCOUNT_TYPES
     \<and> pred_option valid_date (a_opened_at a) \<and> pred_option valid_date (a_closed_at a))"

lemma listed_account:
  assumes "x \<in> set (list_accounts_for_user u db)"
  shows "d_account x \<in> set (broker_accounts db)" "a_user_id (d_account x) = u"
    "\<exists>b. get_broker (a_broker_id (d_account x)) db = Some b \<and> d_broker_name x = br_name b"
  using assms
  by (auto simp: list_accounts_for_user_def List.map_filter_def joined_def get_broker_def)

lemma listed_accounts_distinct:
  assumes "db_wf db" shows "distinct (map (\<lambda>x. a_id (d_account x)) (list_accounts_for_user u db))"
proof -
  have "map (\<lambda>x. a_id (d_account x)) (List.map_filter (joined db) as) =
      map a_id (filter (\<lambda>a. joined db a \<noteq> None) as)" for as
    by (induction as) (auto simp: List.map_filter_simps joined_def split: option.split)
  moreover have "distinct (map a_id (broker_accounts db))" using assms by (simp add: db_wf_def db_keys_def)
  then have "distinct (map a_id (filter P (order_by k (filter Q (broker_accounts db)))))" for P Q and k :: "account_row \<Rightarrow> int"
    by (intro distinct_map_filter_keys) (simp add: order_by_def distinct_map inj_on_def)
  ultimately show ?thesis by (simp add: list_accounts_for_user_def)
qed

lemma update_same_account:
  assumes "app_ready s" and "x \<in> set (list_accounts_for_user u (db_of s))"
    and "apply_account_update d (d_account x) = d_account x"
  shows "fst (update_account env d (account_id x) u (ap_world s)) = Inr (Some x)
    \<and> w_db (snd (update_account env d (account_id x) u (ap_world s))) = db_of s"
proof -
  let ?w = "ap_world s"
  have wf: "distinct (map a_id (broker_accounts (w_db ?w)))" "bs_running (w_bus ?w)"
    and refs: "\<And>a. a \<in> set (broker_accounts (w_db ?w)) \<Longrightarrow> account_refs (w_db ?w) a"
    using assms(1) by (simp_all add: app_ready_def db_wf_def db_keys_def db_refs_def)
  note x = listed_account [OF assms(2)]
  have get: "find_account (account_id x) (w_db ?w) = Some (d_account x)"
    using x(1) rows.lookup_mem [OF wf(1)] by (simp add: find_account_def)
  have upd: "update_account_row (d_account x) (w_db ?w) = Inr (w_db ?w)"
    using refs [OF x(1)] put_same [OF wf(1) x(1)] by (simp add: update_account_row_def)
  obtain b where b: "get_broker (a_broker_id (d_account x)) (w_db ?w) = Some b" "d_broker_name x = br_name b"
    using x(3) by blast
  have dto: "\<lparr>d_account = d_account x, d_broker_name = br_name b\<rparr> = x" using b(2) by (cases x) simp
  show ?thesis
    using commit_same [OF wf(2), of "''broker_account.updated''" "''brokers''" env "account_payload x"]
    by (simp add: update_account_def get x(2) assms(3) b(1) Let_def upd dto returning_Inr ALL_TOPICS_def)
qed

interpretation accounts_page: crud_contract "accounts_page u" app_ready account_editable db_of for u
proof unfold_locales
  fix s :: app assume "app_ready s"
  then show "\<exists>xs rows. load_rows (accounts_page u) s = Inr (xs, rows) \<and> distinct (map (entity_id (accounts_page u)) xs)"
    using listed_accounts_distinct [of "db_of s" u] by (simp add: accounts_page_def load_accounts_def Let_def app_ready_def)
next
  fix s s' :: app assume "db_of s' = db_of s"
  then show "load_rows (accounts_page u) s' = load_rows (accounts_page u) s"
    by (simp add: accounts_page_def load_accounts_def)
next
  fix x f assume "account_editable x"
  then show "prevalidate_update (accounts_page u) (fill_edit_form (accounts_page u) x f) = None"
    "\<exists>m. build_update_dto (accounts_page u) (fill_edit_form (accounts_page u) x f) = Inr m"
    by (simp_all add: accounts_page_def prevalidate_account_update_def fill_account_form_def is_filled_def Let_def
        account_editable_def build_account_update_def account_update_ok_def field_ok_def)
next
  fix s xs rows x f m cl
  assume s: "app_ready s" and xs: "load_rows (accounts_page u) s = Inr (xs, rows)" and x: "x \<in> set xs" "account_editable x"
    and m: "build_update_dto (accounts_page u) (fill_edit_form (accounts_page u) x f) = Inr m"
  have mem: "x \<in> set (list_accounts_for_user u (db_of s))"
    using xs x(1) by (auto simp: accounts_page_def load_accounts_def Let_def)
  have m': "m = \<lparr>ua_name = Given (a_name (d_account x)), ua_account_number = given (a_account_number (d_account x)),
      ua_account_type = Given (a_account_type (d_account x)), ua_opened_at = given (a_opened_at (d_account x)),
      ua_closed_at = given (a_closed_at (d_account x))\<rparr>"
    using m x(2)
    by (simp add: accounts_page_def fill_account_form_def build_account_update_def Let_def account_editable_def
        split: if_splits)
  then have "apply_account_update m (d_account x) = d_account x" by (simp add: apply_account_update_def)
  from update_same_account [OF s mem this]
  show "fst (service_update (accounts_page u) cl (entity_id (accounts_page u) x) m s) = Inr (Some x)
    \<and> db_of (snd (service_update (accounts_page u) cl (entity_id (accounts_page u) x) m s)) = db_of s"
    by (simp add: accounts_page_def)
qed

section \<open>Properties\<close>

text \<open>
  What the user is told when an account cannot be deleted depends on what blocks it. With transactions on it
  the deletion is refused with the reason and the form of the account opens again; with account operations
  only, which block it in the service as well, the same answer is reported as an unexpected error and the form
  stays closed, because the page expects the first exception only.
\<close>

theorem blocked_account_deletion_reports:
  assumes "page_session (accounts_page u) c d (p, s)" and "pg_confirm_dialog p" and "pg_selected_id p = Some i"
    and "find_account i (db_of s) = Some a" and "a_user_id a = u"
    and "(\<exists>t \<in> set (transactions (db_of s)). t_account_id t = i) \<or> (\<exists>q \<in> set (account_operations (db_of s)). o_account_id q = i)"
    and "(p', s') = on_event (accounts_page u) cl YesClicked (p, s)"
  shows "s' = s \<and> (if \<exists>t \<in> set (transactions (db_of s)). t_account_id t = i
    then pg_notices p' = pg_notices p @ [Refused BrokerAccountHasTransactionsError] \<and> pg_edit_dialog p'
    else pg_notices p' = pg_notices p @ [Failed BrokerAccountHasOperationsError] \<and> \<not> pg_edit_dialog p')"
proof -
  have ok: "page_ok (entity_id (accounts_page u)) p" using page_ok_session [OF assms(1)] by simp
  then obtain x where "map_of (pg_cache p) i = Some x" using assms(3) by (auto simp: page_ok_def)
  moreover have "\<not> pg_edit_dialog p" using ok assms(2) by (simp add: page_ok_def)
  moreover have "delete_account env i u (ap_world s) = (Inl (if \<exists>t \<in> set (transactions (db_of s)). t_account_id t = i
      then BrokerAccountHasTransactionsError else BrokerAccountHasOperationsError), ap_world s)" for env
    using assms(4-6) by (auto simp: delete_account_def filter_empty_conv)
  ultimately show ?thesis using assms(3,7)
    by (auto simp: confirm_delete_def Let_def accounts_page_def on_world_def show_edit_form_def split: if_splits)
qed

text \<open>User 1 asks to delete an account that has one operation and no transactions.\<close>

definition ops_app :: app where
  "ops_app = one_app\<lparr>ap_world := sample_world\<lparr>w_db := sample_db\<lparr>transactions := [], account_operations := [sample_op]\<rparr>\<rparr>\<rparr>"

definition asked_page :: "(account_dto, account_line, new_account_form, edit_account_form) page" where
  "asked_page = fst (on_event (accounts_page 1) (one_call 9) DeleteClicked
     (on_event (accounts_page 1) (one_call 9) (RowClicked (JObj [(''id'', JInt 1)])) (snd (render_accounts 1 ops_app), ops_app)))"

lemma asked_page_session: "page_session (accounts_page 1) new_account_widgets edit_account_widgets (asked_page, ops_app)"
proof -
  let ?w = "accounts_page 1" and ?c = "one_call 9"
  let ?a = "(snd (render_accounts 1 ops_app), ops_app)"
  let ?b = "on_event ?w ?c (RowClicked (JObj [(''id'', JInt 1)])) ?a"
  have a: "page_session ?w new_account_widgets edit_account_widgets ?a"
    using session_opens [of ?w new_account_widgets edit_account_widgets ops_app] by (simp add: render_accounts_def)
  have "no_dialog (fst ?a)" by code_simp
  then have b: "page_session ?w new_account_widgets edit_account_widgets ?b"
    using session_event [OF a, of "RowClicked (JObj [(''id'', JInt 1)])" ?c] by simp
  have e: "pg_edit_dialog (fst ?b)" by code_simp
  have same: "snd ?b = ops_app" by simp
  show ?thesis using session_event [of ?w _ _ "fst ?b" "snd ?b" DeleteClicked ?c] b e same by (simp add: asked_page_def)
qed

lemma asked_page_state:
  "pg_confirm_dialog asked_page" "pg_selected_id asked_page = Some 1" "pg_notices asked_page = []"
  by code_simp+

theorem blocked_account_deletion_reports_witness:
  "pg_notices (fst (on_event (accounts_page 1) (one_call 9) YesClicked (asked_page, ops_app))) = [Failed BrokerAccountHasOperationsError]"
proof -
  have "find_account 1 (db_of ops_app) = Some (broker_accounts sample_db ! 0)" "a_user_id (broker_accounts sample_db ! 0) = 1"
    by (simp_all add: ops_app_def sample_db_def find_account_def row_of_def)
  moreover have "transactions (db_of ops_app) = []" "\<exists>q \<in> set (account_operations (db_of ops_app)). o_account_id q = 1"
    by (simp_all add: ops_app_def sample_op_def)
  moreover obtain p' s' where r: "(p', s') = on_event (accounts_page 1) (one_call 9) YesClicked (asked_page, ops_app)"
    by (metis surj_pair)
  ultimately show ?thesis
    using blocked_account_deletion_reports [OF asked_page_session asked_page_state(1,2) _ _ _ r] asked_page_state(3)
    unfolding r [symmetric] by simp
qed

theorem deletion_is_of_the_named_record_witness:
  "\<exists>x. pg_confirm_message asked_page = Some x \<and> d_account x = broker_accounts sample_db ! 0
    \<and> snd (on_event (accounts_page 1) (one_call 9) YesClicked (asked_page, ops_app))
      = snd (service_delete (accounts_page 1) (one_call 9) (a_id (broker_accounts sample_db ! 0)) ops_app)"
proof -
  have "map_option d_account (pg_confirm_message asked_page) = Some (broker_accounts sample_db ! 0)" by code_simp
  then show ?thesis
    using deletion_is_of_the_named_record [OF asked_page_session asked_page_state(1), of "one_call 9"]
    by (auto simp: accounts_page_def)
qed

end
