(* ===== verification/OperationsPage.thy ===== *)
theory OperationsPage
  imports CrudPage
begin

text \<open>
  \<open>ui/pages_operations.py\<close>: the hooks of the page of deposits, withdrawals and taxes over
  \<open>AccountOperationService\<close>, for the user whose token opened the page.
\<close>

section \<open>Forms and rows\<close>

text \<open>The widgets of the create form and of the edit form are of the same kinds.\<close>

record operation_form =
  of_account :: "int option"
  of_type :: "string option"
  of_amount :: "rat option"
  of_date :: "string option"
  of_note :: "string option"

text \<open>The cell of the type shows the label of the key \<open>ol_type\<close>.\<close>

record operation_line =
  ol_id :: int
  ol_date :: cell
  ol_account :: string
  ol_type :: string
  ol_amount :: cell
  ol_note :: cell

definition operation_line_of :: "(int \<times> string) list \<Rightarrow> op_row \<Rightarrow> operation_line" where
  "operation_line_of names p =
     \<lparr>ol_id = o_id p, ol_date = fmt_date (Some (o_date p)), ol_account = name_or_number names (o_account_id p),
      ol_type = o_type p, ol_amount = fmt_money (Some (o_amount p)), ol_note = or_dash (o_note p)\<rparr>"

section \<open>Hooks\<close>

definition load_operations :: "int \<Rightarrow> app \<Rightarrow> (op_row list \<times> operation_line list) result" where
  "load_operations u s =
     (let operations = list_ops_for_user u (db_of s)
      in Inr (operations, map (operation_line_of (account_names u (db_of s))) operations))"

definition fill_operation_form :: "op_row \<Rightarrow> operation_form \<Rightarrow> operation_form" where
  "fill_operation_form p f =
     f\<lparr>of_account := Some (o_account_id p), of_type := Some (o_type p), of_amount := Some (o_amount p),
       of_date := Some (isoformat (o_date p)), of_note := Some (or_empty (o_note p))\<rparr>"

definition prevalidate_operation :: "operation_form \<Rightarrow> notice option" where
  "prevalidate_operation f =
     (if of_account f = None then Some ChooseAccount
      else if or_zero (of_amount f) \<le> 0 then Some AmountNotPositive else None)"

text \<open>\<open>int(None)\<close> is a \<open>TypeError\<close>; a missing type is a validation error.\<close>

definition build_operation_create :: "operation_form \<Rightarrow> op_create result" where
  "build_operation_create f =
     (case of_account f of
        None \<Rightarrow> Inl TypeError
      | Some account \<Rightarrow>
          bind_result (parse_date (of_date f)) (\<lambda>d.
            case of_type f of
              None \<Rightarrow> Inl ValueError
            | Some type \<Rightarrow>
                let dto = \<lparr>no_account_id = account, no_type = type, no_amount = or_zero (of_amount f),
                      no_date = d, no_note = or_none (of_note f)\<rparr>
                in if op_create_ok dto then Inr dto else Inl ValueError))"

definition build_operation_update :: "operation_form \<Rightarrow> op_update result" where
  "build_operation_update f =
     (case of_account f of
        None \<Rightarrow> Inl TypeError
      | Some account \<Rightarrow>
          bind_result (parse_date (of_date f)) (\<lambda>d.
            let dto = \<lparr>uo_account_id = Given account, uo_type = given (of_type f),
                  uo_amount = Given (or_zero (of_amount f)), uo_date = Given d, uo_note = given (or_none (of_note f))\<rparr>
            in if op_update_ok dto then Inr dto else Inl ValueError))"

definition reset_operation_form :: "operation_form \<Rightarrow> operation_form" where
  "reset_operation_form f =
     f\<lparr>of_account := None, of_type := Some ''DEPOSIT'', of_amount := None, of_date := None, of_note := None\<rparr>"

definition operations_page ::
    "int \<Rightarrow> (app, op_row, operation_line, operation_form, operation_form, op_create, op_update) crud_hooks" where
  "operations_page u =
     \<lparr>entity_id = o_id, load_rows = load_operations u, fill_edit_form = fill_operation_form,
      prevalidate_create = prevalidate_operation, prevalidate_update = prevalidate_operation,
      build_create_dto = build_operation_create, build_update_dto = build_operation_update,
      service_create = (\<lambda>cl dto. on_world (create_op (cl_env cl) dto u)),
      service_update = (\<lambda>cl i dto. on_world (update_op dto i u)),
      service_delete = (\<lambda>cl i. on_world (delete_op i u)),
      delete_guard_error = [], reset_create_form = reset_operation_form, create_closed = (\<lambda>f. f)\<rparr>"

text \<open>The widgets as \<open>render\<close> builds them, with the accounts to choose from.\<close>

definition new_operation_widgets :: operation_form where
  "new_operation_widgets = \<lparr>of_account = None, of_type = Some ''DEPOSIT'', of_amount = None, of_date = Some [],
     of_note = Some []\<rparr>"

definition edit_operation_widgets :: operation_form where
  "edit_operation_widgets = \<lparr>of_account = None, of_type = None, of_amount = None, of_date = Some [], of_note = Some []\<rparr>"

definition render_operations ::
    "int \<Rightarrow> app \<Rightarrow> (int \<times> string) list \<times> (op_row, operation_line, operation_form, operation_form) page" where
  "render_operations u s =
     (account_names u (db_of s), open_page (operations_page u) new_operation_widgets edit_operation_widgets s)"

section \<open>The contract\<close>

definition operations_ready :: "app \<Rightarrow> bool" where
  "operations_ready s \<longleftrightarrow> app_ready s \<and> ops_ok (db_of s)"

definition operation_editable :: "op_row \<Rightarrow> bool" where
  "operation_editable p \<longleftrightarrow> 0 < o_amount p \<and> o_type p \<in> set ACCOUNT_OPERATION_TYPES \<and> valid_date (o_date p)
     \<and> o_note p \<noteq> Some [] \<and> pred_option note_ok (o_note p)"

lemma update_same_operation:
  assumes "operations_ready s" and "p \<in> set (list_ops_for_user u (db_of s))" and "apply_op_update d p = p"
    and "uo_account_id d = Given (o_account_id p)"
  shows "fst (update_op d (o_id p) u (ap_world s)) = Inr (Some p)
    \<and> w_db (snd (update_op d (o_id p) u (ap_world s))) = db_of s"
proof -
  let ?w = "ap_world s"
  have wf: "distinct (map o_id (account_operations (w_db ?w)))"
    and refs: "\<And>p. p \<in> set (account_operations (w_db ?w)) \<Longrightarrow> op_refs (w_db ?w) p"
    using assms(1) by (simp_all add: operations_ready_def app_ready_def db_wf_def db_keys_def db_refs_def)
  have p: "p \<in> set (account_operations (w_db ?w))" "o_user_id p = u"
    using assms(2) by (simp_all add: list_ops_for_user_def)
  have get: "find_op (o_id p) (w_db ?w) = Some p" using p(1) rows.lookup_mem [OF wf] by (simp add: find_op_def)
  have "on_own_account (w_db ?w) u (o_account_id p)" using assms(1) p by (auto simp: operations_ready_def ops_ok_def)
  then have own: "own_account (o_account_id p) u (w_db ?w) \<noteq> None"
    by (auto simp: own_account_def on_own_account_def find_None_iff)
  have "update_op_row p (w_db ?w) = Inr (w_db ?w)"
    using refs [OF p(1)] put_same [OF wf p(1)] by (simp add: update_op_row_def)
  then show ?thesis
    using own by (simp add: update_op_def get p(2) assms(3,4) flush_commit_cases returning_def)
qed

interpretation operations_page: crud_contract "operations_page u" operations_ready operation_editable db_of for u
proof unfold_locales
  fix s :: app assume "operations_ready s"
  then have "distinct (map o_id (list_ops_for_user u (db_of s)))"
    by (simp add: list_ops_for_user_def operations_ready_def app_ready_def db_wf_def db_keys_def order_by_def
        distinct_map inj_on_def)
  then show "\<exists>xs rows. load_rows (operations_page u) s = Inr (xs, rows) \<and> distinct (map (entity_id (operations_page u)) xs)"
    by (simp add: operations_page_def load_operations_def Let_def)
next
  fix s s' :: app assume "db_of s' = db_of s"
  then show "load_rows (operations_page u) s' = load_rows (operations_page u) s"
    by (simp add: operations_page_def load_operations_def)
next
  fix p f assume "operation_editable p"
  then show "prevalidate_update (operations_page u) (fill_edit_form (operations_page u) p f) = None"
    "\<exists>m. build_update_dto (operations_page u) (fill_edit_form (operations_page u) p f) = Inr m"
    by (cases "o_note p"; simp add: operations_page_def prevalidate_operation_def fill_operation_form_def or_zero_def
        operation_editable_def build_operation_update_def op_update_ok_def field_ok_def)+
next
  fix s xs rows p f m cl
  assume s: "operations_ready s" and xs: "load_rows (operations_page u) s = Inr (xs, rows)"
    and p: "p \<in> set xs" "operation_editable p"
    and m: "build_update_dto (operations_page u) (fill_edit_form (operations_page u) p f) = Inr m"
  have mem: "p \<in> set (list_ops_for_user u (db_of s))"
    using xs p(1) by (auto simp: operations_page_def load_operations_def Let_def)
  have m': "m = \<lparr>uo_account_id = Given (o_account_id p), uo_type = Given (o_type p), uo_amount = Given (o_amount p),
      uo_date = Given (o_date p), uo_note = given (o_note p)\<rparr>"
    using m p(2)
    by (simp add: operations_page_def fill_operation_form_def build_operation_update_def Let_def or_zero_def
        operation_editable_def split: if_splits)
  then have "apply_op_update m p = p" "uo_account_id m = Given (o_account_id p)" by (simp_all add: apply_op_update_def)
  from update_same_operation [OF s mem this]
  show "fst (service_update (operations_page u) cl (entity_id (operations_page u) p) m s) = Inr (Some p)
    \<and> db_of (snd (service_update (operations_page u) cl (entity_id (operations_page u) p) m s)) = db_of s"
    by (simp add: operations_page_def)
qed

end
