(* ===== verification/BondsPage.thy ===== *)
theory BondsPage
  imports CrudPage
begin

text \<open>
  \<open>ui/pages_bonds.py\<close>: the hooks of the page of bonds over \<open>BondService\<close>, and the search of the reference
  service behind the ISIN field: every change of the field cancels the pending search and starts a
  new one, which sleeps for the debounce, asks the service and lists the candidates; picking a
  candidate fills the form. NiceGUI runs the callback of a value that code has set once that code has
  returned. A cancelled task does nothing more; a finished one is \<open>None\<close>, as cancelling it does nothing.
\<close>

section \<open>Forms and rows\<close>

datatype search_phase = Sleeping | Asking

datatype hint = NoHint | ReferenceDisabled | ReferenceUnavailable

text \<open>The rate is a float that a reference may set to \<open>nan\<close> or an infinity; \<open>nf_issuer\<close> is \<open>None\<close> or a text.\<close>

record new_bond_form =
  nf_isin :: "string option"
  nf_name :: "string option"
  nf_nominal :: "rat option"
  nf_coupon_rate :: "pyfloat option"
  nf_period_days :: "rat option"
  nf_maturity :: "string option"
  nf_issuer :: "text_of option"
  nf_hint :: hint
  nf_hint_visible :: bool
  nf_candidates :: "bond_reference list"
  nf_candidates_visible :: bool
  nf_search :: "(string \<times> search_phase) option"
  nf_applied_isin :: "string option"

record edit_bond_form =
  eb_name :: "string option"
  eb_nominal :: "rat option"
  eb_rate :: "rat option"
  eb_period_days :: "rat option"
  eb_maturity :: "string option"
  eb_issuer :: "string option"

record bond_line =
  nl_id :: int
  nl_isin :: string
  nl_name :: string
  nl_nominal :: int
  nl_coupon_rate :: rat
  nl_coupon_period_days :: int
  nl_maturity_date :: cell
  nl_issuer :: cell

definition ISIN_SEARCH_MIN_LENGTH :: nat where "ISIN_SEARCH_MIN_LENGTH = 2"
definition ISIN_SEARCH_LIMIT :: int where "ISIN_SEARCH_LIMIT = 10"
definition DEFAULT_COUPON_PERIOD_DAYS :: int where "DEFAULT_COUPON_PERIOD_DAYS = 182"

text \<open>The rule that colours the ISIN field; it blocks nothing.\<close>

definition is_upper :: "char \<Rightarrow> bool" where "is_upper c \<longleftrightarrow> 65 \<le> code c \<and> code c \<le> 90"
definition is_lower :: "char \<Rightarrow> bool" where "is_lower c \<longleftrightarrow> 97 \<le> code c \<and> code c \<le> 122"
definition is_digit :: "char \<Rightarrow> bool" where "is_digit c \<longleftrightarrow> 48 \<le> code c \<and> code c \<le> 57"

definition is_valid_isin :: "string option \<Rightarrow> bool" where
  "is_valid_isin x =
     (case x of
        None \<Rightarrow> False
      | Some s \<Rightarrow> length s = 12 \<and> list_all (\<lambda>c. code c < 128) s
          \<and> list_all (\<lambda>c. is_upper c \<or> is_lower c \<or> is_digit c) s
          \<and> list_ex is_upper s \<and> \<not> list_ex is_lower s)"

section \<open>The search behind the ISIN field\<close>

definition cancel_isin_search :: "new_bond_form \<Rightarrow> new_bond_form" where
  "cancel_isin_search f = f\<lparr>nf_search := None\<rparr>"

definition clear_isin_candidates :: "new_bond_form \<Rightarrow> new_bond_form" where
  "clear_isin_candidates f = f\<lparr>nf_candidates := [], nf_candidates_visible := False\<rparr>"

definition on_isin_change :: "bool \<Rightarrow> string option \<Rightarrow> new_bond_form \<Rightarrow> new_bond_form" where
  "on_isin_change enabled v f =
     (let value = or_empty v
      in if nf_applied_isin f = Some value then f\<lparr>nf_applied_isin := None\<rparr>
         else if \<not> enabled then f
         else
           let f' = (clear_isin_candidates (cancel_isin_search f))\<lparr>nf_hint := NoHint, nf_hint_visible := False\<rparr>;
               query = strip value
           in if length query < ISIN_SEARCH_MIN_LENGTH then f' else f'\<lparr>nf_search := Some (query, Sleeping)\<rparr>)"

text \<open>Setting the value of the field: the callback follows if the value is another one.\<close>

definition type_isin :: "bool \<Rightarrow> string option \<Rightarrow> new_bond_form \<Rightarrow> new_bond_form" where
  "type_isin enabled v f =
     (if nf_isin f = v then f else on_isin_change enabled v (f\<lparr>nf_isin := v\<rparr>))"

definition on_create_dialog_closed :: "new_bond_form \<Rightarrow> new_bond_form" where
  "on_create_dialog_closed f = clear_isin_candidates (cancel_isin_search f)"

definition render_isin_candidates :: "bond_reference list \<Rightarrow> new_bond_form \<Rightarrow> new_bond_form" where
  "render_isin_candidates results f = f\<lparr>nf_candidates := results, nf_candidates_visible := (results \<noteq> [])\<rparr>"

definition debounce_over :: "new_bond_form \<Rightarrow> new_bond_form" where
  "debounce_over f =
     (case nf_search f of Some (query, Sleeping) \<Rightarrow> f\<lparr>nf_search := Some (query, Asking)\<rparr> | _ \<Rightarrow> f)"

text \<open>An exception that is no failure of the provider ends the task and is seen by nobody.\<close>

definition run_isin_search :: "server \<Rightarrow> call \<Rightarrow> new_bond_form \<times> app \<Rightarrow> new_bond_form \<times> app" where
  "run_isin_search sv cl fs =
     (case fs of (f, s) \<Rightarrow>
      case nf_search f of
        Some (query, Asking) \<Rightarrow>
          (case search (sv_moex sv) (cl_order cl) (cl_monotonic cl) (query, ISIN_SEARCH_LIMIT) (ap_references s) of
             (r, refs) \<Rightarrow>
               let f' = f\<lparr>nf_search := None\<rparr>
               in (case r of
                     Inr results \<Rightarrow> render_isin_candidates results f'
                   | Inl e \<Rightarrow>
                       if e \<in> {ProviderTimeoutError, ProviderUnavailableError}
                       then (clear_isin_candidates f')\<lparr>nf_hint := ReferenceUnavailable, nf_hint_visible := True\<rparr>
                       else f',
                   s\<lparr>ap_references := refs\<rparr>))
      | _ \<Rightarrow> (f, s))"

definition apply_reference :: "bool \<Rightarrow> bond_reference \<Rightarrow> new_bond_form \<Rightarrow> new_bond_form" where
  "apply_reference enabled ref f =
     (let f' = (clear_isin_candidates (cancel_isin_search
            (f\<lparr>nf_applied_isin := Some (ref_isin ref), nf_isin := Some (ref_isin ref), nf_name := Some (ref_name ref),
              nf_nominal := Some (fl64 (of_int (ref_nominal ref))), nf_coupon_rate := Some (ref_coupon_rate ref),
              nf_period_days := Some (of_int (ref_coupon_period_days ref)),
              nf_maturity := Some (isoformat (ref_maturity_date ref)),
              nf_issuer := Some (case ref_issuer ref of None \<Rightarrow> Text [] | Some t \<Rightarrow> t)\<rparr>)))\<lparr>nf_hint_visible := False\<rparr>
      in if nf_isin f = Some (ref_isin ref) then f' else on_isin_change enabled (Some (ref_isin ref)) f')"

section \<open>Hooks\<close>

definition bond_line_of :: "bond_row \<Rightarrow> bond_line" where
  "bond_line_of b =
     \<lparr>nl_id = b_id b, nl_isin = b_isin b, nl_name = b_name b, nl_nominal = b_nominal b,
      nl_coupon_rate = b_coupon_rate b, nl_coupon_period_days = b_coupon_period_days b,
      nl_maturity_date = fmt_date (Some (b_maturity_date b)), nl_issuer = or_dash (b_issuer b)\<rparr>"

definition load_bonds :: "app \<Rightarrow> (bond_row list \<times> bond_line list) result" where
  "load_bonds s = (let bonds = list_all_bonds (db_of s) in Inr (bonds, map bond_line_of bonds))"

definition fill_bond_form :: "bond_row \<Rightarrow> edit_bond_form \<Rightarrow> edit_bond_form" where
  "fill_bond_form b f =
     f\<lparr>eb_name := Some (b_name b), eb_nominal := Some (fl64 (of_int (b_nominal b))),
       eb_rate := Some (b_coupon_rate b), eb_period_days := Some (fl64 (of_int (b_coupon_period_days b))),
       eb_maturity := Some (isoformat (b_maturity_date b)), eb_issuer := Some (or_empty (b_issuer b))\<rparr>"

fun rate_of :: "pyfloat option \<Rightarrow> rat result" where
  "rate_of None = Inr 0"
| "rate_of (Some (Fin x)) = Inr x"
| "rate_of (Some (Inf negative)) = Inl (if negative then ValueError else Unmodelled)"
| "rate_of (Some NaN) = Inl ValueError"

fun issuer_of :: "text_of option \<Rightarrow> string option result" where
  "issuer_of None = Inr None"
| "issuer_of (Some (Text s)) = Inr (or_none (Some s))"
| "issuer_of (Some (StrOf x)) = Inl Unmodelled"

definition build_bond_create :: "new_bond_form \<Rightarrow> bond_create result" where
  "build_bond_create f =
     (case nf_period_days f of
        None \<Rightarrow> Inl ValueError
      | Some period \<Rightarrow>
          bind_result (parse_date (nf_maturity f)) (\<lambda>maturity.
          bind_result (rate_of (nf_coupon_rate f)) (\<lambda>rate.
          bind_result (issuer_of (nf_issuer f)) (\<lambda>issuer.
            let dto = \<lparr>nb_isin = or_empty (nf_isin f), nb_name = or_empty (nf_name f),
                  nb_nominal = truncated (or_zero (nf_nominal f)), nb_coupon_rate = rate,
                  nb_coupon_period_days = truncated period, nb_maturity_date = maturity, nb_issuer = issuer\<rparr>
            in if bond_create_ok dto then Inr dto else Inl ValueError))))"

definition build_bond_update :: "edit_bond_form \<Rightarrow> bond_update result" where
  "build_bond_update f =
     bind_result (optional_date (eb_maturity f)) (\<lambda>maturity.
       let dto = \<lparr>ub_name = given (eb_name f), ub_nominal = given (map_option truncated (eb_nominal f)),
             ub_coupon_rate = given (eb_rate f),
             ub_coupon_period_days = given (map_option truncated (eb_period_days f)),
             ub_maturity_date = given maturity, ub_issuer = given (or_none (eb_issuer f))\<rparr>
       in if bond_update_ok dto then Inr dto else Inl ValueError)"

definition prevalidate_bond_update :: "edit_bond_form \<Rightarrow> notice option" where
  "prevalidate_bond_update f = (if is_filled (eb_name f) then None else Some NameRequired)"

definition service_create_bond :: "int \<Rightarrow> call \<Rightarrow> bond_create \<Rightarrow> app \<Rightarrow> bond_row result \<times> app" where
  "service_create_bond u cl dto s =
     (case on_world (create_bond (cl_env cl) dto u) s of
        (Inl e, s') \<Rightarrow> (Inl e, s')
      | (Inr bond, s') \<Rightarrow> (Inr bond, schedule_quietly cl s'))"

definition reset_bond_form :: "bool \<Rightarrow> new_bond_form \<Rightarrow> new_bond_form" where
  "reset_bond_form enabled f =
     (let f' = clear_isin_candidates (cancel_isin_search
            (f\<lparr>nf_isin := None, nf_name := None, nf_nominal := Some 1000, nf_coupon_rate := None,
              nf_period_days := Some (of_int DEFAULT_COUPON_PERIOD_DAYS), nf_maturity := None, nf_issuer := None,
              nf_applied_isin := None\<rparr>));
          f'' = (if enabled then f'\<lparr>nf_hint_visible := False\<rparr>
                 else f'\<lparr>nf_hint := ReferenceDisabled, nf_hint_visible := True\<rparr>)
      in if nf_isin f = None then f'' else on_isin_change enabled None f'')"

definition bonds_page ::
    "bool \<Rightarrow> int \<Rightarrow> (app, bond_row, bond_line, new_bond_form, edit_bond_form, bond_create, bond_update) crud_hooks" where
  "bonds_page enabled u =
     \<lparr>entity_id = b_id, load_rows = load_bonds, fill_edit_form = fill_bond_form,
      prevalidate_create = (\<lambda>f. None), prevalidate_update = prevalidate_bond_update,
      build_create_dto = build_bond_create, build_update_dto = build_bond_update,
      service_create = service_create_bond u,
      service_update = (\<lambda>cl i dto. on_world (update_bond (cl_env cl) dto i u)),
      service_delete = (\<lambda>cl i. on_world (delete_bond (cl_env cl) i u)),
      delete_guard_error = [], reset_create_form = reset_bond_form enabled,
      create_closed = on_create_dialog_closed\<rparr>"

text \<open>The widgets as \<open>render\<close> builds them.\<close>

definition new_bond_widgets :: "bool \<Rightarrow> new_bond_form" where
  "new_bond_widgets enabled =
     \<lparr>nf_isin = Some [], nf_name = Some [], nf_nominal = Some 1000, nf_coupon_rate = None,
      nf_period_days = Some (of_int DEFAULT_COUPON_PERIOD_DAYS), nf_maturity = Some [], nf_issuer = Some (Text []),
      nf_hint = (if enabled then NoHint else ReferenceDisabled), nf_hint_visible = (\<not> enabled),
      nf_candidates = [], nf_candidates_visible = False, nf_search = None, nf_applied_isin = None\<rparr>"

definition edit_bond_widgets :: edit_bond_form where
  "edit_bond_widgets = \<lparr>eb_name = Some [], eb_nominal = None, eb_rate = None, eb_period_days = None,
     eb_maturity = Some [], eb_issuer = Some []\<rparr>"

definition render_bonds :: "int \<Rightarrow> app \<Rightarrow> (bond_row, bond_line, new_bond_form, edit_bond_form) page" where
  "render_bonds u s =
     (let enabled = rs_enabled (ap_references s)
      in open_page (bonds_page enabled u) (new_bond_widgets enabled) edit_bond_widgets s)"

section \<open>The contract\<close>

text \<open>
  The form holds nominal and period as floats, which are exact up to \<open>2 ^ 53\<close>; only the owner may save.
\<close>

definition bond_editable :: "int \<Rightarrow> bond_row \<Rightarrow> bool" where
  "bond_editable u b \<longleftrightarrow> b_owner_id b = u \<and> b_name b \<noteq> [] \<and> b_issuer b \<noteq> Some [] \<and> 0 < b_nominal b
     \<and> b_nominal b \<le> 2 ^ 53 \<and> 0 \<le> b_coupon_period_days b \<and> b_coupon_period_days b \<le> 2 ^ 53
     \<and> 0 \<le> b_coupon_rate b \<and> valid_date (b_maturity_date b)"

lemma update_same_bond:
  assumes "app_ready s" and "b \<in> set (bonds (db_of s))" and "b_owner_id b = u" and "apply_bond_update d b = b"
  shows "fst (update_bond env d (b_id b) u (ap_world s)) = Inr (Some b)
    \<and> w_db (snd (update_bond env d (b_id b) u (ap_world s))) = db_of s"
proof -
  let ?w = "ap_world s" and ?hs = "holder_ids (b_id b) (w_db (ap_world s))"
  have wf: "db_wf (w_db ?w)" "distinct (map b_id (bonds (w_db ?w)))" "distinct (map b_isin (bonds (w_db ?w)))"
    "bond_refs (w_db ?w) b" "bs_running (w_bus ?w)"
    using assms(1,2) by (simp_all add: app_ready_def db_wf_def db_keys_def db_uniques_def db_refs_def)
  have get: "get_bond (b_id b) (w_db ?w) = Some b" using assms(2) wf(1) by (simp add: get_bond_Some)
  have same_isin: "x = b" if "x \<in> set (bonds (w_db ?w))" "b_isin x = b_isin b" for x
    using wf(3) that assms(2) by (auto simp: distinct_map inj_on_def)
  then have row: "update_bond_row b (w_db ?w) = Inr (w_db ?w)"
    using wf(4) put_same [OF wf(2) assms(2)] by (auto simp: update_bond_row_def)
  obtain v where v: "publish_for_holders env ''bond.updated'' ?hs (bond_payload b) ?w = (Inr (), ?w\<lparr>w_bus := v\<rparr>)"
    using publish_each_running [of "''bond.updated''" "''bonds''" ?w env "map (for_holder (bond_payload b)) ?hs"] wf(5)
    by (auto simp: publish_for_holders_def ALL_TOPICS_def)
  show ?thesis
    by (simp add: update_bond_def get assms(3,4) row flush_publish_commit_def v returning_def)
qed

interpretation bonds_page: crud_contract "bonds_page en u" app_ready "bond_editable u" db_of for en u
proof unfold_locales
  fix s :: app assume "app_ready s"
  then have "distinct (map b_id (list_all_bonds (db_of s)))"
    by (simp add: list_all_bonds_def app_ready_def db_wf_def db_keys_def order_by_def distinct_map)
  then show "\<exists>xs rows. load_rows (bonds_page en u) s = Inr (xs, rows) \<and> distinct (map (entity_id (bonds_page en u)) xs)"
    by (simp add: bonds_page_def load_bonds_def Let_def)
next
  fix s s' :: app assume "db_of s' = db_of s"
  then show "load_rows (bonds_page en u) s' = load_rows (bonds_page en u) s" by (simp add: bonds_page_def load_bonds_def)
next
  fix b f assume "bond_editable u b"
  then show "prevalidate_update (bonds_page en u) (fill_edit_form (bonds_page en u) b f) = None"
    "\<exists>m. build_update_dto (bonds_page en u) (fill_edit_form (bonds_page en u) b f) = Inr m"
    by (simp_all add: bonds_page_def prevalidate_bond_update_def fill_bond_form_def is_filled_def bond_editable_def
        build_bond_update_def Let_def bond_update_ok_def field_ok_def fl64_of_int optional_date_def)
next
  fix s xs rows b f m cl
  assume s: "app_ready s" and xs: "load_rows (bonds_page en u) s = Inr (xs, rows)" and b: "b \<in> set xs" "bond_editable u b"
    and m: "build_update_dto (bonds_page en u) (fill_edit_form (bonds_page en u) b f) = Inr m"
  have mem: "b \<in> set (bonds (db_of s))"
    using xs b(1) by (auto simp: bonds_page_def load_bonds_def Let_def list_all_bonds_def)
  have m': "m = \<lparr>ub_name = Given (b_name b), ub_nominal = Given (b_nominal b), ub_coupon_rate = Given (b_coupon_rate b),
      ub_coupon_period_days = Given (b_coupon_period_days b), ub_maturity_date = Given (b_maturity_date b),
      ub_issuer = given (b_issuer b)\<rparr>"
    using m b(2)
    by (simp add: bonds_page_def fill_bond_form_def build_bond_update_def Let_def bond_editable_def fl64_of_int
        optional_date_def is_filled_def split: if_splits)
  then have "apply_bond_update m b = b" by (simp add: apply_bond_update_def)
  moreover have "b_owner_id b = u" using b(2) by (simp add: bond_editable_def)
  ultimately
  show "fst (service_update (bonds_page en u) cl (entity_id (bonds_page en u) b) m s) = Inr (Some b)
    \<and> db_of (snd (service_update (bonds_page en u) cl (entity_id (bonds_page en u) b) m s)) = db_of s"
    using update_same_bond [OF s mem] by (simp add: bonds_page_def)
qed

section \<open>Events of the search\<close>

datatype isin_event =
    Typed "string option"
  | DebounceOver
  | SearchEnds server call
  | Picked bond_reference
  | DialogOpened
  | DialogClosed

fun on_isin_event :: "bool \<Rightarrow> isin_event \<Rightarrow> new_bond_form \<times> app \<Rightarrow> new_bond_form \<times> app" where
  "on_isin_event en (Typed v) (f, s) = (type_isin en v f, s)"
| "on_isin_event en DebounceOver (f, s) = (debounce_over f, s)"
| "on_isin_event en (SearchEnds sv cl) (f, s) = run_isin_search sv cl (f, s)"
| "on_isin_event en (Picked ref) (f, s) = (apply_reference en ref f, s)"
| "on_isin_event en DialogOpened (f, s) = (reset_bond_form en f, s)"
| "on_isin_event en DialogClosed (f, s) = (on_create_dialog_closed f, s)"

text \<open>The user picks only what is listed; \<open>P\<close> restricts the picks further.\<close>

definition offered :: "(bond_reference \<Rightarrow> new_bond_form \<Rightarrow> bool) \<Rightarrow> isin_event \<Rightarrow> new_bond_form \<Rightarrow> bool" where
  "offered P e f \<longleftrightarrow> (case e of Picked ref \<Rightarrow> nf_candidates_visible f \<and> ref \<in> set (nf_candidates f) \<and> P ref f | _ \<Rightarrow> True)"

inductive isin_session :: "bool \<Rightarrow> (bond_reference \<Rightarrow> new_bond_form \<Rightarrow> bool) \<Rightarrow> new_bond_form \<times> app \<Rightarrow> bool" for en P where
  isin_opens: "isin_session en P (new_bond_widgets en, s)"
| isin_steps: "isin_session en P (f, s) \<Longrightarrow> offered P e f \<Longrightarrow> isin_session en P (on_isin_event en e (f, s))"

inductive_simps isin_session_simps: "isin_session en P fs"

text \<open>A pending search asks for the text of the field, and no program-made change is still awaited.\<close>

definition search_current :: "bool \<Rightarrow> new_bond_form \<Rightarrow> bool" where
  "search_current en f \<longleftrightarrow> nf_applied_isin f = None
     \<and> (\<forall>q ph. nf_search f = Some (q, ph) \<longrightarrow>
          en \<and> q = strip (or_empty (nf_isin f)) \<and> ISIN_SEARCH_MIN_LENGTH \<le> length q)"

lemmas isin_defs = type_isin_def on_isin_change_def reset_bond_form_def apply_reference_def
  cancel_isin_search_def clear_isin_candidates_def on_create_dialog_closed_def debounce_over_def
  render_isin_candidates_def run_isin_search_def

lemma search_current_event:
  assumes "search_current en f" and "offered (\<lambda>ref f. nf_isin f \<noteq> Some (ref_isin ref)) e f"
  shows "search_current en (fst (on_isin_event en e (f, s)))"
proof (cases e)
  case (SearchEnds sv cl)
  then show ?thesis using assms(1)
    by (auto simp: search_current_def isin_defs Let_def split: option.split search_phase.split prod.split sum.split)
next
  case DebounceOver
  then show ?thesis using assms(1)
    by (auto simp: search_current_def isin_defs split: option.split search_phase.split)
qed (use assms in \<open>auto simp: search_current_def isin_defs offered_def Let_def or_empty_def\<close>)

lemma search_current_session:
  "isin_session en P fs \<Longrightarrow> (\<And>ref f. P ref f \<Longrightarrow> nf_isin f \<noteq> Some (ref_isin ref)) \<Longrightarrow> search_current en (fst fs)"
proof (induction rule: isin_session.induct)
  case (isin_opens s)
  show ?case by (simp add: search_current_def new_bond_widgets_def)
next
  case (isin_steps f s e)
  then have "offered (\<lambda>ref f. nf_isin f \<noteq> Some (ref_isin ref)) e f" by (auto simp: offered_def split: isin_event.splits)
  then show ?case using search_current_event isin_steps by simp
qed

text \<open>
  C36. As long as no candidate is picked whose ISIN already stands in the field: in every state of the
  create form a pending search asks the reference service for the text that the field holds, with the
  spaces around it removed; that text has two characters at least, and the integration is enabled.
\<close>

theorem isin_search_asks_for_current_text:
  assumes "isin_session en (\<lambda>ref f. nf_isin f \<noteq> Some (ref_isin ref)) (f, s)" and "nf_search f = Some (query, phase)"
  shows "en \<and> query = strip (or_empty (nf_isin f)) \<and> ISIN_SEARCH_MIN_LENGTH \<le> length query"
  using search_current_session [OF assms(1)] assms(2) by (auto simp: search_current_def)

definition sample_references :: reference_service where
  "sample_references = \<lparr>rs_enabled = True, rs_cache_ttl_s = 300, rs_has_sessions = True, rs_cache = [], rs_populate_tasks = {}\<rparr>"

definition sample_app :: app where
  "sample_app = \<lparr>ap_world = \<lparr>w_db = sample_db, w_bus = start (bus_init 100)\<rparr>, ap_summaries = [], ap_references = sample_references\<rparr>"

theorem isin_search_asks_for_current_text_witness:
  "nf_search (fst (on_isin_event True (Typed (Some '' RU000A '')) (new_bond_widgets True, sample_app)))
     = Some (strip '' RU000A '', Sleeping)"
proof -
  let ?fs = "on_isin_event True (Typed (Some '' RU000A '')) (new_bond_widgets True, sample_app)"
  have "isin_session True (\<lambda>ref f. nf_isin f \<noteq> Some (ref_isin ref)) ?fs"
    by (rule isin_steps [OF isin_opens]) (simp add: offered_def)
  moreover have "nf_search (fst ?fs) = Some (''RU000A'', Sleeping)" "nf_isin (fst ?fs) = Some '' RU000A ''"
    by code_simp+
  ultimately show ?thesis
    using isin_search_asks_for_current_text [of True "fst ?fs" "snd ?fs" "''RU000A''" Sleeping] by (simp add: or_empty_def)
qed

text \<open>
  Picking a candidate whose ISIN already stands in the field arms a marker that no change of the
  field consumes. When the user then edits the ISIN and types it back, the second change is taken for
  the one made by the pick: the search for the intermediate text stays pending although the field holds
  another one, and its candidates will be listed under it.
\<close>

theorem stale_isin_search_survives:
  assumes "nf_isin f = Some (ref_isin ref)" and "edited \<noteq> ref_isin ref"
    and "ISIN_SEARCH_MIN_LENGTH \<le> length (strip edited)"
  shows "let f' = fst (fold (on_isin_event True) [Picked ref, Typed (Some edited), Typed (Some (ref_isin ref))] (f, s))
    in nf_isin f' = Some (ref_isin ref) \<and> nf_search f' = Some (strip edited, Sleeping)"
  using assms by (simp add: isin_defs or_empty_def Let_def)

definition sample_reference :: bond_reference where
  "sample_reference = \<lparr>ref_isin = ''RU000A0JX0J2'', ref_name = ''OFZ'', ref_nominal = 1000, ref_coupon_rate = Fin (71 / 10),
     ref_coupon_period_days = 182, ref_maturity_date = Date 740000, ref_issuer = Some (Text ''Minfin'')\<rparr>"

theorem stale_isin_search_survives_witness:
  "let f' = fst (fold (on_isin_event True) [Picked sample_reference, Typed (Some ''RU000A0JX0J''), Typed (Some ''RU000A0JX0J2'')]
      (fst (on_isin_event True (Typed (Some ''RU000A0JX0J2'')) (new_bond_widgets True, sample_app)), sample_app))
   in nf_isin f' = Some ''RU000A0JX0J2'' \<and> nf_search f' = Some (''RU000A0JX0J'', Sleeping)"
proof -
  let ?f = "fst (on_isin_event True (Typed (Some ''RU000A0JX0J2'')) (new_bond_widgets True, sample_app))"
  have "nf_isin ?f = Some (ref_isin sample_reference)" by code_simp
  moreover have "strip ''RU000A0JX0J'' = ''RU000A0JX0J''" "ref_isin sample_reference = ''RU000A0JX0J2''" by code_simp+
  ultimately show ?thesis
    using stale_isin_search_survives [of ?f sample_reference "''RU000A0JX0J''" sample_app]
    by (simp add: ISIN_SEARCH_MIN_LENGTH_def)
qed

text \<open>What a reference says of a bond, where its rate is a number.\<close>

definition bond_of_reference :: "bond_reference \<Rightarrow> rat \<Rightarrow> bond_create" where
  "bond_of_reference ref rate =
     \<lparr>nb_isin = ref_isin ref, nb_name = ref_name ref, nb_nominal = ref_nominal ref, nb_coupon_rate = rate,
      nb_coupon_period_days = ref_coupon_period_days ref, nb_maturity_date = ref_maturity_date ref,
      nb_issuer = (case ref_issuer ref of Some (Text s) \<Rightarrow> or_none (Some s) | _ \<Rightarrow> None)\<rparr>"

text \<open>
  A candidate that describes a valid bond, with a finite rate, a nominal that a float holds exactly
  and an issuer that is a text: picking it and pressing the button at once submits exactly the bond of
  the reference, whatever stood in the form; no search is pending and no candidate is listed any more.
\<close>

theorem picked_reference_is_submitted:
  assumes "bond_create_ok (bond_of_reference ref rate)" and "ref_coupon_rate ref = Fin rate"
    and "ref_nominal ref \<le> 2 ^ 53" and "\<forall>x. ref_issuer ref \<noteq> Some (StrOf x)"
  shows "build_bond_create (apply_reference en ref f) = Inr (bond_of_reference ref rate)
    \<and> nf_search (apply_reference en ref f) = None \<and> \<not> nf_candidates_visible (apply_reference en ref f)"
proof -
  have d: "valid_date (ref_maturity_date ref)" "0 < ref_nominal ref"
    using assms(1) by (simp_all add: bond_create_ok_def bond_of_reference_def)
  then have "fl64 (of_int (ref_nominal ref)) = of_int (ref_nominal ref)" using assms(3) by (simp add: fl64_of_int)
  moreover have "issuer_of (Some (case ref_issuer ref of None \<Rightarrow> Text [] | Some t \<Rightarrow> t)) = Inr (nb_issuer (bond_of_reference ref rate))"
    using assms(4) by (auto simp: bond_of_reference_def or_none_def split: option.split text_of.split)
  ultimately show ?thesis
    using assms(1,2) d by (simp add: build_bond_create_def isin_defs Let_def or_empty_def or_zero_def bond_of_reference_def)
qed

theorem picked_reference_is_submitted_witness:
  "build_bond_create (apply_reference True sample_reference (new_bond_widgets True)) = Inr (bond_of_reference sample_reference (71 / 10))"
proof -
  have "bond_create_ok (bond_of_reference sample_reference (71 / 10))" by code_simp
  then show ?thesis
    using picked_reference_is_submitted [of sample_reference "71 / 10" True "new_bond_widgets True"]
    by (simp add: sample_reference_def)
qed

text \<open>
  The search never gets in the way of manual input: when the debounce is over, when the search ends
  with candidates, with a failure of the provider or with any other exception, and when the dialog
  closes, the bond that the form would submit is the one it would have submitted before, and the
  database, the bus and the summaries are untouched; with the integration switched off no search starts.
\<close>

theorem search_keeps_manual_input:
  assumes "e = DebounceOver \<or> e = SearchEnds sv cl \<or> e = DialogClosed" and "on_isin_event en e (f, s) = (f', s')"
  shows "build_bond_create f' = build_bond_create f \<and> ap_world s' = ap_world s \<and> ap_summaries s' = ap_summaries s
    \<and> nf_search (type_isin False v f) = nf_search f"
proof -
  have same: "build_bond_create (g\<lparr>nf_search := x\<rparr>) = build_bond_create g"
    "build_bond_create (clear_isin_candidates g) = build_bond_create g"
    "build_bond_create (g\<lparr>nf_hint := h, nf_hint_visible := b\<rparr>) = build_bond_create g"
    "build_bond_create (render_isin_candidates rs g) = build_bond_create g" for g x h b rs
    by (simp_all add: build_bond_create_def clear_isin_candidates_def render_isin_candidates_def split: option.split)
  have "nf_search (type_isin False v f) = nf_search f" by (simp add: isin_defs Let_def)
  moreover have "ap_world s' = ap_world s \<and> ap_summaries s' = ap_summaries s"
    using assms by (auto simp: run_isin_search_def Let_def split: option.splits prod.splits search_phase.splits)
  moreover have "build_bond_create f' = build_bond_create f"
    using assms
    by (auto simp: run_isin_search_def Let_def same debounce_over_def on_create_dialog_closed_def cancel_isin_search_def
        split: option.splits prod.splits search_phase.splits sum.splits if_splits)
  ultimately show ?thesis by blast
qed

theorem search_keeps_manual_input_witness:
  "ap_world (snd (on_isin_event True DebounceOver (new_bond_widgets True, sample_app))) = ap_world sample_app"
  using search_keeps_manual_input [of DebounceOver undefined undefined True "new_bond_widgets True" sample_app
      "fst (on_isin_event True DebounceOver (new_bond_widgets True, sample_app))"
      "snd (on_isin_event True DebounceOver (new_bond_widgets True, sample_app))" None]
  by simp

text \<open>
  The rule that colours the ISIN field and the constraint of the service agree on every text that
  holds a letter; of digits alone the rule rejects what the service accepts.
\<close>

theorem isin_rule_is_stricter:
  "is_valid_isin (Some v) \<longleftrightarrow> isin_ok v \<and> list_ex is_upper v"
proof -
  have c: "code x = int (of_char x)" for x :: char by (simp only: code_def of_nat_of_char)
  have i: "isin_char x \<longleftrightarrow> is_upper x \<or> is_digit x" for x
    by (auto simp: isin_char_def is_upper_def is_digit_def c)
  have "is_lower x \<Longrightarrow> \<not> is_upper x \<and> \<not> is_digit x" "is_upper x \<or> is_digit x \<Longrightarrow> code x < 128" for x
    by (auto simp: is_lower_def is_upper_def is_digit_def)
  then show ?thesis
    by (auto simp: is_valid_isin_def isin_ok_def i list_all_iff list_ex_iff)
qed

end
