(* ===== verification/TransactionsPage.thy ===== *)
theory TransactionsPage
  imports CrudPage
begin

text \<open>
  \<open>ui/pages_transactions.py\<close>: the page of transactions, which has handlers of its own. Price and
  commission are entered per paper or for the whole trade and stored per paper; a hint shows what
  the tariff of the broker asks. The numbers of the form are floats, exact rationals here, and every
  operation on them rounds to binary64.
\<close>

section \<open>The form\<close>

text \<open>\<open>xf_hint\<close> is the amount in the hint, \<open>None\<close> for the dash.\<close>

record txn_form =
  xf_account :: "int option"
  xf_bond :: "int option"
  xf_type :: "string option"
  xf_quantity :: "rat option"
  xf_price :: "rat option"
  xf_price_mode :: string
  xf_commission_visible :: bool
  xf_commission :: "rat option"
  xf_commission_mode :: string
  xf_hint :: "rat option"
  xf_trade_date :: "string option"

text \<open>\<open>round(x, 9)\<close> is correctly rounded twice: to nine digits, and to a float.\<close>

definition round9 :: "rat \<Rightarrow> rat" where
  "round9 x = fl64 (of_int (rne (x * 10 ^ 9)) / 10 ^ 9)"

definition ceil_to_2 :: "rat \<Rightarrow> rat" where
  "ceil_to_2 v = fl64 (of_int \<lceil>round9 (fl64 (v * 100))\<rceil> / 100)"

text \<open>A value entered for the trade is divided by the quantity and rounded up to two digits.\<close>

definition per_paper :: "string \<Rightarrow> rat \<Rightarrow> int \<Rightarrow> rat" where
  "per_paper mode raw quantity =
     (if mode = ''trade'' then ceil_to_2 (fl64 (raw / fl64 (of_int quantity))) else raw)"

record txn_values =
  xv_bond_id :: int
  xv_account_id :: int
  xv_type :: "string option"
  xv_quantity :: int
  xv_price :: rat
  xv_date :: date
  xv_commission :: rat

text \<open>\<open>Inl\<close> is an exception, \<open>Inr (Inl n)\<close> the toast of a check that failed (the method returns \<open>None\<close>).\<close>

definition gather_form :: "txn_form \<Rightarrow> (notice + txn_values) result" where
  "gather_form f =
     (case resolve_account_id (xf_account f) of
        None \<Rightarrow> Inr (Inl ChooseAccount)
      | Some account \<Rightarrow>
          (case xf_bond f of
             None \<Rightarrow> Inr (Inl ChooseBond)
           | Some bond \<Rightarrow>
               bind_result (parse_date (xf_trade_date f)) (\<lambda>trade_date.
                 let quantity = truncated (or_zero (xf_quantity f))
                 in if quantity \<le> 0 then Inr (Inl QuantityNotPositive)
                    else Inr (Inr
                      \<lparr>xv_bond_id = bond, xv_account_id = account, xv_type = xf_type f, xv_quantity = quantity,
                       xv_price = per_paper (xf_price_mode f) (or_zero (xf_price f)) quantity, xv_date = trade_date,
                       xv_commission = (if xf_type f = Some ''MATURE'' then 0
                          else per_paper (xf_commission_mode f) (or_zero (xf_commission f)) quantity)\<rparr>))))"

text \<open>\<open>TransactionCreate(**values)\<close> and \<open>TransactionUpdate(**values)\<close>\<close>

definition txn_create_of :: "txn_values \<Rightarrow> txn_create result" where
  "txn_create_of v =
     (case xv_type v of
        None \<Rightarrow> Inl ValueError
      | Some type \<Rightarrow>
          let dto = \<lparr>nt_bond_id = xv_bond_id v, nt_account_id = xv_account_id v, nt_type = type,
                nt_quantity = xv_quantity v, nt_price = xv_price v, nt_date = xv_date v, nt_commission = xv_commission v\<rparr>
          in if txn_create_ok dto then Inr dto else Inl ValueError)"

definition txn_update_of :: "txn_values \<Rightarrow> txn_update result" where
  "txn_update_of v =
     (let dto = \<lparr>ut_bond_id = Given (xv_bond_id v), ut_account_id = Given (xv_account_id v), ut_type = given (xv_type v),
            ut_quantity = Given (xv_quantity v), ut_price = Given (xv_price v), ut_date = Given (xv_date v),
            ut_commission = Given (xv_commission v)\<rparr>
      in if txn_update_ok dto then Inr dto else Inl ValueError)"

section \<open>The state of the page\<close>

text \<open>
  A bond is named by ISIN and name, or by its number when the page does not know it;
  \<open>xs_confirm_message\<close> is the transaction that the question names, with the name of its bond.
\<close>

datatype bond_label = BondLabel string string | BondNumber int

record txn_line =
  xl_id :: int
  xl_date :: cell
  xl_isin :: string
  xl_account :: string
  xl_type :: string
  xl_quantity :: int
  xl_price :: cell
  xl_commission :: cell

record txns_page =
  xs_user_id :: int
  xs_rows :: "txn_line list"
  xs_create_dialog :: bool
  xs_edit_dialog :: bool
  xs_confirm_dialog :: bool
  xs_confirm_message :: "(txn_row \<times> bond_label) option"
  xs_selected_id :: "int option"
  xs_cache :: "(int \<times> txn_row) list"
  xs_bond_labels :: "(int \<times> bond_label) list"
  xs_broker_cache :: "(int \<times> broker_row option) list"
  xs_create :: txn_form
  xs_edit :: txn_form
  xs_notices :: "notice list"

definition tell :: "notice \<Rightarrow> txns_page \<Rightarrow> txns_page" where
  "tell n p = p\<lparr>xs_notices := xs_notices p @ [n]\<rparr>"

definition txn_line_of :: "(int \<times> string) list \<Rightarrow> (int \<times> string) list \<Rightarrow> txn_row \<Rightarrow> txn_line" where
  "txn_line_of isins accounts t =
     \<lparr>xl_id = t_id t, xl_date = fmt_date (Some (t_date t)), xl_isin = name_or_number isins (t_bond_id t),
      xl_account = name_or_number accounts (t_account_id t), xl_type = t_type t, xl_quantity = t_quantity t,
      xl_price = fmt_money (Some (t_price t)), xl_commission = fmt_money (Some (t_commission t))\<rparr>"

definition load_txn_rows :: "int \<Rightarrow> database \<Rightarrow> txn_row list \<times> txn_line list" where
  "load_txn_rows u db =
     (let txns = list_transactions u None None db;
          isins = map (\<lambda>b. (b_id b, b_isin b)) (list_all_bonds db)
      in (txns, map (txn_line_of isins (account_names u db)) txns))"

definition reload_txns :: "app \<Rightarrow> txns_page \<Rightarrow> txns_page" where
  "reload_txns s p =
     (case load_txn_rows (xs_user_id p) (db_of s) of
        (txns, rows) \<Rightarrow>
          p\<lparr>xs_cache := cache_of t_id txns, xs_rows := rows, xs_selected_id := None\<rparr>)"

section \<open>The hint\<close>

text \<open>The tariff of the broker of an account, kept for the life of the page.\<close>

definition broker_for_account :: "int \<Rightarrow> app \<Rightarrow> txns_page \<Rightarrow> broker_row option \<times> txns_page" where
  "broker_for_account account_id s p =
     (case map_of (xs_broker_cache p) account_id of
        Some broker \<Rightarrow> (broker, p)
      | None \<Rightarrow>
          let broker = Option.bind (get_account account_id (xs_user_id p) (db_of s))
                (\<lambda>a. get_broker (a_broker_id (d_account a)) (db_of s))
          in (broker, p\<lparr>xs_broker_cache := (account_id, broker) # xs_broker_cache p\<rparr>))"

definition commission_of_tariff :: "broker_row \<Rightarrow> rat \<Rightarrow> rat" where
  "commission_of_tariff broker total_price =
     (let min_commission = or_zero (br_min_commission broker)
      in if br_min_commission_type broker = ''RUBLES''
         then max (fl64 (fl64 (total_price * br_commission broker) / 100)) min_commission
         else fl64 (fl64 (total_price * max (br_commission broker) min_commission) / 100))"

definition commission_hint :: "app \<Rightarrow> txns_page \<Rightarrow> txn_form \<Rightarrow> rat option \<times> txns_page" where
  "commission_hint s p f =
     (if xf_type f = Some ''MATURE'' then (None, p)
      else
        let quantity = or_zero (xf_quantity f); price = or_zero (xf_price f)
        in case resolve_account_id (xf_account f) of
             None \<Rightarrow> (None, p)
           | Some account_id \<Rightarrow>
               if quantity \<le> 0 \<or> price \<le> 0 then (None, p)
               else
                 (case broker_for_account account_id s p of
                    (None, p') \<Rightarrow> (None, p')
                  | (Some broker, p') \<Rightarrow>
                      (Some (commission_of_tariff broker
                         (if xf_price_mode f = ''paper'' then fl64 (quantity * price) else price)), p')))"

definition update_form :: "app \<Rightarrow> txn_form \<Rightarrow> txns_page \<Rightarrow> txn_form \<times> txns_page" where
  "update_form s f p =
     (case commission_hint s p f of
        (hint, p') \<Rightarrow> (f\<lparr>xf_commission_visible := (xf_type f \<noteq> Some ''MATURE''), xf_hint := hint\<rparr>, p'))"

definition update_create :: "app \<Rightarrow> txns_page \<Rightarrow> txns_page" where
  "update_create s p = (case update_form s (xs_create p) p of (f, p') \<Rightarrow> p'\<lparr>xs_create := f\<rparr>)"

definition update_edit :: "app \<Rightarrow> txns_page \<Rightarrow> txns_page" where
  "update_edit s p = (case update_form s (xs_edit p) p of (f, p') \<Rightarrow> p'\<lparr>xs_edit := f\<rparr>)"

section \<open>Handlers\<close>

definition PORTFOLIO_ERRORS :: "error list" where
  "PORTFOLIO_ERRORS = [InsufficientPositionError, InvalidTransactionError, TransactionForbiddenError]"

definition txn_failure :: "error \<Rightarrow> notice" where
  "txn_failure e =
     (if is_value_error e then Invalid e else if e \<in> set PORTFOLIO_ERRORS then Told e else Failed e)"

text \<open>The account stays chosen; the callbacks of the fields follow.\<close>

definition reset_txn_form :: "txn_form \<Rightarrow> txn_form" where
  "reset_txn_form f =
     f\<lparr>xf_bond := None, xf_type := Some ''BUY'', xf_quantity := None, xf_price := None, xf_price_mode := ''paper'',
       xf_commission := Some 0, xf_commission_mode := ''paper'', xf_hint := None, xf_trade_date := None\<rparr>"

definition reset_create :: "app \<Rightarrow> txns_page \<Rightarrow> txns_page" where
  "reset_create s p = update_create s (p\<lparr>xs_create := reset_txn_form (xs_create p)\<rparr>)"

definition open_txn_dialog :: "app \<Rightarrow> txns_page \<Rightarrow> txns_page" where
  "open_txn_dialog s p = (reset_create s p)\<lparr>xs_create_dialog := True\<rparr>"

definition create_txn :: "call \<Rightarrow> txns_page \<times> app \<Rightarrow> txns_page \<times> app" where
  "create_txn cl ps =
     (case ps of (p, s) \<Rightarrow>
      case gather_form (xs_create p) of
        Inl e \<Rightarrow> (tell (txn_failure e) p, s)
      | Inr (Inl n) \<Rightarrow> (tell n p, s)
      | Inr (Inr values) \<Rightarrow>
          (case txn_create_of values of
             Inl e \<Rightarrow> (tell (txn_failure e) p, s)
           | Inr dto \<Rightarrow>
               (case on_world (add_transaction (cl_env cl) (xs_user_id p) dto) s of
                  (Inl e, s') \<Rightarrow> (tell (txn_failure e) p, s')
                | (Inr txn, s') \<Rightarrow>
                    (reload_txns s' (reset_create s' ((tell Created p)\<lparr>xs_create_dialog := False\<rparr>)), s'))))"

definition update_txn :: "call \<Rightarrow> txns_page \<times> app \<Rightarrow> txns_page \<times> app" where
  "update_txn cl ps =
     (case ps of (p, s) \<Rightarrow>
      case xs_selected_id p of
        None \<Rightarrow> (tell ChooseFirst p, s)
      | Some i \<Rightarrow>
          (case gather_form (xs_edit p) of
             Inl e \<Rightarrow> (tell (txn_failure e) p, s)
           | Inr (Inl n) \<Rightarrow> (tell n p, s)
           | Inr (Inr values) \<Rightarrow>
               (case txn_update_of values of
                  Inl e \<Rightarrow> (tell (txn_failure e) p, s)
                | Inr dto \<Rightarrow>
                    (case on_world (update_transaction (cl_env cl) dto i (xs_user_id p)) s of
                       (Inl e, s') \<Rightarrow> (tell (txn_failure e) p, s')
                     | (Inr None, s') \<Rightarrow> (reload_txns s' (tell NotFound p), s')
                     | (Inr (Some txn), s') \<Rightarrow>
                         (reload_txns s' ((tell Updated p)\<lparr>xs_edit_dialog := False\<rparr>), s')))))"

definition ask_delete_txn :: "txns_page \<Rightarrow> txns_page" where
  "ask_delete_txn p =
     (if xs_selected_id p = None then tell ChooseFirst p
      else p\<lparr>xs_edit_dialog := False, xs_confirm_dialog := True\<rparr>)"

definition confirm_delete_txn :: "call \<Rightarrow> txns_page \<times> app \<Rightarrow> txns_page \<times> app" where
  "confirm_delete_txn cl ps =
     (case ps of (p0, s) \<Rightarrow>
      let p = p0\<lparr>xs_confirm_dialog := False\<rparr>
      in case xs_selected_id p of
           None \<Rightarrow> (p, s)
         | Some i \<Rightarrow>
             (case on_world (delete_transaction (cl_env cl) i (xs_user_id p)) s of
                (Inl e, s') \<Rightarrow> (tell (if e \<in> set PORTFOLIO_ERRORS then Told e else Failed e) p, s')
              | (Inr ok, s') \<Rightarrow> (reload_txns s' (tell (if ok then Deleted else NotFound) p), s')))"

definition fill_txn_form :: "txn_row \<Rightarrow> txn_form \<Rightarrow> txn_form" where
  "fill_txn_form t f =
     f\<lparr>xf_account := Some (t_account_id t), xf_bond := Some (t_bond_id t), xf_type := Some (t_type t),
       xf_quantity := Some (of_int (t_quantity t)), xf_price_mode := ''paper'', xf_price := Some (t_price t),
       xf_commission_mode := ''paper'', xf_commission := Some (t_commission t),
       xf_trade_date := Some (isoformat (t_date t))\<rparr>"

definition bond_label_of :: "(int \<times> bond_label) list \<Rightarrow> int \<Rightarrow> bond_label" where
  "bond_label_of labels i = (case map_of (rev labels) i of None \<Rightarrow> BondNumber i | Some l \<Rightarrow> l)"

definition on_row_click :: "json \<Rightarrow> app \<Rightarrow> txns_page \<Rightarrow> txns_page result" where
  "on_row_click args s p =
     (case Option.bind (row_from_event args ''id'') (\<lambda>row. map_of row ''id'') of
        None \<Rightarrow> Inr p
      | Some v \<Rightarrow> bind_result (as_key v) (\<lambda>k.
          case Option.bind k (map_of (xs_cache p)) of
            None \<Rightarrow> Inr p
          | Some t \<Rightarrow>
              Inr (update_edit s (p\<lparr>xs_selected_id := Some (t_id t), xs_edit := fill_txn_form t (xs_edit p),
                xs_confirm_message := Some (t, bond_label_of (xs_bond_labels p) (t_bond_id t)),
                xs_edit_dialog := True\<rparr>))))"

section \<open>The page and its events\<close>

definition new_txn_widgets :: "int option \<Rightarrow> string option \<Rightarrow> rat option \<Rightarrow> txn_form" where
  "new_txn_widgets account type commission =
     \<lparr>xf_account = account, xf_bond = None, xf_type = type, xf_quantity = None, xf_price = None,
      xf_price_mode = ''paper'', xf_commission_visible = True, xf_commission = commission,
      xf_commission_mode = ''paper'', xf_hint = None, xf_trade_date = Some []\<rparr>"

definition render_transactions :: "int \<Rightarrow> app \<Rightarrow> txns_page" where
  "render_transactions u s =
     (let account = sl_value (build_account_selector u True (db_of s))
      in reload_txns s
        \<lparr>xs_user_id = u, xs_rows = [], xs_create_dialog = False, xs_edit_dialog = False, xs_confirm_dialog = False,
         xs_confirm_message = None, xs_selected_id = None, xs_cache = [],
         xs_bond_labels = map (\<lambda>b. (b_id b, BondLabel (b_isin b) (b_name b))) (list_all_bonds (db_of s)),
         xs_broker_cache = [], xs_create = new_txn_widgets account (Some ''BUY'') (Some 0),
         xs_edit = new_txn_widgets account None (Some 0), xs_notices = []\<rparr>)"

text \<open>
  \<open>TxnCreateEdited\<close> and \<open>TxnEditEdited\<close> are the user's input into a form, after which its callbacks run.
\<close>

datatype txn_event =
    TxnAdd
  | TxnRefresh
  | TxnCreateEdited txn_form
  | TxnReady
  | TxnCreateDismissed
  | TxnRow json
  | TxnEditEdited txn_form
  | TxnSave
  | TxnDelete
  | TxnEditDismissed
  | TxnYes
  | TxnNo

definition txn_no_dialog :: "txns_page \<Rightarrow> bool" where
  "txn_no_dialog p \<longleftrightarrow> \<not> xs_create_dialog p \<and> \<not> xs_edit_dialog p \<and> \<not> xs_confirm_dialog p"

fun txn_receives :: "txns_page \<Rightarrow> txn_event \<Rightarrow> bool" where
  "txn_receives p TxnAdd = txn_no_dialog p"
| "txn_receives p TxnRefresh = txn_no_dialog p"
| "txn_receives p (TxnRow args) = txn_no_dialog p"
| "txn_receives p (TxnCreateEdited f) = xs_create_dialog p"
| "txn_receives p TxnReady = xs_create_dialog p"
| "txn_receives p TxnCreateDismissed = xs_create_dialog p"
| "txn_receives p (TxnEditEdited f) = xs_edit_dialog p"
| "txn_receives p TxnSave = xs_edit_dialog p"
| "txn_receives p TxnDelete = xs_edit_dialog p"
| "txn_receives p TxnEditDismissed = xs_edit_dialog p"
| "txn_receives p TxnYes = xs_confirm_dialog p"
| "txn_receives p TxnNo = xs_confirm_dialog p"

fun on_txn_event :: "call \<Rightarrow> txn_event \<Rightarrow> txns_page \<times> app \<Rightarrow> txns_page \<times> app" where
  "on_txn_event cl TxnAdd (p, s) = (open_txn_dialog s p, s)"
| "on_txn_event cl TxnRefresh (p, s) = (reload_txns s p, s)"
| "on_txn_event cl (TxnCreateEdited f) (p, s) = (update_create s (p\<lparr>xs_create := f\<rparr>), s)"
| "on_txn_event cl TxnReady (p, s) = create_txn cl (p, s)"
| "on_txn_event cl TxnCreateDismissed (p, s) = (p\<lparr>xs_create_dialog := False\<rparr>, s)"
| "on_txn_event cl (TxnRow args) (p, s) = ((case on_row_click args s p of Inl e \<Rightarrow> p | Inr p' \<Rightarrow> p'), s)"
| "on_txn_event cl (TxnEditEdited f) (p, s) = (update_edit s (p\<lparr>xs_edit := f\<rparr>), s)"
| "on_txn_event cl TxnSave (p, s) = update_txn cl (p, s)"
| "on_txn_event cl TxnDelete (p, s) = (ask_delete_txn p, s)"
| "on_txn_event cl TxnEditDismissed (p, s) = (p\<lparr>xs_edit_dialog := False\<rparr>, s)"
| "on_txn_event cl TxnYes (p, s) = confirm_delete_txn cl (p, s)"
| "on_txn_event cl TxnNo (p, s) = (p\<lparr>xs_confirm_dialog := False\<rparr>, s)"

section \<open>Rounding per paper\<close>

lemma fl64_near:
  assumes "\<bar>x\<bar> < 2 powi k" and "- 1021 \<le> k" shows "\<bar>fl64 x - x\<bar> \<le> 2 powi (k - 54)"
proof (cases "x = 0")
  case False
  then have "2 powi ilog2 \<bar>x\<bar> \<le> \<bar>x\<bar>" by (intro ilog2_bounds) simp
  then have "(2::rat) powi ilog2 \<bar>x\<bar> < 2 powi k" using assms(1) by linarith
  then have "ilog2 \<bar>x\<bar> \<le> k - 1" by simp
  then have "ulp_exp x \<le> k - 53" using assms(2) by (simp add: ulp_exp_def)
  then have "(2::rat) powi (ulp_exp x) \<le> 2 powi (k - 53)" by simp
  also have "\<dots> = 2 * 2 powi (k - 54)" by (simp flip: power_int_add_1')
  finally show ?thesis using fl64_error [OF False] by simp
qed simp

text \<open>Errors are counted in units of \<open>10 ^ -11\<close>.\<close>

definition unit11 :: rat where "unit11 = 1 / 10 ^ 11"

lemma near_bounds: "\<bar>a - b\<bar> \<le> d \<Longrightarrow> a \<le> b + d \<and> b - d \<le> a" for a b d :: rat
  by (simp add: abs_le_iff)

lemma fl64_near_units:
  "\<bar>x\<bar> < 32768 \<Longrightarrow> \<bar>fl64 x - x\<bar> \<le> unit11 / 5" "\<bar>x\<bar> < 2097152 \<Longrightarrow> \<bar>fl64 x - x\<bar> \<le> 12 * unit11"
  "\<bar>x\<bar> < 4194304 \<Longrightarrow> \<bar>fl64 x - x\<bar> \<le> 24 * unit11"
proof -
  have le: "2 powi (15 - 54) \<le> unit11 / 5" "2 powi (21 - 54) \<le> 12 * unit11" "2 powi (22 - 54) \<le> 24 * unit11"
    by (simp_all add: power_int_def unit11_def power_one_over)
  show "\<bar>x\<bar> < 32768 \<Longrightarrow> \<bar>fl64 x - x\<bar> \<le> unit11 / 5"
    by (rule order_trans [OF fl64_near le(1)]) simp_all
  show "\<bar>x\<bar> < 2097152 \<Longrightarrow> \<bar>fl64 x - x\<bar> \<le> 12 * unit11"
    by (rule order_trans [OF fl64_near le(2)]) simp_all
  show "\<bar>x\<bar> < 4194304 \<Longrightarrow> \<bar>fl64 x - x\<bar> \<le> 24 * unit11"
    by (rule order_trans [OF fl64_near le(3)]) simp_all
qed

lemma scaled_diff: "\<bar>a * 10 ^ 9 - b * 10 ^ 9\<bar> = \<bar>a - b\<bar> * 10 ^ 9" for a b :: rat
proof -
  have "a * 10 ^ 9 - b * 10 ^ 9 = (a - b) * 10 ^ 9" by (rule left_diff_distrib [symmetric])
  then show ?thesis by (simp only: abs_mult abs_numeral power_abs)
qed

lemma unit11_small: "0 < unit11" "100000 * unit11 < 1"
  by (simp_all add: unit11_def)

lemma round9_near:
  assumes "\<bar>x\<bar> < 2097152" shows "\<bar>round9 x - x\<bar> \<le> 74 * unit11"
proof -
  define y :: rat where "y = of_int (rne (x * 10 ^ 9)) / 10 ^ 9"
  have "y * 10 ^ 9 = of_int (rne (x * 10 ^ 9))" by (simp add: y_def)
  then have "\<bar>y - x\<bar> * 10 ^ 9 \<le> 1 / 2" using rne_error [of "x * 10 ^ 9"] by (simp only: flip: scaled_diff)
  then have y: "\<bar>y - x\<bar> \<le> 50 * unit11" by (simp add: unit11_def)
  have "y < 4194304" "- y < 4194304" using near_bounds [OF y] assms unit11_small by linarith+
  then have "\<bar>fl64 y - y\<bar> \<le> 24 * unit11" by (intro fl64_near_units) (simp add: abs_less_iff)
  moreover have "round9 x = fl64 y" by (simp only: round9_def y_def)
  ultimately show ?thesis using near_bounds [OF y] by (simp add: abs_le_iff)
qed

lemma hundredfold_near:
  assumes "0 \<le> v" and "v \<le> 20000"
  shows "\<bar>fl64 (v * 100) - v * 100\<bar> \<le> 12 * unit11" and "\<bar>round9 (fl64 (v * 100)) - v * 100\<bar> \<le> 86 * unit11"
proof -
  show e: "\<bar>fl64 (v * 100) - v * 100\<bar> \<le> 12 * unit11" using assms by (intro fl64_near_units) simp
  have "fl64 (v * 100) < 2097152" "- fl64 (v * 100) < 2097152" using near_bounds [OF e] assms unit11_small by linarith+
  then have "\<bar>round9 (fl64 (v * 100)) - fl64 (v * 100)\<bar> \<le> 74 * unit11" by (intro round9_near) (simp add: abs_less_iff)
  from near_bounds [OF this] near_bounds [OF e] show "\<bar>round9 (fl64 (v * 100)) - v * 100\<bar> \<le> 86 * unit11"
    by (simp add: abs_le_iff)
qed

lemma rne_unique: assumes "\<bar>x - of_int m\<bar> < 1 / 2" shows "rne x = m"
proof -
  have "\<bar>(of_int (rne x - m) :: rat)\<bar> < 1" using rne_error [of x] assms by linarith
  then show ?thesis by linarith
qed

lemma ceil_to_2_kopecks:
  assumes "0 \<le> fl64 (of_int n / 100)" and "fl64 (of_int n / 100) \<le> 20000"
  shows "ceil_to_2 (fl64 (of_int n / 100)) = fl64 (of_int n / 100)"
proof -
  define v where "v = fl64 (of_int n / 100)"
  have "0 \<le> n"
  proof (rule ccontr)
    assume "\<not> 0 \<le> n"
    then have "of_int n / 100 \<le> (- 1 / 128 :: rat)" by simp
    then have "v \<le> fl64 (- 1 / 128)" unfolding v_def by (rule fl64_mono)
    also have "fl64 (- 1 / 128) = - 1 / 128" by code_simp
    finally show False using assms by (simp add: v_def)
  qed
  moreover have "n < 2000100"
  proof (rule ccontr)
    assume "\<not> n < 2000100"
    then have "(20001 :: rat) \<le> of_int n / 100" by simp
    then have "fl64 20001 \<le> v" unfolding v_def by (rule fl64_mono)
    then show False using assms by (simp add: v_def)
  qed
  ultimately have n: "\<bar>of_int n / 100\<bar> < (32768 :: rat)" "fl64 (of_int n) = of_int n" by (simp_all add: fl64_of_int)
  have v: "v * 100 \<le> of_int n + 20 * unit11" "of_int n - 20 * unit11 \<le> v * 100"
    using near_bounds [OF fl64_near_units(1) [OF n(1)]] by (simp_all add: v_def)
  have "\<bar>fl64 (v * 100) - of_int n\<bar> \<le> 32 * unit11"
    using near_bounds [OF hundredfold_near(1), of v] assms v by (simp add: abs_le_iff flip: v_def)
  then have "\<bar>fl64 (v * 100) - of_int n\<bar> * 10 ^ 9 \<le> 32 * unit11 * 10 ^ 9" by (rule mult_right_mono) simp
  also have "32 * unit11 * 10 ^ 9 < 1 / 2" by (simp add: unit11_def)
  finally have "\<bar>fl64 (v * 100) * 10 ^ 9 - of_int (n * 10 ^ 9)\<bar> < 1 / 2"
    by (simp only: of_int_mult of_int_power of_int_numeral scaled_diff)
  then have "rne (fl64 (v * 100) * 10 ^ 9) = n * 10 ^ 9" by (rule rne_unique)
  then have "round9 (fl64 (v * 100)) = of_int n" using n(2) by (simp add: round9_def)
  then show ?thesis by (simp add: ceil_to_2_def v_def)
qed



text \<open>
  Beyond that bound the rounding fails in binary64: 65536.10 roubles per paper, a number of kopecks, is
  stored as 65536.11 when it is entered for the trade, because a hundred times the float, rounded to nine
  digits, still is a little above 6553610.
\<close>

theorem ceil_to_2_adds_a_kopeck:
  "per_paper ''trade'' (fl64 (655361 / 10)) 1 = fl64 (6553611 / 100)
    \<and> per_paper ''paper'' (fl64 (655361 / 10)) 1 = fl64 (655361 / 10)"
  by code_simp

section \<open>Sessions of the page\<close>

inductive txn_session :: "int \<Rightarrow> txns_page \<times> app \<Rightarrow> bool" for u where
  txn_opens: "txn_session u (render_transactions u s, s)"
| txn_event: "txn_session u (p, s) \<Longrightarrow> txn_receives p e \<Longrightarrow> txn_session u (on_txn_event cl e (p, s))"
| txn_elsewhere: "txn_session u (p, s) \<Longrightarrow> txn_session u (p, s')"

text \<open>The invariant of the page: like that of the other pages, and the page stays the page of its user.\<close>

definition txns_page_ok :: "int \<Rightarrow> txns_page \<Rightarrow> bool" where
  "txns_page_ok u p \<longleftrightarrow> xs_user_id p = u
     \<and> (\<forall>i t. map_of (xs_cache p) i = Some t \<longrightarrow> t_id t = i \<and> t_user_id t = u)
     \<and> (\<forall>i. xs_selected_id p = Some i \<longrightarrow>
          (\<exists>t. map_of (xs_cache p) i = Some t \<and> (\<exists>l. xs_confirm_message p = Some (t, l))))
     \<and> (xs_confirm_dialog p \<longrightarrow> xs_selected_id p \<noteq> None \<and> \<not> xs_edit_dialog p)
     \<and> (xs_create_dialog p \<longrightarrow> \<not> xs_edit_dialog p \<and> \<not> xs_confirm_dialog p)"

text \<open>What \<open>txns_page_ok\<close> reads of the page, which the forms, the hint and the toasts leave alone.\<close>

definition txns_frame ::
    "txns_page \<Rightarrow> int \<times> (int \<times> txn_row) list \<times> int option \<times> (txn_row \<times> bond_label) option \<times> bool \<times> bool \<times> bool" where
  "txns_frame p = (xs_user_id p, xs_cache p, xs_selected_id p, xs_confirm_message p, xs_create_dialog p,
     xs_edit_dialog p, xs_confirm_dialog p)"

lemma txns_page_ok_frame: "txns_frame p = txns_frame q \<Longrightarrow> txns_page_ok u p = txns_page_ok u q"
  by (simp add: txns_page_ok_def txns_frame_def)

lemma tell_frame [simp]: "txns_frame (tell n p) = txns_frame p"
  by (simp add: txns_frame_def tell_def)

lemma broker_page: "broker_for_account a s p = (b, q) \<Longrightarrow> p\<lparr>xs_broker_cache := xs_broker_cache q\<rparr> = q"
  by (auto simp: broker_for_account_def Let_def split: option.splits)

lemma hint_page: "commission_hint s p f = (h, q) \<Longrightarrow> p\<lparr>xs_broker_cache := xs_broker_cache q\<rparr> = q"
  by (auto simp: commission_hint_def Let_def dest: broker_page split: if_splits option.splits prod.splits)

lemma hint_pageE: assumes "commission_hint s p f = (h, q)" obtains c where "q = p\<lparr>xs_broker_cache := c\<rparr>"
  using hint_page [OF assms] by metis

lemma update_frame [simp]:
  "txns_frame (update_create s p) = txns_frame p" "txns_frame (update_edit s p) = txns_frame p"
  by (auto simp: update_create_def update_edit_def update_form_def txns_frame_def split: prod.split elim!: hint_pageE)

lemma reset_frame [simp]: "txns_frame (reset_create s p) = txns_frame p"
  by (simp add: reset_create_def) (simp add: txns_frame_def)

lemma frame_dialogs:
  assumes "txns_frame p = txns_frame q"
  shows "txns_frame (p\<lparr>xs_create_dialog := b\<rparr>) = txns_frame (q\<lparr>xs_create_dialog := b\<rparr>)"
    "txns_frame (p\<lparr>xs_edit_dialog := b\<rparr>) = txns_frame (q\<lparr>xs_edit_dialog := b\<rparr>)"
  using assms by (simp_all add: txns_frame_def)

lemma txns_page_ok_reload:
  assumes "txns_page_ok u p" and "\<not> xs_confirm_dialog p" shows "txns_page_ok u (reload_txns s p)"
  using assms
  by (auto simp: txns_page_ok_def reload_txns_def load_txn_rows_def Let_def list_transactions_def
      dest!: cache_of_keys)

lemma txns_page_ok_same [simp]:
  "txns_page_ok u (tell n p) = txns_page_ok u p" "txns_page_ok u (update_create s p) = txns_page_ok u p"
  "txns_page_ok u (update_edit s p) = txns_page_ok u p" "txns_page_ok u (reset_create s p) = txns_page_ok u p"
  "txns_page_ok u ((tell n p)\<lparr>xs_create_dialog := b\<rparr>) = txns_page_ok u (p\<lparr>xs_create_dialog := b\<rparr>)"
  "txns_page_ok u ((tell n p)\<lparr>xs_edit_dialog := b\<rparr>) = txns_page_ok u (p\<lparr>xs_edit_dialog := b\<rparr>)"
  by (rule txns_page_ok_frame, rule tell_frame update_frame reset_frame frame_dialogs [OF tell_frame])+

lemma confirm_same [simp]:
  "xs_confirm_dialog (tell n p) = xs_confirm_dialog p" "xs_confirm_dialog (reset_create s p) = xs_confirm_dialog p"
  using tell_frame [of n p] reset_frame [of s p] by (simp_all add: txns_frame_def)

lemma txns_page_ok_row:
  assumes p: "txns_page_ok u p" "txn_no_dialog p" and q: "on_row_click args s p = Inr q"
  shows "txns_page_ok u q"
proof (rule ccontr)
  assume n: "\<not> ?thesis"
  then have "q \<noteq> p" using p by blast
  then obtain i t where t: "map_of (xs_cache p) i = Some t" and
    q: "q = update_edit s (p\<lparr>xs_selected_id := Some (t_id t), xs_edit := fill_txn_form t (xs_edit p),
      xs_confirm_message := Some (t, bond_label_of (xs_bond_labels p) (t_bond_id t)), xs_edit_dialog := True\<rparr>)"
    using q by (auto simp: on_row_click_def bind_result_Inr_iff Option.bind_eq_Some_conv split: option.splits)
  moreover have "t_id t = i" using t p(1) by (auto simp: txns_page_ok_def)
  ultimately have "txns_page_ok u q"
    using p by simp (simp add: txns_page_ok_def txn_no_dialog_def)
  then show False using n by blast
qed

lemma on_txn_event_ok:
  assumes p: "txns_page_ok u p" and r: "txn_receives p e"
  shows "txns_page_ok u (fst (on_txn_event cl e (p, s)))"
proof (cases e)
  case TxnReady
  have "txns_page_ok u (p\<lparr>xs_create_dialog := False\<rparr>)" "\<not> xs_confirm_dialog p"
    using p r TxnReady by (auto simp: txns_page_ok_def)
  then have "txns_page_ok u (reload_txns t (reset_create t ((tell Created p)\<lparr>xs_create_dialog := False\<rparr>)))" for t
    by (intro txns_page_ok_reload) simp_all
  then show ?thesis using TxnReady p by (simp add: create_txn_def split: sum.split prod.split)
next
  case TxnSave
  have "txns_page_ok u (p\<lparr>xs_edit_dialog := False\<rparr>)" "\<not> xs_confirm_dialog p"
    using p r TxnSave by (auto simp: txns_page_ok_def)
  then have "txns_page_ok u (reload_txns t ((tell n p)\<lparr>xs_edit_dialog := False\<rparr>))"
    "txns_page_ok u (reload_txns t (tell n p))" for t n
    using p by (simp_all add: txns_page_ok_reload)
  then show ?thesis using TxnSave p
    by (simp add: update_txn_def split: sum.split prod.split option.split)
next
  case TxnYes
  have "txns_page_ok u (p\<lparr>xs_confirm_dialog := False\<rparr>)" using p r TxnYes by (auto simp: txns_page_ok_def)
  moreover from this have "txns_page_ok u (reload_txns t (tell n (p\<lparr>xs_confirm_dialog := False\<rparr>)))" for t n
    by (intro txns_page_ok_reload) simp_all
  ultimately show ?thesis using TxnYes
    by (simp add: confirm_delete_txn_def Let_def split: sum.split prod.split option.split)
next
  case (TxnRow args)
  then show ?thesis using p r txns_page_ok_row [OF p, of args s] by (simp split: sum.split)
next
  case TxnDelete
  then show ?thesis using p r by (simp add: ask_delete_txn_def) (auto simp: txns_page_ok_def)
next
  case TxnAdd
  have "txns_frame (open_txn_dialog s p) = txns_frame (p\<lparr>xs_create_dialog := True\<rparr>)"
    unfolding open_txn_dialog_def by (rule frame_dialogs [OF reset_frame])
  from txns_page_ok_frame [OF this] show ?thesis
    using p r TxnAdd by simp (auto simp: txns_page_ok_def txn_no_dialog_def)
next
  case (TxnCreateEdited f)
  then show ?thesis using p by simp (simp add: txns_page_ok_def)
next
  case (TxnEditEdited f)
  then show ?thesis using p by simp (simp add: txns_page_ok_def)
next
  case TxnRefresh
  then show ?thesis using p r by (simp add: txns_page_ok_reload txn_no_dialog_def)
qed (use p r in \<open>auto simp: txns_page_ok_def\<close>)

lemma txn_session_ok: "txn_session u ps \<Longrightarrow> txns_page_ok u (fst ps)"
proof (induction rule: txn_session.induct)
  case (txn_opens s)
  have "txns_page_ok u (render_transactions u s)" unfolding render_transactions_def Let_def
    by (rule txns_page_ok_reload) (simp_all add: txns_page_ok_def)
  then show ?case by simp
qed (simp_all add: on_txn_event_ok)

text \<open>
  Whatever the user and the other requests do while a page of transactions is open: the question before
  a deletion names a transaction of the user of the page, it is the selected one, and answering yes asks the
  service to delete exactly that transaction, for that user.
\<close>

theorem txn_deletion_is_of_the_named:
  assumes "txn_session u (p, s)" and "xs_confirm_dialog p"
  shows "\<exists>t l. xs_confirm_message p = Some (t, l) \<and> t_user_id t = u
    \<and> snd (on_txn_event cl TxnYes (p, s)) = snd (on_world (delete_transaction (cl_env cl) (t_id t) u) s)"
proof -
  have "txns_page_ok u p" using txn_session_ok [OF assms(1)] by simp
  then obtain i t l where "xs_selected_id p = Some i" "xs_confirm_message p = Some (t, l)" "t_id t = i" "t_user_id t = u" "xs_user_id p = u"
    using assms(2) by (auto simp: txns_page_ok_def)
  then show ?thesis by (auto simp: confirm_delete_txn_def Let_def split: sum.split prod.split)
qed

section \<open>What the form submits\<close>

definition shows_txns :: "app \<Rightarrow> txns_page \<Rightarrow> bool" where
  "shows_txns s p \<longleftrightarrow> (case load_txn_rows (xs_user_id p) (db_of s) of
     (txns, rows) \<Rightarrow> xs_cache p = cache_of t_id txns \<and> xs_rows p = rows \<and> xs_selected_id p = None)"

lemma reload_shows [simp]: "shows_txns s (reload_txns s p)"
  by (simp add: shows_txns_def reload_txns_def split: prod.split)

lemma gather_filled:
  assumes "valid_date (t_date t)" and "0 < t_quantity t" and "t_account_id t \<noteq> 0"
    and "t_type t = ''MATURE'' \<longrightarrow> t_commission t = 0"
    and "xf_account f = Some (t_account_id t)" "xf_bond f = Some (t_bond_id t)" "xf_type f = Some (t_type t)"
      "xf_quantity f = Some (of_int (t_quantity t))" "xf_price_mode f = ''paper''" "xf_price f = Some (t_price t)"
      "xf_commission_mode f = ''paper''" "xf_commission f = Some (t_commission t)" "xf_trade_date f = Some (isoformat (t_date t))"
  shows "gather_form f = Inr (Inr
    \<lparr>xv_bond_id = t_bond_id t, xv_account_id = t_account_id t, xv_type = Some (t_type t), xv_quantity = t_quantity t,
     xv_price = t_price t, xv_date = t_date t, xv_commission = t_commission t\<rparr>)"
  using assms by (simp add: gather_form_def resolve_account_id_def or_zero_def per_paper_def Let_def)

text \<open>A transaction that the form can show without a loss.\<close>

definition txn_editable :: "txn_row \<Rightarrow> bool" where
  "txn_editable t \<longleftrightarrow> valid_date (t_date t) \<and> 0 < t_account_id t \<and> (t_type t = ''MATURE'' \<longrightarrow> t_commission t = 0)"

lemma update_same_txn:
  assumes db: "db_ok (w_db w)" and run: "bs_running (w_bus w)" and t: "t \<in> set (transactions (w_db w))"
    and d: "apply_txn_update d t = t"
  shows "fst (update_transaction env d (t_id t) (t_user_id t) w) = Inr (Some t)
    \<and> w_db (snd (update_transaction env d (t_id t) (t_user_id t) w)) = w_db w"
proof -
  have wf: "db_wf (w_db w)" using db by (simp add: db_ok_def)
  then have keys: "distinct (map t_id (transactions (w_db w)))" and refs: "txn_refs (w_db w) t"
    using t by (simp_all add: db_wf_def db_keys_def db_refs_def)
  have found: "find_txn (t_id t) (w_db w) = Some t" using find_txn_Some [OF wf] t by blast
  then have split: "row_of t_id (t_id t) (transactions (w_db w)) = Some t" by (simp add: find_txn_def)
  have "0 \<le> pair_position (t_user_id t) (t_bond_id t) (t_account_id t) (transactions (w_db w))"
    using db by (simp add: db_ok_def positions_ok_def)
  then have shift: "validate_transaction_shift (t_user_id t) t (t_bond_id t) (t_account_id t) (t_type t) (t_quantity t) (w_db w) = Inr ()"
    using pair_position_split [OF keys split, of "t_user_id t" "t_bond_id t" "t_account_id t"]
    by (auto simp: validate_transaction_shift_def Let_def quantity_of_others on_pair_def signed_quantity_def)
  have own: "own_account (t_account_id t) (t_user_id t) (w_db w) \<noteq> None"
    using db t by (simp add: db_ok_def txns_ok_def own_account_None)
  have upd: "update_txn_row t (w_db w) = Inr (w_db w)" using refs put_same [OF keys t] by (simp add: update_txn_row_def)
  show ?thesis
    using refs own and_then_ok [of "publish_positions env (t_user_id t) [t_bond_id t, t_bond_id t]" w
        "publish_portfolio env ''transaction.updated'' (txn_payload t)"] run
    by (simp add: update_transaction_def found d shift upd Let_def txn_refs_def publish_positions_ok publish_portfolio_ok
        ALL_TOPICS_def returning_Inr and_then_db)
qed

text \<open>
  C22. Opening a transaction and saving it at once changes nothing: the date survives the way through the
  text field, the modes are reset to amounts per paper, so neither price nor commission is divided again,
  the service accepts the transaction (its position stays covered), the table stays as it is and the toast
  reports success. It holds for every transaction but a redemption with a commission, which the form drops.
\<close>

theorem untouched_txn_save:
  assumes db: "db_ok (db_of s)" and run: "bs_running (w_bus (ap_world s))" and p: "shows_txns s p"
    and t: "t \<in> set (transactions (db_of s))" "t_user_id t = xs_user_id p" and ed: "txn_editable t"
    and click: "row_from_event args ''id'' = Some row" "map_of row ''id'' = Some (JInt (t_id t))"
    and saved: "(p', s') = on_txn_event cl TxnSave (on_txn_event cl (TxnRow args) (p, s))"
  shows "db_of s' = db_of s \<and> xs_rows p' = xs_rows p \<and> \<not> xs_edit_dialog p' \<and> xs_notices p' = xs_notices p @ [Updated]"
proof -
  have keys: "distinct (map t_id (transactions (db_of s)))" using db by (simp add: db_ok_def db_wf_def db_keys_def)
  have "t \<in> set (list_transactions (xs_user_id p) None None (db_of s))"
    using t by (simp add: list_transactions_def)
  moreover have "distinct (map t_id (list_transactions (xs_user_id p) None None (db_of s)))"
    using keys by (simp add: list_transactions_def distinct_map inj_on_def order_by_def)
  ultimately have cached: "map_of (xs_cache p) (t_id t) = Some t"
    using p by (simp add: shows_txns_def load_txn_rows_def Let_def map_of_cache_of)
  let ?f = "fill_txn_form t (xs_edit p)"
  let ?r = "p\<lparr>xs_selected_id := Some (t_id t), xs_edit := ?f,
      xs_confirm_message := Some (t, bond_label_of (xs_bond_labels p) (t_bond_id t)), xs_edit_dialog := True\<rparr>"
  obtain h c where h: "commission_hint s ?r ?f = (h, ?r\<lparr>xs_broker_cache := c\<rparr>)"
    by (metis hint_pageE surj_pair)
  define q where "q = ?r\<lparr>xs_broker_cache := c, xs_edit := ?f\<lparr>xf_commission_visible := t_type t \<noteq> ''MATURE'', xf_hint := h\<rparr>\<rparr>"
  let ?v = "\<lparr>xv_bond_id = t_bond_id t, xv_account_id = t_account_id t, xv_type = Some (t_type t), xv_quantity = t_quantity t,
     xv_price = t_price t, xv_date = t_date t, xv_commission = t_commission t\<rparr>"
  have q: "on_row_click args s p = Inr q"
    using h by (simp add: on_row_click_def click cached update_edit_def update_form_def q_def) (simp add: fill_txn_form_def)
  have row: "0 < t_quantity t" "0 < t_price t" "t_type t \<in> set TRANSACTION_TYPES"
    using db t(1) by (simp_all add: db_ok_def txns_ok_def db_wf_def db_refs_def txn_refs_def)
  have gather: "gather_form (xs_edit q) = Inr (Inr ?v)"
    by (rule gather_filled) (use row ed in \<open>simp_all add: txn_editable_def q_def fill_txn_form_def\<close>)
  let ?d = "\<lparr>ut_bond_id = Given (t_bond_id t), ut_account_id = Given (t_account_id t), ut_type = Given (t_type t),
            ut_quantity = Given (t_quantity t), ut_price = Given (t_price t), ut_date = Given (t_date t),
            ut_commission = Given (t_commission t)\<rparr>"
  have dto: "txn_update_of ?v = Inr ?d"
    using row ed by (simp add: txn_update_of_def txn_editable_def txn_update_ok_def field_ok_def)
  have sel: "xs_selected_id q = Some (t_id t)" "xs_user_id q = t_user_id t" "xs_rows q = xs_rows p" "xs_notices q = xs_notices p"
    using t(2) by (simp_all add: q_def)
  obtain x s2 where x: "on_world (update_transaction (cl_env cl) ?d (t_id t) (t_user_id t)) s = (x, s2)" by fastforce
  have "x = Inr (Some t)" "db_of s2 = db_of s"
    using update_same_txn [OF db run t(1), of ?d "cl_env cl"] x
    by (auto simp: apply_txn_update_def on_world_def split: prod.splits)
  then have "(p', s') = (reload_txns s2 ((tell Updated q)\<lparr>xs_edit_dialog := False\<rparr>), s2)"
    using saved q gather dto sel x by (simp add: update_txn_def)
  then show ?thesis using sel t(2) p \<open>db_of s2 = db_of s\<close>
    by (auto simp: reload_txns_def tell_def shows_txns_def split: prod.splits)
qed

definition row_two :: json where "row_two = JObj [(''id'', JInt 2)]"

theorem txn_deletion_is_of_the_named_witness:
  "snd (on_txn_event (one_call 9) TxnYes (on_txn_event (one_call 9) TxnDelete
      (on_txn_event (one_call 9) (TxnRow row_two) (render_transactions 1 one_app, one_app))))
    = snd (on_world (delete_transaction (cl_env (one_call 9)) 2 1) one_app)"
proof -
  let ?a = "(render_transactions 1 one_app, one_app)"
  let ?b = "on_txn_event (one_call 9) (TxnRow row_two) ?a"
  let ?c = "on_txn_event (one_call 9) TxnDelete ?b"
  have a: "txn_session 1 ?a" "txn_no_dialog (fst ?a)" by (rule txn_opens) (simp add: render_transactions_def Let_def reload_txns_def txn_no_dialog_def split: prod.split)
  have b: "txn_session 1 ?b" "xs_edit_dialog (fst ?b)" using a txn_event [OF a(1), of "TxnRow row_two"] by simp code_simp
  have same: "snd ?c = one_app" by simp
  have c: "txn_session 1 ?c" using b txn_event [of 1 "fst ?b" "snd ?b" TxnDelete] by simp
  have m: "xs_confirm_dialog (fst ?c)" "map_option (\<lambda>(t, l). t_id t) (xs_confirm_message (fst ?c)) = Some 2" by code_simp+
  define q where "q = fst ?c"
  have q: "?c = (q, one_app)" using same by (simp add: q_def prod_eq_iff)
  from c m show ?thesis
    using txn_deletion_is_of_the_named [of 1 q one_app "one_call 9"] unfolding q by auto
qed

theorem untouched_txn_save_witness:
  "db_of (snd (on_txn_event (one_call 9) TxnSave (on_txn_event (one_call 9) (TxnRow row_two)
    (render_transactions 1 one_app, one_app)))) = sample_db"
proof -
  let ?r = "on_txn_event (one_call 9) TxnSave (on_txn_event (one_call 9) (TxnRow row_two) (render_transactions 1 one_app, one_app))"
  have db: "db_ok (db_of one_app)" "bs_running (w_bus (ap_world one_app))" "db_of one_app = sample_db"
    by (simp_all add: one_app_def db_ok_def sample_db_wf sample_txns_ok sample_positions_ok) (simp add: ops_ok_def sample_db_def)
  have p: "shows_txns one_app (render_transactions 1 one_app)" "xs_user_id (render_transactions 1 one_app) = 1"
    by (simp_all add: render_transactions_def Let_def) (simp add: reload_txns_def split: prod.split)
  have t: "sample_holding 2 1 \<in> set (transactions (db_of one_app))" using db(3) by (simp add: sample_db_def)
  have "txn_editable (sample_holding 2 1)" by (simp add: txn_editable_def sample_holding_def valid_date_def min_ordinal_def max_ordinal_def)
  moreover have "row_from_event row_two ''id'' = Some [(''id'', JInt 2)]" by (simp add: row_two_def row_from_event_def List.map_filter_simps)
  ultimately show ?thesis
    using untouched_txn_save [OF db(1,2) p(1) t, of row_two "[(''id'', JInt 2)]" "fst ?r" "snd ?r" "one_call 9"] p(2) db(3)
    by (simp add: sample_holding_def)
qed

end
