(* ===== verification/UiSafety.thy ===== *)
theory UiSafety
  imports BrokersPage AccountsPage OperationsPage BondsPage TransactionsPage
begin

text \<open>
  What the events of the pages do to the application: the forms submit validated data only, so the pages
  keep the invariant \<open>db_ok\<close>, and what they ask of the services touches only rows of the user of the page.
  The contract \<open>fair_page\<close> between hooks and page is proved once and discharged for the four CRUD pages.
\<close>

section \<open>The rows of the others\<close>

text \<open>Accounts, transactions and account operations of every user but one are the same rows in the same order.\<close>

definition others_kept :: "int \<Rightarrow> database \<Rightarrow> database \<Rightarrow> bool" where
  "others_kept u db db' \<longleftrightarrow>
     filter (\<lambda>a. a_user_id a \<noteq> u) (broker_accounts db') = filter (\<lambda>a. a_user_id a \<noteq> u) (broker_accounts db)
     \<and> filter (\<lambda>t. t_user_id t \<noteq> u) (transactions db') = filter (\<lambda>t. t_user_id t \<noteq> u) (transactions db)
     \<and> filter (\<lambda>p. o_user_id p \<noteq> u) (account_operations db') = filter (\<lambda>p. o_user_id p \<noteq> u) (account_operations db)"

lemma others_kept_refl [simp]: "others_kept u db db"
  by (simp add: others_kept_def)

lemma filter_put_row:
  assumes "distinct (map key rows)" and "row_of key (key r) rows = Some old" and "\<not> P old" and "\<not> P r"
  shows "filter P (put_row key r rows) = filter P rows"
proof -
  have "old \<in> set rows" "key old = key r" using assms(2) rows.lookup_mem [OF assms(1)] by simp_all
  then have "\<not> P x" if "x \<in> set rows" "key x = key r" for x
    using that assms(1,3) by (metis distinct_map inj_onD)
  then show ?thesis using assms(4) unfolding put_row_def by (induction rows) auto
qed

lemma filter_drop_row:
  assumes "distinct (map key rows)" and "row_of key i rows = Some old" and "\<not> P old"
  shows "filter P (drop_row key i rows) = filter P rows"
proof -
  have "old \<in> set rows" "key old = i" using assms(2) rows.lookup_mem [OF assms(1)] by simp_all
  then have "\<not> P x" if "x \<in> set rows" "key x = i" for x
    using that assms(1,3) by (metis distinct_map inj_onD)
  then show ?thesis unfolding drop_row_def by (induction rows) auto
qed

lemma flush_others_kept:
  assumes "\<And>v. w_db (snd (pub v)) = w_db v" and "\<And>db. fl = Inr db \<Longrightarrow> others_kept u (w_db w) db"
  shows "others_kept u (w_db w) (w_db (snd (flush_publish_commit fl pub w)))"
  using assms(1) [of w] assms(2) by (auto simp: flush_publish_commit_def split: sum.split prod.splits)

lemma catalogue_others_kept:
  "insert_bond b db = Inr db' \<Longrightarrow> others_kept u db db'" "update_bond_row b db = Inr db' \<Longrightarrow> others_kept u db db'"
  "insert_broker br db = Inr db' \<Longrightarrow> others_kept u db db'" "update_broker_row br db = Inr db' \<Longrightarrow> others_kept u db db'"
  by (auto simp: insert_bond_def update_bond_row_def insert_broker_def update_broker_row_def others_kept_def split: if_splits)

lemma catalogue_deletes:
  "filter (\<lambda>t. t_bond_id t = i) (transactions db) = [] \<Longrightarrow> others_kept u db (delete_bond_row i db)"
  "filter (\<lambda>a. a_broker_id a = i) (broker_accounts db) = [] \<Longrightarrow> others_kept u db (delete_broker_row i db)"
proof -
  assume "filter (\<lambda>t. t_bond_id t = i) (transactions db) = []"
  then have "filter (\<lambda>t. t_bond_id t \<noteq> i) (transactions db) = transactions db" by (auto simp: filter_empty_conv filter_id_conv)
  then show "others_kept u db (delete_bond_row i db)" by (simp add: others_kept_def delete_bond_row_def)
next
  assume none: "filter (\<lambda>a. a_broker_id a = i) (broker_accounts db) = []"
  then have "filter (\<lambda>a. a_broker_id a \<noteq> i) (broker_accounts db) = broker_accounts db" by (auto simp: filter_empty_conv filter_id_conv)
  then show "others_kept u db (delete_broker_row i db)" using none by (simp add: others_kept_def delete_broker_row_def Let_def)
qed

lemma bond_commands_keep_others:
  "others_kept v (w_db w) (w_db (snd (create_bond env d u w)))"
  "others_kept v (w_db w) (w_db (snd (update_bond env e i u w)))"
  "others_kept v (w_db w) (w_db (snd (delete_bond env i u w)))"
proof -
  show "others_kept v (w_db w) (w_db (snd (create_bond env d u w)))"
    by (auto simp: create_bond_def Let_def intro!: flush_others_kept dest: catalogue_others_kept)
  show "others_kept v (w_db w) (w_db (snd (update_bond env e i u w)))"
    by (auto simp: update_bond_def Let_def intro!: flush_others_kept dest: catalogue_others_kept split: option.split)
  show "others_kept v (w_db w) (w_db (snd (delete_bond env i u w)))"
    by (auto simp: delete_bond_def Let_def intro!: flush_others_kept catalogue_deletes split: option.split)
qed

lemma broker_commands_keep_others:
  "others_kept v (w_db w) (w_db (snd (create_broker env d w)))"
  "others_kept v (w_db w) (w_db (snd (update_broker env e i w)))"
  "others_kept v (w_db w) (w_db (snd (delete_broker env i w)))"
proof -
  show "others_kept v (w_db w) (w_db (snd (create_broker env d w)))"
    by (auto simp: create_broker_def Let_def intro!: flush_others_kept dest: catalogue_others_kept)
  show "others_kept v (w_db w) (w_db (snd (update_broker env e i w)))"
    by (auto simp: update_broker_def Let_def intro!: flush_others_kept dest: catalogue_others_kept split: option.split)
  show "others_kept v (w_db w) (w_db (snd (delete_broker env i w)))"
    by (auto simp: delete_broker_def intro!: flush_others_kept catalogue_deletes split: option.split)
qed

lemma insert_others_kept:
  "insert_account a db = Inr db' \<Longrightarrow> a_user_id a = u \<Longrightarrow> others_kept u db db'"
  "insert_txn t db = Inr db' \<Longrightarrow> t_user_id t = u \<Longrightarrow> others_kept u db db'"
  "insert_op p db = Inr db' \<Longrightarrow> o_user_id p = u \<Longrightarrow> others_kept u db db'"
  by (auto simp: insert_account_def insert_txn_def insert_op_def others_kept_def add_row_def split: if_splits)

lemma update_others_kept:
  assumes "db_wf db"
  shows "find_account i db = Some a \<Longrightarrow> a_user_id a = u \<Longrightarrow> update_account_row (apply_account_update d a) db = Inr db' \<Longrightarrow> others_kept u db db'"
    and "find_txn i db = Some t \<Longrightarrow> t_user_id t = u \<Longrightarrow> update_txn_row (apply_txn_update e t) db = Inr db' \<Longrightarrow> others_kept u db db'"
    and "find_op i db = Some p \<Longrightarrow> o_user_id p = u \<Longrightarrow> update_op_row (apply_op_update f p) db = Inr db' \<Longrightarrow> others_kept u db db'"
proof -
  have keys: "distinct (map a_id (broker_accounts db))" "distinct (map t_id (transactions db))" "distinct (map o_id (account_operations db))"
    using assms by (simp_all add: put_wf_simps)
  note puts = filter_put_row [OF keys(1), where old = a] filter_put_row [OF keys(2), where old = t] filter_put_row [OF keys(3), where old = p]
  note lookups = rows.lookup_key [OF keys(1)] rows.lookup_key [OF keys(2)] rows.lookup_key [OF keys(3)]
  show "find_account i db = Some a \<Longrightarrow> a_user_id a = u \<Longrightarrow> update_account_row (apply_account_update d a) db = Inr db' \<Longrightarrow> others_kept u db db'"
    by (auto simp: update_account_row_def others_kept_def find_account_def apply_account_update_def lookups intro!: puts split: if_splits)
  show "find_txn i db = Some t \<Longrightarrow> t_user_id t = u \<Longrightarrow> update_txn_row (apply_txn_update e t) db = Inr db' \<Longrightarrow> others_kept u db db'"
    by (auto simp: update_txn_row_def others_kept_def find_txn_def apply_txn_update_def lookups intro!: puts split: if_splits)
  show "find_op i db = Some p \<Longrightarrow> o_user_id p = u \<Longrightarrow> update_op_row (apply_op_update f p) db = Inr db' \<Longrightarrow> others_kept u db db'"
    by (auto simp: update_op_row_def others_kept_def find_op_def apply_op_update_def lookups intro!: puts split: if_splits)
qed

lemma delete_others_kept:
  assumes "db_wf db"
  shows "find_account i db = Some a \<Longrightarrow> a_user_id a = u \<Longrightarrow> filter (\<lambda>t. t_account_id t = i) (transactions db) = [] \<Longrightarrow>
      filter (\<lambda>p. o_account_id p = i) (account_operations db) = [] \<Longrightarrow> others_kept u db (delete_account_row i db)"
    and "find_txn i db = Some t \<Longrightarrow> t_user_id t = u \<Longrightarrow> others_kept u db (delete_txn_row i db)"
    and "find_op i db = Some p \<Longrightarrow> o_user_id p = u \<Longrightarrow> others_kept u db (delete_op_row i db)"
proof -
  have keys: "distinct (map a_id (broker_accounts db))" "distinct (map t_id (transactions db))" "distinct (map o_id (account_operations db))"
    using assms by (simp_all add: put_wf_simps)
  have rest: "filter (\<lambda>t. t_account_id t = i) ts = [] \<Longrightarrow> filter (\<lambda>t. t_account_id t \<noteq> i) ts = ts"
      "filter (\<lambda>p. o_account_id p = i) ps = [] \<Longrightarrow> filter (\<lambda>p. o_account_id p \<noteq> i) ps = ps" for ts ps
    by (auto simp: filter_empty_conv filter_id_conv)
  show "find_account i db = Some a \<Longrightarrow> a_user_id a = u \<Longrightarrow> filter (\<lambda>t. t_account_id t = i) (transactions db) = [] \<Longrightarrow>
      filter (\<lambda>p. o_account_id p = i) (account_operations db) = [] \<Longrightarrow> others_kept u db (delete_account_row i db)"
    using filter_drop_row [OF keys(1), of i a "\<lambda>a. a_user_id a \<noteq> u"]
    by (simp add: others_kept_def delete_account_row_def rest find_account_def)
  show "find_txn i db = Some t \<Longrightarrow> t_user_id t = u \<Longrightarrow> others_kept u db (delete_txn_row i db)"
    using filter_drop_row [OF keys(2), of i t "\<lambda>a. t_user_id a \<noteq> u"]
    by (simp add: others_kept_def delete_txn_row_def find_txn_def)
  show "find_op i db = Some p \<Longrightarrow> o_user_id p = u \<Longrightarrow> others_kept u db (delete_op_row i db)"
    using filter_drop_row [OF keys(3), of i p "\<lambda>a. o_user_id a \<noteq> u"]
    by (simp add: others_kept_def delete_op_row_def find_op_def)
qed

lemma account_commands_keep_others:
  assumes "db_wf (w_db w)"
  shows "others_kept u (w_db w) (w_db (snd (create_account env d u w)))"
    and "others_kept u (w_db w) (w_db (snd (update_account env e i u w)))"
    and "others_kept u (w_db w) (w_db (snd (delete_account env i u w)))"
proof -
  show "others_kept u (w_db w) (w_db (snd (create_account env d u w)))"
    by (auto simp: create_account_def Let_def new_account_def intro!: flush_others_kept dest: insert_others_kept split: option.split)
  show "others_kept u (w_db w) (w_db (snd (update_account env e i u w)))"
    by (auto simp: update_account_def Let_def intro!: flush_others_kept intro: update_others_kept [OF assms] split: option.split)
  show "others_kept u (w_db w) (w_db (snd (delete_account env i u w)))"
    by (auto simp: delete_account_def intro!: flush_others_kept delete_others_kept [OF assms] split: option.split)
qed

lemma op_commands_keep_others:
  assumes "db_wf (w_db w)"
  shows "others_kept u (w_db w) (w_db (snd (create_op env d u w)))"
    and "others_kept u (w_db w) (w_db (snd (update_op e i u w)))"
    and "others_kept u (w_db w) (w_db (snd (delete_op i u w)))"
proof -
  show "others_kept u (w_db w) (w_db (snd (create_op env d u w)))"
    by (auto simp: create_op_def Let_def new_op_def flush_commit_def intro!: flush_others_kept dest: insert_others_kept split: option.split)
  show "others_kept u (w_db w) (w_db (snd (update_op e i u w)))"
    by (auto simp: update_op_def Let_def flush_commit_def intro!: flush_others_kept intro: update_others_kept [OF assms] split: option.split)
  show "others_kept u (w_db w) (w_db (snd (delete_op i u w)))"
    by (auto simp: delete_op_def flush_commit_def intro!: flush_others_kept delete_others_kept [OF assms] split: option.split)
qed

lemma txn_commands_keep_others:
  assumes "db_wf (w_db w)"
  shows "others_kept u (w_db w) (w_db (snd (add_transaction env u c w)))"
    and "others_kept u (w_db w) (w_db (snd (update_transaction env d i u w)))"
    and "others_kept u (w_db w) (w_db (snd (delete_transaction env i u w)))"
proof -
  show "others_kept u (w_db w) (w_db (snd (add_transaction env u c w)))"
    by (auto simp: add_transaction_def Let_def new_txn_def and_then_db intro: insert_others_kept(2) split: sum.split)
  show "others_kept u (w_db w) (w_db (snd (update_transaction env d i u w)))"
    by (auto simp: update_transaction_def Let_def and_then_db intro: update_others_kept [OF assms] split: sum.split option.split)
  show "others_kept u (w_db w) (w_db (snd (delete_transaction env i u w)))"
    by (auto simp: delete_transaction_def Let_def and_then_db intro: delete_others_kept [OF assms] split: option.split)
qed

section \<open>The steps of the pages\<close>

text \<open>What a page of a user may do to the application: keep its invariant, the rows of the others and the bus running.\<close>

definition fair_step :: "int \<Rightarrow> app \<Rightarrow> app \<Rightarrow> bool" where
  "fair_step u s s' \<longleftrightarrow>
     (db_ok (db_of s) \<longrightarrow> db_ok (db_of s') \<and> others_kept u (db_of s) (db_of s'))
     \<and> bs_running (w_bus (ap_world s')) = bs_running (w_bus (ap_world s))"

locale fair_page =
  fixes hk :: "('s, 'e, 'r, 'c, 'u, 'n, 'm) crud_hooks"
    and fair :: "bool \<Rightarrow> call \<Rightarrow> 's \<Rightarrow> 's \<Rightarrow> bool"
  assumes idle: "fair saves cl s s"
    and creates: "build_create_dto hk c = Inr n \<Longrightarrow> fair False cl s (snd (service_create hk cl n s))"
    and updates: "build_update_dto hk d = Inr m \<Longrightarrow> fair True cl s (snd (service_update hk cl i m s))"
    and deletes: "fair False cl s (snd (service_delete hk cl i s))"
begin

lemma outcomes_fair:
  "build_create_dto hk c = Inr n \<Longrightarrow> service_create hk cl n s = (r, s') \<Longrightarrow> fair False cl s s'"
  "build_update_dto hk d = Inr m \<Longrightarrow> service_update hk cl i m s = (q, s') \<Longrightarrow> fair True cl s s'"
  "service_delete hk cl i s = (b, s') \<Longrightarrow> fair False cl s s'"
  using creates updates deletes by (metis snd_conv)+

lemma event_fair: "fair (e = SaveClicked) cl s (snd (on_event hk cl e (p, s)))"
  by (cases e)
    (auto simp: idle handle_create_def handle_update_def confirm_delete_def Let_def intro: outcomes_fair
      split: option.split sum.split prod.split bool.split)

end

lemma on_world_fair:
  assumes "db_ok (db_of s) \<Longrightarrow> db_ok (w_db (snd (f (ap_world s))))"
    and "db_ok (db_of s) \<Longrightarrow> others_kept u (db_of s) (w_db (snd (f (ap_world s))))"
    and "bs_running (w_bus (snd (f (ap_world s)))) = bs_running (w_bus (ap_world s))"
  shows "fair_step u s (snd (on_world f s))"
  using assms by (simp add: fair_step_def)

lemma db_okD: "db_ok db \<Longrightarrow> db_wf db"
  by (simp add: db_ok_def)

interpretation brokers_fair: fair_page brokers_page "\<lambda>_ _. fair_step u" for u
proof unfold_locales
  fix cl :: call and s i
  show "fair_step u s s" for s by (simp add: fair_step_def)
  show "fair_step u s (snd (service_create brokers_page cl n s))" for n
    unfolding brokers_page_def crud_hooks.simps
    by (rule on_world_fair) (auto simp: create_broker.keeps_running intro: keeps_rows_ok create_broker_keeps_rows create_broker.keeps_wf db_okD
      broker_commands_keep_others )
  show "fair_step u s (snd (service_update brokers_page cl i m s))" for m
    unfolding brokers_page_def crud_hooks.simps
    by (rule on_world_fair) (auto simp: update_broker.keeps_running intro: keeps_rows_ok update_broker_keeps_rows update_broker.keeps_wf db_okD
      broker_commands_keep_others )
  show "fair_step u s (snd (service_delete brokers_page cl i s))"
    unfolding brokers_page_def crud_hooks.simps
    by (rule on_world_fair) (auto simp: delete_broker.keeps_running intro: keeps_rows_ok delete_broker_keeps_rows delete_broker.keeps_wf db_okD
      broker_commands_keep_others )
qed

interpretation accounts_fair: fair_page "accounts_page u" "\<lambda>_ _. fair_step u" for u
proof unfold_locales
  fix cl :: call and s i
  show "fair_step u s s" for s by (simp add: fair_step_def)
  show "fair_step u s (snd (service_create (accounts_page u) cl n s))" for n
    unfolding accounts_page_def crud_hooks.simps
    by (rule on_world_fair) (auto simp: create_account.keeps_running intro: keeps_rows_ok create_account_keeps_rows create_account.keeps_wf db_okD
      account_commands_keep_others )
  show "fair_step u s (snd (service_update (accounts_page u) cl i m s))" for m
    unfolding accounts_page_def crud_hooks.simps
    by (rule on_world_fair) (auto simp: update_account.keeps_running intro: keeps_rows_ok update_account_keeps_rows update_account.keeps_wf db_okD
      account_commands_keep_others )
  show "fair_step u s (snd (service_delete (accounts_page u) cl i s))"
    unfolding accounts_page_def crud_hooks.simps
    by (rule on_world_fair) (auto simp: delete_account.keeps_running intro: keeps_rows_ok delete_account_keeps_rows delete_account.keeps_wf db_okD
      account_commands_keep_others )
qed

lemma schedule_quietly_world [simp]: "ap_world (schedule_quietly cl s) = ap_world s"
  by (simp add: schedule_quietly_def)

lemma service_create_bond_world:
  "ap_world (snd (service_create_bond u cl n s)) = snd (create_bond (cl_env cl) n u (ap_world s))"
  by (simp add: service_create_bond_def on_world_def split: prod.split sum.split)

interpretation bonds_fair: fair_page "bonds_page en u" "\<lambda>_ _. fair_step v" for en u v
proof unfold_locales
  fix cl :: call and s i
  show "fair_step v s s" for s by (simp add: fair_step_def)
  have "fair_step v s (snd (on_world (create_bond (cl_env cl) n u) s))" for n
    by (rule on_world_fair) (auto simp: create_bond.keeps_running intro: keeps_rows_ok create_bond_keeps_rows create_bond.keeps_wf db_okD
      bond_commands_keep_others )
  then show "fair_step v s (snd (service_create (bonds_page en u) cl n s))" for n
    by (simp add: fair_step_def bonds_page_def service_create_bond_world)
  show "fair_step v s (snd (service_update (bonds_page en u) cl i m s))" for m
    unfolding bonds_page_def crud_hooks.simps
    by (rule on_world_fair) (auto simp: update_bond.keeps_running intro: keeps_rows_ok update_bond_keeps_rows update_bond.keeps_wf db_okD
      bond_commands_keep_others )
  show "fair_step v s (snd (service_delete (bonds_page en u) cl i s))"
    unfolding bonds_page_def crud_hooks.simps
    by (rule on_world_fair) (auto simp: delete_bond.keeps_running intro: keeps_rows_ok delete_bond_keeps_rows delete_bond.keeps_wf db_okD
      bond_commands_keep_others )
qed

lemma operation_dto_ok:
  "build_operation_create f = Inr n \<Longrightarrow> op_create_ok n" "build_operation_update f = Inr m \<Longrightarrow> op_update_ok m"
  by (auto simp: build_operation_create_def build_operation_update_def bind_result_Inr_iff Let_def split: option.splits if_splits)

interpretation operations_fair: fair_page "operations_page u" "\<lambda>_ _. fair_step u" for u
proof unfold_locales
  fix cl :: call and s i
  show "fair_step u s s" for s by (simp add: fair_step_def)
  show "build_create_dto (operations_page u) c = Inr n \<Longrightarrow> fair_step u s (snd (service_create (operations_page u) cl n s))" for c n
    unfolding operations_page_def crud_hooks.simps
    by (rule on_world_fair) (auto simp: create_op.keeps_running intro: op_commands_db_ok operation_dto_ok db_okD op_commands_keep_others )
  show "build_update_dto (operations_page u) d = Inr m \<Longrightarrow> fair_step u s (snd (service_update (operations_page u) cl i m s))" for d m
    unfolding operations_page_def crud_hooks.simps
    by (rule on_world_fair) (auto simp: update_op.keeps_running intro: op_commands_db_ok operation_dto_ok db_okD op_commands_keep_others )
  show "fair_step u s (snd (service_delete (operations_page u) cl i s))"
    unfolding operations_page_def crud_hooks.simps
    by (rule on_world_fair) (auto simp: delete_op.keeps_running intro: op_commands_db_ok db_okD op_commands_keep_others )
qed

lemma txn_dto_ok:
  "txn_create_of v = Inr n \<Longrightarrow> txn_create_ok n" "txn_update_of v = Inr m \<Longrightarrow> txn_update_ok m"
  by (auto simp: txn_create_of_def txn_update_of_def Let_def split: option.splits if_splits)

lemma txn_services_fair:
  "txn_create_of v = Inr n \<Longrightarrow> fair_step u s (snd (on_world (add_transaction env u n) s))"
  "txn_update_of v = Inr m \<Longrightarrow> fair_step u s (snd (on_world (update_transaction env m i u) s))"
  "fair_step u s (snd (on_world (delete_transaction env i u) s))"
proof -
  note ok = txn_commands_db_ok txn_dto_ok db_okD txn_commands_keep_others
  show "txn_create_of v = Inr n \<Longrightarrow> fair_step u s (snd (on_world (add_transaction env u n) s))"
    by (rule on_world_fair) (auto simp: add_transaction.keeps_running intro: ok)
  show "txn_update_of v = Inr m \<Longrightarrow> fair_step u s (snd (on_world (update_transaction env m i u) s))"
    by (rule on_world_fair) (auto simp: update_transaction.keeps_running intro: ok)
  show "fair_step u s (snd (on_world (delete_transaction env i u) s))"
    by (rule on_world_fair) (auto simp: delete_transaction.keeps_running intro: ok)
qed

lemma on_txn_event_fair: "fair_step (xs_user_id p) s (snd (on_txn_event cl e (p, s)))"
proof -
  have idle: "fair_step u s s" for u by (simp add: fair_step_def)
  have outcomes:
    "txn_create_of v = Inr n \<Longrightarrow> on_world (add_transaction env u n) s = (r, s') \<Longrightarrow> fair_step u s s'"
    "txn_update_of v = Inr m \<Longrightarrow> on_world (update_transaction env m i u) s = (q, s') \<Longrightarrow> fair_step u s s'"
    "on_world (delete_transaction env i u) s = (b, s') \<Longrightarrow> fair_step u s s'" for v n env u r s' m i q b
    using txn_services_fair [where s = s] by (metis snd_conv)+
  show ?thesis
    by (cases e)
      (auto simp: idle create_txn_def update_txn_def confirm_delete_txn_def Let_def intro: outcomes
        split: option.split sum.split prod.split)
qed

lemma on_isin_event_world: "ap_world (snd (on_isin_event en e (f, s))) = ap_world s"
  by (cases e) (auto simp: run_isin_search_def Let_def split: option.split prod.split sum.split search_phase.split)

section \<open>Properties\<close>

text \<open>
  C8. Whatever happens on the pages: an event of the page of brokers, accounts, bonds, account operations or
  transactions of a user, whatever the state of the page and the contents of its form, takes a database that
  keeps all constraints and balances to such a database again, leaves every account, transaction and account
  operation of the other users untouched, and never stops the bus. What the forms submit is therefore
  validated as strictly as the requests of the REST interface.
\<close>

theorem page_events_keep_the_books:
  assumes "db_ok (db_of s)"
    and "s' \<in> {snd (on_event brokers_page cl eb (pb, s)), snd (on_event (accounts_page u) cl ea (pa, s)),
      snd (on_event (bonds_page en u) cl ed (pd, s)), snd (on_event (operations_page u) cl eo (po, s)),
      snd (on_isin_event en ei (f, s)), snd (on_txn_event cl et (pt\<lparr>xs_user_id := u\<rparr>, s))}"
  shows "db_ok (db_of s') \<and> others_kept u (db_of s) (db_of s')
    \<and> bs_running (w_bus (ap_world s')) = bs_running (w_bus (ap_world s))"
proof -
  have "fair_step u s s'"
    using assms(2) brokers_fair.event_fair accounts_fair.event_fair bonds_fair.event_fair operations_fair.event_fair
      on_txn_event_fair [of "pt\<lparr>xs_user_id := u\<rparr>"] on_isin_event_world [of en ei f s]
    by (auto simp: fair_step_def)
  then show ?thesis using assms(1) by (simp add: fair_step_def)
qed

definition sample_form :: txn_form where
  "sample_form = \<lparr>xf_account = Some 1, xf_bond = Some 1, xf_type = Some ''SELL'', xf_quantity = Some 3, xf_price = Some 3030,
     xf_price_mode = ''trade'', xf_commission_visible = True, xf_commission = Some 0, xf_commission_mode = ''paper'',
     xf_hint = None, xf_trade_date = Some ''2024-05-06''\<rparr>"

theorem page_events_keep_the_books_witness:
  "let s' = snd (on_txn_event (one_call 9) TxnReady
      ((render_transactions 2 one_app)\<lparr>xs_create := sample_form, xs_user_id := 1\<rparr>, one_app))
   in map t_price (transactions (db_of s')) = [990, 990, 990, 1010] \<and> db_ok (db_of s') \<and> others_kept 1 sample_db (db_of s')"
proof -
  have "db_ok (db_of one_app)" "db_of one_app = sample_db"
    by (simp_all add: one_app_def db_ok_def sample_db_wf sample_txns_ok sample_positions_ok) (simp add: ops_ok_def sample_db_def)
  moreover have "map t_price (transactions (db_of (snd (on_txn_event (one_call 9) TxnReady
      ((render_transactions 2 one_app)\<lparr>xs_create := sample_form, xs_user_id := 1\<rparr>, one_app))))) = [990, 990, 990, 1010]"
    by code_simp
  moreover note page_events_keep_the_books [where s = one_app and u = 1 and cl = "one_call 9" and et = TxnReady
        and pt = "(render_transactions 2 one_app)\<lparr>xs_create := sample_form\<rparr>"]
  ultimately show ?thesis by (simp add: Let_def)
qed

text \<open>A click on the row of a record of a freshly loaded table, and then the save button.\<close>

definition clicks :: "json \<Rightarrow> int \<Rightarrow> bool" where
  "clicks args i \<longleftrightarrow> (\<exists>row. row_from_event args ''id'' = Some row \<and> map_of row ''id'' = Some (JInt i))"

definition saved_untouched ::
    "(app, 'e, 'r, 'c, 'u, 'n, 'm) crud_hooks \<Rightarrow> call \<Rightarrow> json \<Rightarrow> app \<Rightarrow> ('e, 'r, 'c, 'u) page \<Rightarrow> bool" where
  "saved_untouched hk cl args s q \<longleftrightarrow>
     (let p = reload hk s q
      in case on_event hk cl SaveClicked (on_event hk cl (RowClicked args) (p, s)) of
           (p', s') \<Rightarrow> db_of s' = db_of s \<and> pg_rows p' = pg_rows p \<and> \<not> pg_edit_dialog p'
             \<and> pg_notices p' = pg_notices p @ [Updated])"

context crud_contract
begin

lemma untouched_save_reloaded:
  assumes "ok s" and "load_rows hk s = Inr (xs, rows)" and "x \<in> set xs" and "editable x" and "clicks args (entity_id hk x)"
    and "(p', s') = on_event hk cl SaveClicked (on_event hk cl (RowClicked args) (reload hk s q, s))"
  shows "data s' = data s \<and> pg_rows p' = pg_rows (reload hk s q) \<and> \<not> pg_edit_dialog p'
    \<and> pg_notices p' = pg_notices (reload hk s q) @ [Updated]"
  using assms(5) untouched_save [OF assms(1) reload_displays [OF assms(1)] assms(2-4) _ _ assms(6)]
  unfolding clicks_def by blast

end

text \<open>
  C21. Opening a record and saving it at once changes nothing, on each of the four pages: the form shows every
  field of the record in a way that reads back as the same value (dates as ISO texts, missing values as empty
  fields, floats for integers), the constraints accept it, the service writes back what was there, the table
  stays the same, and the toast reports success. The exceptions are named by the \<open>editable\<close> predicates: empty
  texts where the form holds a missing value, integers a float cannot hold, and bonds of other owners.
\<close>

theorem untouched_saves_change_nothing:
  "(app_ready s \<and> b \<in> set (list_all_brokers (db_of s)) \<and> broker_editable b \<and> clicks args (br_id b) \<longrightarrow>
      saved_untouched brokers_page cl args s qb)
   \<and> (app_ready s \<and> a \<in> set (list_accounts_for_user u (db_of s)) \<and> account_editable a \<and> clicks args (a_id (d_account a)) \<longrightarrow>
      saved_untouched (accounts_page u) cl args s qa)
   \<and> (app_ready s \<and> d \<in> set (list_all_bonds (db_of s)) \<and> bond_editable u d \<and> clicks args (b_id d) \<longrightarrow>
      saved_untouched (bonds_page en u) cl args s qd)
   \<and> (app_ready s \<and> ops_ok (db_of s) \<and> o' \<in> set (list_ops_for_user u (db_of s)) \<and> operation_editable o' \<and> clicks args (o_id o') \<longrightarrow>
      saved_untouched (operations_page u) cl args s qo)"
proof (intro conjI impI; elim conjE)
  have pair: "(fst ps, snd ps) = ps" for ps :: "'x \<times> 'y" by simp
  note saved = saved_untouched_def Let_def case_prod_beta
  show "saved_untouched brokers_page cl args s qb" if "app_ready s" "b \<in> set (list_all_brokers (db_of s))" "broker_editable b" "clicks args (br_id b)"
    using brokers_page.untouched_save_reloaded [OF that(1) _ that(2,3) _ pair, of _ args cl qb] that(4)
    by (simp add: saved brokers_page_def load_brokers_def)
  show "saved_untouched (accounts_page u) cl args s qa"
    if "app_ready s" "a \<in> set (list_accounts_for_user u (db_of s))" "account_editable a" "clicks args (a_id (d_account a))"
    using accounts_page.untouched_save_reloaded [OF that(1) _ that(2,3) _ pair, of u _ args cl qa] that(4)
    by (simp add: saved accounts_page_def load_accounts_def)
  show "saved_untouched (bonds_page en u) cl args s qd"
    if "app_ready s" "d \<in> set (list_all_bonds (db_of s))" "bond_editable u d" "clicks args (b_id d)"
    using bonds_page.untouched_save_reloaded [OF that(1) _ that(2,3) _ pair, of en _ args cl qd] that(4)
    by (simp add: saved bonds_page_def load_bonds_def)
  show "saved_untouched (operations_page u) cl args s qo"
    if "app_ready s" "ops_ok (db_of s)" "o' \<in> set (list_ops_for_user u (db_of s))" "operation_editable o'" "clicks args (o_id o')"
    using operations_page.untouched_save_reloaded [OF _ _ that(3,4) _ pair, of s u _ args cl qo] that(1,2,5)
    by (simp add: saved operations_page_def load_operations_def operations_ready_def)
qed

theorem untouched_saves_change_nothing_witness:
  "saved_untouched (accounts_page 1) (one_call 9) (JObj [(''id'', JInt 1)]) one_app (snd (render_accounts 1 one_app))"
proof -
  let ?a = "hd (list_accounts_for_user 1 (db_of one_app))"
  have ready: "app_ready one_app" by (simp add: app_ready_def one_app_def sample_db_wf)
  have "list_accounts_for_user 1 (db_of one_app) \<noteq> []" "a_id (d_account ?a) = 1"
    "a_name (d_account ?a) = ''main''" "a_account_number (d_account ?a) = None" "a_account_type (d_account ?a) = ''STANDARD''"
    "a_opened_at (d_account ?a) = None" "a_closed_at (d_account ?a) = None"
    by code_simp+
  then have "?a \<in> set (list_accounts_for_user 1 (db_of one_app))" "account_editable ?a" "a_id (d_account ?a) = 1"
    by (simp_all add: account_editable_def BROKER_ACCOUNT_TYPES_def)
  moreover have "clicks (JObj [(''id'', JInt 1)]) 1" by (simp add: clicks_def row_from_event_def List.map_filter_simps)
  ultimately show ?thesis using untouched_saves_change_nothing [where s = one_app and u = 1 and a = ?a] ready by simp
qed

end
