(* ===== verification/SessionPages.thy ===== *)
theory SessionPages
  imports UiCommon
begin

text \<open>
  \<open>ui/pages_auth.py\<close>: the pages \<open>/login\<close> and \<open>/register\<close>, which need no token and give one. A handler returns
  the toasts it shows and what it asks of the browser. \<open>loads\<close> is the reading of the payload of a token,
  \<open>https\<close> whether the page was opened over HTTPS.
\<close>

section \<open>Handlers\<close>

text \<open>A password field holds the code points of its text, like the bodies of the REST interface.\<close>

record login_form =
  lf_username :: "string option"
  lf_password :: "int list option"

record register_form = login_form +
  lf_password_repeat :: "int list option"

definition filled_password :: "int list option \<Rightarrow> bool" where
  "filled_password x \<longleftrightarrow> x \<noteq> None \<and> x \<noteq> Some []"

text \<open>\<open>except AuthError\<close>, whose subclasses are the errors of taken names and wrong credentials.\<close>

definition AUTH_ERRORS :: "error list" where
  "AUTH_ERRORS = [AuthError, UsernameTakenError, InvalidCredentialsError]"

definition auth_failure :: "error \<Rightarrow> notice" where
  "auth_failure e = (if e \<in> set AUTH_ERRORS then Told e else Failed e)"

text \<open>The cookie is set and the portfolio opened; an exception of the cookie leaves the handler.\<close>

definition open_session :: "(string \<Rightarrow> json result) \<Rightarrow> bool \<Rightarrow> call \<Rightarrow> string \<Rightarrow> effect list" where
  "open_session loads https cl token =
     (case set_token_cookie loads (e_now (cl_env cl)) https token of
        Inl e \<Rightarrow> []
      | Inr cookie \<Rightarrow> [cookie, NavigateTo ''/''])"

definition handle_login ::
    "server \<Rightarrow> (string \<Rightarrow> json result) \<Rightarrow> bool \<Rightarrow> call \<Rightarrow> login_form \<Rightarrow> app \<Rightarrow> notice list \<times> effect list" where
  "handle_login sv loads https cl f s =
     (case (lf_username f, lf_password f) of
        (Some username, Some pw) \<Rightarrow>
          if username = [] \<or> pw = [] then ([FillCredentials], [])
          else
            (case login (sv_checkpw sv) (sv_jwt_encode sv) (sv_config sv) (e_now (cl_env cl)) username pw (db_of s) of
               Inl e \<Rightarrow> ([auth_failure e], [])
             | Inr token \<Rightarrow> ([], open_session loads https cl token))
      | _ \<Rightarrow> ([FillCredentials], []))"

definition handle_register ::
    "server \<Rightarrow> (string \<Rightarrow> json result) \<Rightarrow> bool \<Rightarrow> call \<Rightarrow> register_form \<Rightarrow> app \<Rightarrow> (notice list \<times> effect list) \<times> app" where
  "handle_register sv loads https cl f s =
     (case (lf_username f, lf_password f) of
        (Some username, Some pw) \<Rightarrow>
          if username = [] \<or> pw = [] then (([FillCredentials], []), s)
          else if lf_password f \<noteq> lf_password_repeat f then (([PasswordsDiffer], []), s)
          else
            (case on_world (register (sv_hashpw sv) (cl_salt cl) (cl_env cl) username pw) s of
               (Inl e, s') \<Rightarrow> (([auth_failure e], []), s')
             | (Inr user, s') \<Rightarrow>
                 (case login (sv_checkpw sv) (sv_jwt_encode sv) (sv_config sv) (e_now (cl_env cl)) username pw (db_of s') of
                    Inl e \<Rightarrow> (([auth_failure e], []), s')
                  | Inr token \<Rightarrow> (([Registered], open_session loads https cl token), s')))
      | _ \<Rightarrow> (([FillCredentials], []), s))"

text \<open>The forms as \<open>render\<close> builds them.\<close>

definition render_login :: login_form where
  "render_login = \<lparr>lf_username = Some [], lf_password = Some []\<rparr>"

definition render_register :: register_form where
  "render_register = \<lparr>lf_username = Some [], lf_password = Some [], lf_password_repeat = Some []\<rparr>"

section \<open>What is relied on of a token\<close>

text \<open>
  A JWT is three parts joined by points, and the second is the base64 text of the JSON of the claims: so
  \<open>jwt.encode\<close> writes it and \<open>json.loads(base64.urlsafe_b64decode(...))\<close> reads it.
\<close>

definition jwt_payload ::
    "(claims \<Rightarrow> string \<Rightarrow> string \<Rightarrow> string option) \<Rightarrow> (string \<Rightarrow> json result) \<Rightarrow> bool" where
  "jwt_payload jwt_encode loads \<longleftrightarrow> (\<forall>claims secret algorithm token.
     jwt_encode claims secret algorithm = Some token \<longrightarrow>
     (\<exists>part. payload_part token = Inr part \<and> loads part = Inr (JObj claims)))"

lemma payload_part_Nil [simp]: "payload_part [] = Inl IndexError"
  by (simp add: payload_part_def split_at_def)

definition expiry_of :: "server \<Rightarrow> call \<Rightarrow> int" where
  "expiry_of sv cl = whole_seconds (e_now (cl_env cl) + jwt_expires_minutes (sv_config sv) * 60000000)"

lemma created_token_max_age:
  assumes "jwt_payload (sv_jwt_encode sv) loads"
    and "create_token (sv_jwt_encode sv) (sv_config sv) (e_now (cl_env cl)) u n None = Inr token"
  shows "token \<noteq> [] \<and> token_max_age loads (e_now (cl_env cl)) token
    = Inr (max 0 (expiry_of sv cl - whole_seconds (e_now (cl_env cl))))"
proof -
  obtain claims where c: "sv_jwt_encode sv claims (jwt_secret (sv_config sv)) (jwt_algorithm (sv_config sv)) = Some token"
    "map_of claims ''exp'' = Some (JInt (expiry_of sv cl))"
    using assms(2) by (auto simp: create_token_def Let_def expiry_of_def split: if_splits option.splits)
  then obtain part where p: "payload_part token = Inr part" "loads part = Inr (JObj claims)"
    using assms(1) unfolding jwt_payload_def by blast
  then show ?thesis using c(2) by (cases "token = []") (simp_all add: token_max_age_def)
qed

lemma opened_session:
  assumes "jwt_payload (sv_jwt_encode sv) loads"
    and "create_token (sv_jwt_encode sv) (sv_config sv) (e_now (cl_env cl)) u n None = Inr token"
  shows "open_session loads https cl token =
    [WriteCookie (cookie_text token (max 0 (expiry_of sv cl - whole_seconds (e_now (cl_env cl)))) https), NavigateTo ''/'']"
  using created_token_max_age [OF assms] by (simp add: open_session_def set_token_cookie_def)

text \<open>The page that the browser opens with the cookie.\<close>

lemma session_page:
  assumes "jwt_decodes (sv_jwt_encode sv) (sv_jwt_decode sv)" and "token \<noteq> []"
    and "create_token (sv_jwt_encode sv) (sv_config sv) (e_now (cl_env cl)) u n None = Inr token"
    and "whole_seconds (e_now (cl_env cl)) * 1000000 \<le> later" and "later < expiry_of sv cl * 1000000"
    and "0 \<le> expiry_of sv cl" and "expiry_of sv cl \<le> 253402300799"
  shows "handle_page sv later (Some token) render
    = Inr (Some (render \<lparr>tp_user_id = u, tp_username = JStr n, tp_expires_at = expiry_of sv cl * 1000000\<rparr>), [])"
proof -
  have "verify_token (sv_jwt_decode sv) (sv_config sv) later token
      = Inr \<lparr>tp_user_id = u, tp_username = JStr n, tp_expires_at = expiry_of sv cl * 1000000\<rparr>"
    by (rule token_reads_back [OF assms(1,3) _ assms(4-7)]) (simp add: expiry_of_def)
  then show ?thesis using assms(2) by (simp add: handle_page_def get_current_user_def)
qed

section \<open>Properties\<close>

text \<open>
  C23. A login through the page opens a session of the user whose name was typed and whose password matched:
  the browser is told to store the token in a cookie that lives exactly as long as the token, and to open the
  portfolio, and until the token expires every protected page is rendered for that user. When the browser
  is told nothing, the user reads why.
\<close>

theorem login_page_opens_session:
  assumes laws: "jwt_decodes (sv_jwt_encode sv) (sv_jwt_decode sv)" "jwt_payload (sv_jwt_encode sv) loads"
    and result: "handle_login sv loads https cl f s = (notices, effects)"
    and now: "whole_seconds (e_now (cl_env cl)) * 1000000 \<le> later" "later < expiry_of sv cl * 1000000"
      "0 \<le> expiry_of sv cl" "expiry_of sv cl \<le> 253402300799"
  shows "if effects = [] then \<exists>n. notices = [n]
    else \<exists>user \<in> set (users (db_of s)). \<exists>token. lf_username f = Some (u_username user)
      \<and> verify_password (sv_checkpw sv) (the (lf_password f)) (u_password_hash user) = Inr True \<and> notices = []
      \<and> effects = [WriteCookie (cookie_text token (max 0 (expiry_of sv cl - whole_seconds (e_now (cl_env cl)))) https),
          NavigateTo ''/'']
      \<and> handle_page sv later (Some token) render
          = Inr (Some (render \<lparr>tp_user_id = u_id user, tp_username = JStr (u_username user),
              tp_expires_at = expiry_of sv cl * 1000000\<rparr>), [])"
proof (cases "\<exists>name pw token. lf_username f = Some name \<and> lf_password f = Some pw \<and> name \<noteq> [] \<and> pw \<noteq> []
    \<and> login (sv_checkpw sv) (sv_jwt_encode sv) (sv_config sv) (e_now (cl_env cl)) name pw (db_of s) = Inr token")
  case True
  then obtain name pw token where f: "lf_username f = Some name" "lf_password f = Some pw" "name \<noteq> []" "pw \<noteq> []"
    and l: "login (sv_checkpw sv) (sv_jwt_encode sv) (sv_config sv) (e_now (cl_env cl)) name pw (db_of s) = Inr token"
    by blast
  then obtain user where user: "get_user_by_username name (db_of s) = Some user"
    "verify_password (sv_checkpw sv) pw (u_password_hash user) = Inr True"
    "create_token (sv_jwt_encode sv) (sv_config sv) (e_now (cl_env cl)) (u_id user) (u_username user) None = Inr token"
    by (auto simp: login_def bind_result_Inr_iff split: option.splits if_splits)
  have mem: "user \<in> set (users (db_of s))" "u_username user = name"
    using user(1) by (auto simp: get_user_by_username_def find_Some_iff)
  have "token \<noteq> []" using created_token_max_age [OF laws(2) user(3)] by simp
  note page = session_page [OF laws(1) this user(3) now, of render]
  have "notices = []" "effects = open_session loads https cl token"
    using result f l by (simp_all add: handle_login_def)
  then show ?thesis using opened_session [OF laws(2) user(3), of https] mem user(2) f page by auto
next
  case False
  then have "effects = [] \<and> (\<exists>n. notices = [n])"
    using result by (auto simp: handle_login_def split: option.splits if_splits sum.splits)
  then show ?thesis by simp
qed

lemma login_after_register:
  assumes "bcrypt_checks hashpw checkpw" and "register hashpw salt env n p w = (Inr u, w')" and "password p"
  shows "login checkpw jwt_encode config now n p (w_db w') = create_token jwt_encode config now (u_id u) n None"
proof -
  note u = register_Inr [OF assms(2)]
  then obtain bs where "utf8 p = Inr bs" by (auto simp: hash_password_def bind_result_Inr_iff)
  moreover have "hash_password hashpw salt p = Inr (u_password_hash u)" using u by blast
  ultimately have "verify_password checkpw p (u_password_hash u) = Inr True"
    using verify_password_registered [OF assms(1) _ assms(3,3)] by simp
  moreover have "get_user_by_username n (w_db w') = Some u" using u get_user_after_insert [of u "w_db w" "w_db w'" n] by simp
  ultimately show ?thesis using u by (simp add: login_def)
qed

text \<open>
  A registration through the page creates the account that was typed and opens its session at once: when
  the browser is told to store a token, the database holds one more user, with the typed name, and the
  pages opened with that token are rendered for it; whenever it is told nothing because of the checks or of the
  service, no user was created.
\<close>

theorem registration_page_opens_session:
  assumes laws: "bcrypt_checks (sv_hashpw sv) (sv_checkpw sv)" "jwt_decodes (sv_jwt_encode sv) (sv_jwt_decode sv)"
      "jwt_payload (sv_jwt_encode sv) loads"
    and result: "handle_register sv loads https cl f s = ((notices, effects), s')"
    and pw: "lf_password f = Some pw" "password pw"
    and now: "whole_seconds (e_now (cl_env cl)) * 1000000 \<le> later" "later < expiry_of sv cl * 1000000"
      "0 \<le> expiry_of sv cl" "expiry_of sv cl \<le> 253402300799"
    and clock: "create_token (sv_jwt_encode sv) (sv_config sv) (e_now (cl_env cl)) (e_new_id (cl_env cl)) (the (lf_username f)) None = Inr token"
  shows "if users (db_of s') = users (db_of s) then effects = [] \<and> (\<exists>n. notices = [n] \<and> n \<noteq> Registered)
    else notices = [Registered] \<and> lf_password_repeat f = Some pw
      \<and> effects = [WriteCookie (cookie_text token (max 0 (expiry_of sv cl - whole_seconds (e_now (cl_env cl)))) https),
          NavigateTo ''/'']
      \<and> (\<exists>user. users (db_of s') = users (db_of s) @ [user] \<and> lf_username f = Some (u_username user)
          \<and> handle_page sv later (Some token) render
              = Inr (Some (render \<lparr>tp_user_id = u_id user, tp_username = JStr (u_username user),
                  tp_expires_at = expiry_of sv cl * 1000000\<rparr>), []))"
proof -
  let ?name = "the (lf_username f)"
  let ?reg = "register (sv_hashpw sv) (cl_salt cl) (cl_env cl) ?name pw (ap_world s)"
  show ?thesis
  proof (cases "lf_username f \<noteq> None \<and> ?name \<noteq> [] \<and> pw \<noteq> [] \<and> lf_password_repeat f = Some pw \<and> (\<exists>user. fst ?reg = Inr user)")
    case True
    then obtain name user w where name: "lf_username f = Some name" "name \<noteq> []" "pw \<noteq> []" "lf_password_repeat f = Some pw"
      and reg: "register (sv_hashpw sv) (cl_salt cl) (cl_env cl) name pw (ap_world s) = (Inr user, w)"
      by (cases ?reg) auto
    have user: "u_username user = name" "u_id user = e_new_id (cl_env cl)" "insert_user user (db_of s) = Inr (w_db w)"
      using register_Inr [OF reg] by blast+
    then have more: "users (w_db w) = users (db_of s) @ [user]" by (simp add: insert_user_Inr)
    have l: "login (sv_checkpw sv) (sv_jwt_encode sv) (sv_config sv) (e_now (cl_env cl)) name pw (w_db w) = Inr token"
      using login_after_register [OF laws(1) reg pw(2)] clock user name(1) by simp
    have "token \<noteq> []" using created_token_max_age [OF laws(3) clock] by simp
    note page = session_page [OF laws(2) this clock now, of render]
    have "notices = [Registered]" "effects = open_session loads https cl token" "s' = s\<lparr>ap_world := w\<rparr>"
      using result name pw(1) reg l by (auto simp: handle_register_def on_world_def)
    then show ?thesis using opened_session [OF laws(3) clock, of https] more user name page by auto
  next
    case False
    then have "db_of s' = db_of s" "effects = [] \<and> (\<exists>n. notices = [n] \<and> n \<noteq> Registered)"
      using result pw(1) register.failure_keeps [of "sv_hashpw sv" "cl_salt cl" "cl_env cl" ?name pw "ap_world s"]
      by (auto simp: handle_register_def on_world_def auth_failure_def split: option.splits if_splits sum.splits prod.splits)
    then show ?thesis by auto
  qed
qed

text \<open>A server whose packages know one token.\<close>

definition dora_server :: server where
  "dora_server = one_server\<lparr>sv_config := toy_config, sv_hashpw := toy_hashpw, sv_checkpw := toy_checkpw,
     sv_jwt_encode := (\<lambda>c s a. if c = toy_claims then Some ''h.p.s'' else None),
     sv_jwt_decode := (\<lambda>now t s a. Some toy_claims)\<rparr>"

definition dora_call :: call where
  "dora_call = (one_call 9)\<lparr>cl_env := (sample_env 7)\<lparr>e_now := 1000000000\<rparr>\<rparr>"

definition dora_app :: app where
  "dora_app = one_app\<lparr>ap_world := \<lparr>w_db = empty_db, w_bus = bus_init 0\<rparr>\<rparr>"

definition dora_form :: register_form where
  "dora_form = \<lparr>lf_username = Some ''carol'', lf_password = Some [112, 97, 115, 115, 119, 1086, 114, 100],
     lf_password_repeat = Some [112, 97, 115, 115, 119, 1086, 114, 100]\<rparr>"

lemma dora_laws:
  "bcrypt_checks (sv_hashpw dora_server) (sv_checkpw dora_server)"
  "jwt_decodes (sv_jwt_encode dora_server) (sv_jwt_decode dora_server)"
  "jwt_payload (sv_jwt_encode dora_server) (\<lambda>_. Inr (JObj toy_claims))"
  "expiry_of dora_server dora_call = 4600" "whole_seconds (e_now (cl_env dora_call)) = 1000"
proof -
  show "bcrypt_checks (sv_hashpw dora_server) (sv_checkpw dora_server)" by (simp add: dora_server_def toy_bcrypt)
  show "jwt_decodes (sv_jwt_encode dora_server) (sv_jwt_decode dora_server)"
    by (auto simp: jwt_decodes_def dora_server_def split: if_splits)
  have "payload_part ''h.p.s'' = Inr ''p''" by code_simp
  then show "jwt_payload (sv_jwt_encode dora_server) (\<lambda>_. Inr (JObj toy_claims))"
    by (auto simp: jwt_payload_def dora_server_def split: if_splits)
  show "expiry_of dora_server dora_call = 4600" "whole_seconds (e_now (cl_env dora_call)) = 1000"
    using whole_seconds_of_seconds [of 4600] whole_seconds_of_seconds [of 1000]
    by (simp_all add: expiry_of_def dora_call_def dora_server_def toy_config_def)
qed

lemma dora_token:
  "create_token (sv_jwt_encode dora_server) (sv_config dora_server) (e_now (cl_env dora_call)) (e_new_id (cl_env dora_call)) ''carol'' None
    = Inr ''h.p.s''"
proof -
  have "str_of_int 7 = ''7''" by code_simp
  then show ?thesis using dora_laws(4,5)
    by (simp add: create_token_def dora_server_def dora_call_def toy_config_def toy_claims_def expiry_of_def
        MIN_DATETIME_def MAX_DATETIME_def sample_env_def)
qed

theorem registration_page_opens_session_witness:
  "\<exists>user s'. handle_register dora_server (\<lambda>_. Inr (JObj toy_claims)) True dora_call dora_form dora_app
      = (([Registered], [WriteCookie (cookie_text ''h.p.s'' 3600 True), NavigateTo ''/'']), s')
    \<and> users (db_of s') = [user] \<and> u_username user = ''carol''
    \<and> handle_page dora_server 2000000000 (Some ''h.p.s'') tp_user_id = Inr (Some (u_id user), [])"
proof -
  obtain ns es s' where r: "handle_register dora_server (\<lambda>_. Inr (JObj toy_claims)) True dora_call dora_form dora_app = ((ns, es), s')"
    by (metis surj_pair)
  moreover have "users (db_of dora_app) = []" by (simp add: dora_app_def empty_db_def)
  moreover have "users (db_of s') \<noteq> []"
  proof -
    have "users (db_of (snd (handle_register dora_server (\<lambda>_. Inr (JObj toy_claims)) True dora_call dora_form dora_app))) \<noteq> []"
      by code_simp
    then show ?thesis using r by simp
  qed
  moreover have "password [112, 97, 115, 115, 119, 1086, 114, 100]" by (simp add: password_def code_point_def)
  ultimately show ?thesis
    using registration_page_opens_session [OF dora_laws(1-3) r, where later = 2000000000 and token = "''h.p.s''" and render = tp_user_id]
      dora_laws(4,5) dora_token by (auto simp: dora_form_def)
qed

theorem login_page_opens_session_witness:
  "\<exists>(user :: user_row) token. u_username user = ''carol'' \<and> handle_page dora_server 2000000000 (Some token) tp_user_id = Inr (Some (u_id user), [])"
proof -
  let ?s = "snd (handle_register dora_server (\<lambda>_. Inr (JObj toy_claims)) True dora_call dora_form dora_app)"
  let ?f = "\<lparr>lf_username = Some ''carol'', lf_password = lf_password dora_form\<rparr>"
  obtain ns es where r: "handle_login dora_server (\<lambda>_. Inr (JObj toy_claims)) True dora_call ?f ?s = (ns, es)"
    by (metis surj_pair)
  have "snd (handle_login dora_server (\<lambda>_. Inr (JObj toy_claims)) True dora_call ?f ?s) \<noteq> []" by code_simp
  then have es: "es \<noteq> []" using r by simp
  have now: "whole_seconds (e_now (cl_env dora_call)) * 1000000 \<le> 2000000000" "2000000000 < expiry_of dora_server dora_call * 1000000"
    "0 \<le> expiry_of dora_server dora_call" "expiry_of dora_server dora_call \<le> 253402300799"
    using dora_laws(4,5) by simp_all
  show ?thesis
    using login_page_opens_session [OF dora_laws(2,3) r now, of tp_user_id] es by (simp only: if_False) auto
qed

end
