(* ===== verification/ReportPages.thy ===== *)
theory ReportPages
  imports CrudPage
begin

text \<open>
  \<open>ui/pages_home.py\<close> and \<open>ui/pages_analytics.py\<close>: the pages that show positions and the summary of the
  portfolio. Both reload on a button and when another account is chosen.
\<close>

section \<open>The positions of the portfolio\<close>

record home_line =
  hl_isin :: string
  hl_name :: string
  hl_quantity :: int
  hl_avg_buy_price :: cell
  hl_total_invested :: cell

record home_page =
  hp_user_id :: int
  hp_account :: "int option"
  hp_rows :: "home_line list"
  hp_notices :: "notice list"

definition home_line_of :: "bond_row \<Rightarrow> position \<Rightarrow> home_line" where
  "home_line_of bond p =
     \<lparr>hl_isin = b_isin bond, hl_name = b_name bond, hl_quantity = p_quantity p,
      hl_avg_buy_price = fmt_money (p_avg_buy_price p), hl_total_invested = fmt_money (Some (p_total_invested p))\<rparr>"

text \<open>A position on a bond that does not exist is skipped with a warning.\<close>

definition load_home_rows :: "int \<Rightarrow> int option \<Rightarrow> database \<Rightarrow> home_line list" where
  "load_home_rows u account db =
     (let bonds = cache_of b_id (list_all_bonds db)
      in List.map_filter (\<lambda>p. map_option (\<lambda>bond. home_line_of bond p) (map_of bonds (p_bond_id p)))
           (get_all_positions u (resolve_account_id account) db))"

definition reload_home :: "app \<Rightarrow> home_page \<Rightarrow> home_page" where
  "reload_home s p = p\<lparr>hp_rows := load_home_rows (hp_user_id p) (hp_account p) (db_of s)\<rparr>"

definition render_home :: "int \<Rightarrow> app \<Rightarrow> home_page" where
  "render_home u s = reload_home s
     \<lparr>hp_user_id = u, hp_account = sl_value (build_account_selector u False (db_of s)), hp_rows = [], hp_notices = []\<rparr>"

datatype home_event = HomeAccount "int option" | HomeRefresh

fun on_home_event :: "home_event \<Rightarrow> home_page \<times> app \<Rightarrow> home_page" where
  "on_home_event (HomeAccount a) (p, s) = reload_home s (p\<lparr>hp_account := a\<rparr>)"
| "on_home_event HomeRefresh (p, s) = reload_home s p"

section \<open>The summary\<close>

record position_line =
  pl_isin :: string
  pl_name :: string
  pl_quantity :: int
  pl_avg_buy_price :: cell
  pl_total_invested :: cell
  pl_ytm :: cell
  pl_current_yield :: cell
  pl_accrued_coupon :: cell
  pl_next_coupon_date :: cell
  pl_maturity_date :: cell

record coupon_line =
  kl_date :: cell
  kl_isin :: string
  kl_name :: string
  kl_amount :: cell

text \<open>\<open>_CASHFLOW_KINDS.get(kind, kind)\<close>, whose two texts are Cyrillic.\<close>

datatype kind_label = CouponKind | MaturityKind | OtherKind string

definition kind_label_of :: "string \<Rightarrow> kind_label" where
  "kind_label_of kind = (if kind = ''COUPON'' then CouponKind else if kind = ''MATURITY'' then MaturityKind else OtherKind kind)"

record cashflow_line =
  wl_date :: cell
  wl_isin :: string
  wl_kind :: kind_label
  wl_amount :: cell

definition summary_rows :: "summary \<Rightarrow> position_line list" where
  "summary_rows sm = map (\<lambda>p.
     \<lparr>pl_isin = pa_isin p, pl_name = pa_name p, pl_quantity = pa_quantity p,
      pl_avg_buy_price = fmt_money (Some (pa_avg_buy_price p)), pl_total_invested = fmt_money (Some (pa_total_invested p)),
      pl_ytm = fmt_percent (pa_ytm p), pl_current_yield = fmt_percent (pa_current_yield p),
      pl_accrued_coupon = fmt_money (Some (pa_accrued_coupon p)), pl_next_coupon_date = fmt_date (pa_next_coupon_date p),
      pl_maturity_date = fmt_date (Some (pa_maturity_date p))\<rparr>) (sm_positions sm)"

definition coupon_rows :: "summary \<Rightarrow> coupon_line list" where
  "coupon_rows sm = map (\<lambda>c.
     \<lparr>kl_date = fmt_date (Some (cd_date c)), kl_isin = cd_isin c, kl_name = cd_name c,
      kl_amount = fmt_money (Some (cd_amount c))\<rparr>) (sm_next_coupons sm)"

definition cashflow_rows :: "summary \<Rightarrow> cashflow_line list" where
  "cashflow_rows sm = map (\<lambda>c.
     \<lparr>wl_date = fmt_date (Some (cf_date c)), wl_isin = cf_isin c, wl_kind = kind_label_of (cf_kind c),
      wl_amount = fmt_money (Some (cf_amount c))\<rparr>) (sm_upcoming_cashflows sm)"

text \<open>The labels of the totals; \<open>None\<close> before the first summary.\<close>

record totals =
  tt_total_invested :: cell
  tt_sells :: cell
  tt_maturities :: cell
  tt_commissions :: cell
  tt_total :: cell
  tt_generated_at :: string

definition totals_of :: "summary \<Rightarrow> totals" where
  "totals_of sm = (let pnl = sm_realized_pnl sm in
     \<lparr>tt_total_invested = fmt_money (Some (sm_total_invested sm)), tt_sells = fmt_money (Some (rp_sells pnl)),
      tt_maturities = fmt_money (Some (rp_maturities pnl)), tt_commissions = fmt_money (Some (rp_commissions pnl)),
      tt_total = fmt_money (Some (rp_total pnl)), tt_generated_at = fmt_datetime (sm_generated_at sm)\<rparr>)"

record analytics_page =
  np_user_id :: int
  np_account :: "int option"
  np_horizon :: "rat option"
  np_limit :: "rat option"
  np_cashflows_horizon :: "rat option"
  np_cashflows_limit :: "rat option"
  np_totals :: "totals option"
  np_positions :: "position_line list"
  np_coupons :: "coupon_line list"
  np_cashflows :: "cashflow_line list"
  np_notices :: "notice list"

definition int_value :: "rat option \<Rightarrow> int \<Rightarrow> int" where
  "int_value x default_value = (case x of None \<Rightarrow> default_value | Some v \<Rightarrow> truncated v)"

definition page_query :: "analytics_page \<Rightarrow> query" where
  "page_query p =
     \<lparr>q_today = None, q_horizon_days = int_value (np_horizon p) NEXT_COUPONS_HORIZON_DAYS_DEFAULT,
      q_limit = int_value (np_limit p) NEXT_COUPONS_LIMIT_DEFAULT,
      q_cashflows_horizon_days = int_value (np_cashflows_horizon p) CASHFLOWS_HORIZON_DAYS_DEFAULT,
      q_cashflows_limit = int_value (np_cashflows_limit p) CASHFLOWS_LIMIT_DEFAULT,
      q_broker_account_id = resolve_account_id (np_account p)\<rparr>"

definition reload_analytics :: "server \<Rightarrow> call \<Rightarrow> analytics_page \<times> app \<Rightarrow> analytics_page \<times> app" where
  "reload_analytics sv cl ps =
     (case ps of (p, s) \<Rightarrow>
      case get_portfolio_summary (sv_pow sv) (cl_env cl) (np_user_id p) (page_query p) (db_of s) (ap_summaries s) of
        (Inl e, cache) \<Rightarrow> (p\<lparr>np_notices := np_notices p @ [Failed e]\<rparr>, s\<lparr>ap_summaries := cache\<rparr>)
      | (Inr sm, cache) \<Rightarrow>
          (p\<lparr>np_totals := Some (totals_of sm), np_positions := summary_rows sm, np_coupons := coupon_rows sm,
             np_cashflows := cashflow_rows sm\<rparr>, s\<lparr>ap_summaries := cache\<rparr>))"

definition render_analytics :: "server \<Rightarrow> call \<Rightarrow> int \<Rightarrow> app \<Rightarrow> analytics_page \<times> app" where
  "render_analytics sv cl u s = reload_analytics sv cl
     (\<lparr>np_user_id = u, np_account = sl_value (build_account_selector u False (db_of s)),
       np_horizon = Some (of_int NEXT_COUPONS_HORIZON_DAYS_DEFAULT), np_limit = Some (of_int NEXT_COUPONS_LIMIT_DEFAULT),
       np_cashflows_horizon = Some (of_int CASHFLOWS_HORIZON_DAYS_DEFAULT),
       np_cashflows_limit = Some (of_int CASHFLOWS_LIMIT_DEFAULT), np_totals = None, np_positions = [],
       np_coupons = [], np_cashflows = [], np_notices = []\<rparr>, s)"

text \<open>The four number fields take input without a reload.\<close>

datatype analytics_event =
    AnalyticsAccount "int option"
  | AnalyticsFields "rat option" "rat option" "rat option" "rat option"
  | AnalyticsRefresh

fun on_analytics_event :: "server \<Rightarrow> call \<Rightarrow> analytics_event \<Rightarrow> analytics_page \<times> app \<Rightarrow> analytics_page \<times> app" where
  "on_analytics_event sv cl (AnalyticsAccount a) (p, s) = reload_analytics sv cl (p\<lparr>np_account := a\<rparr>, s)"
| "on_analytics_event sv cl (AnalyticsFields h l ch chl) (p, s) =
     (p\<lparr>np_horizon := h, np_limit := l, np_cashflows_horizon := ch, np_cashflows_limit := chl\<rparr>, s)"
| "on_analytics_event sv cl AnalyticsRefresh (p, s) = reload_analytics sv cl (p, s)"

section \<open>Lemmas\<close>

lemma position_bond:
  assumes wf: "db_wf db" and "p \<in> set (get_all_positions u a db)"
  obtains b where "get_bond (p_bond_id p) db = Some b" "map_of (cache_of b_id (list_all_bonds db)) (p_bond_id p) = Some b"
proof -
  obtain i where i: "p = get_position u i a db" "p_quantity p \<noteq> 0" using assms(2) unfolding get_all_positions_mem by blast
  then have rows: "load_transactions u i a db \<noteq> []" "p_bond_id p = i" by (auto simp: get_position_def)
  then have "hd (load_transactions u i a db) \<in> set (load_transactions u i a db)" by simp
  then obtain t where "t \<in> set (transactions db)" "t_bond_id t = p_bond_id p"
    using rows(2) by (auto simp: load_transactions_def)
  moreover from this have "txn_refs db t" using wf by (simp add: db_wf_def db_refs_def)
  ultimately have "p_bond_id p \<in> b_id ` set (bonds db)" by (simp add: txn_refs_def)
  moreover have keys: "distinct (map b_id (bonds db))" using wf by (simp add: db_wf_def db_keys_def)
  ultimately obtain b where b: "b \<in> set (bonds db)" "b_id b = p_bond_id p" by auto
  then have "get_bond (p_bond_id p) db = Some b" using rows.lookup_mem [OF keys] by (simp add: get_bond_def)
  moreover have "distinct (map b_id (list_all_bonds db))" "b \<in> set (list_all_bonds db)"
    using keys b(1) by (simp_all add: list_all_bonds_def order_by_def distinct_map inj_on_def)
  ultimately show thesis using that map_of_cache_of [of b_id _ b] b(2) by simp
qed

section \<open>Properties\<close>

text \<open>
  The home page shows every position: of a database that keeps its constraints, the table has one line
  per position of the user on the chosen account (on all accounts for the entry 0), in the order of the
  service, with the ISIN and the name of its bond; the branch that skips a position never runs.
\<close>

theorem home_shows_every_position:
  assumes "db_wf (db_of s)"
  shows "list_all2 (\<lambda>p line. \<exists>bond. get_bond (p_bond_id p) (db_of s) = Some bond \<and> line = home_line_of bond p)
    (get_all_positions (hp_user_id h) (resolve_account_id (hp_account h)) (db_of s)) (hp_rows (reload_home s h))"
proof -
  have "list_all2 (\<lambda>p line. \<exists>bond. get_bond (p_bond_id p) (db_of s) = Some bond \<and> line = home_line_of bond p) ps
      (List.map_filter (\<lambda>p. map_option (\<lambda>bond. home_line_of bond p) (map_of (cache_of b_id (list_all_bonds (db_of s))) (p_bond_id p))) ps)"
    if "set ps \<subseteq> set (get_all_positions u a (db_of s))" for ps u a
    using that
  proof (induction ps)
    case (Cons p ps)
    obtain b where "get_bond (p_bond_id p) (db_of s) = Some b" "map_of (cache_of b_id (list_all_bonds (db_of s))) (p_bond_id p) = Some b"
      using position_bond [OF assms, of p u a] Cons.prems by auto
    then show ?case using Cons by (simp add: List.map_filter_simps)
  qed (simp add: List.map_filter_simps)
  from this [OF subset_refl] show ?thesis by (simp add: reload_home_def load_home_rows_def Let_def)
qed

theorem home_shows_every_position_witness:
  "\<exists>bond. get_bond 1 sample_db = Some bond \<and> map (\<lambda>l. (hl_isin l, hl_quantity l)) (hp_rows (render_home 1 one_app)) = [(b_isin bond, 5)]"
proof -
  have p: "map (\<lambda>p. (p_bond_id p, p_quantity p)) (get_all_positions 1 None (db_of one_app)) = [(1, 5)]" by code_simp
  have db: "db_of one_app = sample_db" by (simp add: one_app_def)
  have "sl_value (build_account_selector 1 False (db_of one_app)) = Some 0" by code_simp
  then show ?thesis
    using home_shows_every_position [of one_app, where h = "\<lparr>hp_user_id = 1, hp_account = Some 0, hp_rows = [], hp_notices = []\<rparr>"]
      p sample_db_wf
    by (auto simp: db render_home_def resolve_account_id_def list_all2_Cons1 home_line_of_def map_eq_Cons_conv)
qed

text \<open>
  The analytics page and the REST interface give the same answer: with the filters of the page, whatever
  \<open>GET /portfolio\<close> would answer is shown (an error as a toast, with the page left as it was) and the cache is
  left in the same state. Filters out of bounds are refused before the summary is looked at, and cleared
  fields with the entry of all accounts ask for the default summary.
\<close>

theorem analytics_page_agrees_with_rest:
  "reload_analytics sv cl (p, s) =
      (case get_portfolio sv cl (np_user_id p) (page_query p) s of
         (Inr (SummaryBody sm), s') \<Rightarrow> (p\<lparr>np_totals := Some (totals_of sm), np_positions := summary_rows sm,
             np_coupons := coupon_rows sm, np_cashflows := cashflow_rows sm\<rparr>, s')
       | (Inl e, s') \<Rightarrow> (p\<lparr>np_notices := np_notices p @ [Failed e]\<rparr>, s'))
    \<and> (\<not> query_ok (page_query p) \<longrightarrow>
        reload_analytics sv cl (p, s) = (p\<lparr>np_notices := np_notices p @ [Failed ValueError]\<rparr>, s))
    \<and> page_query (p\<lparr>np_account := Some 0, np_horizon := None, np_limit := None, np_cashflows_horizon := None,
        np_cashflows_limit := None\<rparr>) = default_query"
proof -
  have q: "(page_query p)\<lparr>q_today := None\<rparr> = page_query p" by (simp add: page_query_def)
  show ?thesis
    by (auto simp: reload_analytics_def get_portfolio_def q page_query_def default_query_def int_value_def resolve_account_id_def
        get_portfolio_summary_def split: prod.split sum.split)
qed

theorem analytics_page_agrees_with_rest_witness:
  "np_notices (fst (on_analytics_event one_server (one_call 9) (AnalyticsAccount None)
     (fst (on_analytics_event one_server (one_call 9) (AnalyticsFields None (Some (1 / 2)) None None)
        (\<lparr>np_user_id = 1, np_account = Some 0, np_horizon = None, np_limit = None, np_cashflows_horizon = None,
          np_cashflows_limit = None, np_totals = None, np_positions = [], np_coupons = [], np_cashflows = [], np_notices = []\<rparr>,
         one_app)), one_app))) = [Failed ValueError]"
proof -
  let ?p = "\<lparr>np_user_id = 1, np_account = None, np_horizon = None, np_limit = Some (1 / 2), np_cashflows_horizon = None,
          np_cashflows_limit = None, np_totals = None, np_positions = [], np_coupons = [], np_cashflows = [], np_notices = []\<rparr>"
  have "\<not> query_ok (page_query ?p)" by (simp add: query_ok_def page_query_def int_value_def truncated_def)
  from analytics_page_agrees_with_rest [of one_server "one_call 9" ?p one_app, THEN conjunct2, THEN conjunct1, rule_format, OF this]
  show ?thesis by simp
qed

end
