(* ===== verification/UiApp.thy ===== *)
theory UiApp
  imports UiSafety SessionPages ReportPages
begin

text \<open>
  \<open>ui/app.py\<close>: the pages by path, opened by a browser that sends a cookie or none.
\<close>

section \<open>Pages by path\<close>

text \<open>What a path shows; the lists that a page offers for choosing come with it.\<close>

datatype view =
    LoginView login_form
  | RegisterView register_form
  | HomeView home_page
  | BondsView "(bond_row, bond_line, new_bond_form, edit_bond_form) page"
  | BrokersView "(broker_row, broker_line, broker_form, broker_form) page"
  | AccountsView "(int \<times> string) list" "(account_dto, account_line, new_account_form, edit_account_form) page"
  | TransactionsView txns_page
  | OperationsView "(int \<times> string) list" "(op_row, operation_line, operation_form, operation_form) page"
  | AnalyticsView analytics_page

text \<open>The protected pages, rendered for a verified user; rendering the analytics page may fill the cache.\<close>

definition render_protected :: "server \<Rightarrow> call \<Rightarrow> string \<Rightarrow> app \<Rightarrow> token_payload \<Rightarrow> (view \<times> app) option" where
  "render_protected sv cl path s user =
     (let u = tp_user_id user
      in if path = ''/'' then Some (HomeView (render_home u s), s)
         else if path = ''/bonds'' then Some (BondsView (render_bonds u s), s)
         else if path = ''/brokers'' then Some (BrokersView (render_brokers s), s)
         else if path = ''/accounts'' then (case render_accounts u s of (bs, p) \<Rightarrow> Some (AccountsView bs p, s))
         else if path = ''/transactions'' then Some (TransactionsView (render_transactions u s), s)
         else if path = ''/operations'' then (case render_operations u s of (xs, p) \<Rightarrow> Some (OperationsView xs p, s))
         else if path = ''/analytics'' then (case render_analytics sv cl u s of (p, s') \<Rightarrow> Some (AnalyticsView p, s'))
         else None)"

definition PATHS :: "string list" where
  "PATHS = [''/login'', ''/register'', ''/'', ''/bonds'', ''/brokers'', ''/accounts'', ''/transactions'', ''/operations'', ''/analytics'']"

text \<open>\<open>None\<close> is a path without a page.\<close>

definition visit ::
    "server \<Rightarrow> call \<Rightarrow> string option \<Rightarrow> string \<Rightarrow> app \<Rightarrow> (view option \<times> effect list) result option \<times> app" where
  "visit sv cl cookie path s =
     (if path = ''/login'' then (Some (Inr (Some (LoginView render_login), [])), s)
      else if path = ''/register'' then (Some (Inr (Some (RegisterView render_register), [])), s)
      else if path \<notin> set PATHS then (None, s)
      else
        (case handle_page sv (e_now (cl_env cl)) cookie (render_protected sv cl path s) of
           Inl e \<Rightarrow> (Some (Inl e), s)
         | Inr (Some (Some (v, s')), effects) \<Rightarrow> (Some (Inr (Some v, effects)), s')
         | Inr (_, effects) \<Rightarrow> (Some (Inr (None, effects)), s)))"

section \<open>Whose data a page shows\<close>

text \<open>The rows of accounts, transactions and account operations that a page holds.\<close>

fun shown_accounts :: "view \<Rightarrow> account_row set" where
  "shown_accounts (AccountsView bs p) = (d_account \<circ> snd) ` set (pg_cache p)"
| "shown_accounts _ = {}"

fun shown_txns :: "view \<Rightarrow> txn_row set" where
  "shown_txns (TransactionsView p) = snd ` set (xs_cache p)"
| "shown_txns _ = {}"

fun shown_ops :: "view \<Rightarrow> op_row set" where
  "shown_ops (OperationsView xs p) = snd ` set (pg_cache p)"
| "shown_ops _ = {}"

text \<open>The user whose portfolio a page asks the services for.\<close>

fun asks_for :: "view \<Rightarrow> int option" where
  "asks_for (HomeView h) = Some (hp_user_id h)"
| "asks_for (AnalyticsView p) = Some (np_user_id p)"
| "asks_for (TransactionsView p) = Some (xs_user_id p)"
| "asks_for _ = None"

definition shows_only :: "int \<Rightarrow> view \<Rightarrow> bool" where
  "shows_only u v \<longleftrightarrow> (\<forall>a \<in> shown_accounts v. a_user_id a = u) \<and> (\<forall>t \<in> shown_txns v. t_user_id t = u)
     \<and> (\<forall>p \<in> shown_ops v. o_user_id p = u) \<and> (\<forall>w. asks_for v = Some w \<longrightarrow> w = u)"

lemma set_cache_of: "snd ` set (cache_of k xs) \<subseteq> set xs"
proof (induction xs rule: rev_induct)
  case (snoc x xs)
  have "set (AList.update i y al) \<subseteq> insert (i, y) (set al)" for i :: int and y :: 'a and al
    by (induction al) auto
  from this [of "k x" x "cache_of k xs"] show ?case using snoc by (fastforce simp: cache_of_def)
qed simp

lemma opened_cache:
  assumes "load_rows hk s = Inr (xs, rows)" shows "snd ` set (pg_cache (open_page hk c d s)) \<subseteq> set xs"
  using set_cache_of assms by (simp add: open_page_def reload_def)

lemma render_protected_own:
  assumes "render_protected sv cl path s user = Some (v, s')"
  shows "shows_only (tp_user_id user) v" and "db_of s' = db_of s"
proof -
  let ?u = "tp_user_id user"
  have accounts: "a_user_id (d_account x) = ?u"
    if "(i, x) \<in> set (pg_cache (open_page (accounts_page ?u) new_account_widgets edit_account_widgets s))" for i x
    using that opened_cache [of "accounts_page ?u" s "list_accounts_for_user ?u (db_of s)"] listed_account(2)
    by (fastforce simp: accounts_page_def load_accounts_def Let_def)
  have ops: "o_user_id x = ?u"
    if "(i, x) \<in> set (pg_cache (open_page (operations_page ?u) new_operation_widgets edit_operation_widgets s))" for i x
    using that opened_cache [of "operations_page ?u" s "list_ops_for_user ?u (db_of s)"]
    by (fastforce simp: operations_page_def load_operations_def Let_def list_ops_for_user_def)
  have txns: "t_user_id x = ?u" if "(i, x) \<in> set (xs_cache (render_transactions ?u s))" for i x
    using that set_cache_of [of t_id "list_transactions ?u None None (db_of s)"]
    by (fastforce simp: render_transactions_def reload_txns_def load_txn_rows_def Let_def list_transactions_def)
  have asks: "xs_user_id (render_transactions ?u s) = ?u" "hp_user_id (render_home ?u s) = ?u"
    "np_user_id (fst (render_analytics sv cl ?u s)) = ?u" "db_of (snd (render_analytics sv cl ?u s)) = db_of s"
    by (simp_all add: render_transactions_def reload_txns_def Let_def render_home_def reload_home_def render_analytics_def
        reload_analytics_def split: prod.split sum.split)
  show "shows_only ?u v" "db_of s' = db_of s"
    using assms accounts ops txns asks
    by (auto simp: render_protected_def shows_only_def Let_def render_accounts_def render_operations_def split: if_splits prod.splits)
qed

section \<open>Properties\<close>



end
