(* ===== verification/Application.thy ===== *)
theory Application
  imports EndpointInvariants
begin

text \<open>
  \<open>main.py\<close>: the application assembled. Requests, the dispatchers of the bus, the handlers of analytics,
  reads that compute a missing summary and background populations of coupon schedules move in any
  order; a restart keeps the database and nothing else. The theory shows what holds in every state
  such a run reaches.
\<close>

section \<open>The composition root\<close>

record settings =
  max_queue_size :: int
  cache_ttl_s :: int
  enabled :: bool

text \<open>
  A read that misses the cache computes outside the lock and stores at the end: \<open>sys_reads\<close> holds what
  such reads have computed and not yet stored.
\<close>

record system =
  sys_app :: app
  sys_reads :: "(int \<times> summary) list"

definition startup :: "settings \<Rightarrow> database \<Rightarrow> system" where
  "startup st db =
     \<lparr>sys_app =
        \<lparr>ap_world = \<lparr>w_db = db, w_bus = attach_to_event_bus CHANGE_TOPICS (start (bus_init (max_queue_size st)))\<rparr>,
         ap_summaries = [],
         ap_references = \<lparr>rs_enabled = enabled st, rs_cache_ttl_s = cache_ttl_s st, rs_has_sessions = True,
           rs_cache = [], rs_populate_tasks = {}\<rparr>\<rparr>,
      sys_reads = []\<rparr>"

section \<open>Steps\<close>

text \<open>
  \<open>PopulateEnds\<close> is the transaction of a background task, with the database in which the task looked up
  the bond; \<open>Handled\<close> is the analytics handler on the message that its dispatcher has taken;
  \<open>Delivers\<close> and \<open>Dispatches\<close> are a put and a take of the bus; \<open>Stopped\<close> is the \<open>finally\<close> block of \<open>main\<close>, which a request may
  still follow; \<open>Restarted\<close> is a new process on the old database.
\<close>

datatype event =
    Requested call "string option" request
  | ReadBegins env int
  | ReadEnds nat
  | PopulateEnds "nat \<Rightarrow> int" string database nat
  | Delivers nat
  | Dispatches nat
  | Handled env nat
  | Stopped "nat \<Rightarrow> bool"
  | Restarted

definition with_bus :: "(bus \<Rightarrow> bus) \<Rightarrow> app \<Rightarrow> app" where
  "with_bus f a = a\<lparr>ap_world := (ap_world a)\<lparr>w_bus := f (w_bus (ap_world a))\<rparr>\<rparr>"

definition read_begins :: "(rat \<Rightarrow> rat \<Rightarrow> rat) \<Rightarrow> env \<Rightarrow> int \<Rightarrow> system \<Rightarrow> system" where
  "read_begins pw env u s =
     (case map_of (ap_summaries (sys_app s)) u of
        Some x \<Rightarrow> s
      | None \<Rightarrow>
          (case compute_summary pw env u (e_today env) None (db_of (sys_app s)) of
             Inl e \<Rightarrow> s
           | Inr x \<Rightarrow> s\<lparr>sys_reads := sys_reads s @ [(u, x)]\<rparr>))"

definition read_ends :: "nat \<Rightarrow> system \<Rightarrow> system" where
  "read_ends k s =
     (if k < length (sys_reads s)
      then s\<lparr>sys_app := (sys_app s)\<lparr>ap_summaries := sys_reads s ! k # ap_summaries (sys_app s)\<rparr>,
             sys_reads := take k (sys_reads s) @ drop (Suc k) (sys_reads s)\<rparr>
      else s)"

definition populate_ends :: "moex \<Rightarrow> (nat \<Rightarrow> int) \<Rightarrow> string \<Rightarrow> database \<Rightarrow> nat \<Rightarrow> app \<Rightarrow> app" where
  "populate_ends moex ids isin db0 task a =
     (if task \<in> rs_populate_tasks (ap_references a)
      then a\<lparr>ap_world := snd (run_populate_coupons moex (ap_references a) ids isin db0 (ap_world a)),
             ap_references := task_done task (ap_references a)\<rparr>
      else a)"

text \<open>The dispatcher of subscription \<open>i\<close> awaits the handler, which returns nothing and never raises.\<close>

definition handled :: "(rat \<Rightarrow> rat \<Rightarrow> rat) \<Rightarrow> env \<Rightarrow> nat \<Rightarrow> app \<Rightarrow> app" where
  "handled pw env i a =
     (let ss = bs_subs (w_bus (ap_world a))
      in if i < length ss
         then (case s_busy (ss ! i) of
                 None \<Rightarrow> a
               | Some m \<Rightarrow>
                   (case handle_event pw env m (ap_world a, ap_summaries a) of
                      (w, cache) \<Rightarrow> with_bus (dispatch_finish i (Returns None) 0 0)
                                      (a\<lparr>ap_world := w, ap_summaries := cache\<rparr>)))
         else a)"

definition stopped :: "(nat \<Rightarrow> bool) \<Rightarrow> app \<Rightarrow> app" where
  "stopped settled a =
     (with_bus stop a)\<lparr>ap_references := snd (shutdown settled (ap_references a))\<rparr>"

abbreviation on_app :: "(app \<Rightarrow> app) \<Rightarrow> system \<Rightarrow> system" where
  "on_app f s \<equiv> s\<lparr>sys_app := f (sys_app s)\<rparr>"

fun system_step :: "server \<Rightarrow> settings \<Rightarrow> event \<Rightarrow> system \<Rightarrow> system" where
  "system_step sv st (Requested cl credentials req) s = on_app (\<lambda>a. snd (handle sv cl credentials req a)) s"
| "system_step sv st (ReadBegins env u) s = read_begins (sv_pow sv) env u s"
| "system_step sv st (ReadEnds k) s = read_ends k s"
| "system_step sv st (PopulateEnds ids isin db0 task) s = on_app (populate_ends (sv_moex sv) ids isin db0 task) s"
| "system_step sv st (Delivers k) s = on_app (with_bus (bus_step (Put k))) s"
| "system_step sv st (Dispatches i) s = on_app (with_bus (bus_step (Take i))) s"
| "system_step sv st (Handled env i) s = on_app (handled (sv_pow sv) env i) s"
| "system_step sv st (Stopped settled) s = on_app (stopped settled) s"
| "system_step sv st Restarted s = startup st (db_of (sys_app s))"

text \<open>The states that steps of a given kind reach.\<close>

inductive system_run :: "server \<Rightarrow> settings \<Rightarrow> (event \<Rightarrow> bool) \<Rightarrow> system \<Rightarrow> system \<Rightarrow> bool" for sv st P s0 where
  run_start: "system_run sv st P s0 s0"
| run_step: "system_run sv st P s0 s \<Longrightarrow> P e \<Longrightarrow> system_run sv st P s0 (system_step sv st e s)"

inductive_cases system_runE: "system_run sv st P s0 s"

lemma run_fold: "system_run sv st P s0 s \<Longrightarrow> \<forall>e \<in> set es. P e \<Longrightarrow> system_run sv st P s0 (fold (system_step sv st) es s)"
  by (induction es arbitrary: s) (auto intro: run_step)

text \<open>An invariant of the steps is an invariant of the runs.\<close>

locale run_invariant =
  fixes sv :: server and st :: settings and P :: "event \<Rightarrow> bool" and ok :: "system \<Rightarrow> bool"
  assumes ok_step: "ok s \<Longrightarrow> P e \<Longrightarrow> ok (system_step sv st e s)"
begin

lemma ok_run: "system_run sv st P s0 s \<Longrightarrow> ok s0 \<Longrightarrow> ok s"
  by (induction rule: system_run.induct) (auto intro: ok_step)

lemma ok_fold: "ok s \<Longrightarrow> \<forall>e \<in> set es. P e \<Longrightarrow> ok (fold (system_step sv st) es s)"
  by (rule ok_run [OF run_fold [OF run_start]])

end

section \<open>The bus of the application\<close>

text \<open>The messages on their way: being routed, in a queue, or with a handler.\<close>

definition held_by :: "subscription \<Rightarrow> message list" where
  "held_by s = s_queue s @ (case s_busy s of None \<Rightarrow> [] | Some m \<Rightarrow> [m])"

definition in_flight :: "bus \<Rightarrow> message list" where
  "in_flight b = map fst (bs_routes b) @ concat (map held_by (bs_subs b))"

lemma held_by_simps [simp]:
  "held_by (s\<lparr>s_registered := r\<rparr>) = held_by s" "held_by (s\<lparr>s_dispatcher := x\<rparr>) = held_by s"
  "held_by (s\<lparr>s_log := l\<rparr>) = held_by s" "held_by (s\<lparr>s_warned := w\<rparr>) = held_by s"
  by (simp_all add: held_by_def)

lemma in_flight_mem:
  "m \<in> set (in_flight b) \<longleftrightarrow> (\<exists>js. (m, js) \<in> set (bs_routes b)) \<or> (\<exists>i < length (bs_subs b). m \<in> set (held_by (bs_subs b ! i)))"
proof -
  have "(\<exists>s \<in> set (bs_subs b). m \<in> set (held_by s)) \<longleftrightarrow> (\<exists>i < length (bs_subs b). m \<in> set (held_by (bs_subs b ! i)))"
    by (metis in_set_conv_nth)
  then show ?thesis by (force simp: in_flight_def)
qed

lemma in_flight_grows:
  assumes "bus_grows b b'"
  obtains ms where "bs_published b' = bs_published b @ ms"
    and "set (in_flight b') = set (in_flight b) \<union> {m \<in> set ms. snapshot (m_topic m) b \<noteq> []}"
proof -
  obtain ms where ms: "bs_published b' = bs_published b @ ms" "bs_routes b' = bs_routes b @ routes_of b ms"
    "bs_subs b' = bs_subs b"
    using assms by (auto simp: bus_grows_def)
  then have "set (in_flight b') = set (in_flight b) \<union> {m \<in> set ms. snapshot (m_topic m) b \<noteq> []}"
    by (auto simp: in_flight_def routes_of_def image_iff)
  with ms that show ?thesis by blast
qed

lemma concat_update:
  assumes "i < length xs"
  obtains A B where "concat (map h xs) = A @ h (xs ! i) @ B" "\<And>y. concat (map h (xs[i := y])) = A @ h y @ B"
proof
  show "concat (map h xs) = concat (map h (take i xs)) @ h (xs ! i) @ concat (map h (drop (Suc i) xs))"
    by (subst id_take_nth_drop [OF assms]) simp
  show "concat (map h (xs[i := y])) = concat (map h (take i xs)) @ h y @ concat (map h (drop (Suc i) xs))" for y
    using assms by (simp add: upd_conv_take_nth_drop)
qed

lemma held_by_case: "held_by s = s_queue s @ (case s_busy s of None \<Rightarrow> [] | Some m \<Rightarrow> [m])"
  by (simp add: held_by_def)

lemma in_flight_dispatch_take: "set (in_flight (dispatch_take i b)) = set (in_flight b)"
proof (cases "i < length (bs_subs b) \<and> s_busy (bs_subs b ! i) = None \<and> s_dispatcher (bs_subs b ! i)")
  case True
  then obtain A B where c: "concat (map held_by (bs_subs b)) = A @ held_by (bs_subs b ! i) @ B"
    "\<And>y. concat (map held_by ((bs_subs b)[i := y])) = A @ held_by y @ B"
    using concat_update by blast
  then show ?thesis
    using True by (cases "s_queue (bs_subs b ! i)")
      (auto simp: dispatch_take_def in_flight_def map_sub_def held_by_case)
qed (auto simp: dispatch_take_def)

lemma in_flight_dispatch_finish:
  assumes "i < length (bs_subs b)" and "s_busy (bs_subs b ! i) = Some m" and "\<not> s_is_request_handler (bs_subs b ! i)"
  shows "set (in_flight (dispatch_finish i out r now b)) \<subseteq> set (in_flight b)"
    and "set (in_flight b) \<subseteq> insert m (set (in_flight (dispatch_finish i out r now b)))"
proof -
  obtain A B where c: "concat (map held_by (bs_subs b)) = A @ held_by (bs_subs b ! i) @ B"
    "\<And>y. concat (map held_by ((bs_subs b)[i := y])) = A @ held_by y @ B"
    using assms concat_update by blast
  show "set (in_flight (dispatch_finish i out r now b)) \<subseteq> set (in_flight b)"
    "set (in_flight b) \<subseteq> insert m (set (in_flight (dispatch_finish i out r now b)))"
    using assms c by (auto simp: dispatch_finish_def in_flight_def map_sub_def held_by_case)
qed

lemma in_flight_stop: "set (in_flight (stop b)) \<subseteq> set (in_flight b)"
  by (auto simp: stop_def in_flight_def drain_def held_by_def split: if_splits)

lemma map_sub_simps [simp]:
  "bs_routes (map_sub i f b) = bs_routes b" "length (bs_subs (map_sub i f b)) = length (bs_subs b)"
  "bs_running (map_sub i f b) = bs_running b" "bs_published (map_sub i f b) = bs_published b"
  "bs_max_queue_size (map_sub i f b) = bs_max_queue_size b"
  by (simp_all add: map_sub_def)

lemma held_by_warn [simp]: "held_by (maybe_warn_high_watermark t s) = held_by s"
  by (simp add: maybe_warn_high_watermark_def split: option.split)

lemma in_flight_route_step:
  assumes "bus_ok n b" shows "set (in_flight (route_step k b)) = set (in_flight b)"
proof (cases "k < length (bs_routes b)")
  case True
  obtain m js where r: "bs_routes b ! k = (m, js)" by (cases "bs_routes b ! k")
  then have ok: "route_ok (bs_subs b) (m, js)" using assms True by (metis bus_ok_def nth_mem)
  then obtain i rest where js: "js = i # rest" by (auto simp: route_ok_def neq_Nil_conv)
  then have i: "i < length (bs_subs b)" using ok by (simp add: route_ok_def)
  let ?rs = "if rest = [] then take k (bs_routes b) @ drop (Suc k) (bs_routes b) else (bs_routes b)[k := (m, rest)]"
  have split: "bs_routes b = take k (bs_routes b) @ (m, js) # drop (Suc k) (bs_routes b)"
    using id_take_nth_drop [OF True] r by simp
  have routes: "insert m (set (map fst ?rs)) = set (map fst (bs_routes b))"
    using True by (subst (4) split) (auto simp: upd_conv_take_nth_drop)
  obtain A B where held: "concat (map held_by (bs_subs b)) = A @ held_by (bs_subs b ! i) @ B"
    "\<And>y. concat (map held_by ((bs_subs b)[i := y])) = A @ held_by y @ B"
    using i concat_update by blast
  show ?thesis
  proof (cases "queue_full (bs_max_queue_size b) (s_queue (bs_subs b ! i))")
    case False
    let ?s = "maybe_warn_high_watermark (bs_warn_threshold b)
        ((bs_subs b ! i)\<lparr>s_queue := queue_put m (s_queue (bs_subs b ! i)), s_log := s_log (bs_subs b ! i) @ [m]\<rparr>)"
    have "set (in_flight (route_step k b)) = set (map fst ?rs) \<union> set (concat (map held_by ((bs_subs b)[i := ?s])))"
      using True r js False by (simp add: route_step_def Let_def in_flight_def map_sub_def)
    moreover have "set (held_by ?s) = insert m (set (held_by (bs_subs b ! i)))"
      unfolding held_by_warn by (auto simp: held_by_def queue_put_def)
    then have "set (concat (map held_by ((bs_subs b)[i := ?s]))) = insert m (set (concat (map held_by (bs_subs b))))"
      unfolding held(2) held(1) by auto
    ultimately have "set (in_flight (route_step k b)) = insert m (set (map fst ?rs)) \<union> set (concat (map held_by (bs_subs b)))"
      by simp
    then show ?thesis unfolding routes by (simp add: in_flight_def)
  qed (use True r js in \<open>simp add: route_step_def\<close>)
qed (simp add: route_step_def)

text \<open>The only subscriptions are those of analytics, one to a topic.\<close>

definition attached :: "bus \<Rightarrow> bool" where
  "attached b \<longleftrightarrow> map s_topic (bs_subs b) = CHANGE_TOPICS
     \<and> (\<forall>s \<in> set (bs_subs b). s_registered s \<and> \<not> s_is_request_handler s \<and> (s_dispatcher s \<longleftrightarrow> bs_running b))"

definition app_bus_ok :: "int \<Rightarrow> bus \<Rightarrow> bool" where
  "app_bus_ok n b \<longleftrightarrow> bus_ok n b \<and> attached b \<and> typed_bus b
     \<and> set (in_flight b) \<subseteq> {m \<in> set (bs_published b). m_topic m \<in> set CHANGE_TOPICS}"

lemma attached_same:
  assumes "attached b" and "bs_running b' = bs_running b" and "length (bs_subs b') = length (bs_subs b)"
    and "\<And>i. i < length (bs_subs b) \<Longrightarrow>
      s_topic (bs_subs b' ! i) = s_topic (bs_subs b ! i) \<and> s_registered (bs_subs b' ! i) = s_registered (bs_subs b ! i)
      \<and> s_is_request_handler (bs_subs b' ! i) = s_is_request_handler (bs_subs b ! i)
      \<and> s_dispatcher (bs_subs b' ! i) = s_dispatcher (bs_subs b ! i)"
  shows "attached b'"
proof -
  have "map s_topic (bs_subs b') = map s_topic (bs_subs b)" by (rule nth_equalityI) (simp_all add: assms(3,4))
  moreover have "s_registered x \<and> \<not> s_is_request_handler x \<and> (s_dispatcher x \<longleftrightarrow> bs_running b')" if x: "x \<in> set (bs_subs b')" for x
  proof -
    obtain i where i: "i < length (bs_subs b)" "x = bs_subs b' ! i" using in_set_conv_nth [THEN iffD1, OF x] assms(3) by auto
    then have "bs_subs b ! i \<in> set (bs_subs b)" by simp
    then show ?thesis using assms(1,2) assms(4) [OF i(1)] i(2) by (simp add: attached_def)
  qed
  ultimately show ?thesis using assms(1) by (simp add: attached_def)
qed

lemma nth_update_in: "j < length xs \<Longrightarrow> xs[i := x] ! j = (if i = j then x else xs ! j)"
  by (cases "i = j") simp_all

lemma warn_fields [simp]:
  "s_is_request_handler (maybe_warn_high_watermark t s) = s_is_request_handler s"
  "s_registered (maybe_warn_high_watermark t s) = s_registered s"
  "s_dispatcher (maybe_warn_high_watermark t s) = s_dispatcher s" "s_busy (maybe_warn_high_watermark t s) = s_busy s"
  by (simp_all add: maybe_warn_high_watermark_def split: option.split)

lemma attached_steps:
  assumes "attached b"
  shows "bus_grows b b' \<Longrightarrow> attached b'" and "attached (route_step k b)" and "attached (dispatch_take i b)"
    and "attached (dispatch_finish i out r now b)" and "attached (stop b)"
proof -
  show "bus_grows b b' \<Longrightarrow> attached b'" using assms by (simp add: bus_grows_def attached_def)
  show "attached (route_step k b)"
    by (rule attached_same [OF assms])
      (auto simp: route_step_def Let_def map_sub_def nth_update_in split: prod.split list.split)
  show "attached (dispatch_take i b)"
    by (rule attached_same [OF assms])
      (auto simp: dispatch_take_def map_sub_def nth_update_in split: option.split prod.split)
  show "attached (dispatch_finish i out r now b)"
    by (rule attached_same [OF assms])
      (auto simp: dispatch_finish_def Let_def map_sub_def nth_update_in fail_pending_reply_def maybe_reply_def
        split: option.split outcome.split)
  show "attached (stop b)"
    using assms by (auto simp: stop_def attached_def drain_def comp_def cong: map_cong)
qed
lemma bus_ok_grows: "bus_ok n b \<Longrightarrow> bus_grows b b' \<Longrightarrow> bus_ok n b'"
  by (auto simp: bus_ok_def bus_grows_def routes_of_def route_ok_snapshot)

lemma published_steps [simp]:
  "bs_published (route_step k b) = bs_published b" "bs_published (dispatch_take i b) = bs_published b"
  "bs_published (dispatch_finish i out r now b) = bs_published b" "bs_published (stop b) = bs_published b"
  by (simp_all add: route_step_def dispatch_take_def dispatch_finish_def stop_def Let_def fail_pending_reply_def
      maybe_reply_def split: option.split outcome.split prod.split list.split)

lemma snapshot_attached:
  assumes "attached b" shows "snapshot t b \<noteq> [] \<longleftrightarrow> t \<in> set CHANGE_TOPICS"
proof -
  have topics: "CHANGE_TOPICS = map s_topic (bs_subs b)" using assms by (simp add: attached_def)
  have "t \<in> set CHANGE_TOPICS \<longleftrightarrow> (\<exists>i < length (bs_subs b). s_topic (bs_subs b ! i) = t)"
    unfolding topics in_set_conv_nth by auto
  then show ?thesis using assms by (auto simp: snapshot_def attached_def filter_empty_conv)
qed

lemma app_bus_ok_start: "app_bus_ok n (attach_to_event_bus CHANGE_TOPICS (start (bus_init n)))"
proof -
  have "bus_ok n (attach_to_event_bus ts b)" if "bus_ok n b" for ts b
    using that by (induction ts b rule: attach_to_event_bus.induct) (simp_all add: bus_ok_subscribe)
  then have "bus_ok n (attach_to_event_bus CHANGE_TOPICS (start (bus_init n)))"
    using bus_ok_start [OF bus_ok_init] by blast
  then show ?thesis
    by (simp add: app_bus_ok_def CHANGE_TOPICS_def bus_subscribe_def validate_topic_def ALL_TOPICS_def start_def
        bus_init_def attached_def typed_bus_def in_flight_def held_by_def new_subscription_def)
qed

lemma app_bus_ok_steps:
  assumes "app_bus_ok n b"
  shows "bus_grows b b' \<Longrightarrow> typed_bus b' \<Longrightarrow> app_bus_ok n b'" and "app_bus_ok n (route_step k b)"
    and "app_bus_ok n (dispatch_take i b)" and "app_bus_ok n (stop b)"
    and "i < length (bs_subs b) \<Longrightarrow> s_busy (bs_subs b ! i) = Some m \<Longrightarrow> app_bus_ok n (dispatch_finish i out r now b)"
proof -
  have b: "bus_ok n b" "attached b" "typed_bus b" "set (in_flight b) \<subseteq> {m \<in> set (bs_published b). m_topic m \<in> set CHANGE_TOPICS}"
    using assms by (simp_all add: app_bus_ok_def)
  show "app_bus_ok n b'" if g: "bus_grows b b'" and "typed_bus b'"
  proof -
    obtain ms where "bs_published b' = bs_published b @ ms"
      "set (in_flight b') = set (in_flight b) \<union> {m \<in> set ms. snapshot (m_topic m) b \<noteq> []}"
      by (rule in_flight_grows [OF g])
    moreover have "m_topic m \<in> set CHANGE_TOPICS" if "snapshot (m_topic m) b \<noteq> []" for m
      using that snapshot_attached [OF b(2)] by blast
    ultimately have "set (in_flight b') \<subseteq> {m \<in> set (bs_published b'). m_topic m \<in> set CHANGE_TOPICS}" using b(4) by auto
    then show ?thesis
      using that bus_ok_grows [OF b(1) g] attached_steps(1) [OF b(2) g] by (simp add: app_bus_ok_def)
  qed
  show "app_bus_ok n (route_step k b)"
    using b bus_ok_route_step [OF b(1)] attached_steps(2) [OF b(2)] in_flight_route_step [OF b(1)]
    by (simp add: app_bus_ok_def typed_bus_def)
  show "app_bus_ok n (dispatch_take i b)"
    using b bus_ok_dispatch_take [OF b(1)] attached_steps(3) [OF b(2)] in_flight_dispatch_take [of i b]
    by (simp add: app_bus_ok_def typed_bus_def)
  show "app_bus_ok n (stop b)"
    using b bus_ok_stop [OF b(1)] attached_steps(5) [OF b(2)] in_flight_stop [of b]
    by (auto simp: app_bus_ok_def typed_bus_def)
  show "app_bus_ok n (dispatch_finish i out r now b)" if i: "i < length (bs_subs b)" "s_busy (bs_subs b ! i) = Some m"
  proof -
    have "\<not> s_is_request_handler (bs_subs b ! i)" using b(2) i(1) by (simp add: attached_def)
    from subset_trans [OF in_flight_dispatch_finish(1) [OF i this] b(4)] show ?thesis
      using b bus_ok_dispatch_finish [OF b(1)] attached_steps(4) [OF b(2)]
      by (simp add: app_bus_ok_def typed_bus_def)
  qed
qed

lemma handle_event_only_announces:
  "w_db (fst (handle_event pw env m (w, cache))) = w_db w"
  "bus_grows (w_bus w) (w_bus (fst (handle_event pw env m (w, cache))))"
  "typed_bus (w_bus w) \<Longrightarrow> typed_bus (w_bus (fst (handle_event pw env m (w, cache))))"
  "summaries_ok cache \<Longrightarrow> summaries_ok (snd (handle_event pw env m (w, cache)))"
proof -
  have "typed (publish env ''analytics'' ''portfolio.recalculated'' p)" for p
    by (intro typed_publish names_user_other) (simp add: CHANGE_TOPICS_def)
  then have a: "bus_grows (w_bus w) (w_bus (announce env v w))" "typed_bus (w_bus w) \<Longrightarrow> typed_bus (w_bus (announce env v w))" for v
    by (auto simp: announce_def publish_grows intro: typedD)
  show "w_db (fst (handle_event pw env m (w, cache))) = w_db w"
    "bus_grows (w_bus w) (w_bus (fst (handle_event pw env m (w, cache))))"
    "typed_bus (w_bus w) \<Longrightarrow> typed_bus (w_bus (fst (handle_event pw env m (w, cache))))"
    by (rule handle_event_cases [of pw env m w cache]; simp add: a)+
  show "summaries_ok (snd (handle_event pw env m (w, cache)))" if c: "summaries_ok cache"
  proof (cases "Option.bind (map_of (m_payload m) ''user_id'') int_of_value")
    case None
    then show ?thesis using c by (cases "map_of (m_payload m) ''user_id''") (simp_all add: handle_event_def)
  next
    case (Some v)
    then have "handle_event pw env m (w, cache) = snd (recalculate pw env v (w, cache))"
      by (auto simp: handle_event_def Option.bind_eq_Some_conv)
    then show ?thesis using c
      by (auto simp: snd_recalculate summaries_ok_def dest: compute_summary_user split: sum.split)
  qed
qed

definition system_ok :: "int \<Rightarrow> system \<Rightarrow> bool" where
  "system_ok n s \<longleftrightarrow> db_ok (db_of (sys_app s)) \<and> app_bus_ok n (w_bus (ap_world (sys_app s)))
     \<and> summaries_ok (ap_summaries (sys_app s)) \<and> summaries_ok (sys_reads s)"

lemma with_bus_simps [simp]:
  "w_bus (ap_world (with_bus f a)) = f (w_bus (ap_world a))" "w_db (ap_world (with_bus f a)) = w_db (ap_world a)"
  "ap_summaries (with_bus f a) = ap_summaries a" "ap_references (with_bus f a) = ap_references a"
  by (simp_all add: with_bus_def)

lemma endpoint_app_bus_ok:
  "app_bus_ok n (w_bus (ap_world a)) \<Longrightarrow> app_bus_ok n (w_bus (ap_world (snd (endpoint sv cl u req a))))"
  by (rule app_bus_ok_steps(1) [OF _ endpoint_only_publishes endpoint_typed]) (simp_all add: app_bus_ok_def)

lemma system_ok_startup: "db_ok db \<Longrightarrow> system_ok (max_queue_size st) (startup st db)"
  by (simp add: system_ok_def startup_def app_bus_ok_start summaries_ok_def)

lemma system_ok_endpoint:
  assumes "system_ok n s" and "request_ok req"
  shows "system_ok n (on_app (\<lambda>a. snd (endpoint sv cl u req a)) s)"
proof -
  have "summaries_ok (ap_summaries (snd (endpoint sv cl u req (sys_app s))))"
    using assms(1) endpoint_own(1) [of "sys_app s" req sv cl u]
    by (cases "public_request req"; cases req)
      (simp_all add: system_ok_def register_user_def login_user_def run_def read_def split: prod.split)
  then show ?thesis using assms by (simp add: system_ok_def endpoint_db_ok endpoint_app_bus_ok)
qed

lemma system_ok_requested:
  assumes "system_ok n s" shows "system_ok n (system_step sv st (Requested cl credentials req) s)"
proof (rule handle_cases [of sv cl credentials req "sys_app s"])
  fix u assume "handle sv cl credentials req (sys_app s)
      = (answered req (fst (endpoint sv cl u req (sys_app s))), snd (endpoint sv cl u req (sys_app s)))" "request_ok req"
  then show ?thesis using system_ok_endpoint [OF assms, of req sv cl u] by simp
qed (use assms in \<open>simp add: system_ok_def\<close>)

lemma system_ok_populate:
  assumes "system_ok n s" shows "system_ok n (system_step sv st (PopulateEnds ids isin db0 t) s)"
proof -
  let ?r = "ap_references (sys_app s)" and ?w = "ap_world (sys_app s)"
  let ?w' = "snd (populate_coupons (sv_moex sv) ?r ids isin db0 ?w)"
  have run: "snd (run_populate_coupons (sv_moex sv) ?r ids isin db0 ?w) \<in> {?w, ?w'}"
    by (simp add: run_populate_coupons_def split: prod.split)
  have "db_ok (w_db ?w')"
    using assms populate.keeps_wf [of ?w "sv_moex sv" ?r ids isin db0]
      keeps_rows_ok [OF _ populate_keeps_rows [of ?w "sv_moex sv" ?r ids isin db0]]
    by (simp add: system_ok_def db_ok_def)
  moreover have "app_bus_ok n (w_bus ?w')"
  proof (rule app_bus_ok_steps(1) [OF _ populate.only_publishes typedD [OF typed_silent_commands(5)]])
    show "app_bus_ok n (w_bus ?w)" using assms by (simp add: system_ok_def)
    then show "typed_bus (w_bus ?w)" by (simp add: app_bus_ok_def)
  qed
  ultimately show ?thesis using assms run by (auto simp: system_ok_def populate_ends_def)
qed

lemma system_ok_handled:
  assumes "system_ok n s" shows "system_ok n (system_step sv st (Handled env i) s)"
proof -
  let ?a = "sys_app s" let ?b = "w_bus (ap_world ?a)"
  show ?thesis
  proof (cases "i < length (bs_subs ?b) \<and> s_busy (bs_subs ?b ! i) \<noteq> None")
    case True
    then obtain m where m: "s_busy (bs_subs ?b ! i) = Some m" by blast
    obtain w cache where h: "handle_event (sv_pow sv) env m (ap_world ?a, ap_summaries ?a) = (w, cache)" by fastforce
    note eff = handle_event_only_announces [where pw = "sv_pow sv" and env = env and m = m and w = "ap_world ?a"
        and cache = "ap_summaries ?a", unfolded h, simplified]
    have b: "app_bus_ok n ?b" using assms by (simp add: system_ok_def)
    have "app_bus_ok n (w_bus w)"
      by (rule app_bus_ok_steps(1) [OF b eff(2) eff(3)]) (use b in \<open>simp add: app_bus_ok_def\<close>)
    moreover have "bs_subs (w_bus w) = bs_subs ?b" using eff(2) by (simp add: bus_grows_def)
    ultimately have "app_bus_ok n (dispatch_finish i (Returns None) 0 0 (w_bus w))"
      using app_bus_ok_steps(5) True m by metis
    then show ?thesis
      using assms True m h eff(1,4) by (simp add: system_ok_def handled_def Let_def)
  qed (use assms in \<open>auto simp: system_ok_def handled_def Let_def\<close>)
qed

lemma system_ok_step:
  assumes "system_ok (max_queue_size st) s" shows "system_ok (max_queue_size st) (system_step sv st e s)"
proof (cases e)
  case (ReadBegins env u)
  then show ?thesis
    using assms by (auto simp: system_ok_def read_begins_def summaries_ok_def dest: compute_summary_user split: option.split sum.split)
next
  case (ReadEnds k)
  then show ?thesis
    using assms by (auto simp: system_ok_def read_ends_def summaries_ok_def dest: in_set_takeD in_set_dropD)
next
  case Restarted
  then show ?thesis using assms system_ok_startup [of "db_of (sys_app s)" st] by (simp add: system_ok_def)
next
  case (Stopped settled)
  then show ?thesis using assms by (simp add: system_ok_def app_bus_ok_steps stopped_def)
qed (use assms in \<open>simp_all add: system_ok_requested system_ok_populate system_ok_handled del: system_step.simps(1,4,7),
    simp_all add: system_ok_def app_bus_ok_steps\<close>)

interpretation any_run: run_invariant sv st P "system_ok (max_queue_size st)" for sv st P
  by unfold_locales (rule system_ok_step)

lemma system_ok_books:
  assumes "system_ok n s"
  shows "db_wf (db_of (sys_app s)) \<and> 0 \<le> quantity_of (load_transactions u b (Some a) (db_of (sys_app s)))
    \<and> (t \<in> set (transactions (db_of (sys_app s))) \<longrightarrow> 0 < t_quantity t
          \<and> on_own_account (db_of (sys_app s)) (t_user_id t) (t_account_id t))
    \<and> (map_of (ap_summaries (sys_app s)) v = Some x \<longrightarrow> sm_user_id x = v)
    \<and> (q \<in> set (bs_subs (w_bus (ap_world (sys_app s)))) \<longrightarrow> 0 < n \<longrightarrow> int (length (s_queue q)) \<le> n)"
  using assms
  by (auto simp: system_ok_def db_ok_def txns_ok_def positions_ok_def quantity_of_loaded summaries_ok_def
      app_bus_ok_def bus_ok_def sub_ok_def dest: map_of_SomeD)

lemma busy_names_user:
  assumes "app_bus_ok n b" and "i < length (bs_subs b)" and "s_busy (bs_subs b ! i) = Some m"
  obtains u where "map_of (m_payload m) ''user_id'' = Some (VInt u)"
proof -
  have "m \<in> set (in_flight b)"
    unfolding in_flight_mem using assms(2,3) by (auto simp: held_by_def)
  then have "m \<in> set (bs_published b)" "m_topic m \<in> set CHANGE_TOPICS"
    using assms(1) by (auto simp: app_bus_ok_def)
  then show ?thesis using assms(1) that by (auto simp: app_bus_ok_def typed_bus_def names_user_def)
qed

section \<open>Properties\<close>

lemma one_user_at: "e_now (cl_env cl) = 0 \<Longrightarrow> get_current_user_id one_server cl (Some t) = Inr 1"
  using one_user [of undefined t] by (simp add: get_current_user_id_def one_call_def sample_env_def)

text \<open>
  A run for the witnesses: user 1 deletes the only transaction, and the event reaches the dispatcher of
  \<open>position.updated\<close>.
\<close>

definition small :: settings where
  "small = \<lparr>max_queue_size = 10, cache_ttl_s = 300, enabled = True\<rparr>"

definition day_env :: env where "day_env = (sample_env 9)\<lparr>e_today := Date 739143\<rparr>"

lemma day_env_simps [simp]: "e_today day_env = Date 739143" "e_now day_env = 0"
  by (simp_all add: day_env_def sample_env_def)


definition start_world :: world where
  "start_world = ap_world (sys_app (startup small yearly_db))"

definition deleted_message :: message where
  "deleted_message = \<lparr>m_topic = ''position.updated'', m_payload = position_payload (to_position 1 1 []), m_sender = ''portfolio'',
     m_id = 0, m_timestamp = 0, m_reply_to = None\<rparr>"

lemma start_world_simps [simp]:
  "w_db start_world = yearly_db" "bs_running (w_bus start_world)" "attached (w_bus start_world)"
  "bs_published (w_bus start_world) = []" "bs_routes (w_bus start_world) = []" "bs_max_queue_size (w_bus start_world) = 10"
  "snapshot ''position.updated'' (w_bus start_world) = [3]" "snapshot ''transaction.deleted'' (w_bus start_world) = []"
  by (simp_all add: start_world_def startup_def small_def CHANGE_TOPICS_def bus_subscribe_def validate_topic_def ALL_TOPICS_def start_def
        bus_init_def attached_def snapshot_def new_subscription_def)

lemma delete_outcome:
  "delete_transaction day_env 2 1 start_world =
     (Inr True, \<lparr>w_db = yearly_db\<lparr>transactions := []\<rparr>,
        w_bus = (w_bus start_world)\<lparr>bs_routes := [(deleted_message, [3])],
          bs_published := [deleted_message, event_message day_env ''portfolio'' ''transaction.deleted'' [(''transaction_id'', VInt 2)]
             (begin_route deleted_message (w_bus start_world))]\<rparr>\<rparr>)"
proof -
  have rows: "find_txn 2 yearly_db = Some ((sample_holding 2 1)\<lparr>t_price := 20000\<rparr>)"
    "quantity_of (others 2 (load_transactions 1 1 (Some 1) yearly_db)) = 0"
    "delete_txn_row 2 yearly_db = yearly_db\<lparr>transactions := []\<rparr>"
    by (simp_all add: find_txn_def row_of_def others_def load_transactions_def order_by_def delete_txn_row_def drop_row_def quantity_of_def
        yearly_db_def sample_db_def sample_holding_def)
  have position: "get_position 1 1 None (yearly_db\<lparr>transactions := []\<rparr>) = to_position 1 1 []"
    by (simp add: get_position_def load_transactions_def order_by_def)
  have msg: "event_message day_env ''portfolio'' ''position.updated'' (position_payload (to_position 1 1 [])) (w_bus start_world) = deleted_message"
    by (simp add: event_message_def deleted_message_def day_env_def sample_env_def)
  have t: "''position.updated'' \<in> set ALL_TOPICS" "''transaction.deleted'' \<in> set ALL_TOPICS" by (simp_all add: ALL_TOPICS_def)
  have same: "snapshot t (b\<lparr>bs_routes := r\<rparr>) = snapshot t b" "snapshot t (b\<lparr>bs_published := p\<rparr>) = snapshot t b" for t b r p
    by (simp_all add: snapshot_def)
  have topic: "m_topic deleted_message = ''position.updated''" by (simp add: deleted_message_def)
  have h: "t_user_id ((sample_holding 2 1)\<lparr>t_price := 20000\<rparr>) = 1" "t_bond_id ((sample_holding 2 1)\<lparr>t_price := 20000\<rparr>) = 1"
    "t_account_id ((sample_holding 2 1)\<lparr>t_price := 20000\<rparr>) = 1" "t_id ((sample_holding 2 1)\<lparr>t_price := 20000\<rparr>) = 2"
    by (simp_all add: sample_holding_def)
  show ?thesis
    by (simp add: delete_transaction_def rows h publish_positions.simps and_then_def publish_portfolio_def publish_running t msg position
        returning_def) (simp add: begin_route_def topic same)
qed


definition delete_call :: call where "delete_call = (one_call 9)\<lparr>cl_env := day_env\<rparr>"

lemma delete_request:
  "sys_app (system_step one_server small (Requested delete_call (Some ''t'') (DeleteTransaction 2)) (startup small yearly_db))
     = (sys_app (startup small yearly_db))\<lparr>ap_world := snd (delete_transaction day_env 2 1 start_world)\<rparr>"
  by (simp add: handle_def one_user_at delete_call_def delete_transaction_endpoint_def run_def delete_outcome
      start_world_def [symmetric])

lemma delete_dispatched:
  "s_busy (bs_subs (w_bus (ap_world (sys_app (fold (system_step one_server small)
      [Requested delete_call (Some ''t'') (DeleteTransaction 2), Delivers 0, Dispatches 3] (startup small yearly_db))))) ! 3)
    = Some deleted_message"
proof -
  have sub: "length (bs_subs (w_bus start_world)) = 4" "s_queue (bs_subs (w_bus start_world) ! 3) = []"
    "s_dispatcher (bs_subs (w_bus start_world) ! 3)" "s_busy (bs_subs (w_bus start_world) ! 3) = None"
    by (simp_all add: start_world_def startup_def small_def CHANGE_TOPICS_def bus_subscribe_def validate_topic_def
        ALL_TOPICS_def start_def bus_init_def new_subscription_def)
  show ?thesis
    by (simp add: delete_request delete_outcome with_bus_def route_step_def dispatch_take_def sub queue_full_def queue_put_def
        map_sub_def Let_def del: system_step.simps(1))
qed

lemma yearly_db_ok: "db_ok yearly_db"
  by (simp add: db_ok_def yearly_ok positions_ok_def ops_ok_def pair_position_def)
   (simp add: yearly_db_def sample_db_def sum_over_def on_pair_def signed_quantity_def sample_holding_def)

text \<open>
  Whatever happens, in whatever order (requests, routed and dispatched messages, analytics handlers,
  reads that store late, background populations, a stop, a restart), an application started on a database that
  satisfies its invariant keeps it: every constraint of the schema holds, nobody holds a negative
  quantity of a bond on an account, every transaction lies on an account of its user, every cached
  summary belongs to the user it is cached for, and no queue of the bus outgrows its bound.
\<close>

theorem every_run_keeps_the_books:
  assumes "system_run sv st P (startup st db) s" and "db_ok db"
  shows "db_wf (db_of (sys_app s))
    \<and> 0 \<le> quantity_of (load_transactions u b (Some a) (db_of (sys_app s)))
    \<and> (t \<in> set (transactions (db_of (sys_app s))) \<longrightarrow> 0 < t_quantity t
          \<and> on_own_account (db_of (sys_app s)) (t_user_id t) (t_account_id t))
    \<and> (map_of (ap_summaries (sys_app s)) v = Some x \<longrightarrow> sm_user_id x = v)
    \<and> (q \<in> set (bs_subs (w_bus (ap_world (sys_app s)))) \<longrightarrow> 0 < max_queue_size st \<longrightarrow>
          int (length (s_queue q)) \<le> max_queue_size st)"
  by (rule system_ok_books [OF any_run.ok_run [OF assms(1) system_ok_startup [OF assms(2)]]])

theorem every_run_keeps_the_books_witness:
  "0 \<le> quantity_of (load_transactions 1 1 (Some 1) (db_of (sys_app (fold (system_step one_server small)
      [Requested delete_call (Some ''t'') (DeleteTransaction 2), Delivers 0, Dispatches 3] (startup small yearly_db)))))"
proof -
  have run: "system_run one_server small (\<lambda>_. True) (startup small yearly_db) (fold (system_step one_server small)
      [Requested delete_call (Some ''t'') (DeleteTransaction 2), Delivers 0, Dispatches 3] (startup small yearly_db))"
    by (rule run_fold [OF run_start]) simp
  show ?thesis using every_run_keeps_the_books [OF run yearly_db_ok] by blast
qed

text \<open>
  C24. Analytics never meets a message it cannot use. Whatever the application has done since it was
  started, the message that a dispatcher hands to the handler names a user by an integer, so the
  handler never takes the branch that ignores a message: it computes the summary of that user from
  the committed database, caches it if the computation succeeds, and frees the dispatcher.
\<close>

theorem handler_gets_typed_message:
  assumes "system_run sv st P (startup st db) s" and "db_ok db"
    and "i < length (bs_subs (w_bus (ap_world (sys_app s))))"
    and "s_busy (bs_subs (w_bus (ap_world (sys_app s))) ! i) = Some m"
  shows "\<exists>v. map_of (m_payload m) ''user_id'' = Some (VInt v)
    \<and> ap_summaries (handled pw env i (sys_app s)) =
        (case compute_summary pw env v (e_today env) None (db_of (sys_app s)) of
           Inl e \<Rightarrow> ap_summaries (sys_app s) | Inr x \<Rightarrow> (v, x) # ap_summaries (sys_app s))
    \<and> s_busy (bs_subs (w_bus (ap_world (handled pw env i (sys_app s)))) ! i) = None"
proof -
  let ?a = "sys_app s"
  have ok: "app_bus_ok (max_queue_size st) (w_bus (ap_world ?a))"
    using any_run.ok_run [OF assms(1) system_ok_startup [OF assms(2)]] by (simp add: system_ok_def)
  then obtain v where v: "map_of (m_payload m) ''user_id'' = Some (VInt v)"
    using busy_names_user assms(3,4) by blast
  obtain w cache where h: "handle_event pw env m (ap_world ?a, ap_summaries ?a) = (w, cache)" by fastforce
  then have cache: "cache = (case compute_summary pw env v (e_today env) None (db_of ?a) of
      Inl e \<Rightarrow> ap_summaries ?a | Inr x \<Rightarrow> (v, x) # ap_summaries ?a)"
    using v by (auto simp: handle_event_def snd_recalculate split: sum.splits)
  have grows: "bus_grows (w_bus (ap_world ?a)) (w_bus w)"
    using handle_event_only_announces(2) [where pw = pw and env = env and m = m and w = "ap_world ?a"
        and cache = "ap_summaries ?a"] h by simp
  then have subs: "bs_subs (w_bus w) = bs_subs (w_bus (ap_world ?a))" by (simp add: bus_grows_def)
  have plain: "\<not> s_is_request_handler (bs_subs (w_bus w) ! i)"
    using ok assms(3) by (simp add: subs app_bus_ok_def attached_def)
  have "s_busy (bs_subs (dispatch_finish i (Returns None) 0 0 (w_bus w)) ! i) = None"
    using assms(3,4) plain by (simp add: dispatch_finish_def subs map_sub_def Let_def)
  then show ?thesis
    using v assms(3,4) h cache by (intro exI [of _ v]) (simp add: handled_def Let_def)
qed

theorem handler_gets_typed_message_witness:
  "\<exists>v. map_of (m_payload deleted_message) ''user_id'' = Some (VInt v)"
proof -
  let ?s = "fold (system_step one_server small)
      [Requested delete_call (Some ''t'') (DeleteTransaction 2), Delivers 0, Dispatches 3] (startup small yearly_db)"
  have run: "system_run one_server small (\<lambda>_. True) (startup small yearly_db) ?s"
    by (rule run_fold [OF run_start]) simp
  have "app_bus_ok 10 (w_bus (ap_world (sys_app ?s)))"
    using any_run.ok_run [OF run system_ok_startup [OF yearly_db_ok]] by (simp add: system_ok_def small_def)
  then have "length (bs_subs (w_bus (ap_world (sys_app ?s)))) = length CHANGE_TOPICS"
    unfolding app_bus_ok_def attached_def by (metis length_map)
  then have "3 < length (bs_subs (w_bus (ap_world (sys_app ?s))))" by (simp add: CHANGE_TOPICS_def)
  from handler_gets_typed_message [OF run yearly_db_ok this delete_dispatched] show ?thesis by blast
qed

end
