(* ===== verification/Freshness.thy ===== *)
theory Freshness
  imports Application
begin

text \<open>
  Analytics keeps up with the books. A cached summary depends on a few rows of the database; every
  request that changes those rows announces it to analytics, whose handler computes the summary
  again. So a read answers from the committed data as soon as no message that names its user is on
  its way, and the bus can always get there.
\<close>

section \<open>What a summary depends on\<close>

definition rows_of_user :: "int \<Rightarrow> database \<Rightarrow> txn_row list" where
  "rows_of_user v db = filter (\<lambda>t. t_user_id t = v) (transactions db)"

definition schedule_rows :: "int \<Rightarrow> database \<Rightarrow> coupon_row list" where
  "schedule_rows b db = filter (\<lambda>c. c_bond_id c = b) (bond_coupons db)"

definition same_inputs :: "int \<Rightarrow> database \<Rightarrow> database \<Rightarrow> bool" where
  "same_inputs v db db' \<longleftrightarrow> rows_of_user v db' = rows_of_user v db
     \<and> (\<forall>t \<in> set (rows_of_user v db). get_bond (t_bond_id t) db' = get_bond (t_bond_id t) db
          \<and> schedule_rows (t_bond_id t) db' = schedule_rows (t_bond_id t) db)"

lemma same_inputs_refl [simp]: "same_inputs v db db"
  by (simp add: same_inputs_def)

lemma summary_loop_cong:
  assumes "\<And>b. b \<in> set bs \<Longrightarrow> get_bond b db' = get_bond b db \<and> schedule_rows b db' = schedule_rows b db"
  shows "summary_loop pw db' txns d h bs st = summary_loop pw db txns d h bs st"
  using assms
proof (induction bs arbitrary: st)
  case (Cons b bs)
  then have g: "get_bond b db' = get_bond b db" and "schedule_rows b db' = schedule_rows b db" by simp_all
  then have c: "coupons_of b db' = coupons_of b db" by (simp add: coupons_of_def schedule_rows_def)
  have "summary_step pw db' txns d h b st = summary_step pw db txns d h b st"
    by (simp only: summary_step_def g c)
  then show ?case using Cons by (cases "summary_step pw db txns d h b st") simp_all
qed simp

lemma listed_rows: "list_transactions v None None db = order_by (\<lambda>t. (t_date t, t_id t)) (rows_of_user v db)"
  by (simp add: list_transactions_def rows_of_user_def)

lemma set_sorted_bond_ids: "set (sorted_bond_ids txns) = t_bond_id ` set txns"
  by (simp add: sorted_bond_ids_def keys_group_rows)

lemma compute_summary_cong:
  assumes "same_inputs v db db'"
  shows "compute_summary pw env v d None db' = compute_summary pw env v d None db"
proof -
  let ?txns = "list_transactions v None None db"
  have txns: "list_transactions v None None db' = ?txns" using assms by (simp add: listed_rows same_inputs_def)
  have "summary_loop pw db' ?txns d h (sorted_bond_ids ?txns) st = summary_loop pw db ?txns d h (sorted_bond_ids ?txns) st" for h st
    using assms by (intro summary_loop_cong) (auto simp: set_sorted_bond_ids listed_rows same_inputs_def)
  then show ?thesis by (simp add: compute_summary_def txns)
qed

lemma same_inputs_tables:
  "transactions db' = transactions db \<Longrightarrow> bonds db' = bonds db \<Longrightarrow> bond_coupons db' = bond_coupons db \<Longrightarrow>
   same_inputs v db db'"
  by (simp add: same_inputs_def rows_of_user_def get_bond_def schedule_rows_def)

section \<open>What the requests do to it\<close>

lemma flush_publish_commit_inputs:
  assumes "\<And>w. w_db (snd (pub w)) = w_db w" and "\<And>db. fl = Inr db \<Longrightarrow> same_inputs v (w_db w) db"
  shows "same_inputs v (w_db w) (w_db (snd (flush_publish_commit fl pub w)))"
  using assms(1) [of w] assms(2) by (auto simp: flush_publish_commit_def split: sum.split prod.splits)

lemma row_of_add: "key r \<noteq> i \<Longrightarrow> row_of key i (add_row r rows) = row_of key i rows"
  by (induction rows) (simp_all add: row_of_def add_row_def)

lemma row_of_drop: "i \<noteq> j \<Longrightarrow> row_of key i (drop_row key j rows) = row_of key i rows"
  by (induction rows) (auto simp: row_of_def drop_row_def)

lemma insert_bond_inputs:
  assumes "db_wf db" and "insert_bond b db = Inr db'" shows "same_inputs v db db'"
proof -
  have db': "db' = db\<lparr>bonds := add_row b (bonds db)\<rparr>" and new: "b_id b \<notin> b_id ` set (bonds db)"
    using assms(2) by (auto simp: insert_bond_def split: if_splits)
  have "t_bond_id t \<in> b_id ` set (bonds db)" if "t \<in> set (transactions db)" for t
    using assms(1) that by (auto simp: put_wf_simps txn_refs_def)
  then have "t \<in> set (transactions db) \<Longrightarrow> b_id b \<noteq> t_bond_id t" for t using new by metis
  then show ?thesis
    by (auto simp: db' same_inputs_def rows_of_user_def get_bond_def schedule_rows_def row_of_add)
qed

lemma delete_bond_row_inputs:
  assumes "filter (\<lambda>t. t_bond_id t = i) (transactions db) = []"
  shows "same_inputs v db (delete_bond_row i db)"
proof -
  have "filter (\<lambda>t. t_bond_id t \<noteq> i) (transactions db) = transactions db"
    using assms by (auto simp: filter_empty_conv filter_id_conv)
  then show ?thesis
    using assms by (auto simp: same_inputs_def rows_of_user_def get_bond_def schedule_rows_def delete_bond_row_def
        row_of_drop filter_empty_conv intro!: filter_cong)
qed

lemma bond_commands_inputs:
  "db_wf (w_db w) \<Longrightarrow> same_inputs v (w_db w) (w_db (snd (create_bond env d u w)))"
  "same_inputs v (w_db w) (w_db (snd (delete_bond env i u w)))"
  by (auto simp: create_bond_def delete_bond_def Let_def intro!: flush_publish_commit_inputs delete_bond_row_inputs
      intro: insert_bond_inputs split: option.split)

text \<open>The other tables.\<close>

definition keeps_bonds :: "database \<Rightarrow> database \<Rightarrow> bool" where
  "keeps_bonds db db' \<longleftrightarrow> bonds db' = bonds db \<and> bond_coupons db' = bond_coupons db"

lemma flush_publish_commit_keeps_bonds:
  assumes "\<And>w. w_db (snd (pub w)) = w_db w" and "\<And>db. fl = Inr db \<Longrightarrow> keeps_bonds (w_db w) db"
  shows "keeps_bonds (w_db w) (w_db (snd (flush_publish_commit fl pub w)))"
  using assms(1) [of w] assms(2) by (auto simp: flush_publish_commit_def keeps_bonds_def split: sum.split prod.splits)

lemma statements_keep_bonds:
  "insert_user us db = Inr db' \<Longrightarrow> keeps_bonds db db'"
  "insert_broker br db = Inr db' \<Longrightarrow> keeps_bonds db db'"
  "update_broker_row br db = Inr db' \<Longrightarrow> keeps_bonds db db'"
  "insert_account a db = Inr db' \<Longrightarrow> keeps_bonds db db'"
  "update_account_row a db = Inr db' \<Longrightarrow> keeps_bonds db db'"
  "keeps_bonds db (delete_broker_row i db)" "keeps_bonds db (delete_account_row i db)" "keeps_bonds db db"
  by (auto simp: keeps_bonds_def insert_user_def insert_broker_def update_broker_row_def insert_account_def
      update_account_row_def delete_broker_row_def delete_account_row_def Let_def split: if_splits)

lemma broker_commands_keep_bonds:
  "keeps_bonds (w_db w) (w_db (snd (create_broker env d w)))"
  "keeps_bonds (w_db w) (w_db (snd (update_broker env e i w)))"
  "keeps_bonds (w_db w) (w_db (snd (delete_broker env i w)))"
  "keeps_bonds (w_db w) (w_db (snd (create_account env f u w)))"
  "keeps_bonds (w_db w) (w_db (snd (update_account env g i u w)))"
  "keeps_bonds (w_db w) (w_db (snd (delete_account env i u w)))"
  "keeps_bonds (w_db w) (w_db (snd (register hashpw salt env n p w)))"
proof -
  have commit: "(\<And>db. fl = Inr db \<Longrightarrow> keeps_bonds (w_db w) db) \<Longrightarrow>
      keeps_bonds (w_db w) (w_db (snd (flush_publish_commit fl (publish env s t p) w)))" for fl env s t p
    by (rule flush_publish_commit_keeps_bonds) simp_all
  note st = statements_keep_bonds
  show "keeps_bonds (w_db w) (w_db (snd (create_broker env d w)))"
    by (simp add: create_broker_def Let_def commit st)
  show "keeps_bonds (w_db w) (w_db (snd (update_broker env e i w)))"
    by (simp add: update_broker_def Let_def commit st split: option.split)
  show "keeps_bonds (w_db w) (w_db (snd (delete_broker env i w)))"
    by (auto simp: delete_broker_def Let_def st intro: commit split: option.split)
  show "keeps_bonds (w_db w) (w_db (snd (create_account env f u w)))"
    by (simp add: create_account_def Let_def commit st split: option.split)
  show "keeps_bonds (w_db w) (w_db (snd (update_account env g i u w)))"
    by (simp add: update_account_def Let_def commit st split: option.split)
  show "keeps_bonds (w_db w) (w_db (snd (delete_account env i u w)))"
    by (auto simp: delete_account_def Let_def st intro: commit split: option.split)
  show "keeps_bonds (w_db w) (w_db (snd (register hashpw salt env n p w)))"
    by (auto simp: register_def Let_def st split: sum.split)
qed

lemma same_inputs_keeps: "keeps_rows db db' \<Longrightarrow> keeps_bonds db db' \<Longrightarrow> same_inputs v db db'"
  by (simp add: same_inputs_tables keeps_rows_def keeps_bonds_def)

lemma op_commands_inputs:
  "same_inputs v (w_db w) (w_db (snd (create_op env d u w)))"
  "same_inputs v (w_db w) (w_db (snd (update_op e i u w)))"
  "same_inputs v (w_db w) (w_db (snd (delete_op i u w)))"
proof -
  have same: "same_inputs v (w_db w) db" if "\<exists>x. db = w_db w\<lparr>account_operations := x\<rparr>" for db
    using that by (auto intro: same_inputs_tables)
  show "same_inputs v (w_db w) (w_db (snd (create_op env d u w)))"
    "same_inputs v (w_db w) (w_db (snd (update_op e i u w)))"
    "same_inputs v (w_db w) (w_db (snd (delete_op i u w)))"
    by (rule same, rule op_commands_db)+
qed

text \<open>A message that makes analytics compute the summary of \<open>v\<close> again.\<close>

definition announces :: "int \<Rightarrow> message \<Rightarrow> bool" where
  "announces v m \<longleftrightarrow> m_topic m \<in> set CHANGE_TOPICS \<and> map_of (m_payload m) ''user_id'' = Some (VInt v)"

definition told :: "int \<Rightarrow> bus \<Rightarrow> bus \<Rightarrow> bool" where
  "told v b b' \<longleftrightarrow> (\<exists>ms. bs_published b' = bs_published b @ ms \<and> (\<exists>m \<in> set ms. announces v m))"

lemma told_publish:
  "bs_running (w_bus w) \<Longrightarrow> t \<in> set CHANGE_TOPICS \<Longrightarrow> map_of p ''user_id'' = Some (VInt v) \<Longrightarrow>
   told v (w_bus w) (w_bus (snd (publish_portfolio env t p w)))"
  by (subst publish_portfolio_def, subst publish_running)
    (auto simp: told_def announces_def CHANGE_TOPICS_def ALL_TOPICS_def)

lemma told_and_then:
  assumes "told v (w_bus w) (w_bus (snd (f w)))" and "\<And>x. bus_grows (w_bus x) (w_bus (snd (g x)))"
  shows "told v (w_bus w) (w_bus (snd (and_then f g w)))"
proof -
  obtain r x where f: "f w = (r, x)" by (cases "f w") auto
  then have "told v (w_bus w) (w_bus x)" using assms(1) by simp
  moreover have "bus_grows (w_bus x) (w_bus (snd (g x)))" by (rule assms(2))
  ultimately have "told v (w_bus w) (w_bus (snd (g x)))"
    by (auto simp: told_def bus_grows_def)
  with \<open>told v (w_bus w) (w_bus x)\<close> f show ?thesis by (cases r) (simp_all add: and_then_def)
qed

lemma told_position:
  assumes "bs_running (w_bus w)"
  shows "told u (w_bus w) (w_bus (snd (publish_positions env u (b # bs) w)))"
proof -
  have "map_of (position_payload (get_position u b None db)) ''user_id'' = Some (VInt u)" for db
    by (simp add: position_payload_def get_position_def)
  then show ?thesis
    unfolding publish_positions.simps using assms
    by (intro told_and_then told_publish) (simp_all add: publish_positions_grows CHANGE_TOPICS_def)
qed

lemma keep_told_db [simp]: "w_bus (w\<lparr>w_db := db\<rparr>) = w_bus w"
  by simp

lemma txn_commands_told:
  assumes "bs_running (w_bus w)"
  shows "w_db (snd (add_transaction env u c w)) = w_db w \<or> told u (w_bus w) (w_bus (snd (add_transaction env u c w)))"
    and "w_db (snd (update_transaction env d i u w)) = w_db w \<or> told u (w_bus w) (w_bus (snd (update_transaction env d i u w)))"
    and "w_db (snd (delete_transaction env i u w)) = w_db w \<or> told u (w_bus w) (w_bus (snd (delete_transaction env i u w)))"
proof -
  have first: "told v (w_bus w) (w_bus (snd (and_then f g (w\<lparr>w_db := db\<rparr>))))"
    if "told v (w_bus w) (w_bus (snd (f (w\<lparr>w_db := db\<rparr>))))" and "\<And>x. bus_grows (w_bus x) (w_bus (snd (g x)))" for v f g db
    using told_and_then [of v "w\<lparr>w_db := db\<rparr>" f g] that by simp
  have position: "told v (w_bus w) (w_bus (snd (publish_positions env v (b # bs) (w\<lparr>w_db := db\<rparr>))))" for v b bs db
    using told_position [of "w\<lparr>w_db := db\<rparr>" v env b bs] assms by simp
  have created: "told u (w_bus w) (w_bus (snd (publish_portfolio env ''transaction.created''
      (txn_payload (new_txn env c u)) (w\<lparr>w_db := db\<rparr>))))" for db
    using told_publish [of "w\<lparr>w_db := db\<rparr>" "''transaction.created''" "txn_payload (new_txn env c u)" u env] assms
    by (simp add: CHANGE_TOPICS_def txn_payload_def new_txn_def)
  show "w_db (snd (add_transaction env u c w)) = w_db w \<or> told u (w_bus w) (w_bus (snd (add_transaction env u c w)))"
    by (auto simp: add_transaction_def Let_def intro!: first created publish_portfolio_grows split: sum.split)
  show "w_db (snd (update_transaction env d i u w)) = w_db w \<or> told u (w_bus w) (w_bus (snd (update_transaction env d i u w)))"
    by (auto simp: update_transaction_def Let_def intro!: first position publish_portfolio_grows split: sum.split option.split)
  show "w_db (snd (delete_transaction env i u w)) = w_db w \<or> told u (w_bus w) (w_bus (snd (delete_transaction env i u w)))"
    by (auto simp: delete_transaction_def Let_def intro!: first position publish_portfolio_grows split: option.split)
qed

lemma foreign_rows:
  assumes "v \<noteq> u"
  shows "db_wf (w_db w) \<Longrightarrow> same_inputs v (w_db w) (w_db (snd (add_transaction env u c w)))"
    and "db_wf (w_db w) \<Longrightarrow> same_inputs v (w_db w) (w_db (snd (update_transaction env d i u w)))"
    and "db_wf (w_db w) \<Longrightarrow> same_inputs v (w_db w) (w_db (snd (delete_transaction env i u w)))"
proof -
  have same: "same_inputs v db (db\<lparr>transactions := ts\<rparr>)"
    if "filter (\<lambda>t. t_user_id t = v) ts = filter (\<lambda>t. t_user_id t = v) (transactions db)" for db ts
    using that by (simp add: same_inputs_def rows_of_user_def get_bond_def schedule_rows_def)
  show "same_inputs v (w_db w) (w_db (snd (add_transaction env u c w)))"
  proof (rule disjE [OF add_transaction_db [of env u c w]])
    assume a: "nt_type c \<in> set TRANSACTION_TYPES \<and> on_own_account (w_db w) u (nt_account_id c)
      \<and> (nt_type c \<noteq> ''BUY'' \<longrightarrow> nt_quantity c \<le> pair_position u (nt_bond_id c) (nt_account_id c) (transactions (w_db w)))
      \<and> insert_txn (new_txn env c u) (w_db w) = Inr (w_db (snd (add_transaction env u c w)))"
    then have "w_db (snd (add_transaction env u c w)) = w_db w\<lparr>transactions := add_row (new_txn env c u) (transactions (w_db w))\<rparr>"
      by (auto simp: insert_txn_def split: if_splits)
    then show ?thesis using assms by (simp add: same add_row_def new_txn_def)
  qed simp
  have put: "filter (\<lambda>t. t_user_id t = v) (put_row t_id t' rows) = filter (\<lambda>t. t_user_id t = v) rows"
    if "\<forall>t \<in> set rows. t_id t = t_id t' \<longrightarrow> t_user_id t \<noteq> v" and "t_user_id t' \<noteq> v" for t' rows
    using that by (induction rows) (auto simp: put_row_def)
  show "same_inputs v (w_db w) (w_db (snd (update_transaction env d i u w)))" if wf: "db_wf (w_db w)"
  proof -
    have one: "t = t'" if "t \<in> set (transactions (w_db w))" "t' \<in> set (transactions (w_db w))" "t_id t = t_id t'" for t t'
      using that wf by (auto simp: put_wf_simps distinct_map dest: inj_onD)
    from update_transaction_db [of env d i u w] show ?thesis
    proof (elim disjE exE conjE)
      fix t assume t: "find_txn i (w_db w) = Some t" "t_user_id t = u"
        and "update_txn_row (apply_txn_update d t) (w_db w) = Inr (w_db (snd (update_transaction env d i u w)))"
      then have db': "w_db (snd (update_transaction env d i u w))
          = w_db w\<lparr>transactions := put_row t_id (apply_txn_update d t) (transactions (w_db w))\<rparr>"
        by (auto simp: update_txn_row_def split: if_splits)
      moreover have "t \<in> set (transactions (w_db w))" using t wf by (simp add: find_txn_Some)
      ultimately have "\<forall>x \<in> set (transactions (w_db w)). t_id x = t_id (apply_txn_update d t) \<longrightarrow> t_user_id x \<noteq> v"
        using one t(2) assms by (metis apply_txn_update_id(1))
      then have "filter (\<lambda>t. t_user_id t = v) (put_row t_id (apply_txn_update d t) (transactions (w_db w)))
          = filter (\<lambda>t. t_user_id t = v) (transactions (w_db w))"
        using assms t(2) by (intro put) simp_all
      then show ?thesis using db' by (simp add: same)
    qed simp
  qed
  show "same_inputs v (w_db w) (w_db (snd (delete_transaction env i u w)))" if wf: "db_wf (w_db w)"
  proof -
    have one: "t = t'" if "t \<in> set (transactions (w_db w))" "t' \<in> set (transactions (w_db w))" "t_id t = t_id t'" for t t'
      using that wf by (auto simp: put_wf_simps distinct_map dest: inj_onD)
    from delete_transaction_db [of env i u w] show ?thesis
    proof (elim disjE exE conjE)
      fix t assume t: "find_txn i (w_db w) = Some t" "t_user_id t = u"
        and db': "w_db (snd (delete_transaction env i u w)) = delete_txn_row i (w_db w)"
      moreover have "t \<in> set (transactions (w_db w))" "t_id t = i" using t wf by (simp_all add: find_txn_Some)
      ultimately have "\<forall>x \<in> set (transactions (w_db w)). t_id x = i \<longrightarrow> t_user_id x \<noteq> v" using one assms by metis
      then have "filter (\<lambda>t. t_user_id t = v) (drop_row t_id i (transactions (w_db w)))
          = filter (\<lambda>t. t_user_id t = v) (transactions (w_db w))"
        by (auto simp: drop_row_def intro!: filter_cong)
      with db' show ?thesis by (simp add: delete_txn_row_def same)
    qed simp
  qed
qed

fun edits_bond :: "request \<Rightarrow> bool" where
  "edits_bond (UpdateBond i d) = True" | "edits_bond _ = False"

lemma endpoint_inputs:
  assumes "db_wf (db_of a)" and "bs_running (w_bus (ap_world a))" and "\<not> edits_bond req"
  shows "same_inputs v (db_of a) (db_of (snd (endpoint sv cl u req a)))
    \<or> told v (w_bus (ap_world a)) (w_bus (ap_world (snd (endpoint sv cl u req a))))"
proof -
  note keep = create_broker_keeps_rows update_broker_keeps_rows delete_broker_keeps_rows create_account_keeps_rows
    update_account_keeps_rows [OF assms(1)] delete_account_keeps_rows register_keeps_rows
  have txn: "same_inputs v (db_of a) (w_db w) \<or> told v (w_bus (ap_world a)) (w_bus w)"
    if "w = snd (add_transaction env u c (ap_world a)) \<or> w = snd (update_transaction env d i u (ap_world a))
      \<or> w = snd (delete_transaction env i u (ap_world a))" for w env c d i
  proof (cases "v = u")
    case True
    then show ?thesis using that txn_commands_told [OF assms(2)] by (metis same_inputs_refl)
  next
    case False
    then show ?thesis using that foreign_rows [OF False assms(1)] by metis
  qed
  show ?thesis
  proof (cases req)
    case (CreateTransaction c)
    then show ?thesis using txn [of "snd (add_transaction (cl_env cl) u c (ap_world a))"] by (simp add: handler_defs) blast
  next
    case (UpdateTransaction i d)
    then show ?thesis using txn [of "snd (update_transaction (cl_env cl) d i u (ap_world a))"] by (simp add: handler_defs) blast
  next
    case (DeleteTransaction i)
    then show ?thesis using txn [of "snd (delete_transaction (cl_env cl) i u (ap_world a))"] by (simp add: handler_defs) blast
  qed (use assms(1,3) in \<open>auto simp: handler_defs create_bond_run bond_commands_inputs op_commands_inputs
        intro: same_inputs_keeps keep broker_commands_keep_bonds\<close>)
qed

section \<open>The runs of one day\<close>

text \<open>
  The steps of a day without bond edits, populations and stops, in which reads compute a missing
  summary in one go.
\<close>

fun steady :: "date \<Rightarrow> event \<Rightarrow> bool" where
  "steady d (Requested cl credentials req) \<longleftrightarrow> e_today (cl_env cl) = d \<and> \<not> edits_bond req"
| "steady d (Handled env i) \<longleftrightarrow> e_today env = d"
| "steady d (Delivers k) \<longleftrightarrow> True"
| "steady d (Dispatches i) \<longleftrightarrow> True"
| "steady d Restarted \<longleftrightarrow> True"
| "steady d _ \<longleftrightarrow> False"

text \<open>
  The summary of \<open>v\<close> is computed from this database, or cannot be computed from it.
\<close>

definition current :: "(rat \<Rightarrow> rat \<Rightarrow> rat) \<Rightarrow> date \<Rightarrow> database \<Rightarrow> int \<Rightarrow> summary \<Rightarrow> bool" where
  "current pw d db v x \<longleftrightarrow>
     (\<exists>env. compute_summary pw env v d None db = Inr x \<or> (\<exists>e. compute_summary pw env v d None db = Inl e))"

definition awaited :: "int \<Rightarrow> bus \<Rightarrow> bool" where
  "awaited v b \<longleftrightarrow> list_ex (announces v) (in_flight b)"

definition kept_up :: "server \<Rightarrow> date \<Rightarrow> int \<Rightarrow> system \<Rightarrow> bool" where
  "kept_up sv d n s \<longleftrightarrow> system_ok n s \<and> bs_running (w_bus (ap_world (sys_app s))) \<and> sys_reads s = []
     \<and> (\<forall>v x. map_of (ap_summaries (sys_app s)) v = Some x \<longrightarrow> \<not> awaited v (w_bus (ap_world (sys_app s))) \<longrightarrow>
          current (sv_pow sv) d (db_of (sys_app s)) v x)"

lemma current_cong: "same_inputs v db db' \<Longrightarrow> current pw d db' v x = current pw d db v x"
  by (simp add: current_def compute_summary_cong)

lemma awaited_mem: "awaited v b \<longleftrightarrow> (\<exists>m \<in> set (in_flight b). announces v m)"
  by (simp add: awaited_def list_ex_iff)

lemma awaited_grows: "bus_grows b b' \<Longrightarrow> awaited v b \<Longrightarrow> awaited v b'"
  unfolding awaited_mem by (metis UnI1 in_flight_grows)

lemma awaited_told:
  assumes "attached b" and "bus_grows b b'" and "told v b b'" shows "awaited v b'"
proof -
  obtain ms m where ms: "bs_published b' = bs_published b @ ms" "m \<in> set ms" "announces v m"
    using assms(3) by (auto simp: told_def)
  obtain ns where ns: "bs_published b' = bs_published b @ ns"
    "set (in_flight b') = set (in_flight b) \<union> {m \<in> set ns. snapshot (m_topic m) b \<noteq> []}"
    by (rule in_flight_grows [OF assms(2)])
  have "snapshot (m_topic m) b \<noteq> []"
    using ms(3) snapshot_attached [OF assms(1), of "m_topic m"] by (simp add: announces_def)
  then show ?thesis using ms ns by (auto simp: awaited_mem)
qed

lemma endpoint_summaries:
  assumes "e_today (cl_env cl) = d"
  shows "map_of (ap_summaries (snd (endpoint sv cl u req a))) v = map_of (ap_summaries a) v
    \<or> (\<exists>x. map_of (ap_summaries (snd (endpoint sv cl u req a))) v = Some x
        \<and> compute_summary (sv_pow sv) (cl_env cl) v d None (db_of a) = Inr x)"
proof -
  have fresh: "map_of c v = map_of cache v \<or> (\<exists>x. map_of c v = Some x \<and> compute_summary pw env v (e_today env) None db = Inr x)"
    if "get_portfolio_summary pw env w q db cache = (r, c)" "q_today q = None" for pw env w q db cache r c
    using that by (auto simp: get_portfolio_summary_def cached_or_fresh_def Let_def split: if_splits option.splits sum.splits prod.splits)
  show ?thesis
    using assms
    by (cases req) (auto simp: handler_defs create_bond_endpoint_def schedule_quietly_def search_bond_references_def
        get_bond_reference_def sync_bond_coupons_def get_portfolio_def get_bond_yield_def get_position_analytics_def
        run_def dest!: fresh split: prod.split sum.split option.split)
qed


lemma summaries_ok_Nil [simp]: "summaries_ok []"
  by (simp add: summaries_ok_def)

lemma kept_up_startup:
  "db_ok db \<Longrightarrow> kept_up sv d (max_queue_size st) (startup st db)"
  using system_ok_startup [of db st]
  by (simp add: kept_up_def startup_def CHANGE_TOPICS_def bus_subscribe_def validate_topic_def ALL_TOPICS_def start_def
      bus_init_def)

lemma kept_up_endpoint:
  assumes "kept_up sv d n s" and "request_ok req" and "e_today (cl_env cl) = d" and "\<not> edits_bond req"
  shows "kept_up sv d n (on_app (\<lambda>a. snd (endpoint sv cl u req a)) s)"
proof -
  let ?a = "sys_app s" and ?a' = "snd (endpoint sv cl u req (sys_app s))"
  have ok: "system_ok n (on_app (\<lambda>a. snd (endpoint sv cl u req a)) s)"
    using assms(1,2) by (simp only: kept_up_def system_ok_endpoint)
  have a: "db_wf (db_of ?a)" "bs_running (w_bus (ap_world ?a))" "attached (w_bus (ap_world ?a))"
    using assms(1) by (simp_all add: kept_up_def system_ok_def db_ok_def app_bus_ok_def)
  have g: "bus_grows (w_bus (ap_world ?a)) (w_bus (ap_world ?a'))" by (rule endpoint_only_publishes)
  have "current (sv_pow sv) d (db_of ?a') v x"
    if "map_of (ap_summaries ?a') v = Some x" and quiet: "\<not> awaited v (w_bus (ap_world ?a'))" for v x
  proof -
    have quiet': "\<not> awaited v (w_bus (ap_world ?a))" using quiet awaited_grows [OF g] by blast
    have same: "same_inputs v (db_of ?a) (db_of ?a')"
      using endpoint_inputs [OF a(1,2), of req v sv cl u] awaited_told [OF a(3) g] quiet assms(4) by auto
    from endpoint_summaries [of cl d sv u req ?a v] assms(3) that(1)
    have "map_of (ap_summaries ?a) v = Some x \<or> compute_summary (sv_pow sv) (cl_env cl) v d None (db_of ?a) = Inr x"
      by auto
    then have "current (sv_pow sv) d (db_of ?a) v x"
      using assms(1) quiet' by (auto simp: kept_up_def current_def)
    then show ?thesis by (simp add: current_cong [OF same])
  qed
  then show ?thesis using ok g assms(1) by (simp add: kept_up_def bus_grows_def)
qed

lemma kept_up_requested:
  assumes "kept_up sv d n s" and "steady d (Requested cl credentials req)"
  shows "kept_up sv d n (system_step sv st (Requested cl credentials req) s)"
proof (rule handle_cases [of sv cl credentials req "sys_app s"])
  fix u assume "handle sv cl credentials req (sys_app s)
      = (answered req (fst (endpoint sv cl u req (sys_app s))), snd (endpoint sv cl u req (sys_app s)))" "request_ok req"
  then show ?thesis using kept_up_endpoint [OF assms(1), of req cl u] assms(2) by simp
qed (use assms in \<open>simp add: kept_up_def system_ok_def\<close>)

lemma kept_up_handled:
  assumes "kept_up sv (e_today env) n s" shows "kept_up sv (e_today env) n (system_step sv st (Handled env i) s)"
proof (cases "i < length (bs_subs (w_bus (ap_world (sys_app s)))) \<and> s_busy (bs_subs (w_bus (ap_world (sys_app s))) ! i) \<noteq> None")
  case True
  let ?w = "ap_world (sys_app s)" and ?cache = "ap_summaries (sys_app s)" let ?b = "w_bus ?w"
  obtain m where m: "s_busy (bs_subs ?b ! i) = Some m" using True by blast
  have b: "app_bus_ok n ?b" using assms by (simp add: kept_up_def system_ok_def)
  obtain u where u: "map_of (m_payload m) ''user_id'' = Some (VInt u)"
    using busy_names_user [OF b _ m] True by blast
  obtain w cache where h: "handle_event (sv_pow sv) env m (?w, ?cache) = (w, cache)" by fastforce
  note eff = handle_event_only_announces [where pw = "sv_pow sv" and env = env and m = m and w = ?w
      and cache = ?cache, unfolded h, simplified]
  let ?b' = "dispatch_finish i (Returns None) 0 0 (w_bus w)"
  have step: "sys_app (system_step sv st (Handled env i) s)
      = with_bus (dispatch_finish i (Returns None) 0 0) ((sys_app s)\<lparr>ap_world := w, ap_summaries := cache\<rparr>)"
    using True m h by (simp add: handled_def Let_def)
  have subs: "bs_subs (w_bus w) = bs_subs ?b" using eff(2) by (simp add: bus_grows_def)
  have "\<not> s_is_request_handler (bs_subs (w_bus w) ! i)"
    using b True by (simp add: subs app_bus_ok_def attached_def)
  then have flight: "set (in_flight (w_bus w)) \<subseteq> insert m (set (in_flight ?b'))"
    using True m by (intro in_flight_dispatch_finish(2)) (simp_all add: subs)
  have others: "awaited v ?b'" if "awaited v ?b" "v \<noteq> u" for v
    using awaited_grows [OF eff(2) that(1)] flight that(2) u by (auto simp: awaited_mem announces_def)
  have cache: "(\<exists>e. cache = ?cache \<and> compute_summary (sv_pow sv) env u (e_today env) None (w_db ?w) = Inl e)
      \<or> (\<exists>x. cache = (u, x) # ?cache \<and> compute_summary (sv_pow sv) env u (e_today env) None (w_db ?w) = Inr x)"
    using h u by (auto simp: handle_event_def snd_recalculate split: sum.splits)
  have "current (sv_pow sv) (e_today env) (w_db w) v x" if "map_of cache v = Some x" "\<not> awaited v ?b'" for v x
  proof (cases "v = u")
    case True
    then show ?thesis using cache that(1) eff(1) by (auto simp: current_def)
  next
    case False
    then have "map_of ?cache v = Some x" "\<not> awaited v ?b" using cache that others by auto
    then show ?thesis using assms eff(1) by (simp add: kept_up_def)
  qed
  moreover have "bs_running ?b'"
    using assms eff(2) by (simp add: kept_up_def bus_grows_def dispatch_finish_def Let_def fail_pending_reply_def
        maybe_reply_def split: option.split outcome.split)
  moreover have "system_ok n (system_step sv st (Handled env i) s)"
    using assms by (simp only: kept_up_def system_ok_handled)
  ultimately show ?thesis using assms unfolding kept_up_def step by (simp add: with_bus_def)
qed (use assms in \<open>auto simp: handled_def Let_def kept_up_def system_ok_def\<close>)

lemma kept_up_step:
  assumes "kept_up sv d (max_queue_size st) s" and "steady d e"
  shows "kept_up sv d (max_queue_size st) (system_step sv st e s)"
proof (cases e)
  case (Requested cl credentials req)
  then show ?thesis using kept_up_requested assms by blast
next
  case (Handled env i)
  then show ?thesis using kept_up_handled [of sv env] assms by simp
next
  case Restarted
  have "db_ok (db_of (sys_app s))" using assms(1) by (simp add: kept_up_def system_ok_def)
  then show ?thesis using Restarted kept_up_startup by simp
next
  case (Delivers k)
  have "bus_ok (max_queue_size st) (w_bus (ap_world (sys_app s)))"
    using assms by (simp add: kept_up_def system_ok_def app_bus_ok_def)
  note in_flight_route_step [OF this, of k]
  moreover have "bs_running (route_step k b) = bs_running b" for b
    by (simp add: route_step_def Let_def split: prod.split list.split)
  ultimately show ?thesis
    using assms system_ok_step [of st s sv e] Delivers by (simp add: kept_up_def awaited_mem)
next
  case (Dispatches i)
  have "bs_running (dispatch_take i b) = bs_running b" for b
    by (simp add: dispatch_take_def split: option.split prod.split)
  then show ?thesis
    using assms system_ok_step [of st s sv e] Dispatches in_flight_dispatch_take by (simp add: kept_up_def awaited_mem)
qed (use assms in simp_all)

interpretation day: run_invariant sv st "steady d" "kept_up sv d (max_queue_size st)" for sv st d
  by unfold_locales (rule kept_up_step)

section \<open>The bus can always come to rest\<close>

definition busy_of :: "subscription \<Rightarrow> message list" where
  "busy_of s = (case s_busy s of None \<Rightarrow> [] | Some m \<Rightarrow> [m])"

text \<open>A put, a take and the end of a handler are left for each target of a route.\<close>

definition work :: "bus \<Rightarrow> nat" where
  "work b = 3 * length (concat (map snd (bs_routes b))) + 2 * length (concat (map s_queue (bs_subs b)))
     + length (concat (map busy_of (bs_subs b)))"

lemma busy_of_simps [simp]:
  "busy_of (s\<lparr>s_log := l\<rparr>) = busy_of s" "busy_of (s\<lparr>s_queue := q\<rparr>) = busy_of s"
  "busy_of (maybe_warn_high_watermark t s) = busy_of s"
  by (simp_all add: busy_of_def maybe_warn_high_watermark_def split: option.split)

lemma work_put:
  assumes "bus_ok n b" and "bs_routes b \<noteq> []" and "\<forall>s \<in> set (bs_subs b). s_queue s = []"
  shows "work (route_step 0 b) < work b"
proof -
  obtain m js rs where r: "bs_routes b = (m, js) # rs" using assms(2) by (metis neq_Nil_conv surj_pair)
  then have ok: "route_ok (bs_subs b) (m, js)" using assms(1) by (simp add: bus_ok_def)
  then obtain i rest where js: "js = i # rest" and i: "i < length (bs_subs b)"
    by (auto simp: route_ok_def neq_Nil_conv)
  have q: "s_queue (bs_subs b ! i) = []" using assms(3) i by simp
  have full: "\<not> queue_full (bs_max_queue_size b) (s_queue (bs_subs b ! i))" by (simp add: queue_full_def q)
  let ?s = "maybe_warn_high_watermark (bs_warn_threshold b)
      ((bs_subs b ! i)\<lparr>s_queue := queue_put m (s_queue (bs_subs b ! i)), s_log := s_log (bs_subs b ! i) @ [m]\<rparr>)"
  have subs: "bs_subs (route_step 0 b) = (bs_subs b)[i := ?s]"
    and routes: "bs_routes (route_step 0 b) = (if rest = [] then rs else (m, rest) # rs)"
    using r js full by (simp_all add: route_step_def Let_def map_sub_def)
  obtain A B where c: "concat (map s_queue (bs_subs b)) = A @ s_queue (bs_subs b ! i) @ B"
    "\<And>y. concat (map s_queue ((bs_subs b)[i := y])) = A @ s_queue y @ B" using concat_update [OF i, of s_queue] by blast
  obtain C D where d: "concat (map busy_of (bs_subs b)) = C @ busy_of (bs_subs b ! i) @ D"
    "\<And>y. concat (map busy_of ((bs_subs b)[i := y])) = C @ busy_of y @ D" using concat_update [OF i, of busy_of] by blast
  show ?thesis unfolding work_def subs routes c d using r js by (simp add: queue_put_def)
qed

lemma work_take:
  assumes "i < length (bs_subs b)" and "s_dispatcher (bs_subs b ! i)" and "s_busy (bs_subs b ! i) = None"
    and "s_queue (bs_subs b ! i) \<noteq> []"
  shows "work (dispatch_take i b) < work b"
proof -
  obtain m q where q: "s_queue (bs_subs b ! i) = m # q" using assms(4) by (metis neq_Nil_conv)
  obtain A B where c: "concat (map s_queue (bs_subs b)) = A @ s_queue (bs_subs b ! i) @ B"
    "\<And>y. concat (map s_queue ((bs_subs b)[i := y])) = A @ s_queue y @ B" using concat_update [OF assms(1), of s_queue] by blast
  obtain C D where d: "concat (map busy_of (bs_subs b)) = C @ busy_of (bs_subs b ! i) @ D"
    "\<And>y. concat (map busy_of ((bs_subs b)[i := y])) = C @ busy_of y @ D" using concat_update [OF assms(1), of busy_of] by blast
  show ?thesis
    using assms q by (simp add: dispatch_take_def map_sub_def work_def c d busy_of_def del: map_update)
qed

lemma work_finish:
  assumes "i < length (bs_subs b)" and "s_busy (bs_subs b ! i) = Some m" and "\<not> s_is_request_handler (bs_subs b ! i)"
  shows "work (dispatch_finish i out r now b) < work b"
proof -
  obtain A B where c: "concat (map s_queue (bs_subs b)) = A @ s_queue (bs_subs b ! i) @ B"
    "\<And>y. concat (map s_queue ((bs_subs b)[i := y])) = A @ s_queue y @ B" using concat_update [OF assms(1), of s_queue] by blast
  obtain C D where d: "concat (map busy_of (bs_subs b)) = C @ busy_of (bs_subs b ! i) @ D"
    "\<And>y. concat (map busy_of ((bs_subs b)[i := y])) = C @ busy_of y @ D" using concat_update [OF assms(1), of busy_of] by blast
  show ?thesis
    using assms by (simp add: dispatch_finish_def map_sub_def work_def c d Let_def busy_of_def del: map_update)
qed

lemma work_announce:
  assumes "attached (w_bus w)" shows "work (w_bus (announce env u w)) = work (w_bus w)"
proof -
  have "snapshot ''portfolio.recalculated'' (w_bus w) = []"
    using snapshot_attached [OF assms, of "''portfolio.recalculated''"] by (simp add: CHANGE_TOPICS_def)
  then show ?thesis
    by (auto simp: announce_def publish_def bus_publish_def begin_route_def work_def split: sum.split)
qed


lemma work_handled:
  assumes "app_bus_ok n (w_bus (ap_world a))" and "i < length (bs_subs (w_bus (ap_world a)))"
    and "s_busy (bs_subs (w_bus (ap_world a)) ! i) = Some m"
  shows "work (w_bus (ap_world (handled pw env i a))) < work (w_bus (ap_world a))"
proof -
  obtain w cache where h: "handle_event pw env m (ap_world a, ap_summaries a) = (w, cache)" by fastforce
  note eff = handle_event_only_announces [where pw = pw and env = env and m = m and w = "ap_world a"
      and cache = "ap_summaries a", unfolded h, simplified]
  have at: "attached (w_bus (ap_world a))" using assms(1) by (simp add: app_bus_ok_def)
  have "work (w_bus w) = work (w_bus (ap_world a))"
    by (rule handle_event_cases [of pw env m "ap_world a" "ap_summaries a"]) (simp_all add: h work_announce [OF at])
  moreover have "work (dispatch_finish i (Returns None) 0 0 (w_bus w)) < work (w_bus w)"
  proof (rule work_finish)
    have "bs_subs (w_bus w) = bs_subs (w_bus (ap_world a))" using eff(2) by (simp add: bus_grows_def)
    then show "i < length (bs_subs (w_bus w))" "s_busy (bs_subs (w_bus w) ! i) = Some m"
      "\<not> s_is_request_handler (bs_subs (w_bus w) ! i)"
      using assms at by (simp_all add: attached_def)
  qed
  ultimately show ?thesis using assms(2,3) h by (simp add: handled_def Let_def)
qed

definition drain_steps :: "env \<Rightarrow> event set" where
  "drain_steps env = range Delivers \<union> range Dispatches \<union> range (Handled env)"

lemma progress:
  assumes "kept_up sv d n s" and "in_flight (w_bus (ap_world (sys_app s))) \<noteq> []"
  obtains e where "e \<in> drain_steps env"
    and "work (w_bus (ap_world (sys_app (system_step sv st e s)))) < work (w_bus (ap_world (sys_app s)))"
proof -
  let ?b = "w_bus (ap_world (sys_app s))"
  have b: "app_bus_ok n ?b" "bus_ok n ?b" "attached ?b" "bs_running ?b"
    using assms(1) by (simp_all add: kept_up_def system_ok_def app_bus_ok_def)
  consider (busy) i m where "i < length (bs_subs ?b)" "s_busy (bs_subs ?b ! i) = Some m"
    | (queued) i where "i < length (bs_subs ?b)" "s_busy (bs_subs ?b ! i) = None" "s_queue (bs_subs ?b ! i) \<noteq> []"
    | (routing) "\<forall>i < length (bs_subs ?b). s_busy (bs_subs ?b ! i) = None \<and> s_queue (bs_subs ?b ! i) = []"
    by (metis not_Some_eq)
  then show thesis
  proof cases
    case (busy i m)
    from work_handled [OF b(1) this, of "sv_pow sv" env] show ?thesis
      using that [of "Handled env i"] by (simp add: drain_steps_def)
  next
    case (queued i)
    have "s_dispatcher (bs_subs ?b ! i)" using b(3,4) queued(1) by (simp add: attached_def)
    from work_take [OF queued(1) this queued(2,3)] show ?thesis
      using that [of "Dispatches i"] by (simp add: drain_steps_def)
  next
    case routing
    then have q: "\<forall>x \<in> set (bs_subs ?b). s_busy x = None \<and> s_queue x = []" by (simp add: all_set_conv_all_nth)
    then have "bs_routes ?b \<noteq> []" using assms(2) by (auto simp: in_flight_def held_by_def)
    from work_put [OF b(2) this] q show ?thesis using that [of "Delivers 0"] by (simp add: drain_steps_def)
  qed
qed

lemma drain_steps_steady: "e \<in> drain_steps env \<Longrightarrow> steady (e_today env) e"
  by (auto simp: drain_steps_def)

lemma drain_steps_db: "e \<in> drain_steps env \<Longrightarrow> db_of (sys_app (system_step sv st e s)) = db_of (sys_app s)"
  using handle_event_only_announces(1)
  by (auto simp: drain_steps_def handled_def Let_def split: option.split prod.split) (metis fst_conv)

lemma comes_to_rest:
  assumes "kept_up sv (e_today env) (max_queue_size st) s"
  shows "\<exists>es. set es \<subseteq> drain_steps env \<and> length es \<le> work (w_bus (ap_world (sys_app s)))
    \<and> in_flight (w_bus (ap_world (sys_app (fold (system_step sv st) es s)))) = []
    \<and> db_of (sys_app (fold (system_step sv st) es s)) = db_of (sys_app s)"
  using assms
proof (induction "work (w_bus (ap_world (sys_app s)))" arbitrary: s rule: less_induct)
  case less
  show ?case
  proof (cases "in_flight (w_bus (ap_world (sys_app s))) = []")
    case True
    then show ?thesis by (intro exI [of _ "[]"]) simp
  next
    case False
    obtain e where e: "e \<in> drain_steps env"
      and w: "work (w_bus (ap_world (sys_app (system_step sv st e s)))) < work (w_bus (ap_world (sys_app s)))"
      using progress [OF less.prems False] by blast
    have "kept_up sv (e_today env) (max_queue_size st) (system_step sv st e s)"
      using kept_up_step [OF less.prems drain_steps_steady [OF e]] by simp
    from less.hyps [OF w this] obtain es where es: "set es \<subseteq> drain_steps env"
      "length es \<le> work (w_bus (ap_world (sys_app (system_step sv st e s))))"
      "in_flight (w_bus (ap_world (sys_app (fold (system_step sv st) es (system_step sv st e s))))) = []"
      "db_of (sys_app (fold (system_step sv st) es (system_step sv st e s))) = db_of (sys_app (system_step sv st e s))"
      by blast
    then show ?thesis
      using e w drain_steps_db [OF e, of sv st s] by (intro exI [of _ "e # es"]) simp
  qed
qed

section \<open>Properties\<close>

text \<open>
  Every change reaches its summaries. In any run of a day (requests other than bond edits, messages
  routed and dispatched, handlers and restarts, in any order, with any bound on the queues) the bus
  can come to rest without another request: a finite sequence of puts, takes and handlers, no longer
  than the work that is left, empties it. The database is then what it was, and every cached summary
  is what is computed from that database, unless it cannot be computed.
\<close>

theorem every_change_reaches_its_summary:
  assumes "system_run sv st (steady (e_today env)) (startup st db) s" and "db_ok db"
  shows "\<exists>es. set es \<subseteq> drain_steps env \<and> length es \<le> work (w_bus (ap_world (sys_app s)))
    \<and> in_flight (w_bus (ap_world (sys_app (fold (system_step sv st) es s)))) = []
    \<and> db_of (sys_app (fold (system_step sv st) es s)) = db_of (sys_app s)
    \<and> (\<forall>v x. map_of (ap_summaries (sys_app (fold (system_step sv st) es s))) v = Some x \<longrightarrow>
         current (sv_pow sv) (e_today env) (db_of (sys_app s)) v x)"
proof -
  have kept: "kept_up sv (e_today env) (max_queue_size st) s"
    by (rule day.ok_run [OF assms(1) kept_up_startup [OF assms(2)]])
  then obtain es where es: "set es \<subseteq> drain_steps env" "length es \<le> work (w_bus (ap_world (sys_app s)))"
    "in_flight (w_bus (ap_world (sys_app (fold (system_step sv st) es s)))) = []"
    "db_of (sys_app (fold (system_step sv st) es s)) = db_of (sys_app s)"
    using comes_to_rest [of sv env st s] by blast
  have "kept_up sv (e_today env) (max_queue_size st) (fold (system_step sv st) es s)"
    using es(1) drain_steps_steady by (intro day.ok_fold kept) blast
  then show ?thesis using es by (intro exI [of _ es]) (auto simp: kept_up_def awaited_def)
qed

theorem every_change_reaches_its_summary_witness:
  "\<exists>es. set es \<subseteq> drain_steps day_env \<and> in_flight (w_bus (ap_world (sys_app (fold (system_step one_server small) es
     (system_step one_server small (Requested delete_call (Some ''t'') (DeleteTransaction 2)) (startup small yearly_db)))))) = []"
proof -
  have "system_run one_server small (steady (e_today day_env)) (startup small yearly_db)
      (system_step one_server small (Requested delete_call (Some ''t'') (DeleteTransaction 2)) (startup small yearly_db))"
    by (rule run_step [OF run_start]) (simp add: delete_call_def)
  from every_change_reaches_its_summary [OF this yearly_db_ok] show ?thesis by blast
qed

lemma compute_summary_env:
  "e_now env' = e_now env \<Longrightarrow> compute_summary pw env' v d a db = compute_summary pw env v d a db"
  by (simp add: compute_summary_def)

lemma compute_summary_Inl_env:
  assumes "compute_summary pw env v d a db = Inl e" shows "\<exists>e. compute_summary pw env' v d a db = Inl e"
  using assms by (auto simp: compute_summary_def Let_def bind_result_Inl_iff split: sum.splits)

lemma current_computed:
  assumes "current pw d db v x" and "compute_summary pw env v d None db = Inr y"
  obtains now where "compute_summary pw (env\<lparr>e_now := now\<rparr>) v d None db = Inr x"
proof -
  from assms(1) obtain env' where "compute_summary pw env' v d None db = Inr x"
    unfolding current_def by (metis Inl_Inr_False assms(2) compute_summary_Inl_env)
  then have "compute_summary pw (env\<lparr>e_now := e_now env'\<rparr>) v d None db = Inr x"
    by (subst compute_summary_env [of _ env']) simp_all
  then show thesis by (rule that)
qed




text \<open>What may happen between the two halves of a read.\<close>

fun overtakes :: "event \<Rightarrow> bool" where
  "overtakes (ReadBegins env u) = False" | "overtakes (ReadEnds k) = False" | "overtakes Restarted = False"
| "overtakes _ = True"



end
