(* ===== verification/UiRuns.thy ===== *)
theory UiRuns
  imports UiApp Freshness
begin

text \<open>
  The pages as part of the running application. An event of an open page does to the application what one
  request of the REST interface by the same user does, or nothing, so whatever holds in every run of
  \<open>Application\<close> and \<open>Freshness\<close> holds in the runs in which browsers open pages and work with them, too.
\<close>

section \<open>Open pages\<close>

text \<open>
  What the browser sends to an open page. Submitting the login form asks for a token and leaves the
  application as it is, so it is no input here. \<open>RegisterClicked\<close> says whether the page came over HTTPS.
\<close>

datatype page_input =
    BrokersInput "(broker_form, broker_form) page_event"
  | AccountsInput "(new_account_form, edit_account_form) page_event"
  | OperationsInput "(operation_form, operation_form) page_event"
  | BondsInput "(new_bond_form, edit_bond_form) page_event"
  | IsinInput isin_event
  | TransactionsInput txn_event
  | HomeInput home_event
  | AnalyticsInput analytics_event
  | RegisterEdited register_form
  | RegisterClicked bool

text \<open>Widgets under an open dialog receive nothing.\<close>

definition crud_react ::
    "('s, 'e, 'r, 'c, 'u, 'n, 'm) crud_hooks \<Rightarrow> call \<Rightarrow> ('c, 'u) page_event
     \<Rightarrow> ('e, 'r, 'c, 'u) page \<times> 's \<Rightarrow> ('e, 'r, 'c, 'u) page \<times> 's" where
  "crud_react hk cl e ps = (if receives (fst ps) e then on_event hk cl e ps else ps)"

text \<open>The search of the create form asks the reference service of the application itself.\<close>

fun isin_event_of :: "server \<Rightarrow> call \<Rightarrow> isin_event \<Rightarrow> isin_event" where
  "isin_event_of sv cl (SearchEnds _ _) = SearchEnds sv cl"
| "isin_event_of sv cl e = e"

fun isin_receives :: "(bond_row, bond_line, new_bond_form, edit_bond_form) page \<Rightarrow> isin_event \<Rightarrow> bool" where
  "isin_receives p (Typed v) = pg_create_dialog p"
| "isin_receives p (Picked ref) =
     (pg_create_dialog p \<and> nf_candidates_visible (pg_create_form p) \<and> ref \<in> set (nf_candidates (pg_create_form p)))"
| "isin_receives p DebounceOver = True"
| "isin_receives p (SearchEnds _ _) = True"
| "isin_receives p _ = False"

definition isin_react ::
    "server \<Rightarrow> call \<Rightarrow> isin_event \<Rightarrow> (bond_row, bond_line, new_bond_form, edit_bond_form) page \<times> app
     \<Rightarrow> (bond_row, bond_line, new_bond_form, edit_bond_form) page \<times> app" where
  "isin_react sv cl e ps =
     (case ps of (p, s) \<Rightarrow>
      if \<not> isin_receives p e then (p, s)
      else case on_isin_event (rs_enabled (ap_references s)) (isin_event_of sv cl e) (pg_create_form p, s) of
             (f, s') \<Rightarrow> (p\<lparr>pg_create_form := f\<rparr>, s'))"

definition txn_react :: "call \<Rightarrow> txn_event \<Rightarrow> txns_page \<times> app \<Rightarrow> txns_page \<times> app" where
  "txn_react cl e ps = (if txn_receives (fst ps) e then on_txn_event cl e ps else ps)"

text \<open>An input that does not belong to the page that is open is ignored.\<close>

definition react ::
    "server \<Rightarrow> (string \<Rightarrow> json result) \<Rightarrow> call \<Rightarrow> int \<Rightarrow> page_input \<Rightarrow> view \<times> app \<Rightarrow> view \<times> app" where
  "react sv loads cl u i vs =
     (case vs of (v, s) \<Rightarrow>
      case (i, v) of
        (BrokersInput e, BrokersView p) \<Rightarrow> map_prod BrokersView id (crud_react brokers_page cl e (p, s))
      | (AccountsInput e, AccountsView bs p) \<Rightarrow> map_prod (AccountsView bs) id (crud_react (accounts_page u) cl e (p, s))
      | (OperationsInput e, OperationsView xs p) \<Rightarrow>
          map_prod (OperationsView xs) id (crud_react (operations_page u) cl e (p, s))
      | (BondsInput e, BondsView p) \<Rightarrow>
          map_prod BondsView id (crud_react (bonds_page (rs_enabled (ap_references s)) u) cl e (p, s))
      | (IsinInput e, BondsView p) \<Rightarrow> map_prod BondsView id (isin_react sv cl e (p, s))
      | (TransactionsInput e, TransactionsView p) \<Rightarrow> map_prod TransactionsView id (txn_react cl e (p, s))
      | (HomeInput e, HomeView p) \<Rightarrow> (HomeView (on_home_event e (p, s)), s)
      | (AnalyticsInput e, AnalyticsView p) \<Rightarrow> map_prod AnalyticsView id (on_analytics_event sv cl e (p, s))
      | (RegisterEdited f, RegisterView f') \<Rightarrow> (RegisterView f, s)
      | (RegisterClicked https, RegisterView f) \<Rightarrow> (RegisterView f, snd (handle_register sv loads https cl f s))
      | _ \<Rightarrow> (v, s))"

section \<open>An event is a request\<close>

text \<open>
  \<open>s'\<close> is \<open>s\<close> or what an endpoint makes of it. \<open>saves\<close> tells whether a bond may be edited. The text of a
  search is not bounded on the page as it is in the interface.
\<close>

definition page_request :: "request \<Rightarrow> bool" where
  "page_request req \<longleftrightarrow> request_ok req \<or> (\<exists>q. req = SearchBondReferences q ISIN_SEARCH_LIMIT)"

definition acts_as_request :: "server \<Rightarrow> int \<Rightarrow> bool \<Rightarrow> call \<Rightarrow> app \<Rightarrow> app \<Rightarrow> bool" where
  "acts_as_request sv u saves cl s s' \<longleftrightarrow> s' = s \<or>
     (\<exists>req. page_request req \<and> \<not> public_request req \<and> (edits_bond req \<longrightarrow> saves) \<and> s' = snd (endpoint sv cl u req s))"

lemma acts_idle [simp]: "acts_as_request sv u saves cl s s"
  by (simp add: acts_as_request_def)

lemma acts_requested:
  "request_ok req \<Longrightarrow> \<not> public_request req \<Longrightarrow> edits_bond req \<longrightarrow> saves \<Longrightarrow>
   acts_as_request sv u saves cl s (snd (endpoint sv cl u req s))"
  by (auto simp: acts_as_request_def page_request_def)

lemma snd_run [simp]: "snd (run f g s) = snd (on_world f s)"
  by (simp add: run_def on_world_def split: prod.split)

lemma dumped_given [simp]: "dumped (given x) = given x"
  by (simp add: given_def split: option.split)

lemma broker_dto_ok:
  "build_broker_create f = Inr n \<Longrightarrow> broker_create_ok n"
  "build_broker_update f = Inr m \<Longrightarrow> broker_update_ok m \<and> dumped_broker_update m = m"
  by (auto simp: build_broker_create_def build_broker_update_def Let_def dumped_broker_update_def bind_result_Inr_iff
      split: option.splits if_splits)

lemma account_dto_ok:
  "build_account_create f = Inr n \<Longrightarrow> account_create_ok n"
  "build_account_update g = Inr m \<Longrightarrow> account_update_ok m \<and> dumped_account_update m = m"
  by (auto simp: build_account_create_def build_account_update_def Let_def dumped_account_update_def bind_result_Inr_iff
      split: option.splits if_splits)

lemma bond_dto_ok:
  "build_bond_create f = Inr n \<Longrightarrow> bond_create_ok n" "build_bond_update g = Inr m \<Longrightarrow> bond_update_ok m"
  by (auto simp: build_bond_create_def build_bond_update_def Let_def bind_result_Inr_iff split: option.splits if_splits)

lemma acts_on_world:
  "endpoint sv cl u req s = run f g s \<Longrightarrow> request_ok req \<Longrightarrow> \<not> public_request req \<Longrightarrow> edits_bond req \<longrightarrow> saves \<Longrightarrow>
   acts_as_request sv u saves cl s (snd (on_world f s))"
  using acts_requested [of req saves sv u cl s] by simp

interpretation brokers_request: fair_page brokers_page "\<lambda>_. acts_as_request sv u False" for sv u
proof unfold_locales
  fix cl :: call and s i
  show "build_create_dto brokers_page c = Inr n \<Longrightarrow> acts_as_request sv u False cl s (snd (service_create brokers_page cl n s))" for c n
    by (auto simp: brokers_page_def create_broker_endpoint_def dest: broker_dto_ok intro!: acts_on_world [of _ _ _ "CreateBroker n"])
  show "build_update_dto brokers_page d = Inr m \<Longrightarrow> acts_as_request sv u False cl s (snd (service_update brokers_page cl i m s))" for d m
    by (auto simp: brokers_page_def update_broker_endpoint_def dest!: broker_dto_ok intro!: acts_on_world [of _ _ _ "UpdateBroker i m"])
  show "acts_as_request sv u False cl s (snd (service_delete brokers_page cl i s))"
    by (auto simp: brokers_page_def delete_broker_endpoint_def intro!: acts_on_world [of _ _ _ "DeleteBroker i"])
qed simp

interpretation accounts_request: fair_page "accounts_page u" "\<lambda>_. acts_as_request sv u False" for sv u
proof unfold_locales
  fix cl :: call and s i
  show "build_create_dto (accounts_page u) c = Inr n \<Longrightarrow> acts_as_request sv u False cl s (snd (service_create (accounts_page u) cl n s))" for c n
    by (auto simp: accounts_page_def create_broker_account_def dest: account_dto_ok intro!: acts_on_world [of _ _ _ "CreateBrokerAccount n"])
  show "build_update_dto (accounts_page u) d = Inr m \<Longrightarrow> acts_as_request sv u False cl s (snd (service_update (accounts_page u) cl i m s))" for d m
    by (auto simp: accounts_page_def update_broker_account_def dest!: account_dto_ok intro!: acts_on_world [of _ _ _ "UpdateBrokerAccount i m"])
  show "acts_as_request sv u False cl s (snd (service_delete (accounts_page u) cl i s))"
    by (auto simp: accounts_page_def delete_broker_account_def intro!: acts_on_world [of _ _ _ "DeleteBrokerAccount i"])
qed simp

interpretation operations_request: fair_page "operations_page u" "\<lambda>_. acts_as_request sv u False" for sv u
proof unfold_locales
  fix cl :: call and s i
  show "build_create_dto (operations_page u) c = Inr n \<Longrightarrow> acts_as_request sv u False cl s (snd (service_create (operations_page u) cl n s))" for c n
    by (auto simp: operations_page_def create_account_operation_def dest: operation_dto_ok intro!: acts_on_world [of _ _ _ "CreateAccountOperation n"])
  show "build_update_dto (operations_page u) d = Inr m \<Longrightarrow> acts_as_request sv u False cl s (snd (service_update (operations_page u) cl i m s))" for d m
    by (auto simp: operations_page_def update_account_operation_def dest!: operation_dto_ok intro!: acts_on_world [of _ _ _ "UpdateAccountOperation i m"])
  show "acts_as_request sv u False cl s (snd (service_delete (operations_page u) cl i s))"
    by (auto simp: operations_page_def delete_account_operation_def intro!: acts_on_world [of _ _ _ "DeleteAccountOperation i"])
qed simp

lemma snd_create_bond_endpoint [simp]: "snd (create_bond_endpoint cl u n s) = snd (service_create_bond u cl n s)"
  by (simp add: create_bond_endpoint_def service_create_bond_def run_def on_world_def split: prod.split sum.split)

interpretation bonds_request: fair_page "bonds_page en u" "acts_as_request sv u" for sv en u
proof unfold_locales
  fix cl :: call and s i
  show "build_create_dto (bonds_page en u) c = Inr n \<Longrightarrow> acts_as_request sv u False cl s (snd (service_create (bonds_page en u) cl n s))" for c n
    using acts_requested [of "CreateBond n" False sv u cl s] by (auto simp: bonds_page_def dest: bond_dto_ok)
  show "build_update_dto (bonds_page en u) d = Inr m \<Longrightarrow> acts_as_request sv u True cl s (snd (service_update (bonds_page en u) cl i m s))" for d m
    by (auto simp: bonds_page_def update_bond_endpoint_def dest!: bond_dto_ok intro!: acts_on_world [of _ _ _ "UpdateBond i m"])
  show "acts_as_request sv u False cl s (snd (service_delete (bonds_page en u) cl i s))"
    by (auto simp: bonds_page_def delete_bond_endpoint_def intro!: acts_on_world [of _ _ _ "DeleteBond i"])
qed simp

lemma txn_services_request:
  "txn_create_of v = Inr n \<Longrightarrow> acts_as_request sv u saves cl s (snd (on_world (add_transaction (cl_env cl) u n) s))"
  "txn_update_of v = Inr m \<Longrightarrow> acts_as_request sv u saves cl s (snd (on_world (update_transaction (cl_env cl) m i u) s))"
  "acts_as_request sv u saves cl s (snd (on_world (delete_transaction (cl_env cl) i u) s))"
proof -
  show "txn_create_of v = Inr n \<Longrightarrow> acts_as_request sv u saves cl s (snd (on_world (add_transaction (cl_env cl) u n) s))"
    by (auto simp: create_transaction_def dest: txn_dto_ok intro!: acts_on_world [of _ _ _ "CreateTransaction n"])
  show "txn_update_of v = Inr m \<Longrightarrow> acts_as_request sv u saves cl s (snd (on_world (update_transaction (cl_env cl) m i u) s))"
    by (auto simp: update_transaction_endpoint_def dest: txn_dto_ok intro!: acts_on_world [of _ _ _ "UpdateTransaction i m"])
  show "acts_as_request sv u saves cl s (snd (on_world (delete_transaction (cl_env cl) i u) s))"
    by (auto simp: delete_transaction_endpoint_def intro!: acts_on_world [of _ _ _ "DeleteTransaction i"])
qed

lemma txn_event_request: "acts_as_request sv (xs_user_id p) False cl s (snd (on_txn_event cl e (p, s)))"
proof -
  have outcomes:
    "txn_create_of v = Inr n \<Longrightarrow> on_world (add_transaction (cl_env cl) u n) s = (r, s') \<Longrightarrow> acts_as_request sv u False cl s s'"
    "txn_update_of v = Inr m \<Longrightarrow> on_world (update_transaction (cl_env cl) m i u) s = (q, s') \<Longrightarrow> acts_as_request sv u False cl s s'"
    "on_world (delete_transaction (cl_env cl) i u) s = (b, s') \<Longrightarrow> acts_as_request sv u False cl s s'" for v n u r s' m i q b
    using txn_services_request [where s = s] by (metis snd_conv)+
  show ?thesis
    by (cases e)
      (auto simp: create_txn_def update_txn_def confirm_delete_txn_def Let_def intro: outcomes
        split: option.split sum.split prod.split)
qed

lemma isin_event_request: "acts_as_request sv u False cl s (snd (on_isin_event en (isin_event_of sv cl e) (f, s)))"
proof (cases "(\<exists>sv' cl'. e = SearchEnds sv' cl') \<and> (\<exists>q. nf_search f = Some (q, Asking))")
  case True
  then obtain q where q: "nf_search f = Some (q, Asking)" and e: "isin_event_of sv cl e = SearchEnds sv cl" by auto
  have "snd (run_isin_search sv cl (f, s)) = snd (endpoint sv cl u (SearchBondReferences q ISIN_SEARCH_LIMIT) s)"
    by (simp add: run_isin_search_def q search_bond_references_def Let_def split: prod.split)
  then show ?thesis unfolding e acts_as_request_def page_request_def
    by (intro disjI2 exI [of _ "SearchBondReferences q ISIN_SEARCH_LIMIT"]) simp
next
  case False
  then show ?thesis by (cases e) (auto simp: run_isin_search_def split: option.split search_phase.split)
qed

lemma reload_analytics_request: "acts_as_request sv (np_user_id p) False cl s (snd (reload_analytics sv cl (p, s)))"
proof (cases "query_ok (page_query p)")
  case True
  have "snd (reload_analytics sv cl (p, s)) = snd (endpoint sv cl (np_user_id p) (GetPortfolio (page_query p)) s)"
    by (simp add: reload_analytics_def get_portfolio_def page_query_def split: prod.split sum.split)
  then show ?thesis using acts_requested [of "GetPortfolio (page_query p)" False sv "np_user_id p" cl s] True by simp
next
  case False
  then show ?thesis by (simp add: reload_analytics_def get_portfolio_summary_def split: prod.split sum.split)
qed

lemma analytics_event_request: "acts_as_request sv (np_user_id p) False cl s (snd (on_analytics_event sv cl e (p, s)))"
  using reload_analytics_request [of sv p cl s] reload_analytics_request [of sv "p\<lparr>np_account := a\<rparr>" cl s for a]
  by (cases e) simp_all

text \<open>Registration, the one request of a page that needs no token.\<close>

lemma register_request:
  "snd (handle_register sv loads https cl f s) = s
   \<or> (\<exists>name pw. request_ok (RegisterUser name pw)
        \<and> snd (handle_register sv loads https cl f s) = snd (endpoint sv cl u (RegisterUser name pw) s))"
proof -
  have bad: "snd (register (sv_hashpw sv) (cl_salt cl) (cl_env cl) name pw w) = w" if "isl (utf8 pw)" for name pw w
    using that by (auto simp: register_def split: sum.splits)
  have "snd (on_world (register (sv_hashpw sv) (cl_salt cl) (cl_env cl) name pw) s) = s" if "isl (utf8 pw)" for name pw
    using bad [OF that, of name "ap_world s"] by (auto simp: on_world_def split: prod.split)
  then have one: "snd (on_world (register (sv_hashpw sv) (cl_salt cl) (cl_env cl) name pw) s) = s
      \<or> request_ok (RegisterUser name pw)" for name pw
    by auto
  have "snd (handle_register sv loads https cl f s) = s
      \<or> (\<exists>name pw. snd (handle_register sv loads https cl f s)
          = snd (on_world (register (sv_hashpw sv) (cl_salt cl) (cl_env cl) name pw) s))"
    by (auto simp: handle_register_def split: option.split prod.split sum.split) (metis snd_conv)+
  then show ?thesis using one by (simp add: register_user_def del: request_ok.simps) metis
qed

lemma crud_react_request:
  "acts_as_request sv u saves cl s (snd (on_event hk cl e (p, s))) \<Longrightarrow> acts_as_request sv u saves cl s (snd (crud_react hk cl e (p, s)))"
  by (simp add: crud_react_def)

lemma page_reactions:
  "acts_as_request sv u False cl s (snd (crud_react brokers_page cl b (p1, s)))"
  "acts_as_request sv u False cl s (snd (crud_react (accounts_page u) cl a (p2, s)))"
  "acts_as_request sv u False cl s (snd (crud_react (operations_page u) cl q (p3, s)))"
  "acts_as_request sv u (d = SaveClicked) cl s (snd (crud_react (bonds_page en u) cl d (p4, s)))"
  "acts_as_request sv u False cl s (snd (isin_react sv cl e (p4, s)))"
  "acts_as_request sv (xs_user_id p5) False cl s (snd (txn_react cl t (p5, s)))"
proof -
  show "acts_as_request sv u False cl s (snd (crud_react brokers_page cl b (p1, s)))"
    by (rule crud_react_request) (rule brokers_request.event_fair)
  show "acts_as_request sv u False cl s (snd (crud_react (accounts_page u) cl a (p2, s)))"
    by (rule crud_react_request) (rule accounts_request.event_fair)
  show "acts_as_request sv u False cl s (snd (crud_react (operations_page u) cl q (p3, s)))"
    by (rule crud_react_request) (rule operations_request.event_fair)
  show "acts_as_request sv u (d = SaveClicked) cl s (snd (crud_react (bonds_page en u) cl d (p4, s)))"
    by (rule crud_react_request) (rule bonds_request.event_fair)
  show "acts_as_request sv u False cl s (snd (isin_react sv cl e (p4, s)))"
    using isin_event_request [of sv u cl s "rs_enabled (ap_references s)" e "pg_create_form p4"]
    by (simp add: isin_react_def split: prod.split) auto
  show "acts_as_request sv (xs_user_id p5) False cl s (snd (txn_react cl t (p5, s)))"
    using txn_event_request [of sv p5 cl s t] by (simp add: txn_react_def)
qed

lemma react_request:
  assumes "asks_for v \<in> {None, Some u}" and "\<nexists>f. v = RegisterView f"
  shows "acts_as_request sv u (i = BondsInput SaveClicked) cl s (snd (react sv loads cl u i (v, s)))"
  using assms page_reactions analytics_event_request
  by (auto simp: react_def split: page_input.splits view.splits prod.splits)

text \<open>
  C5. The pages are clients of the same rules as the REST interface. An event of any open page of a user changes
  the application exactly as one request of the interface by the same user would (with validated parameters, up to
  the unbounded text of a reference search), or not at all. Only the registration form makes a request that
  needs no token, and only the save button of the page of bonds edits a bond.
\<close>

theorem pages_act_as_requests:
  assumes "shows_only u v" and "react sv loads cl u i (v, s) = (v', s')"
  shows "s' = s \<or> (\<exists>req. s' = snd (endpoint sv cl u req s) \<and> page_request req
    \<and> (public_request req \<longrightarrow> (\<exists>f https. v = RegisterView f \<and> i = RegisterClicked https))
    \<and> (edits_bond req \<longrightarrow> i = BondsInput SaveClicked))"
proof -
  have lift: "?thesis" if "acts_as_request sv u saves cl s s'" "saves \<longrightarrow> i = BondsInput SaveClicked" for saves
    using that unfolding acts_as_request_def by blast
  show ?thesis
  proof (cases "\<exists>f. v = RegisterView f")
    case True
    then obtain f where f: "v = RegisterView f" by blast
    show ?thesis
    proof (cases "\<exists>https. i = RegisterClicked https")
      case True
      then obtain https where i: "i = RegisterClicked https" by blast
      then have s': "s' = snd (handle_register sv loads https cl f s)" using assms(2) f by (simp add: react_def)
      from register_request [of sv loads https cl f s u] consider "s' = s"
        | name pw where "request_ok (RegisterUser name pw)" "s' = snd (endpoint sv cl u (RegisterUser name pw) s)"
        using s' by metis
      then show ?thesis
      proof cases
        case 2
        then show ?thesis
          using f i by (intro disjI2 exI [of _ "RegisterUser name pw"]) (simp add: page_request_def del: endpoint.simps)
      qed simp
    next
      case False
      then have "s' = s" using assms(2) f by (cases i) (auto simp: react_def)
      then show ?thesis by simp
    qed
  next
    case False
    have "asks_for v \<in> {None, Some u}" using assms(1) by (cases "asks_for v") (auto simp: shows_only_def)
    from react_request [OF this False, of sv i cl s loads] show ?thesis using assms(2) lift by simp
  qed
qed

definition ready_page :: txns_page where
  "ready_page = (render_transactions 1 one_app)\<lparr>xs_create := sample_form, xs_create_dialog := True\<rparr>"

lemma ready_page_own: "shows_only 1 (TransactionsView ready_page)"
proof -
  have "render_protected one_server (one_call 9) ''/transactions'' one_app \<lparr>tp_user_id = 1, tp_username = JNull, tp_expires_at = 0\<rparr>
      = Some (TransactionsView (render_transactions 1 one_app), one_app)"
    by (simp add: render_protected_def)
  from render_protected_own(1) [OF this] show ?thesis by (simp add: shows_only_def ready_page_def)
qed

lemma ready_page_sells: "map t_price (transactions (db_of (snd (react one_server (\<lambda>_. Inl ValueError) (one_call 9) 1
    (TransactionsInput TxnReady) (TransactionsView ready_page, one_app))))) = [990, 990, 990, 1010]"
  by code_simp

theorem pages_act_as_requests_witness:
  "\<exists>req. page_request req \<and> \<not> edits_bond req
     \<and> map t_price (transactions (db_of (snd (endpoint one_server (one_call 9) 1 req one_app)))) = [990, 990, 990, 1010]"
proof -
  obtain v' s' where r: "react one_server (\<lambda>_. Inl ValueError) (one_call 9) 1 (TransactionsInput TxnReady)
      (TransactionsView ready_page, one_app) = (v', s')" by fastforce
  have "map t_price (transactions (db_of s')) = [990, 990, 990, 1010]" using ready_page_sells unfolding r by simp
  moreover have "map t_price (transactions (db_of one_app)) \<noteq> [990, 990, 990, 1010]"
    by (simp add: one_app_def sample_world_def sample_db_def sample_holding_def)
  ultimately show ?thesis using pages_act_as_requests [OF ready_page_own r] by auto
qed

section \<open>Pages keep to their user\<close>

text \<open>The cache of a page is what a load has put there.\<close>

definition loaded :: "('s, 'e, 'r, 'c, 'u, 'n, 'm) crud_hooks \<Rightarrow> (int \<times> 'e) list \<Rightarrow> bool" where
  "loaded hk cache \<longleftrightarrow> cache = [] \<or> (\<exists>s xs rows. load_rows hk s = Inr (xs, rows) \<and> cache = cache_of (entity_id hk) xs)"

lemma loaded_page [simp]:
  "loaded hk (pg_cache p) \<Longrightarrow> loaded hk (pg_cache (reload hk s p))"
  "pg_cache (show_edit_form hk x p) = pg_cache p"
proof -
  show "loaded hk (pg_cache p) \<Longrightarrow> loaded hk (pg_cache (reload hk s p))"
    by (cases "load_rows hk s") (auto simp: reload_def, auto simp: loaded_def)
qed (simp add: show_edit_form_def)

lemma loaded_select: "on_table_select hk args p = Inr q \<Longrightarrow> pg_cache q = pg_cache p"
  by (auto simp: on_table_select_def bind_result_Inr_iff split: option.splits)

lemma loaded_event: "loaded hk (pg_cache p) \<Longrightarrow> loaded hk (pg_cache (fst (on_event hk cl e (p, s))))"
  by (cases e)
    (auto simp: handle_create_def handle_update_def handle_delete_def confirm_delete_def open_create_dialog_def Let_def
      dest: loaded_select split: option.split sum.split prod.split bool.split)

lemma loaded_react: "loaded hk (pg_cache p) \<Longrightarrow> loaded hk (pg_cache (fst (crud_react hk cl e (p, s))))"
  by (simp add: crud_react_def loaded_event)

lemma loaded_open: "loaded hk (pg_cache (open_page hk c u s))"
  unfolding open_page_def by (rule loaded_page) (simp add: loaded_def)

definition loaded_txns :: "int \<Rightarrow> txns_page \<Rightarrow> bool" where
  "loaded_txns u p \<longleftrightarrow> xs_user_id p = u \<and>
     (xs_cache p = [] \<or> (\<exists>db. xs_cache p = cache_of t_id (list_transactions u None None db)))"

lemma loaded_frame: "txns_frame p = txns_frame q \<Longrightarrow> loaded_txns u p = loaded_txns u q"
  by (simp add: txns_frame_def loaded_txns_def)

lemma loaded_txns_page [simp]:
  "loaded_txns u (tell n p) = loaded_txns u p" "loaded_txns u (update_create s p) = loaded_txns u p"
  "loaded_txns u (update_edit s p) = loaded_txns u p" "loaded_txns u (reset_create s p) = loaded_txns u p"
  "loaded_txns u (p\<lparr>xs_create_dialog := b\<rparr>) = loaded_txns u p" "loaded_txns u (p\<lparr>xs_edit_dialog := b\<rparr>) = loaded_txns u p"
  "loaded_txns u (p\<lparr>xs_confirm_dialog := b\<rparr>) = loaded_txns u p"
  "loaded_txns u (p\<lparr>xs_create := f\<rparr>) = loaded_txns u p" "loaded_txns u (p\<lparr>xs_edit := f\<rparr>) = loaded_txns u p"
  "loaded_txns u (p\<lparr>xs_selected_id := i\<rparr>) = loaded_txns u p" "loaded_txns u (p\<lparr>xs_confirm_message := m\<rparr>) = loaded_txns u p"
  by (rule loaded_frame, simp)+ (simp_all add: loaded_txns_def)

lemma loaded_txns_reload: "loaded_txns u p \<Longrightarrow> loaded_txns u (reload_txns s p)"
  by (auto simp: loaded_txns_def reload_txns_def load_txn_rows_def Let_def)

lemma loaded_row_click: "loaded_txns u p \<Longrightarrow> on_row_click args s p = Inr q \<Longrightarrow> loaded_txns u q"
  by (auto simp: on_row_click_def bind_result_Inr_iff split: option.splits)

lemma loaded_txn_event: "loaded_txns u p \<Longrightarrow> loaded_txns u (fst (on_txn_event cl e (p, s)))"
  by (cases e)
    (auto simp: create_txn_def update_txn_def confirm_delete_txn_def ask_delete_txn_def open_txn_dialog_def Let_def
      intro!: loaded_txns_reload intro: loaded_row_click split: option.split sum.split prod.split)

text \<open>The page of a user: its cache holds what a load for that user gives, and it asks for that user.\<close>

fun page_of :: "int \<Rightarrow> view \<Rightarrow> bool" where
  "page_of u (AccountsView bs p) = loaded (accounts_page u) (pg_cache p)"
| "page_of u (OperationsView xs p) = loaded (operations_page u) (pg_cache p)"
| "page_of u (TransactionsView p) = loaded_txns u p"
| "page_of u (HomeView p) = (hp_user_id p = u)"
| "page_of u (AnalyticsView p) = (np_user_id p = u)"
| "page_of u _ = True"

lemma page_of_shows: "page_of u v \<Longrightarrow> shows_only u v"
proof (cases v)
  case (AccountsView bs p)
  have "a_user_id (d_account x) = u" if "page_of u v" "(i, x) \<in> set (pg_cache p)" for i x
    using that AccountsView set_cache_of listed_account(2)
    by (fastforce simp: loaded_def accounts_page_def load_accounts_def Let_def)
  then show "page_of u v \<Longrightarrow> shows_only u v" using AccountsView by (auto simp: shows_only_def)
next
  case (OperationsView xs p)
  have "o_user_id x = u" if "page_of u v" "(i, x) \<in> set (pg_cache p)" for i x
    using that OperationsView set_cache_of
    by (fastforce simp: loaded_def operations_page_def load_operations_def Let_def list_ops_for_user_def)
  then show "page_of u v \<Longrightarrow> shows_only u v" using OperationsView by (auto simp: shows_only_def)
next
  case (TransactionsView p)
  have "t_user_id x = u" if "page_of u v" "(i, x) \<in> set (xs_cache p)" for i x
    using that TransactionsView set_cache_of by (fastforce simp: loaded_txns_def list_transactions_def)
  then show "page_of u v \<Longrightarrow> shows_only u v" using TransactionsView by (auto simp: shows_only_def loaded_txns_def)
qed (simp_all add: shows_only_def)

lemma reload_analytics_user: "np_user_id (fst (reload_analytics sv cl (p, s))) = np_user_id p"
  by (simp add: reload_analytics_def split: prod.split sum.split)

lemma reload_home_user [simp]: "hp_user_id (reload_home s p) = hp_user_id p"
  by (simp add: reload_home_def)

lemma event_users [simp]:
  "hp_user_id (on_home_event h (p, s)) = hp_user_id p"
  "np_user_id (fst (on_analytics_event sv cl a (q, s))) = np_user_id q"
  by (cases h; simp) (cases a; simp add: reload_analytics_user)

lemma react_page: "page_of u v \<Longrightarrow> page_of u (fst (react sv loads cl u i (v, s)))"
  by (cases i; cases v) (simp_all add: react_def loaded_react txn_react_def loaded_txn_event)

lemma rendered_page:
  assumes "render_protected sv cl path s user = Some (v, s')" shows "page_of (tp_user_id user) v"
proof -
  have "loaded_txns u (render_transactions u s)" for u
    unfolding render_transactions_def Let_def by (rule loaded_txns_reload) (simp add: loaded_txns_def)
  moreover have "hp_user_id (render_home u s) = u" "np_user_id (fst (render_analytics sv cl u s)) = u" for u
    by (simp_all add: render_home_def render_analytics_def reload_analytics_user)
  ultimately show ?thesis
    using assms
    by (auto simp: render_protected_def Let_def render_accounts_def render_operations_def loaded_open split: if_splits prod.splits)
      (metis fst_conv)
qed

section \<open>The application with its pages\<close>

text \<open>\<open>ui_pages\<close> are the open pages, each with the user it was opened for; 0 where a page needs no user.\<close>

record ui_system =
  ui_core :: system
  ui_pages :: "(int \<times> view) list"

text \<open>
  What can happen: whatever happens to the application without pages; a browser opens a path with the cookie it
  has; an open page receives an input; a browser leaves a page. A restart ends all pages.
\<close>

datatype ui_event =
    Core event
  | Opens call "string option" string
  | Inputs nat call page_input
  | Closes nat

definition visitor :: "server \<Rightarrow> call \<Rightarrow> string option \<Rightarrow> int" where
  "visitor sv cl cookie =
     (case get_current_user sv (e_now (cl_env cl)) cookie of Inr (Some user, _) \<Rightarrow> tp_user_id user | _ \<Rightarrow> 0)"

fun ui_step :: "server \<Rightarrow> (string \<Rightarrow> json result) \<Rightarrow> settings \<Rightarrow> ui_event \<Rightarrow> ui_system \<Rightarrow> ui_system" where
  "ui_step sv loads st (Core e) x =
     \<lparr>ui_core = system_step sv st e (ui_core x), ui_pages = (case e of Restarted \<Rightarrow> [] | _ \<Rightarrow> ui_pages x)\<rparr>"
| "ui_step sv loads st (Opens cl cookie path) x =
     (case visit sv cl cookie path (sys_app (ui_core x)) of
        (opened, a) \<Rightarrow>
          \<lparr>ui_core = (ui_core x)\<lparr>sys_app := a\<rparr>,
           ui_pages = ui_pages x @ (case opened of Some (Inr (Some v, _)) \<Rightarrow> [(visitor sv cl cookie, v)] | _ \<Rightarrow> [])\<rparr>)"
| "ui_step sv loads st (Inputs k cl i) x =
     (if k < length (ui_pages x)
      then case ui_pages x ! k of
             (u, v) \<Rightarrow>
               (case react sv loads cl u i (v, sys_app (ui_core x)) of
                  (v', a) \<Rightarrow> \<lparr>ui_core = (ui_core x)\<lparr>sys_app := a\<rparr>, ui_pages = (ui_pages x)[k := (u, v')]\<rparr>)
      else x)"
| "ui_step sv loads st (Closes k) x = x\<lparr>ui_pages := take k (ui_pages x) @ drop (Suc k) (ui_pages x)\<rparr>"

inductive ui_run :: "server \<Rightarrow> (string \<Rightarrow> json result) \<Rightarrow> settings \<Rightarrow> (ui_event \<Rightarrow> bool) \<Rightarrow> ui_system \<Rightarrow> ui_system \<Rightarrow> bool"
  for sv loads st P x0 where
  ui_start: "ui_run sv loads st P x0 x0"
| ui_next: "ui_run sv loads st P x0 x \<Longrightarrow> P e \<Longrightarrow> ui_run sv loads st P x0 (ui_step sv loads st e x)"

definition no_pages :: "system \<Rightarrow> ui_system" where
  "no_pages s = \<lparr>ui_core = s, ui_pages = []\<rparr>"

text \<open>
  The events of a run: \<open>P\<close> are those of the application, \<open>Q\<close> what is allowed of the calls of pages, \<open>saves\<close> whether
  bonds may be edited.
\<close>

fun ui_allowed :: "(event \<Rightarrow> bool) \<Rightarrow> (call \<Rightarrow> bool) \<Rightarrow> bool \<Rightarrow> ui_event \<Rightarrow> bool" where
  "ui_allowed P Q saves (Core e) = P e"
| "ui_allowed P Q saves (Opens cl cookie path) = Q cl"
| "ui_allowed P Q saves (Inputs k cl i) = (Q cl \<and> (i = BondsInput SaveClicked \<longrightarrow> saves))"
| "ui_allowed P Q saves (Closes k) = True"

definition ui_ok :: "(system \<Rightarrow> bool) \<Rightarrow> ui_system \<Rightarrow> bool" where
  "ui_ok ok x \<longleftrightarrow> ok (ui_core x) \<and> (\<forall>(u, v) \<in> set (ui_pages x). page_of u v)"

lemma visit_request: "acts_as_request sv (visitor sv cl cookie) False cl s (snd (visit sv cl cookie path s))"
proof -
  have "acts_as_request sv u False cl s (snd (render_analytics sv cl u s))" for u
    unfolding render_analytics_def
    using reload_analytics_request [of sv "\<lparr>np_user_id = u, np_account = a, np_horizon = b, np_limit = c, np_cashflows_horizon = d,
      np_cashflows_limit = e, np_totals = t, np_positions = ps, np_coupons = cs, np_cashflows = fs, np_notices = ns\<rparr>" cl s
      for a b c d e t ps cs fs ns] by simp
  then have "acts_as_request sv (tp_user_id user) False cl s s'"
    if "render_protected sv cl path s user = Some (v, s')" for user v s'
    using that by (auto simp: render_protected_def Let_def split: if_splits prod.splits) (metis snd_conv)
  then show ?thesis
    by (auto simp: visit_def handle_page_def visitor_def bind_result_Inr_iff
        split: sum.split option.split prod.split)
qed

lemma visited_page:
  assumes "visit sv cl cookie path s = (Some (Inr (Some v, effects)), s')" shows "page_of (visitor sv cl cookie) v"
  using assms rendered_page
  by (auto simp: visit_def handle_page_def visitor_def bind_result_Inr_iff split: if_splits sum.splits option.splits prod.splits)

text \<open>An invariant of the application that the requests of any user keep is kept by the pages.\<close>

locale page_invariant = run_invariant sv st P ok for sv :: server and st :: settings and P :: "event \<Rightarrow> bool" and ok :: "system \<Rightarrow> bool" +
  fixes Q :: "call \<Rightarrow> bool" and saves :: bool
  assumes ok_request: "ok s \<Longrightarrow> Q cl \<Longrightarrow> request_ok req \<Longrightarrow> (edits_bond req \<longrightarrow> saves) \<Longrightarrow>
      ok (s\<lparr>sys_app := snd (endpoint sv cl u req (sys_app s))\<rparr>)"
    and ok_references: "ok s \<Longrightarrow> ok (s\<lparr>sys_app := (sys_app s)\<lparr>ap_references := refs\<rparr>\<rparr>)"
begin

lemma ok_page_request:
  assumes "ok s" and "Q cl" and "page_request req" and "edits_bond req \<longrightarrow> saves"
  shows "ok (s\<lparr>sys_app := snd (endpoint sv cl u req (sys_app s))\<rparr>)"
proof (cases "request_ok req")
  case False
  then obtain q where "req = SearchBondReferences q ISIN_SEARCH_LIMIT" using assms(3) by (auto simp: page_request_def)
  then show ?thesis using ok_references [OF assms(1)] by (simp add: search_bond_references_def split: prod.split)
qed (use assms ok_request in blast)

lemma ok_acts:
  assumes "ok s" and "Q cl" and "acts_as_request sv u b cl (sys_app s) a" and "b \<longrightarrow> saves"
  shows "ok (s\<lparr>sys_app := a\<rparr>)"
  using assms ok_page_request by (auto simp: acts_as_request_def)

lemma ok_react:
  assumes "ok s" and "Q cl" and "i = BondsInput SaveClicked \<longrightarrow> saves" and "page_of u v"
  shows "ok (s\<lparr>sys_app := snd (react sv loads cl u i (v, sys_app s))\<rparr>)"
proof (cases "\<exists>f. v = RegisterView f")
  case True
  then obtain f where f: "v = RegisterView f" by blast
  have "snd (react sv loads cl u i (v, sys_app s)) \<in> {sys_app s} \<union> {snd (handle_register sv loads https cl f (sys_app s)) |https. True}"
    using f by (cases i) (auto simp: react_def)
  moreover have "ok (s\<lparr>sys_app := snd (handle_register sv loads https cl f (sys_app s))\<rparr>)" for https
    using register_request [of sv loads https cl f "sys_app s" u] assms(1,2) ok_request
    by (metis edits_bond.simps(2) system.surjective system.update_convs(1))
  ultimately show ?thesis using assms(1) by auto
next
  case False
  have "asks_for v \<in> {None, Some u}"
    using page_of_shows [OF assms(4)] by (cases "asks_for v") (auto simp: shows_only_def)
  from ok_acts [OF assms(1,2) react_request [OF this False]] assms(3) show ?thesis by blast
qed

lemma ui_ok_step:
  assumes "ui_ok ok x" and "ui_allowed P Q saves e" shows "ui_ok ok (ui_step sv loads st e x)"
proof (cases e)
  case (Core e)
  then show ?thesis using assms ok_step by (auto simp: ui_ok_def split: event.split)
next
  case (Opens cl cookie path)
  obtain r a where v: "visit sv cl cookie path (sys_app (ui_core x)) = (r, a)" by fastforce
  have "ok ((ui_core x)\<lparr>sys_app := a\<rparr>)"
    using ok_acts [OF _ _ visit_request [of sv cl cookie "sys_app (ui_core x)" path]] assms Opens by (simp add: ui_ok_def v)
  then show ?thesis using assms(1) Opens v visited_page [of sv cl cookie path "sys_app (ui_core x)"]
    by (auto simp: ui_ok_def split: option.splits sum.splits prod.splits)
next
  case (Inputs k cl i)
  show ?thesis
  proof (cases "k < length (ui_pages x)")
    case True
    obtain u v where uv: "ui_pages x ! k = (u, v)" by fastforce
    then have p: "page_of u v" using assms(1) True nth_mem by (fastforce simp: ui_ok_def)
    obtain v' a where r: "react sv loads cl u i (v, sys_app (ui_core x)) = (v', a)" by fastforce
    have "page_of u v'" using react_page [OF p, of sv loads cl i "sys_app (ui_core x)"] r by simp
    moreover have "ok ((ui_core x)\<lparr>sys_app := a\<rparr>)"
      using ok_react [OF _ _ _ p, of "ui_core x" cl i loads] assms Inputs r by (simp add: ui_ok_def)
    ultimately show ?thesis using assms(1) Inputs True uv r set_update_subset_insert [of "ui_pages x" k "(u, v')"]
      by (auto simp: ui_ok_def)
  qed (use assms Inputs in simp)
next
  case (Closes k)
  then show ?thesis using assms(1) by (auto simp: ui_ok_def dest: in_set_takeD in_set_dropD)
qed

lemma ui_ok_run:
  "ui_run sv loads st (ui_allowed P Q saves) x0 x \<Longrightarrow> ui_ok ok x0 \<Longrightarrow> ui_ok ok x"
  by (induction rule: ui_run.induct) (auto intro: ui_ok_step)

end

interpretation any_page: page_invariant sv st P "system_ok (max_queue_size st)" "\<lambda>_. True" True for sv st P
proof unfold_locales
  show "system_ok (max_queue_size st) s \<Longrightarrow> request_ok req \<Longrightarrow>
      system_ok (max_queue_size st) (s\<lparr>sys_app := snd (endpoint sv cl u req (sys_app s))\<rparr>)" for s req cl u
    by (rule system_ok_endpoint)
qed (simp_all add: system_ok_def)

interpretation day_page: page_invariant sv st "steady d" "kept_up sv d (max_queue_size st)" "\<lambda>cl. e_today (cl_env cl) = d" False
  for sv st d
proof unfold_locales
  show "kept_up sv d (max_queue_size st) s \<Longrightarrow> e_today (cl_env cl) = d \<Longrightarrow> request_ok req \<Longrightarrow> edits_bond req \<longrightarrow> False \<Longrightarrow>
      kept_up sv d (max_queue_size st) (s\<lparr>sys_app := snd (endpoint sv cl u req (sys_app s))\<rparr>)" for s req cl u
    by (rule kept_up_endpoint) simp_all
qed (simp_all add: kept_up_def system_ok_def)

lemma start_ui_ok:
  assumes "db_ok db"
  shows "ui_ok (system_ok (max_queue_size st)) (no_pages (startup st db))"
    and "ui_ok (kept_up sv d (max_queue_size st)) (no_pages (startup st db))"
  using system_ok_startup [OF assms] kept_up_startup [OF assms] by (simp_all add: ui_ok_def no_pages_def)


lemma ui_run_fold:
  "ui_run sv loads st P x0 x \<Longrightarrow> \<forall>e \<in> set es. P e \<Longrightarrow> ui_run sv loads st P x0 (fold (ui_step sv loads st) es x)"
  by (induction es arbitrary: x) (auto intro: ui_next)

text \<open>User 1 opens the page of transactions, chooses the only one, and deletes it.\<close>

definition delete_on_page :: "ui_event list" where
  "delete_on_page = Opens delete_call (Some ''t'') ''/transactions'' # map (\<lambda>e. Inputs 0 delete_call (TransactionsInput e))
     [TxnRow (JObj [(''id'', JInt 2)]), TxnDelete, TxnYes]"

lemma delete_on_page_allowed:
  "\<forall>e \<in> set delete_on_page. ui_allowed P (\<lambda>cl. e_today (cl_env cl) = Date 739143) saves e"
  "\<forall>e \<in> set delete_on_page. ui_allowed P (\<lambda>cl. True) saves e"
  by (simp_all add: delete_on_page_def delete_call_def)




end
