(* ===== verification/Configuration.thy ===== *)
theory Configuration
  imports PyText "HOL-Library.AList" "HOL-Library.Char_ord" "HOL-Library.List_Lexorder"
begin

text \<open>
  \<open>config/settings.py\<close>, \<open>config/logging_setup.py\<close>, \<open>db/engine.py\<close> and the level mapping of \<open>main.py\<close>: what
  the code of the repository adds to pydantic, logging and SQLAlchemy. Values of the configuration file are
  \<open>json\<close>. The parse of the settings from their sources is pydantic's and a parameter.
\<close>

section \<open>Settings\<close>

definition DEFAULT_CONFIG_PATH :: string where "DEFAULT_CONFIG_PATH = ''config.yaml''"

text \<open>The file that \<open>Settings.settings_customise_sources\<close> reads, given the context variable.\<close>

definition yaml_source :: "string option \<Rightarrow> string" where
  "yaml_source path_var = (case path_var of None \<Rightarrow> DEFAULT_CONFIG_PATH | Some path \<Rightarrow> path)"

text \<open>\<open>_YamlSettingsSource._read_file\<close>; the parse is a parameter, \<open>Inl True\<close> a YAML error and \<open>Inl False\<close> an \<open>OSError\<close>.\<close>

definition read_yaml :: "(string \<Rightarrow> bool + json) \<Rightarrow> string \<Rightarrow> json result" where
  "read_yaml parse path =
     (case parse path of
        Inl e \<Rightarrow> Inl ConfigError
      | Inr (JObj kv) \<Rightarrow> Inr (JObj kv)
      | Inr JNull \<Rightarrow> Inr JNull
      | Inr _ \<Rightarrow> Inl ConfigError)"

text \<open>
  \<open>load_settings\<close> with the value of the context variable before and after: \<open>Settings()\<close> is the parameter
  \<open>settings_of\<close>, whose \<open>ValueError\<close> is pydantic's \<open>ValidationError\<close>.
\<close>

definition load_settings ::
    "(string \<Rightarrow> 'a result) \<Rightarrow> string option \<Rightarrow> string option \<Rightarrow> 'a result \<times> string option" where
  "load_settings settings_of config_path path_var =
     (let token = (case config_path of None \<Rightarrow> None | Some path \<Rightarrow> Some path_var);
          path_var' = (case config_path of None \<Rightarrow> path_var | Some path \<Rightarrow> Some path);
          answer = (case settings_of (yaml_source path_var') of
            Inl e \<Rightarrow> Inl (if e = ValueError then ConfigError else e) | Inr x \<Rightarrow> Inr x)
      in (answer, (case token of None \<Rightarrow> path_var' | Some old \<Rightarrow> old)))"

definition WEAK_JWT_SECRETS :: "string list" where
  "WEAK_JWT_SECRETS = [[], ''test-secret'', ''secret'', ''changeme'', ''password'', ''123456'']"

text \<open>Whether the warning is logged.\<close>

definition warn_if_weak_jwt_secret :: "bool \<Rightarrow> string \<Rightarrow> bool" where
  "warn_if_weak_jwt_secret debug secret \<longleftrightarrow> \<not> debug \<and> casefold secret \<in> set WEAK_JWT_SECRETS"

definition LEVEL_NAMES :: "string list" where
  "LEVEL_NAMES = [''CRITICAL'', ''FATAL'', ''ERROR'', ''WARN'', ''WARNING'', ''INFO'', ''DEBUG'', ''NOTSET'']"

definition validate_level :: "string \<Rightarrow> string result" where
  "validate_level v = (if upper v \<in> set LEVEL_NAMES then Inr (upper v) else Inl ValueError)"

definition UVICORN_LEVELS :: "string list" where
  "UVICORN_LEVELS = [''critical'', ''error'', ''warning'', ''info'', ''debug'', ''trace'']"

definition uvicorn_level :: "string \<Rightarrow> string" where
  "uvicorn_level level = (if casefold level \<in> set UVICORN_LEVELS then casefold level else ''info'')"

section \<open>The database engine\<close>

datatype driver = Sqlite | Postgresql

record database_config =
  dc_driver :: driver
  dc_connect_args :: "(string \<times> json) list"

definition SQLITE_PRAGMAS :: "(string \<times> json) list" where
  "SQLITE_PRAGMAS = [(''auto_vacuum'', JInt 1), (''journal_mode'', JStr ''wal''), (''synchronous'', JInt 1),
     (''temp_store'', JInt 2), (''cache_size'', JInt (- 64000)), (''foreign_keys'', JInt 1)]"

definition resolved_connect_args :: "database_config \<Rightarrow> (string \<times> json) list" where
  "resolved_connect_args c =
     (case dc_driver c of
        Sqlite \<Rightarrow> fold (\<lambda>(k, v). AList.update k v) (dc_connect_args c) SQLITE_PRAGMAS
      | Postgresql \<Rightarrow> dc_connect_args c)"

definition ALLOWED_PRAGMA_STRING_VALUES :: "string list" where
  "ALLOWED_PRAGMA_STRING_VALUES = [''delete'', ''truncate'', ''persist'', ''memory'', ''wal'', ''off'', ''normal'', ''full'',
     ''extra'', ''default'', ''file'']"

fun validate_sqlite_pragma_value :: "json \<Rightarrow> unit result" where
  "validate_sqlite_pragma_value (JInt n) = Inr ()"
| "validate_sqlite_pragma_value (JStr s) =
     (if casefold s \<in> set ALLOWED_PRAGMA_STRING_VALUES then Inr () else Inl ValueError)"
| "validate_sqlite_pragma_value _ = Inl ValueError"

text \<open>\<open>str.isidentifier\<close> over the first 256 code points.\<close>

definition identifier_start :: "char \<Rightarrow> bool" where
  "identifier_start c \<longleftrightarrow> (let k = code c in (65 \<le> k \<and> k \<le> 90) \<or> (97 \<le> k \<and> k \<le> 122) \<or> k = 95
     \<or> k \<in> {170, 181, 186} \<or> (192 \<le> k \<and> k \<noteq> 215 \<and> k \<noteq> 247))"

definition identifier_char :: "char \<Rightarrow> bool" where
  "identifier_char c \<longleftrightarrow> identifier_start c \<or> (48 \<le> code c \<and> code c \<le> 57) \<or> code c = 183"

definition is_identifier :: "string \<Rightarrow> bool" where
  "is_identifier s = (case s of [] \<Rightarrow> False | c # cs \<Rightarrow> identifier_start c \<and> list_all identifier_char cs)"

fun validate_sqlite_pragmas :: "(string \<times> json) list \<Rightarrow> unit result" where
  "validate_sqlite_pragmas [] = Inr ()"
| "validate_sqlite_pragmas ((pragma, v) # rest) =
     (if \<not> is_identifier pragma then Inl ValueError
      else bind_result (validate_sqlite_pragma_value v) (\<lambda>_. validate_sqlite_pragmas rest))"

text \<open>\<open>str(value)\<close> of what is neither string nor integer is never rendered.\<close>

fun render_pragma_value :: "json \<Rightarrow> string option" where
  "render_pragma_value (JStr s) = Some (CHR 0x27 # s @ [CHR 0x27])"
| "render_pragma_value (JInt n) = Some (str_of_int n)"
| "render_pragma_value _ = None"

definition pragma_statement :: "string \<times> json \<Rightarrow> string option" where
  "pragma_statement kv = map_option (\<lambda>r. ''PRAGMA '' @ fst kv @ '' = '' @ r) (render_pragma_value (snd kv))"

text \<open>
  What the engine is created with, and the statements it executes on every new connection.
\<close>

record engine =
  en_connect_args :: "(string \<times> json) list"
  en_on_connect :: "string list"

definition create_engine_from_settings :: "database_config \<Rightarrow> engine result" where
  "create_engine_from_settings c =
     (case dc_driver c of
        Sqlite \<Rightarrow>
          bind_result (validate_sqlite_pragmas (resolved_connect_args c)) (\<lambda>_.
            Inr \<lparr>en_connect_args = [], en_on_connect = List.map_filter pragma_statement (resolved_connect_args c)\<rparr>)
      | Postgresql \<Rightarrow> Inr \<lparr>en_connect_args = resolved_connect_args c, en_on_connect = []\<rparr>)"

section \<open>Logging\<close>

text \<open>
  A handler of a logger is told by a number; \<open>hd_managed\<close> is the marker attribute and \<open>hd_format\<close> the
  formatter that \<open>setup_logging\<close> gives.
\<close>

datatype log_format = JsonFormat | TextFormat

record log_handler =
  hd_id :: nat
  hd_managed :: bool
  hd_format :: "log_format option"

record logger =
  lo_level :: string
  lo_handlers :: "log_handler list"
  lo_propagate :: bool

text \<open>
  \<open>ls_showwarning\<close> is the chain of the functions installed as \<open>warnings.showwarning\<close>: \<open>True\<close> for the one that
  captures the warning of PyJWT. \<open>ls_jwt\<close> is whether PyJWT can be imported.
\<close>

record logging_state =
  ls_root :: logger
  ls_loggers :: "string \<Rightarrow> logger"
  ls_last_resort :: "string option"
  ls_closed :: "log_handler list"
  ls_capture_installed :: bool
  ls_showwarning :: "bool list"
  ls_jwt :: bool
  ls_next :: nat

definition THIRD_PARTY_LOGGERS :: "string list" where
  "THIRD_PARTY_LOGGERS = [''uvicorn'', ''uvicorn.error'', ''uvicorn.access'', ''nicegui'', ''sqlalchemy'', ''sqlalchemy.engine'',
     ''sqlalchemy.pool'', ''alembic'', ''fastapi'']"

definition reset_logger :: "string \<Rightarrow> logging_state \<Rightarrow> logging_state" where
  "reset_logger name s =
     s\<lparr>ls_closed := ls_closed s @ lo_handlers (ls_loggers s name),
       ls_loggers := (ls_loggers s)(name := \<lparr>lo_level = ''NOTSET'', lo_handlers = [], lo_propagate = True\<rparr>)\<rparr>"

definition reset_third_party_loggers :: "logging_state \<Rightarrow> logging_state" where
  "reset_third_party_loggers s = fold reset_logger THIRD_PARTY_LOGGERS s"

definition install_pyjwt_warning_capture :: "logging_state \<Rightarrow> logging_state" where
  "install_pyjwt_warning_capture s =
     (if ls_capture_installed s \<or> \<not> ls_jwt s then s
      else s\<lparr>ls_showwarning := True # ls_showwarning s, ls_capture_installed := True\<rparr>)"

definition setup_logging :: "string \<Rightarrow> log_format \<Rightarrow> logging_state \<Rightarrow> logging_state" where
  "setup_logging level fmt s =
     (let root = ls_root s;
          handler = \<lparr>hd_id = ls_next s, hd_managed = True, hd_format = Some fmt\<rparr>;
          s1 = s\<lparr>ls_closed := ls_closed s @ filter hd_managed (lo_handlers root),
                 ls_root := root\<lparr>lo_level := level,
                   lo_handlers := filter (\<lambda>h. \<not> hd_managed h) (lo_handlers root) @ [handler]\<rparr>,
                 ls_last_resort := map_option (\<lambda>_. level) (ls_last_resort s), ls_next := ls_next s + 1\<rparr>
      in install_pyjwt_warning_capture (reset_third_party_loggers s1))"

text \<open>\<open>_TextFormatter.format\<close>, given the line of the base class and the texts of the extras.\<close>

fun joined_by :: "string \<Rightarrow> string list \<Rightarrow> string" where
  "joined_by sep [] = []"
| "joined_by sep [x] = x"
| "joined_by sep (x # xs) = x @ sep @ joined_by sep xs"

definition text_format :: "string \<Rightarrow> (string \<times> string) list \<Rightarrow> string" where
  "text_format base extras =
     (if extras = [] then base
      else base @ '' | '' @ joined_by '' '' (map (\<lambda>(k, v). k @ ''='' @ v) (sort_key fst extras)))"

section \<open>Lemmas\<close>

text \<open>Characters that end a word or a statement of SQL, or open a text or a comment.\<close>

definition sql_separator :: "char \<Rightarrow> bool" where
  "sql_separator c \<longleftrightarrow> code c \<in> {9, 10, 13, 32, 34, 39, 40, 41, 45, 47, 59, 61, 96}"

lemma identifier_chars: "is_identifier s \<Longrightarrow> x \<in> set s \<Longrightarrow> \<not> sql_separator x"
  by (auto simp: is_identifier_def identifier_char_def identifier_start_def Let_def sql_separator_def list_all_iff split: list.splits)

lemma keyword_chars:
  assumes "casefold s \<in> set ALLOWED_PRAGMA_STRING_VALUES" and "x \<in> set s" shows "\<not> sql_separator x"
proof -
  have "lower_char x \<in> set (casefold s)" using assms(2) by (simp add: casefold_def)
  then have "lower_char x \<in> \<Union> (set ` set ALLOWED_PRAGMA_STRING_VALUES)" using assms(1) by blast
  then have "lower_char x \<in> set ''abcdefghijklmnopqrstuvwxyz''" by (auto simp: ALLOWED_PRAGMA_STRING_VALUES_def)
  then have "97 \<le> code (lower_char x)" by (auto simp: code_def)
  then show ?thesis by (auto simp: lower_char_def sql_separator_def split: if_splits)
qed

lemma validated_value:
  "validate_sqlite_pragma_value v = Inr () \<longleftrightarrow>
     (\<exists>n. v = JInt n) \<or> (\<exists>s. v = JStr s \<and> casefold s \<in> set ALLOWED_PRAGMA_STRING_VALUES)"
  by (cases v) auto

lemma validated_pragmas:
  "validate_sqlite_pragmas kvs = Inr () \<longleftrightarrow>
     (\<forall>(k, v) \<in> set kvs. is_identifier k \<and> validate_sqlite_pragma_value v = Inr ())"
  by (induction kvs rule: validate_sqlite_pragmas.induct) (auto simp: bind_result_Inr_iff)

lemma merged_pragmas:
  "k \<notin> fst ` set user \<Longrightarrow> map_of (fold (\<lambda>(k, v). AList.update k v) user al) k = map_of al k"
  by (induction user arbitrary: al) (auto simp: update_conv')

lemma merged_entries: "(k, v) \<in> set (fold (\<lambda>(k, v). AList.update k v) user al) \<Longrightarrow> (k, v) \<in> set user \<or> (k, v) \<in> set al"
proof (induction user arbitrary: al)
  case (Cons x user)
  have "set (AList.update i y al) \<subseteq> insert (i, y) (set al)" for i :: 'a and y :: 'b and al
    by (induction al) auto
  then show ?case using Cons by (cases x) fastforce
qed simp

lemma validated_error: "validate_sqlite_pragmas kvs = Inl e \<Longrightarrow> e = ValueError"
proof (induction kvs rule: validate_sqlite_pragmas.induct)
  case (2 pragma v rest)
  then show ?case by (cases v) (auto simp: bind_result_Inl_iff split: if_splits)
qed simp

lemma reset_fold:
  "ls_loggers (fold reset_logger names s) n =
     (if n \<in> set names then \<lparr>lo_level = ''NOTSET'', lo_handlers = [], lo_propagate = True\<rparr> else ls_loggers s n)"
  "distinct names \<Longrightarrow> ls_closed (fold reset_logger names s) = ls_closed s @ concat (map (\<lambda>n. lo_handlers (ls_loggers s n)) names)"
  "ls_root (fold reset_logger names s) = ls_root s" "ls_last_resort (fold reset_logger names s) = ls_last_resort s"
  "ls_showwarning (fold reset_logger names s) = ls_showwarning s" "ls_jwt (fold reset_logger names s) = ls_jwt s"
  "ls_capture_installed (fold reset_logger names s) = ls_capture_installed s" "ls_next (fold reset_logger names s) = ls_next s"
proof -
  show "distinct names \<Longrightarrow> ls_closed (fold reset_logger names s) = ls_closed s @ concat (map (\<lambda>n. lo_handlers (ls_loggers s n)) names)"
  proof (induction names arbitrary: s)
    case (Cons name names)
    then have "concat (map (\<lambda>n. lo_handlers (ls_loggers (reset_logger name s) n)) names) = concat (map (\<lambda>n. lo_handlers (ls_loggers s n)) names)"
      by (intro arg_cong [where f = concat]) (auto simp: reset_logger_def)
    moreover have "ls_closed (reset_logger name s) = ls_closed s @ lo_handlers (ls_loggers s name)" by (simp add: reset_logger_def)
    ultimately show ?case using Cons by simp
  qed simp
qed (induction names arbitrary: s; simp add: reset_logger_def)+

lemmas reset_loggers = reset_third_party_loggers_def reset_fold

lemma third_party_distinct: "distinct THIRD_PARTY_LOGGERS"
  by (simp add: THIRD_PARTY_LOGGERS_def)

section \<open>Properties\<close>

text \<open>
  C37. The statements that an engine for SQLite executes on every connection are safe although they are built by
  interpolation: one statement \<open>PRAGMA name = value\<close> for each entry, in order, where the name is an identifier and
  the value an integer or a quoted keyword of the whitelist, and neither name nor keyword has a character that
  could end the statement. Foreign keys are enforced unless the user says otherwise, and any other entry
  prevents the engine from being created.
\<close>

theorem pragma_statements_are_safe:
  assumes "dc_driver c = Sqlite"
  shows "case create_engine_from_settings c of
      Inr e \<Rightarrow> list_all2 (\<lambda>(k, v) statement. \<exists>r. statement = ''PRAGMA '' @ k @ '' = '' @ r
          \<and> is_identifier k \<and> list_all (\<lambda>x. \<not> sql_separator x) k
          \<and> ((\<exists>n. v = JInt n \<and> r = str_of_int n)
             \<or> (\<exists>s. v = JStr s \<and> casefold s \<in> set ALLOWED_PRAGMA_STRING_VALUES
                  \<and> list_all (\<lambda>x. \<not> sql_separator x) s \<and> r = CHR 0x27 # s @ [CHR 0x27])))
          (resolved_connect_args c) (en_on_connect e)
        \<and> (''foreign_keys'' \<in> fst ` set (dc_connect_args c) \<or> ''PRAGMA foreign_keys = 1'' \<in> set (en_on_connect e))
    | Inl e \<Rightarrow> e = ValueError \<and> (\<exists>(k, v) \<in> set (dc_connect_args c). \<not> is_identifier k \<or> validate_sqlite_pragma_value v \<noteq> Inr ())"
proof -
  let ?kvs = "resolved_connect_args c"
  have kvs: "?kvs = fold (\<lambda>(k, v). AList.update k v) (dc_connect_args c) SQLITE_PRAGMAS"
    using assms by (simp add: resolved_connect_args_def)
  show ?thesis
  proof (cases "validate_sqlite_pragmas ?kvs")
    case (Inl e)
    obtain k v where kv: "(k, v) \<in> set ?kvs" "\<not> is_identifier k \<or> validate_sqlite_pragma_value v \<noteq> Inr ()"
      using Inl validated_pragmas [of ?kvs] by auto
    have "is_identifier k \<and> validate_sqlite_pragma_value v = Inr ()" if "(k, v) \<in> set SQLITE_PRAGMAS"
      using that by (simp add: SQLITE_PRAGMAS_def) (elim disjE; clarify; code_simp)
    then have "(k, v) \<in> set (dc_connect_args c)" using kv merged_entries [of k v "dc_connect_args c" SQLITE_PRAGMAS] kvs by auto
    moreover have "e = ValueError" using Inl validated_error by blast
    ultimately show ?thesis using kv(2) assms Inl by (auto simp: create_engine_from_settings_def)
  next
    case (Inr u)
    then have all: "\<forall>(k, v) \<in> set ?kvs. is_identifier k \<and> validate_sqlite_pragma_value v = Inr ()"
      using validated_pragmas by simp
    have "list_all2 (\<lambda>(k, v) statement. \<exists>r. statement = ''PRAGMA '' @ k @ '' = '' @ r
          \<and> is_identifier k \<and> list_all (\<lambda>x. \<not> sql_separator x) k
          \<and> ((\<exists>n. v = JInt n \<and> r = str_of_int n)
             \<or> (\<exists>s. v = JStr s \<and> casefold s \<in> set ALLOWED_PRAGMA_STRING_VALUES
                  \<and> list_all (\<lambda>x. \<not> sql_separator x) s \<and> r = CHR 0x27 # s @ [CHR 0x27])))
        kvs (List.map_filter pragma_statement kvs)" if "set kvs \<subseteq> set ?kvs" for kvs
      using that
    proof (induction kvs)
      case (Cons kv kvs)
      then have "is_identifier (fst kv)" "validate_sqlite_pragma_value (snd kv) = Inr ()" using all by auto
      then show ?case using Cons
        by (cases kv) (auto simp: validated_value pragma_statement_def List.map_filter_simps list_all_iff
            dest: identifier_chars keyword_chars)
    qed (simp add: List.map_filter_simps)
    moreover have "''PRAGMA foreign_keys = 1'' \<in> set (List.map_filter pragma_statement ?kvs)"
      if "''foreign_keys'' \<notin> fst ` set (dc_connect_args c)"
    proof -
      have "map_of ?kvs ''foreign_keys'' = Some (JInt 1)"
        using merged_pragmas [OF that] kvs by (simp add: SQLITE_PRAGMAS_def)
      then have "(''foreign_keys'', JInt 1) \<in> set ?kvs" by (rule map_of_SomeD)
      moreover have "pragma_statement (''foreign_keys'', JInt 1) = Some ''PRAGMA foreign_keys = 1''" by code_simp
      ultimately show ?thesis by (force simp: List.map_filter_def)
    qed
    ultimately show ?thesis using assms Inr by (auto simp: create_engine_from_settings_def)
  qed
qed

text \<open>
  Setting up logging is idempotent: after two calls, whatever the first was given and whatever was
  installed before, the root logger has the handlers that others installed and one managed handler with the
  format and level of the last call; the loggers of the packages have no handlers and pass their records on;
  the capture of the warnings of PyJWT is installed by the first call only; and the handler of the first
  call is closed, the others' handlers of the root logger are not.
\<close>

theorem setup_logging_idempotent:
  "let s1 = setup_logging l' f' s; s2 = setup_logging l f s1 in
     lo_handlers (ls_root s2) = filter (\<lambda>h. \<not> hd_managed h) (lo_handlers (ls_root s))
       @ [\<lparr>hd_id = ls_next s + 1, hd_managed = True, hd_format = Some f\<rparr>]
     \<and> lo_level (ls_root s2) = l \<and> ls_last_resort s2 = map_option (\<lambda>_. l) (ls_last_resort s)
     \<and> map (ls_loggers s2) THIRD_PARTY_LOGGERS
        = replicate (length THIRD_PARTY_LOGGERS) \<lparr>lo_level = ''NOTSET'', lo_handlers = [], lo_propagate = True\<rparr>
     \<and> ls_loggers s2 = ls_loggers s1 \<and> ls_showwarning s2 = ls_showwarning s1
     \<and> ls_closed s2 = ls_closed s1 @ [\<lparr>hd_id = ls_next s, hd_managed = True, hd_format = Some f'\<rparr>]"
proof -
  have s: "ls_loggers (setup_logging l f s) n = (if n \<in> set THIRD_PARTY_LOGGERS
        then \<lparr>lo_level = ''NOTSET'', lo_handlers = [], lo_propagate = True\<rparr> else ls_loggers s n)"
      "ls_root (setup_logging l f s) = (ls_root s)\<lparr>lo_level := l, lo_handlers := filter (\<lambda>h. \<not> hd_managed h) (lo_handlers (ls_root s))
        @ [\<lparr>hd_id = ls_next s, hd_managed = True, hd_format = Some f\<rparr>]\<rparr>"
      "ls_last_resort (setup_logging l f s) = map_option (\<lambda>_. l) (ls_last_resort s)"
      "ls_showwarning (setup_logging l f s) = (if ls_capture_installed s \<or> \<not> ls_jwt s then ls_showwarning s else True # ls_showwarning s)"
      "ls_capture_installed (setup_logging l f s) = (ls_capture_installed s \<or> ls_jwt s)" "ls_jwt (setup_logging l f s) = ls_jwt s"
      "ls_next (setup_logging l f s) = ls_next s + 1"
      "ls_closed (setup_logging l f s) = ls_closed s @ filter hd_managed (lo_handlers (ls_root s))
        @ concat (map (\<lambda>n. lo_handlers (ls_loggers s n)) THIRD_PARTY_LOGGERS)" for l f s n
    by (simp_all add: setup_logging_def install_pyjwt_warning_capture_def Let_def reset_loggers third_party_distinct)
  have "concat (map (\<lambda>n. lo_handlers (ls_loggers (setup_logging l' f' s) n)) THIRD_PARTY_LOGGERS) = []"
    by (simp add: s(1) concat_eq_Nil_conv)
  then show ?thesis
    by (simp add: Let_def s fun_eq_iff map_replicate_const option.map_comp comp_def cong: map_cong)
qed

text \<open>
  The settings are read from the file that was asked for, \<open>config.yaml\<close> when none was, and the context
  variable that carries the path is as before afterwards, whatever happened; a configuration that pydantic
  rejects and a file that cannot be read or is no mapping are one error, \<open>ConfigError\<close>.
\<close>

theorem load_settings_restores_path:
  "snd (load_settings settings_of config_path path_var) = path_var
    \<and> fst (load_settings (\<lambda>path. bind_result (read_yaml parse path) validated) config_path None) =
        (case parse (case config_path of None \<Rightarrow> DEFAULT_CONFIG_PATH | Some path \<Rightarrow> path) of
           Inl e \<Rightarrow> Inl ConfigError
         | Inr doc \<Rightarrow>
             if doc = JNull \<or> (\<exists>kv. doc = JObj kv)
             then (case validated doc of Inl e \<Rightarrow> Inl (if e = ValueError then ConfigError else e) | Inr x \<Rightarrow> Inr x)
             else Inl ConfigError)"
  by (cases config_path)
    (auto simp: load_settings_def yaml_source_def read_yaml_def Let_def split: sum.split json.split)

theorem pragma_statements_are_safe_witness:
  "\<exists>e. create_engine_from_settings \<lparr>dc_driver = Sqlite, dc_connect_args = [(''journal_mode'', JStr ''DELETE'')]\<rparr> = Inr e
      \<and> length (en_on_connect e) = 6 \<and> ''PRAGMA foreign_keys = 1'' \<in> set (en_on_connect e)"
proof -
  let ?c = "\<lparr>dc_driver = Sqlite, dc_connect_args = [(''journal_mode'', JStr ''DELETE'')]\<rparr>"
  have ok: "length (resolved_connect_args ?c) = 6" by (simp add: resolved_connect_args_def SQLITE_PRAGMAS_def)
  have "is_identifier ''journal_mode''" "validate_sqlite_pragma_value (JStr ''DELETE'') = Inr ()" by code_simp+
  then obtain e where e: "create_engine_from_settings ?c = Inr e"
    using pragma_statements_are_safe [of ?c] by (cases "create_engine_from_settings ?c") auto
  have "list_all2 P xs ys \<Longrightarrow> length ys = length xs" for P :: "string \<times> json \<Rightarrow> string \<Rightarrow> bool" and xs ys
    by (simp add: list_all2_lengthD)
  then show ?thesis using pragma_statements_are_safe [of ?c] ok e by auto
qed

text \<open>
  Every level that the settings accept is one the server knows, the same one but for three names: \<open>NOTSET\<close>,
  and \<open>FATAL\<close> and \<open>WARN\<close>, with which the server logs more than the level asks for.
\<close>

theorem accepted_level_of_server:
  assumes "validate_level v = Inr l"
  shows "uvicorn_level l \<in> set UVICORN_LEVELS
    \<and> uvicorn_level l = (if l \<in> {''NOTSET'', ''FATAL'', ''WARN''} then ''info'' else casefold l)"
proof -
  have "l \<in> set LEVEL_NAMES" using assms by (auto simp: validate_level_def split: if_splits)
  moreover have "list_all (\<lambda>l. uvicorn_level l \<in> set UVICORN_LEVELS
    \<and> uvicorn_level l = (if l = ''NOTSET'' \<or> l = ''FATAL'' \<or> l = ''WARN'' then ''info'' else casefold l)) LEVEL_NAMES"
    by code_simp
  ultimately show ?thesis by (auto simp: list_all_iff)
qed

theorem accepted_level_of_server_witness: "uvicorn_level ''WARN'' = ''info''"
proof -
  have "validate_level ''warn'' = Inr ''WARN''" by code_simp
  from accepted_level_of_server [OF this] show ?thesis by simp
qed

end
