(* ===== verification/Wiring.thy ===== *)
theory Wiring
  imports Api
begin

text \<open>
  \<open>api/deps.py\<close> and the signatures of \<open>api/router.py\<close>: which services a route asks for, and how the providers
  that \<open>main\<close> installs come to stand for the stubs of the module. A provider is a function without arguments
  that returns a service, so it is modelled by that service; \<open>'s\<close> is the type of the services.
\<close>

section \<open>Providers\<close>

text \<open>The stubs \<open>get_auth_service\<close>, \<open>get_jwt_service\<close>, \<dots>; the body of each raises.\<close>

datatype stub =
    GetAuthService
  | GetJwtService
  | GetBondService
  | GetBrokerService
  | GetPortfolioService
  | GetAnalyticsService
  | GetAccountOperationService
  | GetBondReferenceService
  | GetSessionFactory

fun run_stub :: "stub \<Rightarrow> 's result" where
  "run_stub GetAuthService = Inl RuntimeError"
| "run_stub GetJwtService = Inl RuntimeError"
| "run_stub GetBondService = Inl RuntimeError"
| "run_stub GetBrokerService = Inl RuntimeError"
| "run_stub GetPortfolioService = Inl RuntimeError"
| "run_stub GetAnalyticsService = Inl RuntimeError"
| "run_stub GetAccountOperationService = Inl RuntimeError"
| "run_stub GetBondReferenceService = Inl RuntimeError"
| "run_stub GetSessionFactory = Inl RuntimeError"

record 's api_dependencies =
  ad_auth_service :: 's
  ad_jwt_service :: 's
  ad_bond_service :: 's
  ad_broker_service :: 's
  ad_portfolio_service :: 's
  ad_analytics_service :: 's
  ad_account_operation_service :: "'s option"
  ad_bond_reference_service :: "'s option"
  ad_session_factory :: "'s option"

definition optional_provider :: "'s option \<Rightarrow> 's option" where
  "optional_provider service = (case service of None \<Rightarrow> None | Some s \<Rightarrow> Some s)"

definition build_api_dependencies ::
    "'s \<Rightarrow> 's \<Rightarrow> 's \<Rightarrow> 's \<Rightarrow> 's \<Rightarrow> 's \<Rightarrow> 's option \<Rightarrow> 's option \<Rightarrow> 's option \<Rightarrow> 's api_dependencies" where
  "build_api_dependencies auth_service jwt_service bond_service broker_service portfolio_service analytics_service
      account_operation_service bond_reference_service session_factory =
     \<lparr>ad_auth_service = auth_service, ad_jwt_service = jwt_service, ad_bond_service = bond_service,
      ad_broker_service = broker_service, ad_portfolio_service = portfolio_service,
      ad_analytics_service = analytics_service,
      ad_account_operation_service = optional_provider account_operation_service,
      ad_bond_reference_service = optional_provider bond_reference_service,
      ad_session_factory = optional_provider session_factory\<rparr>"

text \<open>The dictionary with which \<open>dependency_overrides\<close> is updated.\<close>

definition overrides :: "'s api_dependencies \<Rightarrow> (stub \<times> 's) list" where
  "overrides d =
     [(GetAuthService, ad_auth_service d), (GetJwtService, ad_jwt_service d), (GetBondService, ad_bond_service d),
      (GetBrokerService, ad_broker_service d), (GetPortfolioService, ad_portfolio_service d),
      (GetAnalyticsService, ad_analytics_service d)]
     @ (case ad_account_operation_service d of None \<Rightarrow> [] | Some s \<Rightarrow> [(GetAccountOperationService, s)])
     @ (case ad_bond_reference_service d of None \<Rightarrow> [] | Some s \<Rightarrow> [(GetBondReferenceService, s)])
     @ (case ad_session_factory d of None \<Rightarrow> [] | Some s \<Rightarrow> [(GetSessionFactory, s)])"

text \<open>FastAPI calls the function that overrides a dependency, else the dependency itself.\<close>

definition provided :: "(stub \<times> 's) list \<Rightarrow> stub \<Rightarrow> 's result" where
  "provided dependency_overrides d = (case map_of dependency_overrides d of None \<Rightarrow> run_stub d | Some s \<Rightarrow> Inr s)"

section \<open>What the routes ask for\<close>

text \<open>
  The \<open>Depends\<close> of the signatures, in their order. \<open>get_current_user_id\<close> asks for the JWT service and stands
  first wherever it stands.
\<close>

fun services_of :: "request \<Rightarrow> stub list" where
  "services_of (RegisterUser _ _) = [GetAuthService]"
| "services_of (Login _ _) = [GetAuthService]"
| "services_of ListBonds = [GetBondService]"
| "services_of (CreateBond _) = [GetBondService, GetBondReferenceService]"
| "services_of (GetBond _) = [GetBondService]"
| "services_of (UpdateBond _ _) = [GetBondService]"
| "services_of (DeleteBond _) = [GetBondService]"
| "services_of (SearchBondReferences _ _) = [GetBondReferenceService]"
| "services_of (GetBondReference _) = [GetBondReferenceService]"
| "services_of (GetBondCoupons _) = [GetBondService, GetSessionFactory]"
| "services_of (SyncBondCoupons _) = [GetBondService, GetBondReferenceService]"
| "services_of ListBrokers = [GetBrokerService]"
| "services_of (CreateBroker _) = [GetBrokerService]"
| "services_of (GetBroker _) = [GetBrokerService]"
| "services_of (UpdateBroker _ _) = [GetBrokerService]"
| "services_of (DeleteBroker _) = [GetBrokerService]"
| "services_of ListBrokerAccounts = [GetBrokerService]"
| "services_of (CreateBrokerAccount _) = [GetBrokerService]"
| "services_of (GetBrokerAccount _) = [GetBrokerService]"
| "services_of (UpdateBrokerAccount _ _) = [GetBrokerService]"
| "services_of (DeleteBrokerAccount _) = [GetBrokerService]"
| "services_of (ListTransactions _ _) = [GetPortfolioService]"
| "services_of (CreateTransaction _) = [GetPortfolioService]"
| "services_of (GetTransaction _) = [GetPortfolioService]"
| "services_of (UpdateTransaction _ _) = [GetPortfolioService]"
| "services_of (DeleteTransaction _) = [GetPortfolioService]"
| "services_of (ListAccountOperations _) = [GetAccountOperationService]"
| "services_of (CreateAccountOperation _) = [GetAccountOperationService]"
| "services_of (GetAccountOperation _) = [GetAccountOperationService]"
| "services_of (UpdateAccountOperation _ _) = [GetAccountOperationService]"
| "services_of (DeleteAccountOperation _) = [GetAccountOperationService]"
| "services_of (GetPortfolio _) = [GetAnalyticsService]"
| "services_of (GetPortfolioPositions _) = [GetPortfolioService]"
| "services_of (GetBondYield _) = [GetAnalyticsService]"

definition depends :: "request \<Rightarrow> stub list" where
  "depends req = (if public_request req then [] else [GetJwtService]) @ services_of req"

text \<open>The services a handler is called with, or the exception of the first stub that is reached.\<close>

definition resolve :: "(stub \<times> 's) list \<Rightarrow> request \<Rightarrow> 's list result" where
  "resolve dependency_overrides req = map_result (provided dependency_overrides) (depends req)"

section \<open>Every route reaches its services\<close>

lemma map_result_total: "\<forall>x \<in> set xs. \<exists>y. f x = Inr y \<Longrightarrow> map_result f xs = Inr (map (\<lambda>x. projr (f x)) xs)"
  by (induction xs) auto

lemma map_result_stopped:
  "\<forall>x \<in> set xs. f x = Inl e \<or> (\<exists>y. f x = Inr y) \<Longrightarrow> map_result f xs = Inl e \<longleftrightarrow> (\<exists>x \<in> set xs. f x = Inl e)"
  by (induction xs) (auto simp: bind_result_Inl_iff)

lemma run_stub_raises [simp]: "run_stub d = Inl RuntimeError"
  by (cases d) simp_all

lemma provided_cases: "provided ov d = Inl RuntimeError \<or> (\<exists>s. provided ov d = Inr s)"
  by (auto simp: provided_def split: option.split)

lemma provided_built:
  "provided (overrides (build_api_dependencies a j b br p an ao r sf)) d =
     (case d of GetAuthService \<Rightarrow> Inr a | GetJwtService \<Rightarrow> Inr j | GetBondService \<Rightarrow> Inr b | GetBrokerService \<Rightarrow> Inr br
      | GetPortfolioService \<Rightarrow> Inr p | GetAnalyticsService \<Rightarrow> Inr an
      | GetAccountOperationService \<Rightarrow> (case ao of None \<Rightarrow> Inl RuntimeError | Some s \<Rightarrow> Inr s)
      | GetBondReferenceService \<Rightarrow> (case r of None \<Rightarrow> Inl RuntimeError | Some s \<Rightarrow> Inr s)
      | GetSessionFactory \<Rightarrow> (case sf of None \<Rightarrow> Inl RuntimeError | Some s \<Rightarrow> Inr s))"
  by (auto simp: provided_def overrides_def build_api_dependencies_def optional_provider_def split: stub.split option.split)

lemma provided_missing:
  "provided (overrides (build_api_dependencies a j b br p an ao r sf)) d = Inl RuntimeError \<longleftrightarrow>
     ao = None \<and> d = GetAccountOperationService \<or> r = None \<and> d = GetBondReferenceService \<or> sf = None \<and> d = GetSessionFactory"
  by (cases d) (auto simp: provided_built split: option.splits)

text \<open>
  The services of the REST interface are wired. With the dependencies that \<open>main\<close> builds, every route is called
  with exactly the services its signature asks for, in its order. When an older caller leaves out one of the
  three optional services, the routes that ask for it fail with \<open>RuntimeError\<close>, which no handler maps and which is
  answered as an internal error, and every other route works as before.
\<close>

theorem every_route_reaches_its_services:
  "resolve (overrides (build_api_dependencies a j b br p an (Some ao) (Some r) (Some sf))) req =
     Inr (map (\<lambda>d. case d of GetAuthService \<Rightarrow> a | GetJwtService \<Rightarrow> j | GetBondService \<Rightarrow> b | GetBrokerService \<Rightarrow> br
        | GetPortfolioService \<Rightarrow> p | GetAnalyticsService \<Rightarrow> an | GetAccountOperationService \<Rightarrow> ao
        | GetBondReferenceService \<Rightarrow> r | GetSessionFactory \<Rightarrow> sf) (depends req))
   \<and> (resolve (overrides (build_api_dependencies a j b br p an ao' r' sf')) req = Inl RuntimeError \<longleftrightarrow>
        ao' = None \<and> GetAccountOperationService \<in> set (depends req)
        \<or> r' = None \<and> GetBondReferenceService \<in> set (depends req)
        \<or> sf' = None \<and> (\<exists>isin. req = GetBondCoupons isin))
   \<and> status_of_error RuntimeError = 500"
proof (intro conjI)
  show "resolve (overrides (build_api_dependencies a j b br p an (Some ao) (Some r) (Some sf))) req =
     Inr (map (\<lambda>d. case d of GetAuthService \<Rightarrow> a | GetJwtService \<Rightarrow> j | GetBondService \<Rightarrow> b | GetBrokerService \<Rightarrow> br
        | GetPortfolioService \<Rightarrow> p | GetAnalyticsService \<Rightarrow> an | GetAccountOperationService \<Rightarrow> ao
        | GetBondReferenceService \<Rightarrow> r | GetSessionFactory \<Rightarrow> sf) (depends req))"
    unfolding resolve_def by (subst map_result_total) (auto simp: provided_built split: stub.split)
  have coupons: "GetSessionFactory \<in> set (depends req) \<longleftrightarrow> (\<exists>isin. req = GetBondCoupons isin)"
    by (cases req) (simp_all add: depends_def)
  show "resolve (overrides (build_api_dependencies a j b br p an ao' r' sf')) req = Inl RuntimeError \<longleftrightarrow>
        ao' = None \<and> GetAccountOperationService \<in> set (depends req)
        \<or> r' = None \<and> GetBondReferenceService \<in> set (depends req)
        \<or> sf' = None \<and> (\<exists>isin. req = GetBondCoupons isin)"
    unfolding resolve_def coupons [symmetric]
    by (subst map_result_stopped, rule ballI, rule provided_cases) (auto simp: provided_missing)
qed code_simp

end
