(* ===== verification/Lifecycle.thy ===== *)
theory Lifecycle
  imports UiRuns Configuration Wiring
begin

text \<open>
  The life of the process: \<open>main.py\<close>, from the settings to the shutdown. \<open>Application\<close> says what the assembled
  application does while it serves; here is how it gets there and how it is left, whatever fails on the way.
\<close>

section \<open>The process and its surroundings\<close>

text \<open>
  An exception of the types of the development, or of third-party or library code by the name of its class.
  \<open>except Exception\<close> passes on the three that are no \<open>Exception\<close>.
\<close>

datatype failure = Known error | Foreign string

definition is_exception :: "failure \<Rightarrow> bool" where
  "is_exception e \<longleftrightarrow> e \<notin> {Foreign ''CancelledError'', Foreign ''KeyboardInterrupt'', Foreign ''SystemExit''}"

text \<open>What \<open>main\<close> does to the world outside, in order; \<open>ClientClosed\<close> and \<open>EngineDisposed\<close> are the calls.\<close>

datatype effect =
    EngineCreated engine
  | ClientCreated
  | Migrated string database_config
  | BusStarted
  | UiCreated
  | ApiInstalled "(stub \<times> stub) list"
  | ServerStarted string
  | ShutdownRequested
  | BusClosed
  | TasksSettled "nat set"
  | ClientClosed
  | EngineDisposed

text \<open>The settings as far as they are used here.\<close>

record app_settings =
  as_debug :: bool
  as_jwt_secret :: string
  as_level :: string
  as_format :: log_format
  as_database :: database_config
  as_core :: settings

text \<open>\<open>pr_path\<close> is the context variable \<open>_yaml_config_path\<close>; the bus and the services are there once they are built.\<close>

record process =
  pr_effects :: "effect list"
  pr_path :: "string option"
  pr_logging :: logging_state
  pr_weak_secret_reported :: bool
  pr_database :: database
  pr_bus :: "bus option"
  pr_summaries :: "(int \<times> summary) list"
  pr_references :: "reference_service option"

text \<open>
  The state of the task that runs the server, as \<open>done()\<close>, \<open>cancelled()\<close> and \<open>exception()\<close> tell it.
\<close>

datatype server_task = Running | Returned | Failed failure | Cancelled

text \<open>
  What third-party code answers: the parse of the settings at a path, the files, the run of the migrations (from a
  directory, against a database), the constructors and calls of \<open>main\<close>, what happens to the
  application while it serves, the end of \<open>asyncio.wait\<close> (an exception, or whether the event of the signals is
  set and the state of the server), the end of \<open>asyncio.wait_for\<close> (an exception, or the state of the server within the
  time limit), and which background tasks have settled.
\<close>

record outside =
  ou_settings_of :: "string \<Rightarrow> app_settings result"
  ou_is_file :: "string \<Rightarrow> bool"
  ou_cwd :: string
  ou_source_root :: string
  ou_client :: "failure option"
  ou_migrate :: "string \<Rightarrow> database_config \<Rightarrow> database \<Rightarrow> failure option \<times> database"
  ou_create_ui_app :: "failure option"
  ou_install_api :: "failure option"
  ou_add_signal_handler :: "string \<Rightarrow> failure option"
  ou_serving :: "app \<Rightarrow> app"
  ou_wait :: "failure + (bool \<times> server_task)"
  ou_shutdown :: "failure option"
  ou_wait_for :: "failure + server_task"
  ou_settled :: "nat \<Rightarrow> bool"
  ou_http_aclose :: "failure option"
  ou_dispose :: "failure option"

section \<open>Sequencing\<close>

type_synonym 'a action = "process \<Rightarrow> (failure + 'a) \<times> process"

definition act :: "'a action \<Rightarrow> ('a \<Rightarrow> 'b action) \<Rightarrow> 'b action" where
  "act f g p = (case f p of (Inl e, p') \<Rightarrow> (Inl e, p') | (Inr x, p') \<Rightarrow> g x p')"

text \<open>\<open>try: body finally: cleanup\<close>: an exception of the cleanup takes the place of the outcome of the body.\<close>

definition try_finally :: "'a action \<Rightarrow> unit action \<Rightarrow> 'a action" where
  "try_finally body cleanup p =
     (case body p of (r, p') \<Rightarrow> (case cleanup p' of (Inl e, p'') \<Rightarrow> (Inl e, p'') | (Inr _, p'') \<Rightarrow> (r, p'')))"

definition outcome :: "failure option \<Rightarrow> unit action" where
  "outcome e p = (case e of None \<Rightarrow> (Inr (), p) | Some e \<Rightarrow> (Inl e, p))"

definition effected :: "effect \<Rightarrow> process \<Rightarrow> process" where
  "effected x p = p\<lparr>pr_effects := pr_effects p @ [x]\<rparr>"

section \<open>Migrations\<close>

definition find_alembic_dir :: "(string \<Rightarrow> bool) \<Rightarrow> string \<Rightarrow> string \<Rightarrow> string option" where
  "find_alembic_dir is_file cwd source_root =
     List.find (\<lambda>candidate. is_file (candidate @ ''/env.py'')) [cwd @ ''/alembic'', source_root @ ''/alembic'']"

text \<open>\<open>alembic/env.py\<close> calls \<open>load_settings()\<close> without a path, in a thread that inherits the context variable.\<close>

definition database_url :: "outside \<Rightarrow> string option \<Rightarrow> database_config result" where
  "database_url ou path_var = map_sum id as_database (fst (load_settings (ou_settings_of ou) None path_var))"

definition upgrade_database_sync :: "outside \<Rightarrow> string \<Rightarrow> unit action" where
  "upgrade_database_sync ou alembic_dir p =
     (case database_url ou (pr_path p) of
        Inl e \<Rightarrow> (Inl (Known e), p)
      | Inr url \<Rightarrow>
          (case ou_migrate ou alembic_dir url (pr_database p) of
             (e, db) \<Rightarrow> outcome e (effected (Migrated alembic_dir url) (p\<lparr>pr_database := db\<rparr>))))"

definition upgrade_database :: "outside \<Rightarrow> string option \<Rightarrow> unit action" where
  "upgrade_database ou config_path p =
     (case find_alembic_dir (ou_is_file ou) (ou_cwd ou) (ou_source_root ou) of
        None \<Rightarrow> (Inr (), p)
      | Some alembic_dir \<Rightarrow>
          let token = (case config_path of None \<Rightarrow> None | Some path \<Rightarrow> if path = [] then None else Some (pr_path p))
          in try_finally (upgrade_database_sync ou alembic_dir)
               (\<lambda>p. case token of None \<Rightarrow> (Inr (), p) | Some old \<Rightarrow> (Inr (), p\<lparr>pr_path := old\<rparr>))
               (if token = None then p else p\<lparr>pr_path := config_path\<rparr>))"

section \<open>Startup\<close>

definition load_and_log :: "outside \<Rightarrow> string option \<Rightarrow> app_settings action" where
  "load_and_log ou config_path p =
     (case load_settings (ou_settings_of ou) config_path (pr_path p) of
        (Inl e, path) \<Rightarrow> (Inl (Known e), p\<lparr>pr_path := path\<rparr>)
      | (Inr s, path) \<Rightarrow>
          (Inr s, p\<lparr>pr_path := path, pr_logging := setup_logging (as_level s) (as_format s) (pr_logging p),
                    pr_weak_secret_reported := warn_if_weak_jwt_secret (as_debug s) (as_jwt_secret s)\<rparr>))"

definition create_engine :: "app_settings \<Rightarrow> unit action" where
  "create_engine s p =
     (case create_engine_from_settings (as_database s) of
        Inl e \<Rightarrow> (Inl (Known e), p) | Inr en \<Rightarrow> (Inr (), effected (EngineCreated en) p))"

definition create_client :: "outside \<Rightarrow> unit action" where
  "create_client ou p = (case ou_client ou of Some e \<Rightarrow> (Inl e, p) | None \<Rightarrow> (Inr (), effected ClientCreated p))"

definition start_bus :: "app_settings \<Rightarrow> unit action" where
  "start_bus s p =
     (Inr (), effected BusStarted (p\<lparr>pr_bus := Some (start (bus_init (max_queue_size (as_core s))))\<rparr>))"

text \<open>The services without state of their own, and the two that have one: the cache of summaries and the reference service.\<close>

definition build_services :: "app_settings \<Rightarrow> unit action" where
  "build_services s p =
     (Inr (), p\<lparr>pr_summaries := [],
        pr_references := Some \<lparr>rs_enabled = enabled (as_core s), rs_cache_ttl_s = cache_ttl_s (as_core s),
          rs_has_sessions = True, rs_cache = [], rs_populate_tasks = {}\<rparr>,
        pr_bus := map_option (attach_to_event_bus CHANGE_TOPICS) (pr_bus p)\<rparr>)"

text \<open>The pages, then the routes with their providers: each service stands for its stub.\<close>

definition api_dependencies :: "stub api_dependencies" where
  "api_dependencies = build_api_dependencies GetAuthService GetJwtService GetBondService GetBrokerService
     GetPortfolioService GetAnalyticsService (Some GetAccountOperationService) (Some GetBondReferenceService)
     (Some GetSessionFactory)"

definition install :: "outside \<Rightarrow> unit action" where
  "install ou =
     act (outcome (ou_create_ui_app ou)) (\<lambda>_ p.
       act (outcome (ou_install_api ou)) (\<lambda>_ p. (Inr (), effected (ApiInstalled (overrides api_dependencies)) p))
         (effected UiCreated p))"

fun install_signal_handlers :: "outside \<Rightarrow> string list \<Rightarrow> unit action" where
  "install_signal_handlers ou [] p = (Inr (), p)"
| "install_signal_handlers ou (s # ss) p =
     (case ou_add_signal_handler ou s of
        None \<Rightarrow> install_signal_handlers ou ss p
      | Some e \<Rightarrow> if e = Foreign ''NotImplementedError'' then install_signal_handlers ou ss p else (Inl e, p))"

section \<open>Serving\<close>

text \<open>The application that is served, and the process after it has changed.\<close>

definition served_app :: "process \<Rightarrow> app" where
  "served_app p =
     \<lparr>ap_world = \<lparr>w_db = pr_database p, w_bus = the (pr_bus p)\<rparr>, ap_summaries = pr_summaries p,
      ap_references = the (pr_references p)\<rparr>"

definition with_app :: "app \<Rightarrow> process \<Rightarrow> process" where
  "with_app a p = p\<lparr>pr_database := w_db (ap_world a), pr_bus := Some (w_bus (ap_world a)),
     pr_summaries := ap_summaries a, pr_references := Some (ap_references a)\<rparr>"

text \<open>
  After a signal NiceGUI is asked to stop, and the server is awaited for at most fifteen seconds; \<open>wait_for\<close> cancels the
  task when the time is over.
\<close>

definition await_server :: "outside \<Rightarrow> server_task action" where
  "await_server ou p =
     (case ou_wait_for ou of
        Inl e \<Rightarrow> (Inl e, p)
      | Inr Returned \<Rightarrow> (Inr Returned, p)
      | Inr (Failed e) \<Rightarrow> if e = Foreign ''TimeoutError'' then (Inr (Failed e), p) else (Inl e, p)
      | Inr _ \<Rightarrow> (Inr Cancelled, p))"

definition stop_server :: "outside \<Rightarrow> server_task action" where
  "stop_server ou p =
     (let p' = effected ShutdownRequested p
      in case ou_shutdown ou of
           Some e \<Rightarrow> if is_exception e then await_server ou p' else (Inl e, p')
         | None \<Rightarrow> await_server ou p')"

definition serve :: "outside \<Rightarrow> app_settings \<Rightarrow> unit action" where
  "serve ou s p =
     (let p1 = effected (ServerStarted (uvicorn_level (as_level s))) p;
          p2 = with_app (ou_serving ou (served_app p1)) p1
      in case ou_wait ou of
           Inl e \<Rightarrow> (Inl e, p2)
         | Inr (stop_requested, server) \<Rightarrow>
             act (if stop_requested \<and> server = Running then stop_server ou else (\<lambda>p. (Inr server, p)))
               (\<lambda>server p. case server of Failed e \<Rightarrow> (Inl e, p) | _ \<Rightarrow> (Inr (), p)) p2)"

section \<open>Shutdown\<close>

definition stop_bus :: "unit action" where
  "stop_bus p = (Inr (), effected BusClosed (p\<lparr>pr_bus := map_option stop (pr_bus p)\<rparr>))"

definition settle_tasks :: "outside \<Rightarrow> unit action" where
  "settle_tasks ou p =
     (case pr_references p of
        None \<Rightarrow> (Inr (), p)
      | Some r \<Rightarrow>
          (case shutdown (ou_settled ou) r of
             (cancelled, r') \<Rightarrow> (Inr (), effected (TasksSettled cancelled) (p\<lparr>pr_references := Some r'\<rparr>))))"

text \<open>\<open>MoexClient.aclose\<close> passes over a \<open>RuntimeError\<close> of the HTTP client.\<close>

definition aclose :: "outside \<Rightarrow> unit action" where
  "aclose ou p =
     (let p' = effected ClientClosed p
      in case ou_http_aclose ou of
           None \<Rightarrow> (Inr (), p')
         | Some e \<Rightarrow> if e = Known RuntimeError then (Inr (), p') else (Inl e, p'))"

definition dispose :: "outside \<Rightarrow> unit action" where
  "dispose ou p = outcome (ou_dispose ou) (effected EngineDisposed p)"

definition close_all :: "outside \<Rightarrow> unit action" where
  "close_all ou = act (settle_tasks ou) (\<lambda>_. act (aclose ou) (\<lambda>_. dispose ou))"

section \<open>The entry points\<close>

definition with_bus_running :: "outside \<Rightarrow> app_settings \<Rightarrow> unit action" where
  "with_bus_running ou s =
     act (build_services s) (\<lambda>_.
     act (install ou) (\<lambda>_.
     act (install_signal_handlers ou [''SIGINT'', ''SIGTERM'']) (\<lambda>_. serve ou s)))"

definition with_engine :: "outside \<Rightarrow> string option \<Rightarrow> app_settings \<Rightarrow> unit action" where
  "with_engine ou config_path s =
     act (upgrade_database ou config_path) (\<lambda>_.
     act (start_bus s) (\<lambda>_. try_finally (with_bus_running ou s) stop_bus))"

definition main :: "outside \<Rightarrow> string option \<Rightarrow> unit action" where
  "main ou config_path =
     act (load_and_log ou config_path) (\<lambda>s.
     act (create_engine s) (\<lambda>_.
     act (create_client ou) (\<lambda>_. try_finally (with_engine ou config_path s) (close_all ou))))"

text \<open>\<open>asyncio.run\<close> turns a cancellation that an interrupt caused into \<open>KeyboardInterrupt\<close>.\<close>

definition run_main :: "outside \<Rightarrow> bool \<Rightarrow> string option \<Rightarrow> unit action" where
  "run_main ou interrupted config_path p =
     (case main ou config_path p of
        (Inl e, q) \<Rightarrow>
          let e' = (if e = Foreign ''CancelledError'' \<and> interrupted then Foreign ''KeyboardInterrupt'' else e)
          in if e' = Foreign ''KeyboardInterrupt'' then (Inr (), q) else (Inl e', q)
      | (Inr x, q) \<Rightarrow> (Inr x, q))"

text \<open>A new process; the context variable has its default.\<close>

definition new_process :: "logging_state \<Rightarrow> database \<Rightarrow> process" where
  "new_process logging db =
     \<lparr>pr_effects = [], pr_path = None, pr_logging = logging, pr_weak_secret_reported = False, pr_database = db,
      pr_bus = None, pr_summaries = [], pr_references = None\<rparr>"

section \<open>What an action leaves behind\<close>

text \<open>A reflexive and transitive relation between the process before and after is kept by sequencing and by \<open>finally\<close>.\<close>

locale action_order =
  fixes R :: "process \<Rightarrow> process \<Rightarrow> bool"
  assumes refl: "R p p" and trans: "R p p' \<Longrightarrow> R p' p'' \<Longrightarrow> R p p''"
begin

lemma act_order:
  assumes "act f g p = (r, q)"
    and f: "\<And>p r q. f p = (r, q) \<Longrightarrow> R p q" and g: "\<And>x p r q. g x p = (r, q) \<Longrightarrow> R p q"
  shows "R p q"
proof -
  obtain r' p' where p': "f p = (r', p')" by fastforce
  show ?thesis using assms(1) f [OF p'] p' by (cases r') (auto simp: act_def intro: trans dest: g)
qed

lemma try_finally_order:
  assumes "try_finally f g p = (r, q)"
    and f: "\<And>p r q. f p = (r, q) \<Longrightarrow> R p q" and g: "\<And>p r q. g p = (r, q) \<Longrightarrow> R p q"
  shows "R p q"
proof -
  obtain r' p' where p': "f p = (r', p')" by fastforce
  obtain r'' p'' where p'': "g p' = (r'', p'')" by fastforce
  have "q = p''" using assms(1) p' p'' by (auto simp: try_finally_def split: sum.splits)
  then show ?thesis using trans [OF f [OF p'] g [OF p'']] by simp
qed

lemma outcome_order: "outcome e p = (r, q) \<Longrightarrow> R p q"
  by (auto simp: outcome_def refl split: option.splits)

end

text \<open>What happens while the bus runs: no cleanup, and the bus and the services stay there.\<close>

fun serving_effect :: "effect \<Rightarrow> bool" where
  "serving_effect UiCreated = True"
| "serving_effect (ApiInstalled ov) = True"
| "serving_effect (ServerStarted level) = True"
| "serving_effect ShutdownRequested = True"
| "serving_effect x = False"

definition goes_on :: "process \<Rightarrow> process \<Rightarrow> bool" where
  "goes_on p q \<longleftrightarrow> (\<exists>es. pr_effects q = pr_effects p @ es \<and> list_all serving_effect es) \<and> pr_path q = pr_path p
     \<and> (pr_bus p \<noteq> None \<longrightarrow> pr_bus q \<noteq> None) \<and> (pr_references p \<noteq> None \<longrightarrow> pr_references q \<noteq> None)"

interpretation going: action_order goes_on
proof (unfold_locales, goal_cases)
  case (2 p p' p'') then show ?case
    by (auto simp: goes_on_def)
qed (simp add: goes_on_def)

lemma goes_on_effected: "serving_effect x \<Longrightarrow> goes_on p (effected x p)"
  by (simp add: goes_on_def effected_def)

lemma goes_on_app: "goes_on p (with_app a p)"
  by (simp add: goes_on_def with_app_def)

lemma effected_fields [simp]:
  "pr_effects (effected x p) = pr_effects p @ [x]" "pr_path (effected x p) = pr_path p" "pr_bus (effected x p) = pr_bus p"
  "pr_references (effected x p) = pr_references p" "pr_database (effected x p) = pr_database p"
  "pr_summaries (effected x p) = pr_summaries p"
  by (simp_all add: effected_def)

lemma install_goes_on: "install ou p = (r, q) \<Longrightarrow> goes_on p q"
  unfolding install_def
  by (erule going.act_order, erule going.outcome_order)
    (auto simp: act_def outcome_def goes_on_def split: option.splits)

lemma signals_go_on: "install_signal_handlers ou ss p = (r, q) \<Longrightarrow> goes_on p q"
  by (induction ss) (auto simp: going.refl split: option.splits if_splits)

lemma await_goes_on: "await_server ou p = (r, q) \<Longrightarrow> q = p"
  by (auto simp: await_server_def split: sum.splits server_task.splits if_splits)

lemma stop_server_goes_on: "stop_server ou p = (r, q) \<Longrightarrow> goes_on p q"
  by (auto simp: stop_server_def Let_def goes_on_effected dest!: await_goes_on split: option.splits if_splits)

text \<open>The process once the server has been started and has served.\<close>

definition having_served :: "outside \<Rightarrow> app_settings \<Rightarrow> process \<Rightarrow> process" where
  "having_served ou s p =
     (let p1 = effected (ServerStarted (uvicorn_level (as_level s))) p in with_app (ou_serving ou (served_app p1)) p1)"

lemma goes_on_served: "goes_on p (having_served ou s p)"
  unfolding having_served_def Let_def by (rule going.trans [OF goes_on_effected goes_on_app]) simp

context action_order
begin

lemma serve_order:
  assumes "serve ou s p = (r, q)" and "\<And>p r q. stop_server ou p = (r, q) \<Longrightarrow> R p q"
  shows "R (having_served ou s p) q"
proof (cases "ou_wait ou")
  case (Inl e) then show ?thesis using assms(1) refl by (simp add: serve_def having_served_def Let_def)
next
  case (Inr x)
  obtain stop_requested server where x: "x = (stop_requested, server)" by fastforce
  show ?thesis
    using assms(1) unfolding serve_def having_served_def Let_def Inr x sum.case prod.case
    by (rule act_order) (auto simp: refl assms(2) split: server_task.splits if_splits)
qed

end

lemma serve_goes_on: "serve ou s p = (r, q) \<Longrightarrow> goes_on p q"
  by (rule going.trans [OF goes_on_served going.serve_order]) (auto intro: stop_server_goes_on)

section \<open>The trace of a run\<close>

lemma with_bus_running_trace:
  assumes "with_bus_running ou s p = (r, q)" and "pr_bus p \<noteq> None"
  shows "(\<exists>es. pr_effects q = pr_effects p @ es \<and> list_all serving_effect es) \<and> pr_path q = pr_path p
    \<and> pr_bus q \<noteq> None \<and> pr_references q \<noteq> None"
proof -
  let ?p = "snd (build_services s p)"
  have "act (install ou) (\<lambda>_. act (install_signal_handlers ou [''SIGINT'', ''SIGTERM'']) (\<lambda>_. serve ou s)) ?p = (r, q)"
    using assms(1) by (simp add: with_bus_running_def act_def build_services_def)
  then have "goes_on ?p q"
    by (rule going.act_order, elim install_goes_on)
      (erule going.act_order; elim signals_go_on serve_goes_on)
  then show ?thesis using assms(2) by (simp add: goes_on_def build_services_def)
qed

text \<open>The settings are the same ones that \<open>main\<close> has loaded, unless the path is the empty string.\<close>

lemma same_settings:
  "fst (load_settings f config_path var) = fst (load_settings f None (case config_path of None \<Rightarrow> var | Some path \<Rightarrow> Some path))"
  by (simp add: load_settings_def Let_def split: option.split)

lemma migration_trace:
  assumes "upgrade_database ou config_path p = (r, q)"
  shows "pr_path q = pr_path p \<and> pr_bus q = pr_bus p \<and> pr_references q = pr_references p
    \<and> (pr_effects q = pr_effects p
      \<or> (\<exists>d url. pr_effects q = pr_effects p @ [Migrated d url] \<and> ou_is_file ou (d @ ''/env.py'')
          \<and> d \<in> {ou_cwd ou @ ''/alembic'', ou_source_root ou @ ''/alembic''}
          \<and> (config_path \<noteq> Some [] \<longrightarrow> map_sum id as_database (fst (load_settings (ou_settings_of ou) config_path (pr_path p))) = Inr url)))"
proof (cases "find_alembic_dir (ou_is_file ou) (ou_cwd ou) (ou_source_root ou)")
  case None then show ?thesis using assms by (simp add: upgrade_database_def)
next
  case (Some d)
  let ?p = "if config_path = None \<or> config_path = Some [] then p else p\<lparr>pr_path := config_path\<rparr>"
  obtain r' q' where ran: "upgrade_database_sync ou d ?p = (r', q')" by fastforce
  have q: "pr_path q = pr_path p" "pr_bus q = pr_bus q'" "pr_references q = pr_references q'" "pr_effects q = pr_effects q'"
    using assms ran by (auto simp: upgrade_database_def Some Let_def try_finally_def upgrade_database_sync_def outcome_def
        split: option.splits sum.splits prod.splits if_splits)
  have d: "ou_is_file ou (d @ ''/env.py'')" "d \<in> {ou_cwd ou @ ''/alembic'', ou_source_root ou @ ''/alembic''}"
    using Some by (auto simp: find_alembic_dir_def split: if_splits)
  have var: "config_path \<noteq> Some [] \<Longrightarrow> pr_path ?p = (case config_path of None \<Rightarrow> pr_path p | Some path \<Rightarrow> Some path)"
    by (cases config_path) auto
  show ?thesis
  proof (cases "database_url ou (pr_path ?p)")
    case (Inl e) then show ?thesis using ran q by (auto simp: upgrade_database_sync_def split: if_splits)
  next
    case (Inr url)
    then have "pr_bus q' = pr_bus p" "pr_references q' = pr_references p" "pr_effects q' = pr_effects p @ [Migrated d url]"
      using ran by (auto simp: upgrade_database_sync_def outcome_def split: option.splits prod.splits if_splits)
    moreover have "config_path \<noteq> Some [] \<longrightarrow>
        map_sum id as_database (fst (load_settings (ou_settings_of ou) config_path (pr_path p))) = Inr url"
    proof
      assume path: "config_path \<noteq> Some []"
      show "map_sum id as_database (fst (load_settings (ou_settings_of ou) config_path (pr_path p))) = Inr url"
        unfolding same_settings [of _ config_path] var [OF path, symmetric] using Inr by (simp add: database_url_def)
    qed
    ultimately show ?thesis using q d by (intro conjI disjI2 exI [of _ d] exI [of _ url]) (simp_all only: simp_thms)
  qed
qed

definition migrations :: "outside \<Rightarrow> database_config \<Rightarrow> string option \<Rightarrow> effect list \<Rightarrow> bool" where
  "migrations ou database config_path mig \<longleftrightarrow> length mig \<le> 1
     \<and> (\<forall>x \<in> set mig. \<exists>d url. x = Migrated d url \<and> ou_is_file ou (d @ ''/env.py'')
          \<and> d \<in> {ou_cwd ou @ ''/alembic'', ou_source_root ou @ ''/alembic''} \<and> (config_path \<noteq> Some [] \<longrightarrow> url = database))"

lemma with_engine_trace:
  assumes "with_engine ou config_path s p = (r, q)" and "pr_bus p = None" and "pr_references p = None"
    and "fst (load_settings (ou_settings_of ou) config_path (pr_path p)) = Inr s'"
  obtains mig where "migrations ou (as_database s') config_path mig" and "pr_path q = pr_path p"
    and "pr_effects q = pr_effects p @ mig \<and> pr_bus q = None \<and> pr_references q = None
      \<or> (\<exists>es b. pr_effects q = pr_effects p @ mig @ BusStarted # es @ [BusClosed] \<and> list_all serving_effect es
          \<and> pr_bus q = Some (stop b) \<and> pr_references q \<noteq> None)"
proof -
  obtain r1 p1 where up: "upgrade_database ou config_path p = (r1, p1)" by fastforce
  from migration_trace [OF up] assms(2-4) obtain mig where mig: "pr_effects p1 = pr_effects p @ mig"
    "migrations ou (as_database s') config_path mig" "pr_path p1 = pr_path p" "pr_bus p1 = None" "pr_references p1 = None"
    unfolding migrations_def by fastforce
  show ?thesis
  proof (cases r1)
    case (Inl e)
    then have "q = p1" using assms(1) up by (simp add: with_engine_def act_def)
    with mig show ?thesis by (intro that [of mig]) simp_all
  next
    case (Inr x)
    obtain r2 p2 where start: "start_bus s p1 = (Inr r2, p2)" by (simp add: start_bus_def)
    then have p2: "pr_effects p2 = pr_effects p1 @ [BusStarted]" "pr_bus p2 \<noteq> None" "pr_path p2 = pr_path p1"
      by (auto simp: start_bus_def)
    obtain r3 p3 where body: "with_bus_running ou s p2 = (r3, p3)" by fastforce
    from with_bus_running_trace [OF body p2(2)] p2 obtain es b where p3: "pr_effects p3 = pr_effects p1 @ BusStarted # es"
      "list_all serving_effect es" "pr_path p3 = pr_path p1" "pr_bus p3 = Some b" "pr_references p3 \<noteq> None"
      by auto
    have "q = snd (stop_bus p3)"
      using assms(1) up Inr start body by (simp add: with_engine_def act_def try_finally_def stop_bus_def)
    with p3 have "pr_effects q = pr_effects p1 @ BusStarted # es @ [BusClosed]" "pr_path q = pr_path p1"
        "pr_bus q = Some (stop b)" "pr_references q \<noteq> None"
      by (simp_all add: stop_bus_def)
    then have "pr_effects q = pr_effects p @ mig @ BusStarted # es @ [BusClosed] \<and> list_all serving_effect es
        \<and> pr_bus q = Some (stop b) \<and> pr_references q \<noteq> None" "pr_path q = pr_path p"
      using mig p3(2) by simp_all
    then show ?thesis using mig by (intro that [of mig]) blast+
  qed
qed

text \<open>Whether the HTTP client lets itself be closed, as far as \<open>aclose\<close> passes it on.\<close>

definition client_closes :: "outside \<Rightarrow> bool" where
  "client_closes ou \<longleftrightarrow> ou_http_aclose ou = None \<or> ou_http_aclose ou = Some (Known RuntimeError)"

text \<open>The last calls, which follow whatever has happened since the client was created.\<close>

definition last_calls :: "outside \<Rightarrow> effect list" where
  "last_calls ou = ClientClosed # (if client_closes ou then [EngineDisposed] else [])"

lemma close_all_trace:
  assumes "close_all ou p = (r, q)"
  obtains ts where "pr_effects q = pr_effects p @ (case pr_references p of None \<Rightarrow> [] | Some _ \<Rightarrow> [TasksSettled ts]) @ last_calls ou"
    and "pr_path q = pr_path p" and "pr_bus q = pr_bus p"
    and "\<forall>refs. pr_references q = Some refs \<longrightarrow> (\<forall>t \<in> rs_populate_tasks refs. ou_settled ou t)"
    and "client_closes ou \<longrightarrow> r = (case ou_dispose ou of None \<Rightarrow> Inr () | Some e \<Rightarrow> Inl e)"
    and "\<not> client_closes ou \<longrightarrow> r = Inl (the (ou_http_aclose ou))"
proof -
  obtain p1 where p1: "settle_tasks ou p = (Inr (), p1)" by (cases "pr_references p") (auto simp: settle_tasks_def split_beta)
  then have "\<exists>ts. pr_effects p1 = pr_effects p @ (case pr_references p of None \<Rightarrow> [] | Some _ \<Rightarrow> [TasksSettled ts])
      \<and> pr_path p1 = pr_path p \<and> pr_bus p1 = pr_bus p
      \<and> (\<forall>refs. pr_references p1 = Some refs \<longrightarrow> (\<forall>t \<in> rs_populate_tasks refs. ou_settled ou t))"
    by (auto simp: settle_tasks_def shutdown_def Let_def split: option.splits prod.splits)
  then obtain ts where ts: "pr_effects p1 = pr_effects p @ (case pr_references p of None \<Rightarrow> [] | Some _ \<Rightarrow> [TasksSettled ts])"
      "pr_path p1 = pr_path p" "pr_bus p1 = pr_bus p"
      "\<forall>refs. pr_references p1 = Some refs \<longrightarrow> (\<forall>t \<in> rs_populate_tasks refs. ou_settled ou t)"
    by blast
  show ?thesis
    by (rule that [of ts]) (use assms p1 ts in \<open>auto simp: close_all_def act_def aclose_def Let_def dispose_def outcome_def
      client_closes_def last_calls_def split: option.splits if_splits\<close>)
qed

lemma main_trace:
  assumes "main ou config_path (new_process logging db) = (r, q)"
  obtains "pr_effects q = []" and "pr_bus q = None" and "pr_references q = None" and "pr_path q = None"
  | en and s :: app_settings where "create_engine_from_settings (as_database s) = Inr en" and "pr_effects q = [EngineCreated en]"
      and "pr_bus q = None" and "pr_references q = None" and "pr_path q = None"
  | en and s :: app_settings and mig rest where "create_engine_from_settings (as_database s) = Inr en" and "migrations ou (as_database s) config_path mig"
      and "pr_effects q = [EngineCreated en, ClientCreated] @ mig @ rest @ last_calls ou"
      and "rest = [] \<or> (\<exists>es ts b. rest = BusStarted # es @ [BusClosed, TasksSettled ts] \<and> list_all serving_effect es \<and> pr_bus q = Some (stop b))"
      and "\<forall>refs. pr_references q = Some refs \<longrightarrow> (\<forall>t \<in> rs_populate_tasks refs. ou_settled ou t)" and "pr_path q = None"
      and "\<not> client_closes ou \<longrightarrow> r = Inl (the (ou_http_aclose ou))"
proof -
  let ?p = "new_process logging db"
  obtain r0 p0 where load: "load_and_log ou config_path ?p = (r0, p0)" by fastforce
  have p0: "pr_effects p0 = []" "pr_bus p0 = None" "pr_references p0 = None" "pr_path p0 = None"
    using load by (auto simp: load_and_log_def load_settings_def Let_def new_process_def split: sum.splits option.splits)
  show ?thesis
  proof (cases r0)
    case (Inl e)
    with assms load p0 show ?thesis by (intro that(1)) (simp_all add: main_def act_def)
  next
    case (Inr s)
    have loaded: "fst (load_settings (ou_settings_of ou) config_path None) = Inr s"
      using load Inr by (auto simp: load_and_log_def new_process_def split: sum.splits prod.splits)
    show ?thesis
    proof (cases "create_engine_from_settings (as_database s)")
      case (Inl e)
      with assms load p0 Inr show ?thesis by (intro that(1)) (simp_all add: main_def act_def create_engine_def)
    next
      case en: (Inr en)
      show ?thesis
      proof (cases "ou_client ou")
        case (Some e)
        with assms load p0 Inr en show ?thesis
          by (intro that(2) [OF en]) (auto simp: main_def act_def create_engine_def create_client_def)
      next
        case None
        let ?p2 = "effected ClientCreated (effected (EngineCreated en) p0)"
        obtain r3 p3 where body: "with_engine ou config_path s ?p2 = (r3, p3)" by fastforce
        obtain r4 p4 where close: "close_all ou p3 = (r4, p4)" by fastforce
        have main: "q = p4 \<and> (r = (case r4 of Inl e \<Rightarrow> Inl e | Inr _ \<Rightarrow> r3))"
          using assms load Inr en None body close
          by (auto simp: main_def act_def create_engine_def create_client_def try_finally_def split: sum.splits)
        have "pr_bus ?p2 = None" "pr_references ?p2 = None"
            "fst (load_settings (ou_settings_of ou) config_path (pr_path ?p2)) = Inr s"
          using p0 loaded by simp_all
        from with_engine_trace [OF body this] obtain mig where mig: "migrations ou (as_database s) config_path mig"
          and p3: "pr_path p3 = None" "pr_effects p3 = [EngineCreated en, ClientCreated] @ mig \<and> pr_bus p3 = None \<and> pr_references p3 = None
            \<or> (\<exists>es b. pr_effects p3 = [EngineCreated en, ClientCreated] @ mig @ BusStarted # es @ [BusClosed] \<and> list_all serving_effect es
                \<and> pr_bus p3 = Some (stop b) \<and> pr_references p3 \<noteq> None)"
          by (auto simp: p0)
        from close_all_trace [OF close] obtain ts where p4: "pr_effects p4 = pr_effects p3 @
              (case pr_references p3 of None \<Rightarrow> [] | Some _ \<Rightarrow> [TasksSettled ts]) @ last_calls ou"
            "pr_path p4 = pr_path p3" "pr_bus p4 = pr_bus p3"
            "\<forall>refs. pr_references p4 = Some refs \<longrightarrow> (\<forall>t \<in> rs_populate_tasks refs. ou_settled ou t)"
            "\<not> client_closes ou \<longrightarrow> r4 = Inl (the (ou_http_aclose ou))"
          by auto
        from p3(2) show ?thesis
        proof (elim disjE exE conjE)
          assume "pr_effects p3 = [EngineCreated en, ClientCreated] @ mig" "pr_references p3 = None"
          then show ?thesis by (intro that(3) [OF en mig, of "[]"]) (use p3(1) p4 main in auto)
        next
          fix es b assume "pr_effects p3 = [EngineCreated en, ClientCreated] @ mig @ BusStarted # es @ [BusClosed]"
            "list_all serving_effect es" "pr_bus p3 = Some (stop b)" "pr_references p3 \<noteq> None"
          then show ?thesis
            by (intro that(3) [OF en mig, of "BusStarted # es @ [BusClosed, TasksSettled ts]"]) (use p3(1) p4 main in auto)
        qed
      qed
    qed
  qed
qed

section \<open>What the application finds and leaves\<close>

text \<open>Actions that leave the bus, the services and the database alone.\<close>

definition unchanged :: "process \<Rightarrow> process \<Rightarrow> bool" where
  "unchanged p q \<longleftrightarrow> pr_database q = pr_database p \<and> pr_bus q = pr_bus p \<and> pr_summaries q = pr_summaries p
     \<and> pr_references q = pr_references p"

interpretation still: action_order unchanged
  by unfold_locales (simp_all add: unchanged_def)

lemma unchanged_effected [simp]: "unchanged p (effected x p)"
  by (simp add: unchanged_def)

lemma served_unchanged: "unchanged p q \<Longrightarrow> served_app q = served_app p"
  by (simp add: unchanged_def served_app_def)

lemma served_with_app [simp]: "served_app (with_app a p) = a" "pr_database (with_app a p) = w_db (ap_world a)"
  by (simp_all add: served_app_def with_app_def)

lemma install_unchanged: "install ou p = (r, q) \<Longrightarrow> unchanged p q"
  unfolding install_def
  by (erule still.act_order, erule still.outcome_order) (auto simp: act_def outcome_def unchanged_def split: option.splits)

lemma signals_unchanged: "install_signal_handlers ou ss p = (r, q) \<Longrightarrow> unchanged p q"
  by (induction ss) (auto simp: still.refl split: option.splits if_splits)

lemma stop_server_unchanged: "stop_server ou p = (r, q) \<Longrightarrow> unchanged p q"
  by (auto simp: stop_server_def Let_def dest!: await_goes_on split: option.splits if_splits)

lemma serve_served:
  assumes "serve ou s p = (r, q)"
  shows "served_app q = ou_serving ou (served_app p)" and "pr_database q = w_db (ap_world (ou_serving ou (served_app p)))"
    and "pr_bus q \<noteq> None" and "pr_references q \<noteq> None"
proof -
  have "unchanged (having_served ou s p) q" by (rule still.serve_order [OF assms]) (rule stop_server_unchanged)
  then show "served_app q = ou_serving ou (served_app p)" "pr_database q = w_db (ap_world (ou_serving ou (served_app p)))"
      "pr_bus q \<noteq> None" "pr_references q \<noteq> None"
    using served_unchanged [of p "effected (ServerStarted (uvicorn_level (as_level s))) p"]
    by (auto simp: having_served_def Let_def served_unchanged) (auto simp: unchanged_def with_app_def)
qed

text \<open>What is served first is what \<open>startup\<close> of \<open>Application\<close> says.\<close>

lemma built_services:
  assumes "start_bus s p = (Inr x, p1)" and "build_services s p1 = (Inr y, p2)"
  shows "served_app p2 = sys_app (startup (as_core s) (pr_database p))" and "pr_database p2 = pr_database p"
  using assms by (auto simp: start_bus_def build_services_def served_app_def startup_def)

lemma with_engine_database:
  assumes "with_engine ou config_path s p = (r, q)"
  obtains db where "db = pr_database p \<or> (\<exists>d url. db = snd (ou_migrate ou d url (pr_database p)))"
    and "pr_database q = db \<or> pr_database q = w_db (ap_world (ou_serving ou (sys_app (startup (as_core s) db))))"
proof -
  obtain r1 p1 where up: "upgrade_database ou config_path p = (r1, p1)" by fastforce
  then have db: "pr_database p1 = pr_database p \<or> (\<exists>d url. pr_database p1 = snd (ou_migrate ou d url (pr_database p)))"
    by (auto simp: upgrade_database_def Let_def try_finally_def upgrade_database_sync_def outcome_def
        split: option.splits sum.splits prod.splits if_splits) (metis snd_conv)+
  have "pr_database q = pr_database p1
      \<or> pr_database q = w_db (ap_world (ou_serving ou (sys_app (startup (as_core s) (pr_database p1)))))"
  proof (cases r1)
    case (Inl e) then show ?thesis using assms up by (simp add: with_engine_def act_def)
  next
    case (Inr x)
    obtain p2 where p2: "start_bus s p1 = (Inr (), p2)" by (simp add: start_bus_def)
    obtain p3 where p3: "build_services s p2 = (Inr (), p3)" by (simp add: build_services_def)
    obtain r4 p4 where p4: "install ou p3 = (r4, p4)" by fastforce
    obtain r5 p5 where p5: "install_signal_handlers ou [''SIGINT'', ''SIGTERM''] p4 = (r5, p5)" by fastforce
    obtain r6 p6 where p6: "serve ou s p5 = (r6, p6)" by fastforce
    have same: "unchanged p3 p4" "unchanged p3 p5"
      using install_unchanged [OF p4] still.trans [OF install_unchanged [OF p4] signals_unchanged [OF p5]] by simp_all
    have q: "pr_database q \<in> {pr_database p4, pr_database p5, pr_database p6}"
      using assms up Inr p2 p3 p4 p5 p6 by (cases r4; cases r5)
        (auto simp: with_engine_def act_def try_finally_def with_bus_running_def stop_bus_def)
    have p6': "pr_database p6 = w_db (ap_world (ou_serving ou (served_app p3)))"
      using serve_served(2) [OF p6] served_unchanged [OF same(2)] by simp
    show ?thesis using q same built_services [OF p2 p3] unfolding p6' by (auto simp: unchanged_def)
  qed
  with db show ?thesis by (rule that)
qed

lemma close_all_database: "close_all ou p = (r, q) \<Longrightarrow> pr_database q = pr_database p"
  by (cases "pr_references p") (auto simp: close_all_def act_def settle_tasks_def aclose_def dispose_def outcome_def Let_def split_beta
      split: option.splits if_splits)

lemma main_database:
  assumes "main ou config_path (new_process logging db) = (r, q)"
  obtains "pr_database q = db"
  | s db' where "db' = db \<or> (\<exists>d url. db' = snd (ou_migrate ou d url db))"
      and "pr_database q = db' \<or> pr_database q = w_db (ap_world (ou_serving ou (sys_app (startup s db'))))"
proof -
  obtain r0 p0 where load: "load_and_log ou config_path (new_process logging db) = (r0, p0)" by fastforce
  have p0: "pr_database p0 = db"
    using load by (auto simp: load_and_log_def new_process_def split: sum.splits prod.splits)
  show ?thesis
  proof (cases "\<exists>s en. r0 = Inr s \<and> create_engine_from_settings (as_database s) = Inr en \<and> ou_client ou = None")
    case False
    with assms load p0 show ?thesis
      by (intro that(1)) (cases r0; auto simp: main_def act_def create_engine_def create_client_def split: sum.splits option.splits)
  next
    case True
    then obtain s en where s: "r0 = Inr s" "create_engine_from_settings (as_database s) = Inr en" "ou_client ou = None" by blast
    obtain r3 p3 where body: "with_engine ou config_path s (effected ClientCreated (effected (EngineCreated en) p0)) = (r3, p3)" by fastforce
    obtain r4 p4 where close: "close_all ou p3 = (r4, p4)" by fastforce
    have "q = p4"
      using assms load s body close
      by (auto simp: main_def act_def create_engine_def create_client_def try_finally_def split: sum.splits)
    with close_all_database [OF close] have "pr_database q = pr_database p3" by simp
    with with_engine_database [OF body] p0 show ?thesis by (metis that(2) effected_fields(5))
  qed
qed

section \<open>Properties\<close>




lemma migrated_database:
  assumes "load_settings (ou_settings_of ou) config_path None = (Inr s, None)" and "config_path \<noteq> Some []"
    and "pr_path p = None" and "pr_database p = db"
    and "case find_alembic_dir (ou_is_file ou) (ou_cwd ou) (ou_source_root ou) of None \<Rightarrow> db' = db
      | Some d \<Rightarrow> ou_migrate ou d (as_database s) db = (None, db')"
  obtains p' where "upgrade_database ou config_path p = (Inr (), p')" and "pr_database p' = db'"
proof (cases "find_alembic_dir (ou_is_file ou) (ou_cwd ou) (ou_source_root ou)")
  case None
  then show ?thesis using assms(4,5) by (intro that [of p]) (simp_all add: upgrade_database_def)
next
  case (Some d)
  have "database_url ou (case config_path of None \<Rightarrow> None | Some path \<Rightarrow> Some path) = Inr (as_database s)"
    unfolding database_url_def same_settings [of _ config_path None, symmetric] assms(1) by simp
  then show ?thesis
    using Some assms(2-5)
    by (intro that) (auto simp: upgrade_database_def try_finally_def upgrade_database_sync_def outcome_def Let_def
      effected_def split: option.splits)
qed

lemma signals_installed:
  "\<forall>g. ou_add_signal_handler ou g \<in> {None, Some (Foreign ''NotImplementedError'')} \<Longrightarrow> install_signal_handlers ou ss p = (Inr (), p)"
proof (induction ss)
  case (Cons g ss)
  then have "ou_add_signal_handler ou g = None \<or> ou_add_signal_handler ou g = Some (Foreign ''NotImplementedError'')" by blast
  then show ?case using Cons(1) [OF Cons(2)] by auto
qed simp

lemma stopped_app:
  assumes "close_all ou (snd (stop_bus p)) = (r, q)" and "pr_bus p \<noteq> None" and "pr_references p \<noteq> None"
  shows "served_app q = stopped (ou_settled ou) (served_app p)"
  using assms
  by (auto simp: close_all_def act_def settle_tasks_def stop_bus_def aclose_def dispose_def outcome_def Let_def served_app_def
      stopped_def with_bus_def split_beta split: option.splits if_splits)

lemma serve_outcome:
  assumes "ou_wait ou = Inr (stop_requested, server)" and "serve ou s p = (r, q)"
  shows "server = Returned \<Longrightarrow> r = Inr ()" and "server = Failed e \<Longrightarrow> r = Inl e"
    and "server = Running \<Longrightarrow> stop_requested \<Longrightarrow> ou_shutdown ou = None \<or> is_exception (the (ou_shutdown ou)) \<Longrightarrow>
      (ou_wait_for ou = Inr Returned \<or> ou_wait_for ou = Inr Running \<longrightarrow> r = Inr ()) \<and> (ou_wait_for ou = Inr (Failed e) \<longrightarrow> r = Inl e)"
  using assms by (auto simp: serve_def Let_def act_def stop_server_def await_server_def split: option.splits if_splits)

lemma installed_routes: "resolve (overrides api_dependencies) req = Inr (depends req)"
proof -
  have "provided (overrides api_dependencies) d = Inr d" for d
    by (cases d) (simp_all add: api_dependencies_def provided_built)
  then show ?thesis unfolding resolve_def by (subst map_result_total) (simp_all)
qed


section \<open>Witnesses\<close>

definition quiet_logging :: logging_state where
  "quiet_logging = \<lparr>ls_root = \<lparr>lo_level = ''WARNING'', lo_handlers = [], lo_propagate = True\<rparr>,
     ls_loggers = (\<lambda>_. \<lparr>lo_level = ''NOTSET'', lo_handlers = [], lo_propagate = True\<rparr>), ls_last_resort = None, ls_closed = [],
     ls_capture_installed = False, ls_showwarning = [], ls_jwt = True, ls_next = 0\<rparr>"

definition plain_settings :: app_settings where
  "plain_settings = \<lparr>as_debug = False, as_jwt_secret = ''t0p'', as_level = ''INFO'', as_format = TextFormat,
     as_database = \<lparr>dc_driver = Postgresql, dc_connect_args = []\<rparr>,
     as_core = \<lparr>max_queue_size = 100, cache_ttl_s = 60, enabled = True\<rparr>\<rparr>"

text \<open>A day on which all works, ended by a signal; and one on which the server crashes and the client cannot be closed.\<close>

definition calm :: outside where
  "calm = \<lparr>ou_settings_of = (\<lambda>path. Inr plain_settings), ou_is_file = (\<lambda>f. f = ''/app/alembic/env.py''), ou_cwd = ''/home'',
     ou_source_root = ''/app'', ou_client = None, ou_migrate = (\<lambda>d url db. (None, db)), ou_create_ui_app = None,
     ou_install_api = None, ou_add_signal_handler = (\<lambda>_. None), ou_serving = (\<lambda>a. a), ou_wait = Inr (True, Running),
     ou_shutdown = None, ou_wait_for = Inr Returned, ou_settled = (\<lambda>_. True), ou_http_aclose = None, ou_dispose = None\<rparr>"

definition crashing :: outside where
  "crashing = calm\<lparr>ou_wait := Inr (False, Failed (Known OSError)), ou_http_aclose := Some (Foreign ''ConnectionError'')\<rparr>"

definition one_engine :: engine where
  "one_engine = \<lparr>en_connect_args = [], en_on_connect = []\<rparr>"

lemma plain_engine: "create_engine_from_settings (as_database plain_settings) = Inr one_engine"
  by (simp add: create_engine_from_settings_def plain_settings_def one_engine_def resolved_connect_args_def)

lemma calm_simps [simp]:
  "ou_settings_of calm path = Inr plain_settings" "ou_client calm = None" "ou_migrate calm d url db = (None, db)"
  "ou_create_ui_app calm = None" "ou_install_api calm = None" "ou_add_signal_handler calm g = None" "ou_serving calm a = a"
  "ou_wait calm = Inr (True, Running)" "ou_shutdown calm = None" "ou_wait_for calm = Inr Returned" "ou_settled calm t"
  "client_closes calm" "ou_http_aclose calm = None" "ou_dispose calm = None"
  "find_alembic_dir (ou_is_file calm) (ou_cwd calm) (ou_source_root calm) = Some ''/app/alembic''"
  by (simp_all add: calm_def client_closes_def find_alembic_dir_def)

lemma loaded_calm [simp]: "load_settings (ou_settings_of calm) None None = (Inr plain_settings, None)"
  by (simp add: load_settings_def Let_def)

lemma calm_database [simp]: "database_url calm None = Inr (as_database plain_settings)"
  by (simp add: database_url_def)

lemmas main_defs = main_def act_def load_and_log_def new_process_def create_engine_def plain_engine create_client_def
  try_finally_def with_engine_def upgrade_database_def upgrade_database_sync_def outcome_def start_bus_def with_bus_running_def
  build_services_def install_def close_all_def aclose_def dispose_def stop_bus_def settle_tasks_def

definition calm_effects :: "effect list" where
  "calm_effects =
    [EngineCreated one_engine, ClientCreated, Migrated ''/app/alembic'' (as_database plain_settings), BusStarted, UiCreated,
     ApiInstalled (overrides api_dependencies), ServerStarted ''info'', ShutdownRequested, BusClosed, TasksSettled {}, ClientClosed,
     EngineDisposed]"

lemma info_level [simp]: "uvicorn_level (as_level plain_settings) = ''info''"
  by (simp add: plain_settings_def) code_simp

lemma calm_runs:
  "fst (main calm None (new_process quiet_logging yearly_db)) = Inr ()"
  "pr_effects (snd (main calm None (new_process quiet_logging yearly_db))) = calm_effects"
  by (simp_all add: main_defs serve_def stop_server_def await_server_def Let_def with_app_def split_beta served_app_def
    shutdown_def calm_effects_def)





text \<open>Two files of settings with different databases.\<close>

definition other_database :: database_config where
  "other_database = \<lparr>dc_driver = Postgresql, dc_connect_args = [(''application_name'', JStr ''other'')]\<rparr>"

definition two_files :: outside where
  "two_files = calm\<lparr>ou_settings_of := \<lambda>path. Inr (if path = [] then plain_settings else plain_settings\<lparr>as_database := other_database\<rparr>)\<rparr>"

text \<open>
  An empty \<open>--config\<close> is no path for \<open>_upgrade_database\<close>, which asks for its truth, and a path for \<open>load_settings\<close>, which asks whether
  it is \<open>None\<close>: the migrations then run against the database of \<open>config.yaml\<close>, and the application works on another one.
\<close>

theorem empty_path_migrates_another_database:
  "\<exists>ou r q en url. main ou (Some []) (new_process quiet_logging yearly_db) = (r, q) \<and> r = Inr ()
    \<and> EngineCreated en \<in> set (pr_effects q) \<and> Migrated ''/app/alembic'' url \<in> set (pr_effects q)
    \<and> create_engine_from_settings url \<noteq> Inr en"
proof -
  obtain r q where ran: "main two_files (Some []) (new_process quiet_logging yearly_db) = (r, q)" by fastforce
  have fields: "find_alembic_dir (ou_is_file two_files) (ou_cwd two_files) (ou_source_root two_files) = Some ''/app/alembic''"
    "load_settings (ou_settings_of two_files) (Some []) None = (Inr plain_settings, None)" "database_url two_files None = Inr other_database"
    "ou_client two_files = None" "ou_migrate two_files d url db = (None, db)" "ou_create_ui_app two_files = None"
    "ou_install_api two_files = None" "ou_add_signal_handler two_files g = None" "ou_serving two_files a = a"
    "ou_wait two_files = Inr (True, Running)" "ou_shutdown two_files = None" "ou_wait_for two_files = Inr Returned"
    "ou_http_aclose two_files = None" "ou_dispose two_files = None" for d url db g a
    by (simp_all add: two_files_def load_settings_def Let_def database_url_def yaml_source_def DEFAULT_CONFIG_PATH_def)
  have "r = Inr () \<and> EngineCreated one_engine \<in> set (pr_effects q) \<and> Migrated ''/app/alembic'' other_database \<in> set (pr_effects q)"
    using ran
    by (auto simp: main_defs fields serve_def stop_server_def await_server_def Let_def with_app_def split_beta served_app_def shutdown_def)
  moreover have "create_engine_from_settings other_database \<noteq> Inr one_engine"
    by (simp add: other_database_def create_engine_from_settings_def one_engine_def resolved_connect_args_def)
  ultimately show ?thesis using ran by blast
qed

end
