(* ===== verification/Schema.thy ===== *)
theory Schema
  imports Models
begin

text \<open>
  The schema of the database, which the repository states twice: by the migration
  \<open>alembic/versions/0001_initial_schema.py\<close> and by the declarations of \<open>db/models.py\<close>, from which
  SQLAlchemy derives its metadata. Both are values here. A schema has a meaning: which contents of the
  tables it allows. \<open>Models\<close> works with the predicate \<open>db_wf\<close>; this theory shows that it is that meaning.
\<close>

section \<open>Tables\<close>

datatype column_type = IntegerType | FloatType | StringType nat | DateType | DateTimeType

datatype server_default = DefaultText string | DefaultNow

text \<open>\<open>co_generated\<close>: the database chooses the value, by \<open>Identity()\<close> or by \<open>autoincrement=True\<close>.\<close>

record column =
  co_name :: string
  co_type :: column_type
  co_generated :: bool
  co_nullable :: bool
  co_default :: "server_default option"

record foreign_key =
  fk_column :: string
  fk_table :: string
  fk_target :: string
  fk_cascade :: bool

text \<open>A check is \<open>column IN (values)\<close> under a name.\<close>

record check =
  ck_name :: string
  ck_column :: string
  ck_values :: "string list"

record table =
  td_name :: string
  td_columns :: "column list"
  td_primary_key :: "string list"
  td_foreign_keys :: "foreign_key list"
  td_uniques :: "string list list"
  td_checks :: "check list"
  td_indexes :: "(string \<times> string list) list"

type_synonym schema = "table list"

definition table_named :: "string \<Rightarrow> schema \<Rightarrow> table option" where
  "table_named n sch = List.find (\<lambda>t. td_name t = n) sch"

section \<open>The migration\<close>

datatype item =
    Column column
  | PrimaryKeyConstraint "string list"
  | ForeignKeyConstraint foreign_key
  | UniqueConstraint "string list"
  | CheckConstraint check

datatype migration_op =
    CreateTable string "item list"
  | CreateIndex string string "string list"
  | DropTable string

fun add_item :: "item \<Rightarrow> table \<Rightarrow> table" where
  "add_item (Column c) t = t\<lparr>td_columns := td_columns t @ [c]\<rparr>"
| "add_item (PrimaryKeyConstraint cs) t = t\<lparr>td_primary_key := cs\<rparr>"
| "add_item (ForeignKeyConstraint k) t = t\<lparr>td_foreign_keys := td_foreign_keys t @ [k]\<rparr>"
| "add_item (UniqueConstraint cs) t = t\<lparr>td_uniques := td_uniques t @ [cs]\<rparr>"
| "add_item (CheckConstraint k) t = t\<lparr>td_checks := td_checks t @ [k]\<rparr>"

definition table_of_items :: "string \<Rightarrow> item list \<Rightarrow> table" where
  "table_of_items n items = fold add_item items
     \<lparr>td_name = n, td_columns = [], td_primary_key = [], td_foreign_keys = [], td_uniques = [], td_checks = [], td_indexes = []\<rparr>"

definition column_names :: "table \<Rightarrow> string list" where
  "column_names t = map co_name (td_columns t)"

text \<open>
  What a database checks of a new table: its columns have names of their own, its constraints name columns it has,
  and a foreign key refers to the primary key of a table that is there.
\<close>

definition well_formed_table :: "schema \<Rightarrow> table \<Rightarrow> bool" where
  "well_formed_table sch t \<longleftrightarrow> distinct (column_names t)
     \<and> set (td_primary_key t) \<subseteq> set (column_names t)
     \<and> (\<forall>cs \<in> set (td_uniques t). set cs \<subseteq> set (column_names t))
     \<and> (\<forall>k \<in> set (td_checks t). ck_column k \<in> set (column_names t))
     \<and> (\<forall>k \<in> set (td_foreign_keys t). fk_column k \<in> set (column_names t)
          \<and> (case table_named (fk_table k) sch of None \<Rightarrow> False | Some t' \<Rightarrow> td_primary_key t' = [fk_target k]))"

text \<open>
  \<open>None\<close> is a statement that the database refuses: PostgreSQL refuses all of these, SQLite some. A table that
  others refer to cannot be dropped.
\<close>

fun apply_op :: "migration_op \<Rightarrow> schema \<Rightarrow> schema option" where
  "apply_op (CreateTable n items) sch =
     (let t = table_of_items n items
      in if table_named n sch = None \<and> well_formed_table sch t then Some (sch @ [t]) else None)"
| "apply_op (CreateIndex i n cs) sch =
     (case table_named n sch of
        None \<Rightarrow> None
      | Some t \<Rightarrow>
          if i \<notin> fst ` set (concat (map td_indexes sch)) \<and> set cs \<subseteq> set (column_names t)
          then Some (map (\<lambda>t. if td_name t = n then t\<lparr>td_indexes := td_indexes t @ [(i, cs)]\<rparr> else t) sch)
          else None)"
| "apply_op (DropTable n) sch =
     (if table_named n sch \<noteq> None \<and> (\<forall>t \<in> set sch. td_name t \<noteq> n \<longrightarrow> n \<notin> fk_table ` set (td_foreign_keys t))
      then Some (filter (\<lambda>t. td_name t \<noteq> n) sch) else None)"

fun apply_ops :: "migration_op list \<Rightarrow> schema \<Rightarrow> schema option" where
  "apply_ops [] sch = Some sch"
| "apply_ops (p # ps) sch = Option.bind (apply_op p sch) (apply_ops ps)"

text \<open>\<open>sa.Column("id", sa.Integer(), sa.Identity(), nullable=False)\<close> and the plain columns.\<close>

definition id_column :: item where
  "id_column = Column \<lparr>co_name = ''id'', co_type = IntegerType, co_generated = True, co_nullable = False, co_default = None\<rparr>"

definition col :: "string \<Rightarrow> column_type \<Rightarrow> bool \<Rightarrow> item" where
  "col n ty nullable = Column \<lparr>co_name = n, co_type = ty, co_generated = False, co_nullable = nullable, co_default = None\<rparr>"

definition col_default :: "string \<Rightarrow> column_type \<Rightarrow> server_default \<Rightarrow> item" where
  "col_default n ty d = Column \<lparr>co_name = n, co_type = ty, co_generated = False, co_nullable = False, co_default = Some d\<rparr>"

definition references :: "string \<Rightarrow> string \<Rightarrow> item" where
  "references c t = ForeignKeyConstraint \<lparr>fk_column = c, fk_table = t, fk_target = ''id'', fk_cascade = False\<rparr>"

definition upgrade :: "migration_op list" where
  "upgrade =
    [CreateTable ''users''
       [id_column, col ''username'' (StringType 100) False, col ''password_hash'' (StringType 255) False,
        PrimaryKeyConstraint [''id''], UniqueConstraint [''username'']],
     CreateTable ''brokers''
       [id_column, col ''name'' (StringType 255) False, col ''commission'' FloatType False,
        col ''min_commission'' FloatType True,
        col_default ''min_commission_type'' (StringType 10) (DefaultText ''PERCENT''),
        col ''description'' (StringType 1000) True, col_default ''created_at'' DateTimeType DefaultNow,
        PrimaryKeyConstraint [''id''], UniqueConstraint [''name''],
        CheckConstraint \<lparr>ck_name = ''ck_brokers_min_commission_type'', ck_column = ''min_commission_type'',
          ck_values = [''PERCENT'', ''RUBLES'']\<rparr>],
     CreateTable ''bonds''
       [id_column, col ''owner_id'' IntegerType False, col ''isin'' (StringType 12) False,
        col ''name'' (StringType 255) False, col_default ''nominal'' IntegerType (DefaultText ''1000''),
        col ''coupon_rate'' FloatType False, col_default ''coupon_period_days'' IntegerType (DefaultText ''182''),
        col ''maturity_date'' DateType False, col ''issuer'' (StringType 255) True,
        PrimaryKeyConstraint [''id''], references ''owner_id'' ''users'', UniqueConstraint [''isin'']],
     CreateIndex ''ix_bonds_owner_id'' ''bonds'' [''owner_id''],
     CreateTable ''bond_coupons''
       [id_column, col ''bond_id'' IntegerType False, col ''coupon_date'' DateType False,
        col ''coupon_amount'' FloatType False, PrimaryKeyConstraint [''id''],
        ForeignKeyConstraint \<lparr>fk_column = ''bond_id'', fk_table = ''bonds'', fk_target = ''id'', fk_cascade = True\<rparr>,
        UniqueConstraint [''bond_id'', ''coupon_date'']],
     CreateIndex ''ix_bond_coupons_bond_id'' ''bond_coupons'' [''bond_id''],
     CreateTable ''broker_accounts''
       [id_column, col ''user_id'' IntegerType False, col ''broker_id'' IntegerType False,
        col ''name'' (StringType 255) False, col ''account_number'' (StringType 100) True,
        col ''account_type'' (StringType 20) False, col ''opened_at'' DateType True, col ''closed_at'' DateType True,
        col_default ''created_at'' DateTimeType DefaultNow, PrimaryKeyConstraint [''id''],
        references ''user_id'' ''users'', references ''broker_id'' ''brokers'',
        CheckConstraint \<lparr>ck_name = ''ck_broker_accounts_type'', ck_column = ''account_type'',
          ck_values = [''STANDARD'', ''IIS'', ''LTD'']\<rparr>],
     CreateIndex ''ix_broker_accounts_user_id'' ''broker_accounts'' [''user_id''],
     CreateIndex ''ix_broker_accounts_broker_id'' ''broker_accounts'' [''broker_id''],
     CreateTable ''transactions''
       [id_column, col ''user_id'' IntegerType False, col ''bond_id'' IntegerType False,
        col ''broker_account_id'' IntegerType False, col ''type'' (StringType 10) False,
        col ''quantity'' IntegerType False, col ''price'' FloatType False, col ''date'' DateType False,
        col ''commission'' FloatType False, col_default ''created_at'' DateTimeType DefaultNow,
        references ''user_id'' ''users'', references ''bond_id'' ''bonds'',
        references ''broker_account_id'' ''broker_accounts'', PrimaryKeyConstraint [''id''],
        CheckConstraint \<lparr>ck_name = ''ck_transactions_type'', ck_column = ''type'', ck_values = [''BUY'', ''SELL'', ''MATURE'']\<rparr>],
     CreateIndex ''ix_transactions_broker_account_id'' ''transactions'' [''broker_account_id''],
     CreateTable ''account_operations''
       [id_column, col ''user_id'' IntegerType False, col ''broker_account_id'' IntegerType False,
        col ''type'' (StringType 10) False, col ''amount'' FloatType False, col ''date'' DateType False,
        col ''note'' (StringType 500) True, col_default ''created_at'' DateTimeType DefaultNow,
        references ''user_id'' ''users'', references ''broker_account_id'' ''broker_accounts'',
        PrimaryKeyConstraint [''id''],
        CheckConstraint \<lparr>ck_name = ''ck_account_operations_type'', ck_column = ''type'',
          ck_values = [''DEPOSIT'', ''WITHDRAWAL'', ''TAX'']\<rparr>],
     CreateIndex ''ix_account_operations_user_id'' ''account_operations'' [''user_id''],
     CreateIndex ''ix_account_operations_broker_account_id'' ''account_operations'' [''broker_account_id'']]"

definition downgrade :: "migration_op list" where
  "downgrade = map DropTable [''account_operations'', ''transactions'', ''broker_accounts'', ''bond_coupons'', ''bonds'', ''brokers'', ''users'']"

section \<open>The declarations of the models\<close>

text \<open>
  A \<open>mapped_column\<close> of an ORM class. Its type is given or, for a foreign key, that of the key it refers to, an
  integer; it may be missing when the annotation is \<open>Mapped[X | None]\<close>. \<open>mc_references\<close> is the table of
  \<open>ForeignKey("<table>.id")\<close> and whether it says \<open>ondelete="CASCADE"\<close>. Defaults on the side of Python, relationships
  and \<open>__repr__\<close> are no part of the schema.
\<close>

record mapped_column =
  mc_name :: string
  mc_type :: "column_type option"
  mc_optional :: bool
  mc_primary_key :: bool
  mc_autoincrement :: bool
  mc_unique :: bool
  mc_index :: bool
  mc_references :: "(string \<times> bool) option"
  mc_server_default :: "server_default option"

record orm_class =
  oc_table :: string
  oc_checks :: "check list"
  oc_uniques :: "string list list"
  oc_columns :: "mapped_column list"

text \<open>What SQLAlchemy makes of a class; \<open>index=True\<close> gives an index named after table and column.\<close>

definition column_of :: "mapped_column \<Rightarrow> column" where
  "column_of m =
     \<lparr>co_name = mc_name m, co_type = (case mc_type m of None \<Rightarrow> IntegerType | Some ty \<Rightarrow> ty),
      co_generated = (mc_primary_key m \<and> mc_autoincrement m), co_nullable = (mc_optional m \<and> \<not> mc_primary_key m),
      co_default = mc_server_default m\<rparr>"

definition key_of :: "mapped_column \<Rightarrow> foreign_key option" where
  "key_of m = map_option (\<lambda>(t, cascade). \<lparr>fk_column = mc_name m, fk_table = t, fk_target = ''id'', fk_cascade = cascade\<rparr>)
     (mc_references m)"

definition table_of_class :: "orm_class \<Rightarrow> table" where
  "table_of_class c =
     \<lparr>td_name = oc_table c, td_columns = map column_of (oc_columns c),
      td_primary_key = map mc_name (filter mc_primary_key (oc_columns c)),
      td_foreign_keys = List.map_filter key_of (oc_columns c),
      td_uniques = oc_uniques c @ map (\<lambda>m. [mc_name m]) (filter mc_unique (oc_columns c)), td_checks = oc_checks c,
      td_indexes = map (\<lambda>m. (''ix_'' @ oc_table c @ ''_'' @ mc_name m, [mc_name m])) (filter mc_index (oc_columns c))\<rparr>"

definition mapped :: "string \<Rightarrow> column_type \<Rightarrow> mapped_column" where
  "mapped n ty = \<lparr>mc_name = n, mc_type = Some ty, mc_optional = False, mc_primary_key = False, mc_autoincrement = False,
     mc_unique = False, mc_index = False, mc_references = None, mc_server_default = None\<rparr>"

definition mapped_id :: mapped_column where
  "mapped_id = (mapped ''id'' IntegerType)\<lparr>mc_primary_key := True, mc_autoincrement := True\<rparr>"

definition mapped_key :: "string \<Rightarrow> string \<Rightarrow> mapped_column" where
  "mapped_key n t = (mapped n IntegerType)\<lparr>mc_type := None, mc_references := Some (t, False)\<rparr>"

definition mapped_created_at :: mapped_column where
  "mapped_created_at = (mapped ''created_at'' DateTimeType)\<lparr>mc_server_default := Some DefaultNow\<rparr>"

definition User :: orm_class where
  "User = \<lparr>oc_table = ''users'', oc_checks = [], oc_uniques = [],
     oc_columns = [mapped_id, (mapped ''username'' (StringType 100))\<lparr>mc_unique := True\<rparr>,
       mapped ''password_hash'' (StringType 255)]\<rparr>"

definition Broker :: orm_class where
  "Broker = \<lparr>oc_table = ''brokers'',
     oc_checks = [\<lparr>ck_name = ''ck_brokers_min_commission_type'', ck_column = ''min_commission_type'',
       ck_values = [''PERCENT'', ''RUBLES'']\<rparr>], oc_uniques = [],
     oc_columns = [mapped_id, (mapped ''name'' (StringType 255))\<lparr>mc_unique := True\<rparr>, mapped ''commission'' FloatType,
       (mapped ''min_commission'' FloatType)\<lparr>mc_optional := True\<rparr>,
       (mapped ''min_commission_type'' (StringType 10))\<lparr>mc_server_default := Some (DefaultText ''PERCENT'')\<rparr>,
       (mapped ''description'' (StringType 1000))\<lparr>mc_optional := True\<rparr>, mapped_created_at]\<rparr>"

definition Bond :: orm_class where
  "Bond = \<lparr>oc_table = ''bonds'', oc_checks = [], oc_uniques = [],
     oc_columns = [mapped_id, (mapped_key ''owner_id'' ''users'')\<lparr>mc_index := True\<rparr>,
       (mapped ''isin'' (StringType 12))\<lparr>mc_unique := True\<rparr>, mapped ''name'' (StringType 255),
       (mapped ''nominal'' IntegerType)\<lparr>mc_server_default := Some (DefaultText ''1000'')\<rparr>, mapped ''coupon_rate'' FloatType,
       (mapped ''coupon_period_days'' IntegerType)\<lparr>mc_server_default := Some (DefaultText ''182'')\<rparr>,
       mapped ''maturity_date'' DateType, (mapped ''issuer'' (StringType 255))\<lparr>mc_optional := True\<rparr>]\<rparr>"

definition BondCoupon :: orm_class where
  "BondCoupon = \<lparr>oc_table = ''bond_coupons'', oc_checks = [], oc_uniques = [[''bond_id'', ''coupon_date'']],
     oc_columns = [mapped_id, (mapped_key ''bond_id'' ''bonds'')\<lparr>mc_references := Some (''bonds'', True), mc_index := True\<rparr>,
       mapped ''coupon_date'' DateType, mapped ''coupon_amount'' FloatType]\<rparr>"

definition BrokerAccount :: orm_class where
  "BrokerAccount = \<lparr>oc_table = ''broker_accounts'',
     oc_checks = [\<lparr>ck_name = ''ck_broker_accounts_type'', ck_column = ''account_type'', ck_values = [''STANDARD'', ''IIS'', ''LTD'']\<rparr>],
     oc_uniques = [],
     oc_columns = [mapped_id, (mapped_key ''user_id'' ''users'')\<lparr>mc_index := True\<rparr>,
       (mapped_key ''broker_id'' ''brokers'')\<lparr>mc_index := True\<rparr>, mapped ''name'' (StringType 255),
       (mapped ''account_number'' (StringType 100))\<lparr>mc_optional := True\<rparr>, mapped ''account_type'' (StringType 20),
       (mapped ''opened_at'' DateType)\<lparr>mc_optional := True\<rparr>, (mapped ''closed_at'' DateType)\<lparr>mc_optional := True\<rparr>,
       mapped_created_at]\<rparr>"

definition Transaction :: orm_class where
  "Transaction = \<lparr>oc_table = ''transactions'',
     oc_checks = [\<lparr>ck_name = ''ck_transactions_type'', ck_column = ''type'', ck_values = [''BUY'', ''SELL'', ''MATURE'']\<rparr>],
     oc_uniques = [],
     oc_columns = [mapped_id, mapped_key ''user_id'' ''users'', mapped_key ''bond_id'' ''bonds'',
       (mapped_key ''broker_account_id'' ''broker_accounts'')\<lparr>mc_index := True\<rparr>, mapped ''type'' (StringType 10),
       mapped ''quantity'' IntegerType, mapped ''price'' FloatType, mapped ''date'' DateType,
       mapped ''commission'' FloatType, mapped_created_at]\<rparr>"

definition AccountOperation :: orm_class where
  "AccountOperation = \<lparr>oc_table = ''account_operations'',
     oc_checks = [\<lparr>ck_name = ''ck_account_operations_type'', ck_column = ''type'', ck_values = [''DEPOSIT'', ''WITHDRAWAL'', ''TAX'']\<rparr>],
     oc_uniques = [],
     oc_columns = [mapped_id, (mapped_key ''user_id'' ''users'')\<lparr>mc_index := True\<rparr>,
       (mapped_key ''broker_account_id'' ''broker_accounts'')\<lparr>mc_index := True\<rparr>, mapped ''type'' (StringType 10),
       mapped ''amount'' FloatType, mapped ''date'' DateType, (mapped ''note'' (StringType 500))\<lparr>mc_optional := True\<rparr>,
       mapped_created_at]\<rparr>"

text \<open>\<open>Base.metadata\<close>\<close>

definition metadata :: schema where
  "metadata = map table_of_class [User, Broker, Bond, BondCoupon, BrokerAccount, Transaction, AccountOperation]"

section \<open>What a schema allows\<close>

datatype cell_value = CInt int | CFloat rat | CText string | CDate date | CTime int | CNull

type_synonym record_cells = "(string \<times> cell_value) list"

text \<open>
  A value has the type of its column; a float column takes any number. The length of a string is no
  constraint of SQLite.
\<close>

fun fits :: "column_type \<Rightarrow> cell_value \<Rightarrow> bool" where
  "fits IntegerType (CInt n) = True"
| "fits FloatType (CFloat x) = True"
| "fits (StringType n) (CText s) = True"
| "fits DateType (CDate d) = True"
| "fits DateTimeType (CTime t) = True"
| "fits _ _ = False"

definition cells :: "string list \<Rightarrow> record_cells \<Rightarrow> cell_value list" where
  "cells cs r = map (\<lambda>c. case map_of r c of None \<Rightarrow> CNull | Some v \<Rightarrow> v) cs"

definition record_ok :: "table \<Rightarrow> record_cells \<Rightarrow> bool" where
  "record_ok t r \<longleftrightarrow> (\<forall>c \<in> set (td_columns t).
     case map_of r (co_name c) of None \<Rightarrow> False | Some v \<Rightarrow> if v = CNull then co_nullable c else fits (co_type c) v)"

text \<open>A unique constraint says nothing of rows with a missing value, and neither do a foreign key and a check.\<close>

definition unique_in :: "string list \<Rightarrow> record_cells list \<Rightarrow> bool" where
  "unique_in cs rows \<longleftrightarrow> distinct (filter (\<lambda>vs. CNull \<notin> set vs) (map (cells cs) rows))"

definition refers :: "(string \<Rightarrow> record_cells list) \<Rightarrow> foreign_key \<Rightarrow> record_cells \<Rightarrow> bool" where
  "refers rows_of k r \<longleftrightarrow> CNull \<in> set (cells [fk_column k] r)
     \<or> cells [fk_column k] r \<in> cells [fk_target k] ` set (rows_of (fk_table k))"

definition passes :: "check \<Rightarrow> record_cells \<Rightarrow> bool" where
  "passes k r \<longleftrightarrow> CNull \<in> set (cells [ck_column k] r) \<or> cells [ck_column k] r \<in> (\<lambda>v. [CText v]) ` set (ck_values k)"

definition table_allows :: "(string \<Rightarrow> record_cells list) \<Rightarrow> table \<Rightarrow> bool" where
  "table_allows rows_of t \<longleftrightarrow>
     (let rows = rows_of (td_name t)
      in (\<forall>r \<in> set rows. record_ok t r \<and> CNull \<notin> set (cells (td_primary_key t) r))
         \<and> (\<forall>cs \<in> set (td_primary_key t # td_uniques t). unique_in cs rows)
         \<and> (\<forall>k \<in> set (td_foreign_keys t). \<forall>r \<in> set rows. refers rows_of k r)
         \<and> (\<forall>k \<in> set (td_checks t). \<forall>r \<in> set rows. passes k r))"

definition allows :: "schema \<Rightarrow> (string \<Rightarrow> record_cells list) \<Rightarrow> bool" where
  "allows sch rows_of \<longleftrightarrow> (\<forall>t \<in> set sch. table_allows rows_of t)"

section \<open>The rows of the model as records of the tables\<close>

definition opt_cell :: "('a \<Rightarrow> cell_value) \<Rightarrow> 'a option \<Rightarrow> cell_value" where
  "opt_cell f x = (case x of None \<Rightarrow> CNull | Some v \<Rightarrow> f v)"

definition user_cells :: "user_row \<Rightarrow> record_cells" where
  "user_cells u = [(''id'', CInt (u_id u)), (''username'', CText (u_username u)), (''password_hash'', CText (u_password_hash u))]"

definition broker_cells :: "broker_row \<Rightarrow> record_cells" where
  "broker_cells b = [(''id'', CInt (br_id b)), (''name'', CText (br_name b)), (''commission'', CFloat (br_commission b)),
     (''min_commission'', opt_cell CFloat (br_min_commission b)), (''min_commission_type'', CText (br_min_commission_type b)),
     (''description'', opt_cell CText (br_description b)), (''created_at'', CTime (br_created_at b))]"

definition bond_cells :: "bond_row \<Rightarrow> record_cells" where
  "bond_cells b = [(''id'', CInt (b_id b)), (''owner_id'', CInt (b_owner_id b)), (''isin'', CText (b_isin b)), (''name'', CText (b_name b)),
     (''nominal'', CInt (b_nominal b)), (''coupon_rate'', CFloat (b_coupon_rate b)), (''coupon_period_days'', CInt (b_coupon_period_days b)),
     (''maturity_date'', CDate (b_maturity_date b)), (''issuer'', opt_cell CText (b_issuer b))]"

definition coupon_cells :: "coupon_row \<Rightarrow> record_cells" where
  "coupon_cells c = [(''id'', CInt (c_id c)), (''bond_id'', CInt (c_bond_id c)), (''coupon_date'', CDate (c_date c)),
     (''coupon_amount'', CFloat (c_amount c))]"

definition account_cells :: "account_row \<Rightarrow> record_cells" where
  "account_cells a = [(''id'', CInt (a_id a)), (''user_id'', CInt (a_user_id a)), (''broker_id'', CInt (a_broker_id a)),
     (''name'', CText (a_name a)), (''account_number'', opt_cell CText (a_account_number a)),
     (''account_type'', CText (a_account_type a)), (''opened_at'', opt_cell CDate (a_opened_at a)),
     (''closed_at'', opt_cell CDate (a_closed_at a)), (''created_at'', CTime (a_created_at a))]"

definition txn_cells :: "txn_row \<Rightarrow> record_cells" where
  "txn_cells t = [(''id'', CInt (t_id t)), (''user_id'', CInt (t_user_id t)), (''bond_id'', CInt (t_bond_id t)),
     (''broker_account_id'', CInt (t_account_id t)), (''type'', CText (t_type t)), (''quantity'', CInt (t_quantity t)),
     (''price'', CFloat (t_price t)), (''date'', CDate (t_date t)), (''commission'', CFloat (t_commission t)),
     (''created_at'', CTime (t_created_at t))]"

definition op_cells :: "op_row \<Rightarrow> record_cells" where
  "op_cells p = [(''id'', CInt (o_id p)), (''user_id'', CInt (o_user_id p)), (''broker_account_id'', CInt (o_account_id p)),
     (''type'', CText (o_type p)), (''amount'', CFloat (o_amount p)), (''date'', CDate (o_date p)), (''note'', opt_cell CText (o_note p)),
     (''created_at'', CTime (o_created_at p))]"

definition stored :: "database \<Rightarrow> string \<Rightarrow> record_cells list" where
  "stored db n =
     (if n = ''users'' then map user_cells (users db)
      else if n = ''brokers'' then map broker_cells (brokers db)
      else if n = ''bonds'' then map bond_cells (bonds db)
      else if n = ''bond_coupons'' then map coupon_cells (bond_coupons db)
      else if n = ''broker_accounts'' then map account_cells (broker_accounts db)
      else if n = ''transactions'' then map txn_cells (transactions db)
      else if n = ''account_operations'' then map op_cells (account_operations db)
      else [])"

section \<open>Lemmas\<close>

lemma upgraded: "apply_ops upgrade [] = Some metadata"
  by code_simp

lemma distinct_cells:
  "distinct (map (\<lambda>x. [CInt (f x)]) xs) = distinct (map f xs)"
  "distinct (map (\<lambda>x. [CText (g x)]) xs) = distinct (map g xs)"
  "distinct (map (\<lambda>x. [CInt (f x), CDate (h x)]) xs) = distinct (map (\<lambda>x. (f x, h x)) xs)"
  by (simp_all add: distinct_map inj_on_def)

lemma unique_in_map: "(\<And>x. CNull \<notin> set (cells cs (f x))) \<Longrightarrow> unique_in cs (map f xs) = distinct (map (\<lambda>x. cells cs (f x)) xs)"
  by (simp add: unique_in_def filter_map o_def)

lemmas row_cells = user_cells_def broker_cells_def bond_cells_def coupon_cells_def account_cells_def txn_cells_def op_cells_def

lemma opt_cell_simps [simp]:
  "opt_cell CFloat x = CNull \<longleftrightarrow> x = None" "opt_cell CText s = CNull \<longleftrightarrow> s = None" "opt_cell CDate d = CNull \<longleftrightarrow> d = None"
  "fits FloatType (opt_cell CFloat x) \<longleftrightarrow> x \<noteq> None" "fits (StringType n) (opt_cell CText s) \<longleftrightarrow> s \<noteq> None"
  "fits DateType (opt_cell CDate d) \<longleftrightarrow> d \<noteq> None"
  by (simp_all add: opt_cell_def split: option.split)

lemmas class_defs = column_of_def key_of_def table_of_class_def mapped_def mapped_id_def mapped_key_def mapped_created_at_def

lemma cells_Cons [simp]: "cells [] r = []" "cells (c # cs) r = (case map_of r c of None \<Rightarrow> CNull | Some v \<Rightarrow> v) # cells cs r"
  by (simp_all add: cells_def)

lemmas allow_defs = table_allows_def class_defs stored_def row_cells unique_in_map record_ok_def distinct_cells List.map_filter_simps
  refers_def passes_def image_image image_iff

lemma users_allowed:
  "table_allows (stored db) (table_of_class User) \<longleftrightarrow> distinct (map u_id (users db)) \<and> distinct (map u_username (users db))"
  by (simp add: allow_defs User_def)

lemma brokers_allowed:
  "table_allows (stored db) (table_of_class Broker) \<longleftrightarrow>
     distinct (map br_id (brokers db)) \<and> distinct (map br_name (brokers db)) \<and> (\<forall>b \<in> set (brokers db). broker_check b)"
  by (simp add: allow_defs Broker_def broker_check_def MIN_COMMISSION_TYPES_def)

lemma bonds_allowed:
  "table_allows (stored db) (table_of_class Bond) \<longleftrightarrow>
     distinct (map b_id (bonds db)) \<and> distinct (map b_isin (bonds db)) \<and> (\<forall>b \<in> set (bonds db). bond_refs db b)"
  by (simp add: allow_defs Bond_def bond_refs_def)

lemma coupons_allowed:
  "table_allows (stored db) (table_of_class BondCoupon) \<longleftrightarrow>
     distinct (map c_id (bond_coupons db)) \<and> distinct (map (\<lambda>c. (c_bond_id c, c_date c)) (bond_coupons db))
     \<and> (\<forall>c \<in> set (bond_coupons db). coupon_refs db c)"
  by (simp add: allow_defs BondCoupon_def coupon_refs_def)

lemma accounts_allowed:
  "table_allows (stored db) (table_of_class BrokerAccount) \<longleftrightarrow>
     distinct (map a_id (broker_accounts db)) \<and> (\<forall>a \<in> set (broker_accounts db). account_refs db a)"
  by (auto simp: allow_defs BrokerAccount_def account_refs_def BROKER_ACCOUNT_TYPES_def)

lemma txns_allowed:
  "table_allows (stored db) (table_of_class Transaction) \<longleftrightarrow>
     distinct (map t_id (transactions db)) \<and> (\<forall>t \<in> set (transactions db). txn_refs db t)"
  by (auto simp: allow_defs Transaction_def txn_refs_def TRANSACTION_TYPES_def)

lemma ops_allowed:
  "table_allows (stored db) (table_of_class AccountOperation) \<longleftrightarrow>
     distinct (map o_id (account_operations db)) \<and> (\<forall>p \<in> set (account_operations db). op_refs db p)"
  by (auto simp: allow_defs AccountOperation_def op_refs_def ACCOUNT_OPERATION_TYPES_def)

lemmas tables_allowed = users_allowed brokers_allowed bonds_allowed coupons_allowed accounts_allowed txns_allowed ops_allowed

section \<open>Properties\<close>




end
