(* ===== verification/Sessions.thy ===== *)
theory Sessions
  imports UiSafety Application
begin

text \<open>
  The transaction commands of \<open>portfolio/service.py\<close> statement by statement. \<open>Portfolio\<close> has each command as one step;
  in the program a command is a database transaction of several statements with an \<open>await\<close> at each, and other
  sessions run in between. Here a session is at a phase between two statements, any number of sessions of any
  users are open, and the row of the user is locked by \<open>SELECT \<dots> FOR UPDATE\<close>, or not, when the dialect leaves
  the clause out.

  A statement reads what is committed (the isolation level READ COMMITTED). The write and the commit are
  one step: what is written and not committed is invisible, and the database makes a statement that conflicts
  with it wait.
\<close>

section \<open>Sessions\<close>

datatype command = AddTxn txn_create | UpdateTxn txn_update int | DeleteTxn int

fun command_ok :: "command \<Rightarrow> bool" where
  "command_ok (AddTxn d) = txn_create_ok d"
| "command_ok (UpdateTxn d i) = txn_update_ok d"
| "command_ok (DeleteTxn i) = True"

text \<open>
  What a session has behind it: nothing; all up to the lock; the lock; the row to be changed is loaded; its new
  account was found; the old pair was checked; everything was checked; the outcome, \<open>None\<close> for a return.
\<close>

datatype phase =
    Started
  | Waiting
  | Locked
  | Loaded txn_row
  | AccountFound txn_row
  | OldPairChecked txn_row
  | Checked "txn_row option"
  | Ended "error option"

fun holds_lock :: "phase \<Rightarrow> bool" where
  "holds_lock Started = False"
| "holds_lock Waiting = False"
| "holds_lock (Ended e) = False"
| "holds_lock p = True"

text \<open>The statements of \<open>add_transaction\<close>; \<open>free\<close> is whether the lock can be had.\<close>

definition add_step :: "bool \<Rightarrow> env \<Rightarrow> int \<Rightarrow> txn_create \<Rightarrow> phase \<Rightarrow> database \<Rightarrow> phase \<times> database" where
  "add_step free env user_id d p db =
     (case p of
        Started \<Rightarrow>
          if nt_type d \<notin> set TRANSACTION_TYPES then (Ended (Some InvalidTransactionError), db)
          else if own_account (nt_account_id d) user_id db = None then (Ended (Some InvalidTransactionError), db)
          else (Waiting, db)
      | Waiting \<Rightarrow> (if free then Locked else Waiting, db)
      | Locked \<Rightarrow>
          if nt_type d \<in> {''SELL'', ''MATURE''}
             \<and> quantity_of (load_transactions user_id (nt_bond_id d) (Some (nt_account_id d)) db) < nt_quantity d
          then (Ended (Some InsufficientPositionError), db)
          else (Checked None, db)
      | Checked _ \<Rightarrow>
          (case insert_txn (new_txn env d user_id) db of
             Inl e \<Rightarrow> (Ended (Some InvalidTransactionError), db)
           | Inr db' \<Rightarrow> (Ended None, db'))
      | _ \<Rightarrow> (p, db))"

text \<open>The two halves of \<open>_validate_transaction_shift\<close>, each a statement of its own.\<close>

definition old_pair_short :: "int \<Rightarrow> txn_row \<Rightarrow> txn_row \<Rightarrow> database \<Rightarrow> bool" where
  "old_pair_short user_id txn txn' db \<longleftrightarrow>
     (t_bond_id txn' \<noteq> t_bond_id txn \<or> t_account_id txn' \<noteq> t_account_id txn) \<and> t_type txn = ''BUY''
     \<and> quantity_of (others (t_id txn) (load_transactions user_id (t_bond_id txn) (Some (t_account_id txn)) db)) < t_quantity txn"

definition new_pair_short :: "int \<Rightarrow> txn_row \<Rightarrow> txn_row \<Rightarrow> database \<Rightarrow> bool" where
  "new_pair_short user_id txn txn' db \<longleftrightarrow>
     quantity_of (others (t_id txn) (load_transactions user_id (t_bond_id txn') (Some (t_account_id txn')) db))
       + (if t_type txn' = ''BUY'' then t_quantity txn' else - t_quantity txn') < 0"

definition update_step :: "bool \<Rightarrow> int \<Rightarrow> txn_update \<Rightarrow> int \<Rightarrow> phase \<Rightarrow> database \<Rightarrow> phase \<times> database" where
  "update_step free user_id d transaction_id p db =
     (case p of
        Started \<Rightarrow> (Waiting, db)
      | Waiting \<Rightarrow> (if free then Locked else Waiting, db)
      | Locked \<Rightarrow>
          (case find_txn transaction_id db of
             None \<Rightarrow> (Ended None, db)
           | Some txn \<Rightarrow>
               if t_user_id txn \<noteq> user_id then (Ended (Some TransactionForbiddenError), db)
               else if t_type (apply_txn_update d txn) \<notin> set TRANSACTION_TYPES then (Ended (Some InvalidTransactionError), db)
               else (Loaded txn, db))
      | Loaded txn \<Rightarrow>
          if own_account (t_account_id (apply_txn_update d txn)) user_id db = None
          then (Ended (Some InvalidTransactionError), db) else (AccountFound txn, db)
      | AccountFound txn \<Rightarrow>
          if old_pair_short user_id txn (apply_txn_update d txn) db
          then (Ended (Some InsufficientPositionError), db) else (OldPairChecked txn, db)
      | OldPairChecked txn \<Rightarrow>
          if new_pair_short user_id txn (apply_txn_update d txn) db
          then (Ended (Some InsufficientPositionError), db) else (Checked (Some txn), db)
      | Checked (Some txn) \<Rightarrow>
          (case update_txn_row (apply_txn_update d txn) db of
             Inl e \<Rightarrow> (Ended (Some InvalidTransactionError), db)
           | Inr db' \<Rightarrow> (Ended None, db'))
      | _ \<Rightarrow> (p, db))"

definition delete_step :: "bool \<Rightarrow> int \<Rightarrow> int \<Rightarrow> phase \<Rightarrow> database \<Rightarrow> phase \<times> database" where
  "delete_step free user_id transaction_id p db =
     (case p of
        Started \<Rightarrow> (Waiting, db)
      | Waiting \<Rightarrow> (if free then Locked else Waiting, db)
      | Locked \<Rightarrow>
          (case find_txn transaction_id db of
             None \<Rightarrow> (Ended None, db)
           | Some txn \<Rightarrow>
               if t_user_id txn \<noteq> user_id then (Ended (Some TransactionForbiddenError), db) else (Loaded txn, db))
      | Loaded txn \<Rightarrow>
          if quantity_of (others (t_id txn) (load_transactions user_id (t_bond_id txn) (Some (t_account_id txn)) db)) < 0
          then (Ended (Some InsufficientPositionError), db) else (Checked (Some txn), db)
      | Checked (Some txn) \<Rightarrow> (Ended None, delete_txn_row transaction_id db)
      | _ \<Rightarrow> (p, db))"

fun session_step :: "bool \<Rightarrow> env \<Rightarrow> int \<Rightarrow> command \<Rightarrow> phase \<Rightarrow> database \<Rightarrow> phase \<times> database" where
  "session_step free env u (AddTxn d) p db = add_step free env u d p db"
| "session_step free env u (UpdateTxn d i) p db = update_step free u d i p db"
| "session_step free env u (DeleteTxn i) p db = delete_step free u i p db"

section \<open>The store\<close>

text \<open>\<open>st_account_ids\<close> are the identifiers the accounts have had: an identity column gives none of them again.\<close>

record session =
  se_user :: int
  se_command :: command
  se_phase :: phase

record store =
  st_db :: database
  st_sessions :: "session list"
  st_account_ids :: "int set"

definition opened :: "database \<Rightarrow> store" where
  "opened db = \<lparr>st_db = db, st_sessions = [], st_account_ids = a_id ` set (broker_accounts db)\<rparr>"

definition lock_free :: "bool \<Rightarrow> nat \<Rightarrow> store \<Rightarrow> bool" where
  "lock_free for_update k s \<longleftrightarrow> \<not> for_update \<or>
     (\<forall>j < length (st_sessions s). j \<noteq> k \<and> se_user (st_sessions s ! j) = se_user (st_sessions s ! k) \<longrightarrow>
        \<not> holds_lock (se_phase (st_sessions s ! j)))"

definition store_step :: "bool \<Rightarrow> env \<Rightarrow> nat \<Rightarrow> store \<Rightarrow> store" where
  "store_step for_update env k s =
     (if k < length (st_sessions s)
      then let se = st_sessions s ! k;
               after = session_step (lock_free for_update k s) env (se_user se) (se_command se) (se_phase se) (st_db s)
           in s\<lparr>st_db := snd after, st_sessions := (st_sessions s)[k := se\<lparr>se_phase := fst after\<rparr>]\<rparr>
      else s)"

text \<open>
  What the other services commit in between: anything that leaves the transactions and keeps the books, and gives no
  account an identifier another one has had, nor another owner.
\<close>

definition elsewhere :: "store \<Rightarrow> database \<Rightarrow> bool" where
  "elsewhere s db \<longleftrightarrow> transactions db = transactions (st_db s) \<and> db_ok db
     \<and> (\<forall>a \<in> set (broker_accounts db). a_id a \<in> st_account_ids s \<longrightarrow>
          (\<exists>x \<in> set (broker_accounts (st_db s)). a_id x = a_id a \<and> a_user_id x = a_user_id a))"

text \<open>
  A session is opened for a registered user, the caller of a token, with a validated command. Users are never
  deleted, so the row to be locked is there.
\<close>

inductive interleaved :: "bool \<Rightarrow> store \<Rightarrow> store \<Rightarrow> bool" for for_update s0 where
  nothing_yet: "interleaved for_update s0 s0"
| session_opened: "interleaved for_update s0 s \<Longrightarrow> u \<in> u_id ` set (users (st_db s)) \<Longrightarrow> command_ok c \<Longrightarrow>
    interleaved for_update s0 (s\<lparr>st_sessions := st_sessions s @ [\<lparr>se_user = u, se_command = c, se_phase = Started\<rparr>]\<rparr>)"
| session_moved: "interleaved for_update s0 s \<Longrightarrow> interleaved for_update s0 (store_step for_update env k s)"
| other_commit: "interleaved for_update s0 s \<Longrightarrow> elsewhere s db \<Longrightarrow>
    interleaved for_update s0 (s\<lparr>st_db := db, st_account_ids := st_account_ids s \<union> a_id ` set (broker_accounts db)\<rparr>)"

section \<open>A session is the command at the moment of its commit\<close>

text \<open>The command of \<open>Portfolio\<close> in one step.\<close>

fun command_step :: "env \<Rightarrow> int \<Rightarrow> command \<Rightarrow> unit step" where
  "command_step env u (AddTxn d) w = (map_sum id (\<lambda>_. ()) (fst (add_transaction env u d w)), snd (add_transaction env u d w))"
| "command_step env u (UpdateTxn d i) w =
     (map_sum id (\<lambda>_. ()) (fst (update_transaction env d i u w)), snd (update_transaction env d i u w))"
| "command_step env u (DeleteTxn i) w =
     (map_sum id (\<lambda>_. ()) (fst (delete_transaction env i u w)), snd (delete_transaction env i u w))"

text \<open>An account the session has seen with its user is that user's, or gone for good.\<close>

definition seen_own :: "int set \<Rightarrow> database \<Rightarrow> int \<Rightarrow> int \<Rightarrow> bool" where
  "seen_own ids db u a \<longleftrightarrow> a \<in> ids \<and> (\<forall>x \<in> set (broker_accounts db). a_id x = a \<longrightarrow> a_user_id x = u)"

text \<open>What is known at each phase, as long as the lock is held.\<close>

definition own_txn :: "database \<Rightarrow> int \<Rightarrow> int \<Rightarrow> txn_row \<Rightarrow> bool" where
  "own_txn db u i t \<longleftrightarrow> find_txn i db = Some t \<and> t_user_id t = u"

fun phase_ok :: "int set \<Rightarrow> database \<Rightarrow> int \<Rightarrow> command \<Rightarrow> phase \<Rightarrow> bool" where
  "phase_ok ids db u c Started = True"
| "phase_ok ids db u c (Ended e) = True"
| "phase_ok ids db u (AddTxn d) (Checked None) =
     (nt_type d \<in> set TRANSACTION_TYPES \<and> seen_own ids db u (nt_account_id d)
      \<and> (nt_type d \<in> {''SELL'', ''MATURE''} \<longrightarrow>
           nt_quantity d \<le> quantity_of (load_transactions u (nt_bond_id d) (Some (nt_account_id d)) db)))"
| "phase_ok ids db u (AddTxn d) p =
     ((p = Waiting \<or> p = Locked) \<and> nt_type d \<in> set TRANSACTION_TYPES \<and> seen_own ids db u (nt_account_id d))"
| "phase_ok ids db u (UpdateTxn d i) (Loaded t) =
     (own_txn db u i t \<and> t_type (apply_txn_update d t) \<in> set TRANSACTION_TYPES)"
| "phase_ok ids db u (UpdateTxn d i) (AccountFound t) =
     (own_txn db u i t \<and> t_type (apply_txn_update d t) \<in> set TRANSACTION_TYPES
      \<and> seen_own ids db u (t_account_id (apply_txn_update d t)))"
| "phase_ok ids db u (UpdateTxn d i) (OldPairChecked t) =
     (own_txn db u i t \<and> t_type (apply_txn_update d t) \<in> set TRANSACTION_TYPES
      \<and> seen_own ids db u (t_account_id (apply_txn_update d t)) \<and> \<not> old_pair_short u t (apply_txn_update d t) db)"
| "phase_ok ids db u (UpdateTxn d i) (Checked (Some t)) =
     (own_txn db u i t \<and> t_type (apply_txn_update d t) \<in> set TRANSACTION_TYPES
      \<and> seen_own ids db u (t_account_id (apply_txn_update d t)) \<and> \<not> old_pair_short u t (apply_txn_update d t) db
      \<and> \<not> new_pair_short u t (apply_txn_update d t) db)"
| "phase_ok ids db u (UpdateTxn d i) p = (p = Waiting \<or> p = Locked)"
| "phase_ok ids db u (DeleteTxn i) (Loaded t) = own_txn db u i t"
| "phase_ok ids db u (DeleteTxn i) (Checked (Some t)) =
     (own_txn db u i t
      \<and> 0 \<le> quantity_of (others (t_id t) (load_transactions u (t_bond_id t) (Some (t_account_id t)) db)))"
| "phase_ok ids db u (DeleteTxn i) p = (p = Waiting \<or> p = Locked)"

lemma validated_shift:
  "validate_transaction_shift u t (t_bond_id t') (t_account_id t') (t_type t') (t_quantity t') db =
     (if old_pair_short u t t' db \<or> new_pair_short u t t' db then Inl InsufficientPositionError else Inr ())"
  by (auto simp: validate_transaction_shift_def old_pair_short_def new_pair_short_def Let_def)

lemma seen_own_account: "seen_own ids db u a \<Longrightarrow> a \<in> a_id ` set (broker_accounts db) \<Longrightarrow> own_account a u db \<noteq> None"
  by (auto simp: seen_own_def own_account_None on_own_account_def)

lemma phase_ok_checked [simp]:
  "phase_ok ids db u (AddTxn d) (Checked x) \<longleftrightarrow> x = None \<and> nt_type d \<in> set TRANSACTION_TYPES
     \<and> seen_own ids db u (nt_account_id d)
     \<and> (nt_type d \<in> {''SELL'', ''MATURE''} \<longrightarrow>
          nt_quantity d \<le> quantity_of (load_transactions u (nt_bond_id d) (Some (nt_account_id d)) db))"
  by (cases x) simp_all

lemma written_account:
  assumes "seen_own ids db u (t_account_id t)" and "own_account (t_account_id t) u db = None"
  shows "insert_txn t db = Inr db' \<Longrightarrow> False" and "update_txn_row t db = Inr db' \<Longrightarrow> False"
  using seen_own_account [OF assms(1)] assms(2) by (auto simp: insert_txn_def update_txn_row_def txn_refs_def split: if_splits)

lemma add_commits:
  assumes "phase_ok ids (w_db w) u (AddTxn d) p" and "add_step free env u d p (w_db w) = (p', db')" and "p \<noteq> p'"
  shows "p' = Ended None \<longrightarrow> w_db (snd (add_transaction env u d w)) = db'"
    and "p' = Ended (Some e) \<longrightarrow> db' = w_db w \<and> isl (fst (add_transaction env u d w))"
    and "(\<forall>r. p' \<noteq> Ended r) \<longrightarrow> db' = w_db w"
proof -
  have own: "seen_own ids (w_db w) u (nt_account_id d) \<Longrightarrow> own_account (nt_account_id d) u (w_db w) = None \<Longrightarrow>
      insert_txn (new_txn env d u) (w_db w) = Inr x \<Longrightarrow> False" for x
    using written_account(1) [of ids "w_db w" u "new_txn env d u"] by (simp add: new_txn_def)
  show "p' = Ended None \<longrightarrow> w_db (snd (add_transaction env u d w)) = db'"
  proof
    assume "p' = Ended None"
    then obtain x where p: "p = Checked x" "insert_txn (new_txn env d u) (w_db w) = Inr db'"
      using assms(2,3) by (auto simp: add_step_def split: phase.splits if_splits sum.splits)
    have seen: "seen_own ids (w_db w) u (nt_account_id d)" using assms(1) p(1) by simp
    have "own_account (nt_account_id d) u (w_db w) \<noteq> None" using own [OF seen _ p(2)] by blast
    moreover have "nt_type d \<in> set TRANSACTION_TYPES" using assms(1) p(1) by simp
    moreover have "\<not> (nt_type d \<in> {''SELL'', ''MATURE''}
        \<and> quantity_of (load_transactions u (nt_bond_id d) (Some (nt_account_id d)) (w_db w)) < nt_quantity d)"
      using assms(1) p(1) by auto
    ultimately show "w_db (snd (add_transaction env u d w)) = db'"
      unfolding add_transaction_def Let_def p(2) by (auto simp: and_then_db)
  qed
  show "p' = Ended (Some e) \<longrightarrow> db' = w_db w \<and> isl (fst (add_transaction env u d w))"
    using assms
    by (cases p) (auto simp: add_step_def add_transaction_def Let_def split: if_splits sum.splits option.splits)
  show "(\<forall>r. p' \<noteq> Ended r) \<longrightarrow> db' = w_db w"
    using assms by (cases p) (auto simp: add_step_def split: if_splits sum.splits)
qed

lemma update_commits:
  assumes "phase_ok ids (w_db w) u (UpdateTxn d i) p" and "update_step free u d i p (w_db w) = (p', db')" and "p \<noteq> p'"
  shows "p' = Ended None \<longrightarrow> w_db (snd (update_transaction env d i u w)) = db'"
    and "p' = Ended (Some e) \<longrightarrow> db' = w_db w \<and> isl (fst (update_transaction env d i u w))"
    and "(\<forall>r. p' \<noteq> Ended r) \<longrightarrow> db' = w_db w"
proof -
  show "p' = Ended None \<longrightarrow> w_db (snd (update_transaction env d i u w)) = db'"
    using assms
    by (cases p) (auto simp: update_step_def update_transaction_def Let_def and_then_db own_txn_def validated_shift
        dest: written_account(2) split: if_splits sum.splits option.splits)
  show "p' = Ended (Some e) \<longrightarrow> db' = w_db w \<and> isl (fst (update_transaction env d i u w))"
    using assms
    by (cases p) (auto simp: update_step_def update_transaction_def Let_def own_txn_def validated_shift split: if_splits sum.splits option.splits)
  show "(\<forall>r. p' \<noteq> Ended r) \<longrightarrow> db' = w_db w"
    using assms by (cases p) (auto simp: update_step_def split: if_splits sum.splits option.splits)
qed

lemma delete_commits:
  assumes "phase_ok ids (w_db w) u (DeleteTxn i) p" and "delete_step free u i p (w_db w) = (p', db')" and "p \<noteq> p'"
  shows "p' = Ended None \<longrightarrow> w_db (snd (delete_transaction env i u w)) = db'"
    and "p' = Ended (Some e) \<longrightarrow> db' = w_db w \<and> isl (fst (delete_transaction env i u w))"
    and "(\<forall>r. p' \<noteq> Ended r) \<longrightarrow> db' = w_db w"
proof -
  show "p' = Ended None \<longrightarrow> w_db (snd (delete_transaction env i u w)) = db'"
    using assms
    by (cases p) (auto simp: delete_step_def delete_transaction_def Let_def and_then_db own_txn_def split: if_splits option.splits)
  show "p' = Ended (Some e) \<longrightarrow> db' = w_db w \<and> isl (fst (delete_transaction env i u w))"
    using assms
    by (cases p) (auto simp: delete_step_def delete_transaction_def Let_def own_txn_def split: if_splits option.splits)
  show "(\<forall>r. p' \<noteq> Ended r) \<longrightarrow> db' = w_db w"
    using assms by (cases p) (auto simp: delete_step_def split: if_splits option.splits)
qed

lemma session_commits:
  assumes "phase_ok ids (w_db w) u c p" and "session_step free env u c p (w_db w) = (p', db')" and "p \<noteq> p'"
  shows "(p' = Ended None \<longrightarrow> w_db (snd (command_step env u c w)) = db')
    \<and> (p' = Ended (Some e) \<longrightarrow> db' = w_db w \<and> isl (fst (command_step env u c w)))
    \<and> ((\<forall>r. p' \<noteq> Ended r) \<longrightarrow> db' = w_db w)"
proof (cases c)
  case (AddTxn d)
  then have "phase_ok ids (w_db w) u (AddTxn d) p" "add_step free env u d p (w_db w) = (p', db')" using assms by simp_all
  note results = add_commits [OF this assms(3)]
  show ?thesis using results(1,3) results(2) [of e] AddTxn by (simp add: isl_map_sum)
next
  case (UpdateTxn d i)
  then have "phase_ok ids (w_db w) u (UpdateTxn d i) p" "update_step free u d i p (w_db w) = (p', db')" using assms by simp_all
  note results = update_commits [OF this assms(3)]
  show ?thesis using results(1) [of env] results(2) [where e = e and env = env] results(3) UpdateTxn by (simp add: isl_map_sum)
next
  case (DeleteTxn i)
  then have "phase_ok ids (w_db w) u (DeleteTxn i) p" "delete_step free u i p (w_db w) = (p', db')" using assms by simp_all
  note results = delete_commits [OF this assms(3)]
  show ?thesis using results(1) [of env] results(2) [where e = e and env = env] results(3) DeleteTxn by (simp add: isl_map_sum)
qed

text \<open>What a step learns.\<close>

lemma session_learns:
  assumes "phase_ok ids db u c p" and "a_id ` set (broker_accounts db) \<subseteq> ids" and "db_wf db"
    and "session_step free env u c p db = (p', db')" and "\<forall>r. p' \<noteq> Ended r"
  shows "phase_ok ids db u c p'"
proof -
  have seen: "own_account a u db \<noteq> None \<Longrightarrow> seen_own ids db u a" for a
  proof -
    assume "own_account a u db \<noteq> None"
    then obtain x where "own_account a u db = Some x" by blast
    then have own: "on_own_account db u a" by (rule own_account_Some)
    have "inj_on a_id (set (broker_accounts db))" using assms(3) by (simp add: put_wf_simps distinct_map)
    with own assms(2) show ?thesis by (auto simp: seen_own_def on_own_account_def dest: inj_onD)
  qed
  show ?thesis
  proof (cases c)
    case (AddTxn d)
    then show ?thesis using assms seen
      by (cases p) (auto simp: add_step_def not_less split: if_splits sum.splits)
  next
    case (UpdateTxn d i)
    then show ?thesis using assms seen
      by (cases p) (auto simp: update_step_def own_txn_def split: if_splits sum.splits option.splits)
  next
    case (DeleteTxn i)
    then show ?thesis using assms
      by (cases p) (auto simp: delete_step_def own_txn_def not_less split: if_splits sum.splits option.splits)
  qed
qed

section \<open>What sessions of one user do to another's\<close>

definition same_txns :: "int \<Rightarrow> database \<Rightarrow> database \<Rightarrow> bool" where
  "same_txns u db db' \<longleftrightarrow> filter (\<lambda>t. t_user_id t = u) (transactions db') = filter (\<lambda>t. t_user_id t = u) (transactions db)"

lemma pair_position_user: "pair_position u b a (filter P rows) = pair_position u b a (filter P (filter (\<lambda>t. t_user_id t = u) rows))"
  by (simp add: pair_position_def sum_over_filter on_pair_def [abs_def] conj_ac cong: conj_cong)

lemma same_txns_positions:
  assumes "same_txns u db db'"
  shows "quantity_of (load_transactions u b (Some a) db') = quantity_of (load_transactions u b (Some a) db)"
    and "quantity_of (others i (load_transactions u b (Some a) db')) = quantity_of (others i (load_transactions u b (Some a) db))"
proof -
  have *: "pair_position u b a (filter P (transactions db')) = pair_position u b a (filter P (transactions db))" for P
    using assms unfolding same_txns_def by (subst (1 2) pair_position_user) simp
  show "quantity_of (load_transactions u b (Some a) db') = quantity_of (load_transactions u b (Some a) db)"
    using * [of "\<lambda>_. True"] by (simp add: quantity_of_loaded)
  show "quantity_of (others i (load_transactions u b (Some a) db')) = quantity_of (others i (load_transactions u b (Some a) db))"
    using * by (simp add: quantity_of_others)
qed

lemma same_txns_own:
  assumes "same_txns u db db'" and "db_wf db" and "db_wf db'" shows "own_txn db' u i t \<longleftrightarrow> own_txn db u i t"
proof -
  have "t_user_id t = u \<Longrightarrow> t \<in> set (transactions db') \<longleftrightarrow> t \<in> set (transactions db)"
    using arg_cong [OF assms(1) [unfolded same_txns_def], of set] by auto
  then show ?thesis using find_txn_Some [OF assms(2)] find_txn_Some [OF assms(3)] by (auto simp: own_txn_def)
qed

lemma phase_ok_kept:
  assumes "phase_ok ids db u c p" and "same_txns u db db'" and "db_wf db" and "db_wf db'"
    and "\<And>a. seen_own ids db u a \<Longrightarrow> seen_own ids' db' u a"
  shows "phase_ok ids' db' u c p"
  using assms(1,5) same_txns_own [OF assms(2-4)] same_txns_positions [OF assms(2)]
  by (cases "(ids, db, u, c, p)" rule: phase_ok.cases)
    (auto simp: old_pair_short_def new_pair_short_def split: option.splits)

text \<open>A session that does not hold the lock knows of accounts only.\<close>

lemma phase_ok_unlocked:
  assumes "phase_ok ids db u c p" and "\<not> holds_lock p" and "\<And>a. seen_own ids db u a \<Longrightarrow> seen_own ids' db' u a"
  shows "phase_ok ids' db' u c p"
  using assms by (cases c; cases p) auto

section \<open>The invariant of the store\<close>

definition store_ok :: "store \<Rightarrow> bool" where
  "store_ok s \<longleftrightarrow> db_ok (st_db s) \<and> a_id ` set (broker_accounts (st_db s)) \<subseteq> st_account_ids s
     \<and> (\<forall>se \<in> set (st_sessions s). command_ok (se_command se)
          \<and> phase_ok (st_account_ids s) (st_db s) (se_user se) (se_command se) (se_phase se))
     \<and> (\<forall>j < length (st_sessions s). \<forall>k < length (st_sessions s). j \<noteq> k \<and> se_user (st_sessions s ! j) = se_user (st_sessions s ! k) \<longrightarrow>
          \<not> (holds_lock (se_phase (st_sessions s ! j)) \<and> holds_lock (se_phase (st_sessions s ! k))))"

lemma session_idle: "session_step free env u c p db = (p, db') \<Longrightarrow> db' = db"
  by (cases c; cases p) (auto simp: add_step_def update_step_def delete_step_def split: if_splits sum.splits option.splits)

lemma session_locks:
  assumes "session_step free env u c p db = (p', db')" and "p \<noteq> p'"
  shows "(holds_lock p' \<longrightarrow> holds_lock p \<or> free) \<and> (p' = Ended None \<longrightarrow> holds_lock p)"
  using assms
  by (cases c; cases p) (auto simp: add_step_def update_step_def delete_step_def split: if_splits sum.splits option.splits)

lemma command_keeps:
  assumes "db_ok (w_db w)" and "command_ok c"
  shows "db_ok (w_db (snd (command_step env u c w)))" and "others_kept u (w_db w) (w_db (snd (command_step env u c w)))"
    and "broker_accounts (w_db (snd (command_step env u c w))) = broker_accounts (w_db w)"
proof -
  show "db_ok (w_db (snd (command_step env u c w)))" using assms txn_commands_db_ok [OF assms(1)] by (cases c) simp_all
  show "others_kept u (w_db w) (w_db (snd (command_step env u c w)))"
    using txn_commands_keep_others [OF db_okD [OF assms(1)]] by (cases c) simp_all
  have accounts: "\<exists>x. db = w_db w\<lparr>transactions := x\<rparr> \<Longrightarrow> broker_accounts db = broker_accounts (w_db w)" for db
    by auto
  show "broker_accounts (w_db (snd (command_step env u c w))) = broker_accounts (w_db w)"
    by (cases c) (simp_all add: accounts [OF txn_commands_db(1)] accounts [OF txn_commands_db(2)] accounts [OF txn_commands_db(3)])
qed

lemma same_txns_others:
  assumes "others_kept u db db'" and "v \<noteq> u" shows "same_txns v db db'"
proof -
  have f: "filter (\<lambda>t. t_user_id t = v) xs = filter (\<lambda>t. t_user_id t = v) (filter (\<lambda>t. t_user_id t \<noteq> u) xs)" for xs :: "txn_row list"
    using assms(2) by (auto intro: filter_cong)
  show ?thesis using assms(1) unfolding same_txns_def others_kept_def by (subst (1 2) f) simp
qed

text \<open>What a step does to the database, and that it leaves the other sessions what they know.\<close>

lemma session_effect:
  assumes "store_ok s" and "k < length (st_sessions s)"
    and "session_step (lock_free True k s) env (se_user (st_sessions s ! k)) (se_command (st_sessions s ! k))
      (se_phase (st_sessions s ! k)) (st_db s) = (p', db')"
  shows "db_ok db'" and "broker_accounts db' = broker_accounts (st_db s)"
    and "db' = st_db s \<or> p' = Ended None \<and> holds_lock (se_phase (st_sessions s ! k))
      \<and> others_kept (se_user (st_sessions s ! k)) (st_db s) db'"
proof -
  let ?se = "st_sessions s ! k" and ?w = "\<lparr>w_db = st_db s, w_bus = bus_init 0\<rparr>"
  have se: "command_ok (se_command ?se)"
      "phase_ok (st_account_ids s) (w_db ?w) (se_user ?se) (se_command ?se) (se_phase ?se)" "db_ok (w_db ?w)"
    using assms(1,2) by (simp_all add: store_ok_def)
  consider "db' = st_db s" | "p' = Ended None" "db' = w_db (snd (command_step env (se_user ?se) (se_command ?se) ?w))" "holds_lock (se_phase ?se)"
  proof (cases "se_phase ?se = p'")
    case True
    with assms(3) session_idle [of "lock_free True k s" env "se_user ?se" "se_command ?se" p' "st_db s" db'] that show ?thesis by simp
  next
    case False
    have step: "session_step (lock_free True k s) env (se_user ?se) (se_command ?se) (se_phase ?se) (w_db ?w) = (p', db')"
      using assms(3) by simp
    note results = session_commits [OF se(2) step False]
    show ?thesis
    proof (cases "\<exists>e. p' = Ended e")
      case True
      then obtain e where "p' = Ended e" by blast
      then show ?thesis using results session_locks [OF step False] that by (cases e) auto
    qed (use results that in auto)
  qed
  then show "db_ok db'" "broker_accounts db' = broker_accounts (st_db s)"
    "db' = st_db s \<or> p' = Ended None \<and> holds_lock (se_phase ?se) \<and> others_kept (se_user ?se) (st_db s) db'"
    using command_keeps [OF se(3,1)] se(3) by (cases; simp)+
qed

lemma store_ok_moved:
  assumes "store_ok s" shows "store_ok (store_step True env k s)"
proof (cases "k < length (st_sessions s)")
  case False then show ?thesis using assms by (simp add: store_step_def)
next
  case k: True
  let ?se = "st_sessions s ! k"
  obtain p' db' where step: "session_step (lock_free True k s) env (se_user ?se) (se_command ?se) (se_phase ?se) (st_db s) = (p', db')"
    by fastforce
  have s': "store_step True env k s = s\<lparr>st_db := db', st_sessions := (st_sessions s)[k := ?se\<lparr>se_phase := p'\<rparr>]\<rparr>"
    using k step by (simp add: store_step_def Let_def)
  note effect = session_effect [OF assms k step]
  have wf: "db_wf (st_db s)" "db_wf db'" using assms effect(1) by (simp_all add: store_ok_def db_okD)
  have known: "command_ok (se_command (st_sessions s ! j))"
      "phase_ok (st_account_ids s) (st_db s) (se_user (st_sessions s ! j)) (se_command (st_sessions s ! j)) (se_phase (st_sessions s ! j))"
    if "j < length (st_sessions s)" for j
    using assms that by (simp_all add: store_ok_def)
  have apart: "\<not> (holds_lock (se_phase (st_sessions s ! i)) \<and> holds_lock (se_phase (st_sessions s ! j)))"
    if "i < length (st_sessions s)" "j < length (st_sessions s)" "i \<noteq> j" "se_user (st_sessions s ! i) = se_user (st_sessions s ! j)" for i j
    using assms that by (simp add: store_ok_def)
  have seen: "seen_own ids (st_db s) u a \<Longrightarrow> seen_own ids db' u a" for ids u a
    using effect(2) by (simp add: seen_own_def)
  have own: "phase_ok (st_account_ids s) db' (se_user ?se) (se_command ?se) p'"
  proof (cases "\<exists>e. p' = Ended e")
    case False
    then have "db' = st_db s" using effect(3) by auto
    then show ?thesis
      using session_learns [OF known(2) [OF k] _ wf(1) step] False assms by (simp add: store_ok_def)
  qed auto
  have others: "phase_ok (st_account_ids s) db' (se_user (st_sessions s ! j)) (se_command (st_sessions s ! j)) (se_phase (st_sessions s ! j))"
    if "j < length (st_sessions s)" "j \<noteq> k" for j
  proof (cases "db' = st_db s")
    case True then show ?thesis using known(2) [OF that(1)] by simp
  next
    case False
    then have eff: "holds_lock (se_phase ?se)" "others_kept (se_user ?se) (st_db s) db'" using effect(3) by auto
    show ?thesis
    proof (cases "se_user (st_sessions s ! j) = se_user ?se")
      case True
      then have "\<not> holds_lock (se_phase (st_sessions s ! j))" using apart [OF that(1) k that(2)] eff(1) by simp
      then show ?thesis by (rule phase_ok_unlocked [OF known(2) [OF that(1)] _ seen])
    next
      case False
      show ?thesis by (rule phase_ok_kept [OF known(2) [OF that(1)] same_txns_others [OF eff(2) False] wf seen])
    qed
  qed
  have lock: "\<not> holds_lock (se_phase (st_sessions s ! j))"
    if "j < length (st_sessions s)" "j \<noteq> k" "se_user (st_sessions s ! j) = se_user ?se" "holds_lock p'" for j
  proof (cases "se_phase ?se = p'")
    case True then show ?thesis using apart [OF that(1) k that(2,3)] that(4) by simp
  next
    case False
    from session_locks [OF step False] that(4) show ?thesis
      using apart [OF that(1) k that(2,3)] that by (auto simp: lock_free_def)
  qed
  let ?ss = "(st_sessions s)[k := ?se\<lparr>se_phase := p'\<rparr>]"
  have sessions: "command_ok (se_command x) \<and> phase_ok (st_account_ids s) db' (se_user x) (se_command x) (se_phase x)"
    if "x \<in> set ?ss" for x
  proof -
    from that obtain j where j: "j < length (st_sessions s)" "x = ?ss ! j" by (auto simp: in_set_conv_nth)
    show ?thesis using j known(1) [OF j(1)] known(1) [OF k] others [OF j(1)] own by (cases "j = k") simp_all
  qed
  have exclusive: "\<not> (holds_lock (se_phase (?ss ! i)) \<and> holds_lock (se_phase (?ss ! j)))"
    if i: "i < length ?ss" and j: "j < length ?ss" and ij: "i \<noteq> j \<and> se_user (?ss ! i) = se_user (?ss ! j)" for i j
  proof -
    consider "i = k" "j \<noteq> k" | "i \<noteq> k" "j = k" | "i \<noteq> k" "j \<noteq> k" using ij by blast
    then show ?thesis
    proof cases
      case 1 then show ?thesis using lock [of j] i j ij by auto
    next
      case 2 then show ?thesis using lock [of i] i j ij by auto
    next
      case 3 then show ?thesis using apart [of i j] i j ij by simp
    qed
  qed
  show ?thesis
    unfolding store_ok_def s' using effect(1,2) assms sessions exclusive by (simp add: store_ok_def)
qed

lemma store_ok_opened: "db_ok db \<Longrightarrow> store_ok (opened db)"
  by (simp add: store_ok_def opened_def)

lemma store_ok_session:
  assumes "store_ok s" and "command_ok c"
  shows "store_ok (s\<lparr>st_sessions := st_sessions s @ [\<lparr>se_user = u, se_command = c, se_phase = Started\<rparr>]\<rparr>)"
  using assms by (auto simp: store_ok_def nth_append less_Suc_eq)

lemma store_ok_other:
  assumes "store_ok s" and "elsewhere s db"
  shows "store_ok (s\<lparr>st_db := db, st_account_ids := st_account_ids s \<union> a_id ` set (broker_accounts db)\<rparr>)"
proof -
  let ?ids = "st_account_ids s \<union> a_id ` set (broker_accounts db)"
  have seen: "seen_own (st_account_ids s) (st_db s) u a \<Longrightarrow> seen_own ?ids db u a" for u a
    using assms(2) by (fastforce simp: seen_own_def elsewhere_def)
  have "phase_ok ?ids db (se_user x) (se_command x) (se_phase x)" if "x \<in> set (st_sessions s)" for x
    using assms that by (intro phase_ok_kept [OF _ _ _ _ seen]) (auto simp: store_ok_def elsewhere_def same_txns_def db_okD)
  then show ?thesis using assms by (auto simp: store_ok_def elsewhere_def)
qed

lemma store_ok_interleaved: "interleaved True s0 s \<Longrightarrow> store_ok s0 \<Longrightarrow> store_ok s"
  by (induction rule: interleaved.induct) (simp_all add: store_ok_session store_ok_moved store_ok_other)

section \<open>Properties\<close>

text \<open>
  C2. The lock on the user's row is enough. However many sessions record, change and delete transactions at the same time, of the
  same user or of different ones, in whatever order their statements are interleaved with each other and
  with commits of the other services: nobody ever holds a negative quantity of a bond on an account, every transaction
  lies on an account of its user, and every constraint of the schema holds.
\<close>

theorem concurrent_sessions_keep_the_books:
  assumes "interleaved True (opened db) s" and "db_ok db"
  shows "0 \<le> quantity_of (load_transactions u b (Some a) (st_db s)) \<and> db_wf (st_db s)
    \<and> (t \<in> set (transactions (st_db s)) \<longrightarrow> 0 < t_quantity t \<and> on_own_account (st_db s) (t_user_id t) (t_account_id t))"
proof -
  have "db_ok (st_db s)" using store_ok_interleaved [OF assms(1) store_ok_opened [OF assms(2)]] by (simp add: store_ok_def)
  then show ?thesis by (auto simp: db_ok_def txns_ok_def positions_ok_def quantity_of_loaded)
qed

text \<open>
  C3. A command takes effect at one moment. A session changes the database at most once, in its last step, and what it then
  commits is what the command of \<open>Portfolio\<close> in one step would make of the database as it is at that moment,
  whatever has happened between its statements; a session that ends with an exception leaves the database alone, and the
  command in one step would fail then, too. So the interleaved commands are equivalent to the same commands one after the
  other, in the order of their commits.
\<close>

theorem sessions_commit_as_one_step:
  assumes "interleaved True (opened db) s" and "db_ok db" and "k < length (st_sessions s)" and "w_db w = st_db s"
    and "se = st_sessions s ! k" and "s' = store_step True env k s" and "after = se_phase (st_sessions s' ! k)"
    and "after \<noteq> se_phase se"
  shows "(after = Ended None \<longrightarrow> st_db s' = w_db (snd (command_step env (se_user se) (se_command se) w)))
    \<and> (after = Ended (Some e) \<longrightarrow> st_db s' = st_db s \<and> isl (fst (command_step env (se_user se) (se_command se) w)))
    \<and> ((\<forall>r. after \<noteq> Ended r) \<longrightarrow> st_db s' = st_db s)"
proof -
  have ok: "phase_ok (st_account_ids s) (w_db w) (se_user se) (se_command se) (se_phase se)"
    using store_ok_interleaved [OF assms(1) store_ok_opened [OF assms(2)]] assms(3-5) by (simp add: store_ok_def)
  have step: "session_step (lock_free True k s) env (se_user se) (se_command se) (se_phase se) (w_db w) = (after, st_db s')"
    using assms(3-7) by (simp add: store_step_def Let_def)
  show ?thesis using session_commits [OF ok step assms(8) [symmetric]] assms(4) by simp
qed

text \<open>The statements a session has before it, at most.\<close>

fun remaining :: "phase \<Rightarrow> nat" where
  "remaining Started = 7"
| "remaining Waiting = 6"
| "remaining Locked = 5"
| "remaining (Loaded t) = 4"
| "remaining (AccountFound t) = 3"
| "remaining (OldPairChecked t) = 2"
| "remaining (Checked t) = 1"
| "remaining (Ended e) = 0"

lemma session_advances:
  assumes "phase_ok ids db u c p" and "\<forall>r. p \<noteq> Ended r" and "p = Waiting \<longrightarrow> free"
  shows "remaining (fst (session_step free env u c p db)) < remaining p"
  using assms
  by (cases "(ids, db, u, c, p)" rule: phase_ok.cases; cases c)
    (auto simp: add_step_def update_step_def delete_step_def split: sum.split option.split)

text \<open>As long as a session has not ended, one of them can go on: one that holds a lock, or any when none does.\<close>

lemma store_advances:
  assumes "store_ok s" and "\<exists>se \<in> set (st_sessions s). \<forall>r. se_phase se \<noteq> Ended r"
  obtains k where "sum_list (map (remaining \<circ> se_phase) (st_sessions (store_step True env k s)))
      < sum_list (map (remaining \<circ> se_phase) (st_sessions s))"
proof -
  obtain k where k: "k < length (st_sessions s)" "\<forall>r. se_phase (st_sessions s ! k) \<noteq> Ended r"
    "se_phase (st_sessions s ! k) = Waiting \<longrightarrow> lock_free True k s"
  proof (cases "\<exists>j < length (st_sessions s). holds_lock (se_phase (st_sessions s ! j))")
    case True
    then obtain j where "j < length (st_sessions s)" "holds_lock (se_phase (st_sessions s ! j))" by blast
    then show ?thesis by (intro that [of j]) auto
  next
    case False
    obtain j where "j < length (st_sessions s)" "\<forall>r. se_phase (st_sessions s ! j) \<noteq> Ended r"
      using assms(2) by (auto simp: in_set_conv_nth)
    then show ?thesis using False by (intro that [of j]) (auto simp: lock_free_def)
  qed
  let ?se = "st_sessions s ! k"
  have "phase_ok (st_account_ids s) (st_db s) (se_user ?se) (se_command ?se) (se_phase ?se)"
    using assms(1) k(1) by (simp add: store_ok_def)
  from session_advances [OF this k(2,3), of env]
  have "sum_list (map (remaining \<circ> se_phase) (st_sessions (store_step True env k s)))
      < sum_list (map (remaining \<circ> se_phase) (st_sessions s))"
    using k(1) elem_le_sum_list [of k "map (remaining \<circ> se_phase) (st_sessions s)"]
    by (simp add: store_step_def Let_def map_update sum_list_update)
  then show ?thesis by (rule that)
qed

lemma length_store_step [simp]: "length (st_sessions (store_step f env k s)) = length (st_sessions s)"
  by (simp add: store_step_def Let_def)

lemma store_finishes:
  assumes "store_ok s"
  obtains ks where "\<forall>se \<in> set (st_sessions (fold (store_step True env) ks s)). \<exists>r. se_phase se = Ended r"
    and "length (st_sessions (fold (store_step True env) ks s)) = length (st_sessions s)"
  using assms
proof (induction "sum_list (map (remaining \<circ> se_phase) (st_sessions s))" arbitrary: s thesis rule: less_induct)
  case less
  show ?case
  proof (cases "\<exists>se \<in> set (st_sessions s). \<forall>r. se_phase se \<noteq> Ended r")
    case False then show ?thesis by (intro less.prems(1) [of "[]"]) auto
  next
    case True
    obtain k where k: "sum_list (map (remaining \<circ> se_phase) (st_sessions (store_step True env k s)))
        < sum_list (map (remaining \<circ> se_phase) (st_sessions s))"
      using store_advances [OF less.prems(2) True] by blast
    obtain ks where "\<forall>se \<in> set (st_sessions (fold (store_step True env) ks (store_step True env k s))). \<exists>r. se_phase se = Ended r"
      "length (st_sessions (fold (store_step True env) ks (store_step True env k s))) = length (st_sessions (store_step True env k s))"
      using less.hyps [OF k _ store_ok_moved [OF less.prems(2)]] by blast
    then show ?thesis by (intro less.prems(1) [of "k # ks"]) simp_all
  qed
qed

text \<open>
  C9. There is no deadlock. In every state that concurrent sessions reach, the open ones can all be brought to their
  end by their own steps: a session locks one row only, and whoever holds a lock can go on.
\<close>

theorem sessions_all_end:
  assumes "interleaved True (opened db) s" and "db_ok db"
  shows "\<exists>ks. let z = fold (store_step True env) ks s
    in length (st_sessions z) = length (st_sessions s) \<and> (\<forall>se \<in> set (st_sessions z). \<exists>r. se_phase se = Ended r)"
proof -
  obtain ks where "\<forall>se \<in> set (st_sessions (fold (store_step True env) ks s)). \<exists>r. se_phase se = Ended r"
    "length (st_sessions (fold (store_step True env) ks s)) = length (st_sessions s)"
    using store_finishes [OF store_ok_interleaved [OF assms(1) store_ok_opened [OF assms(2)]]] by blast
  then show ?thesis by (auto simp: Let_def)
qed

section \<open>Without the lock\<close>

text \<open>User 1 holds five bonds and sells them twice at the same time.\<close>

definition two_sales :: store where
  "two_sales = (opened yearly_db)\<lparr>st_sessions := replicate 2 \<lparr>se_user = 1, se_command = AddTxn (sample_sell 5), se_phase = Started\<rparr>\<rparr>"

lemma two_sales_opened: "interleaved f (opened yearly_db) two_sales"
proof -
  have ok: "command_ok (AddTxn (sample_sell 5))" by (simp add: sample_sell_def txn_create_ok_def TRANSACTION_TYPES_def)
  have user: "1 \<in> u_id ` set (users (st_db (opened yearly_db)))" by (simp add: opened_def yearly_db_def sample_db_def)
  from session_opened [OF session_opened [OF nothing_yet user ok, of f], of 1 "AddTxn (sample_sell 5)"] user ok
  show ?thesis by (simp add: two_sales_def opened_def numeral_2_eq_2)
qed

lemma interleaved_fold: "interleaved f s0 s \<Longrightarrow> interleaved f s0 (fold (\<lambda>(env, k). store_step f env k) ks s)"
  by (induction ks arbitrary: s) (auto intro: session_moved)

text \<open>The two sales at any phases, and the database after a sale.\<close>

definition sales_at :: "phase \<Rightarrow> phase \<Rightarrow> database \<Rightarrow> store" where
  "sales_at p q db = two_sales\<lparr>st_db := db, st_sessions := [\<lparr>se_user = 1, se_command = AddTxn (sample_sell 5), se_phase = p\<rparr>,
     \<lparr>se_user = 1, se_command = AddTxn (sample_sell 5), se_phase = q\<rparr>]\<rparr>"

definition sold :: "int \<Rightarrow> database \<Rightarrow> database" where
  "sold i db = db\<lparr>transactions := add_row (new_txn (sample_env i) (sample_sell 5) 1) (transactions db)\<rparr>"

lemma sales_at_steps:
  "two_sales = sales_at Started Started yearly_db"
  "store_step f env 0 (sales_at p q db) =
     (case add_step (f \<longrightarrow> \<not> holds_lock q) env 1 (sample_sell 5) p db of (p', db') \<Rightarrow> sales_at p' q db')"
  "store_step f env (Suc 0) (sales_at p q db) =
     (case add_step (f \<longrightarrow> \<not> holds_lock p) env 1 (sample_sell 5) q db of (q', db') \<Rightarrow> sales_at p q' db')"
  "map se_phase (st_sessions (sales_at p q db)) = [p, q]" "st_db (sales_at p q db) = db"
  by (auto simp: sales_at_def two_sales_def opened_def store_step_def lock_free_def numeral_2_eq_2 less_Suc_eq split: prod.split)

lemma sale_accounts: "own_account 1 1 yearly_db \<noteq> None" "own_account 1 1 (sold i yearly_db) \<noteq> None"
  by (simp_all add: own_account_def yearly_db_def sample_db_def sold_def)

lemma sale_quantities:
  "quantity_of (load_transactions 1 1 (Some 1) yearly_db) = 5"
  "quantity_of (load_transactions 1 1 (Some 1) (sold i yearly_db)) = 0"
  "quantity_of (load_transactions 1 1 (Some 1) (sold j (sold i yearly_db))) = - 5"
  by (simp_all add: quantity_of_loaded sold_def pair_position_add pair_position_def on_pair_def sum_over_def yearly_db_def sample_db_def
      sample_holding_def new_txn_def sample_sell_def signed_quantity_def add_row_def)

lemma sale_written:
  "insert_txn (new_txn (sample_env 10) (sample_sell 5) 1) yearly_db = Inr (sold 10 yearly_db)"
  "insert_txn (new_txn (sample_env 11) (sample_sell 5) 1) (sold 10 yearly_db) = Inr (sold 11 (sold 10 yearly_db))"
  by (simp_all add: insert_txn_def sold_def txn_refs_def new_txn_def sample_sell_def sample_env_def yearly_db_def sample_db_def
      sample_holding_def sample_bond_def add_row_def TRANSACTION_TYPES_def)

lemma sale_fields: "nt_type (sample_sell 5) = ''SELL''" "nt_account_id (sample_sell 5) = 1" "nt_bond_id (sample_sell 5) = 1"
    "nt_quantity (sample_sell 5) = 5" "''SELL'' \<in> set TRANSACTION_TYPES"
  by (simp_all add: sample_sell_def TRANSACTION_TYPES_def)

lemma sale_steps:
  "add_step free env 1 (sample_sell 5) Started yearly_db = (Waiting, yearly_db)"
  "add_step free env 1 (sample_sell 5) Waiting db = (if free then Locked else Waiting, db)"
  "add_step free env 1 (sample_sell 5) Locked yearly_db = (Checked None, yearly_db)"
  "add_step free env 1 (sample_sell 5) Locked (sold i yearly_db) = (Ended (Some InsufficientPositionError), sold i yearly_db)"
  "add_step free (sample_env 10) 1 (sample_sell 5) (Checked x) yearly_db = (Ended None, sold 10 yearly_db)"
  "add_step free (sample_env 11) 1 (sample_sell 5) (Checked x) (sold 10 yearly_db) = (Ended None, sold 11 (sold 10 yearly_db))"
  using sale_accounts(1) by (simp_all add: add_step_def sale_fields sale_quantities sale_written)

definition sales_interleaved :: "(env \<times> nat) list" where
  "sales_interleaved = map (Pair (sample_env 10)) [0, 0, 0, 1, 1, 1, 0] @ [(sample_env 11, 1)]"

text \<open>
  C10. The lock is needed, also where the database makes writers wait for each other. When the dialect leaves out \<open>FOR UPDATE\<close>, as
  the one of SQLite does, a sale can check the position while another one has checked and not yet written: both succeed
  and the user holds less than nothing. The docstring of \<open>add_transaction\<close> says that the write lock of SQLite
  prevents this; but the driver begins a transaction, and takes that lock, with the first write, which comes after
  the check.
\<close>

theorem unlocked_sessions_oversell:
  "\<exists>s. interleaved False (opened yearly_db) s \<and> db_ok yearly_db \<and> map se_phase (st_sessions s) = [Ended None, Ended None]
    \<and> quantity_of (load_transactions 1 1 (Some 1) (st_db s)) = - 5"
proof -
  have "fold (\<lambda>(env, k). store_step False env k) sales_interleaved two_sales
      = sales_at (Ended None) (Ended None) (sold 11 (sold 10 yearly_db))"
    by (simp add: sales_interleaved_def sales_at_steps(1-3) sale_steps)
  then show ?thesis
    using interleaved_fold [OF two_sales_opened, of False sales_interleaved] yearly_db_ok sale_quantities(3) [of 11 10]
    by (metis sales_at_steps(4,5))
qed

definition first_checked :: store where
  "first_checked = sales_at (Checked None) Started yearly_db"

lemma first_checked_reached: "interleaved True (opened yearly_db) first_checked"
proof -
  have "fold (\<lambda>(env, k). store_step True env k) (map (Pair (sample_env 10)) [0, 0, 0]) two_sales = first_checked"
    by (simp add: first_checked_def sales_at_steps(1-3) sale_steps)
  with interleaved_fold [OF two_sales_opened] show ?thesis by metis
qed

text \<open>The same statements with the lock: the second sale waits, reads the position without the bonds, and fails.\<close>

lemma second_sale_fails:
  "interleaved True (opened yearly_db) (sales_at (Ended None) (Ended (Some InsufficientPositionError)) (sold 10 yearly_db))"
proof -
  have "fold (\<lambda>(env, k). store_step True env k) (sales_interleaved @ [(sample_env 11, 1)]) two_sales
      = sales_at (Ended None) (Ended (Some InsufficientPositionError)) (sold 10 yearly_db)"
    by (simp add: sales_interleaved_def sales_at_steps(1-3) sale_steps)
  with interleaved_fold [OF two_sales_opened] show ?thesis by metis
qed

theorem concurrent_sessions_keep_the_books_witness:
  "0 \<le> quantity_of (load_transactions 1 1 (Some 1)
     (st_db (sales_at (Ended None) (Ended (Some InsufficientPositionError)) (sold 10 yearly_db))))"
  using concurrent_sessions_keep_the_books [OF second_sale_fails yearly_db_ok, where u = 1 and b = 1 and a = 1] by blast

theorem sessions_commit_as_one_step_witness:
  "st_db (store_step True (sample_env 10) 0 first_checked) =
     w_db (snd (command_step (sample_env 10) 1 (AddTxn (sample_sell 5)) \<lparr>w_db = yearly_db, w_bus = bus_init 0\<rparr>))"
proof -
  let ?s' = "store_step True (sample_env 10) 0 first_checked" and ?se = "\<lparr>se_user = 1, se_command = AddTxn (sample_sell 5), se_phase = Checked None\<rparr>"
  have s': "?s' = sales_at (Ended None) Started (sold 10 yearly_db)"
    by (simp add: first_checked_def sales_at_steps(2) sale_steps)
  have "0 < length (st_sessions first_checked)" "w_db \<lparr>w_db = yearly_db, w_bus = bus_init 0\<rparr> = st_db first_checked"
      "?se = st_sessions first_checked ! 0" "Ended None = se_phase (st_sessions ?s' ! 0)" "Ended None \<noteq> se_phase ?se"
    unfolding s' by (simp_all add: first_checked_def sales_at_def)
  from sessions_commit_as_one_step [OF first_checked_reached yearly_db_ok this(1-3) refl this(4,5), where e = RuntimeError] show ?thesis
    by simp
qed

theorem sessions_all_end_witness:
  "\<exists>ks. let z = fold (store_step True (sample_env 10)) ks first_checked
    in length (st_sessions z) = length (st_sessions first_checked) \<and> (\<forall>se \<in> set (st_sessions z). \<exists>r. se_phase se = Ended r)"
  by (rule sessions_all_end [OF first_checked_reached yearly_db_ok])

end
