(* ===== verification/Spec2Isabelle.thy ===== *)
theory Spec2Isabelle
  imports Lifecycle Schema Sessions
begin

text \<open>
  A verification development for the bond portfolio application under \<open>src/src/bond_accounting\<close>, a
  FastAPI backend with a NiceGUI interface over an SQLAlchemy database. Paths below are relative to that
  directory.

  \<^bold>\<open>The program.\<close> Users keep bonds, brokers, brokerage accounts, transactions and account operations
  (\<open>bonds\<close>, \<open>brokers\<close>, \<open>portfolio\<close>, \<open>account_operations\<close>). Positions and realised results are derived from the
  transactions by an average-cost walk (\<open>portfolio/netting.py\<close>); yields, coupons and accrued interest by
  \<open>yield_calc\<close>. Services announce changes on an asynchronous bus (\<open>event_bus\<close>); analytics listens,
  recomputes the summary of the user who is named and keeps it in a cache (\<open>analytics\<close>). Reference data of
  bonds come from the MOEX exchange (\<open>market_data\<close>). Two front ends work on the services: the REST
  interface (\<open>api\<close>) and the pages (\<open>ui\<close>). Both take the caller from a token (\<open>auth\<close>). \<open>main.py\<close> puts the
  parts together; \<open>config\<close> and \<open>db/engine.py\<close> prepare settings, logging and the database.

  \<^bold>\<open>Theories and code.\<close> Every definition has the name of what it models where Isabelle allows it.

  \<^item> \<open>Prelude\<close>: exceptions (\<open>error\<close>), results (\<open>'a result\<close> is \<open>error + 'a\<close>, so that a raise is a branch),
    dates with the limits of Python's \<open>date\<close>, and lemmas on lists of rows. \<open>Binary64\<close>: floats as rationals
    rounded to binary64, with the locale \<open>rounding\<close>. \<open>PyText\<close> and \<open>Calendar\<close>: what the code uses of Python's
    text, number and date functions.
  \<^item> \<open>Models\<close> and \<open>Integrity\<close>: the tables of \<open>db/models.py\<close> as lists of records, the statements on them with
    the constraints they enforce, and that every statement keeps the constraints (\<open>db_wf\<close>).
  \<^item> \<open>Netting\<close>, \<open>CouponGrid\<close>, \<open>YieldCalc\<close>, \<open>Ytm\<close>: \<open>portfolio/netting.py\<close>, the coupon dates, the modules of
    \<open>yield_calc\<close>. The locale \<open>coupon_dates\<close> is what the users of a date grid rely on.
  \<^item> \<open>EventBus\<close>: \<open>event_bus/async_queue_bus.py\<close> as a step relation between two \<open>await\<close>s.
  \<^item> \<open>World\<close>: the database together with the bus, sessions, and the locales \<open>service_op\<close>, \<open>atomic_op\<close>,
    \<open>owned_op\<close> for the contracts of the operations. \<open>Bonds\<close>, \<open>Brokers\<close>, \<open>AccountOps\<close>, \<open>Portfolio\<close>,
    \<open>Analytics\<close>, \<open>Auth\<close>, \<open>MoexClient\<close>, \<open>MarketData\<close>: the \<open>dto.py\<close> and \<open>service.py\<close> of each package, one
    definition per method, and its helpers.
  \<^item> \<open>Sessions\<close>: the commands on transactions statement by statement, any number of sessions interleaved, with the lock
    on the row of the user and without it.
  \<^item> \<open>Api\<close>: \<open>api/router.py\<close> and \<open>api/deps.py\<close>, one constructor of \<open>request\<close> per route and one definition per
    handler; \<open>handle\<close> is a whole request with its status. \<open>ApiSafety\<close> and \<open>EndpointInvariants\<close>: what every
    request guarantees.
  \<^item> \<open>UiCommon\<close> and \<open>CrudPage\<close>: \<open>ui/common.py\<close>, \<open>ui/base_page.py\<close> and \<open>ui/crud_mixin.py\<close>; the abstract
    methods of the mixin are the fields of the record \<open>crud_hooks\<close>, the state object of a page is the record
    \<open>page\<close>, and \<open>on_event\<close> is one event of the browser. \<open>BrokersPage\<close>, \<open>AccountsPage\<close>, \<open>OperationsPage\<close>,
    \<open>BondsPage\<close>: the hooks of the four pages that use the mixin, the last with the search behind the ISIN
    field. \<open>TransactionsPage\<close>: the page with handlers of its own. \<open>SessionPages\<close>: login and registration.
    \<open>ReportPages\<close>: portfolio and analytics. \<open>UiApp\<close>: \<open>ui/app.py\<close>, the pages by path behind the check of
    the token. \<open>UiSafety\<close>: what the events of all pages keep.
  \<^item> \<open>Application\<close>: the parts assembled, as a step relation over everything that can move: a
    request, the two halves of a read that misses the cache, a put, a take and a handler of the bus, a
    background population, a restart. \<open>Freshness\<close>: that the summaries follow the data. \<open>UiRuns\<close>: the same with
    browsers that open pages, use them and leave; every event of a page is one request.
  \<^item> \<open>Configuration\<close>: \<open>config/settings.py\<close>, \<open>config/logging_setup.py\<close>, \<open>db/engine.py\<close> and the level of the
    server from \<open>main.py\<close>. \<open>Wiring\<close>: the stubs of \<open>api/deps.py\<close>, the providers that override them, and the
    services each route asks for. \<open>Lifecycle\<close>: \<open>main\<close> and \<open>run\<close> of \<open>main.py\<close>, from the settings over the
    migrations and the assembly to the shutdown, with the two \<open>finally\<close> blocks.
  \<^item> \<open>Schema\<close>: the migration \<open>alembic/versions/0001_initial_schema.py\<close> as a list of statements on schemas, the
    table declarations of \<open>db/models.py\<close>, and what a schema allows to be stored.

  \<^bold>\<open>State.\<close> A table is the list of its rows in insertion order; \<open>world\<close> joins the database and the bus;
  \<open>app\<close> adds the cache of summaries and the reference service; \<open>system\<close> adds the reads that have computed
  and not yet stored. The row a database gives an identifier to, the clock, the day and fresh message
  identifiers come from the environment (\<open>env\<close>, \<open>call\<close>) and are arbitrary in the theorems.

  \<^bold>\<open>What is shown.\<close>

  \<^item> Invariants: in every state that requests, handlers and restarts reach, the constraints of the schema
    hold, no position is negative and every transaction lies on an account of its user (\<open>Portfolio\<close>,
    \<open>EndpointInvariants\<close>, \<open>Application\<close>); the events of the pages keep the same invariant and touch rows of
    the user of the page only (\<open>UiSafety\<close>), also in runs of the whole program (\<open>UiRuns\<close>), when the process fails
    at any point (\<open>Lifecycle\<close>), and when sessions interleave (\<open>Sessions\<close>); queues stay within their bound and in order (\<open>EventBus\<close>).
  \<^item> Refinement and equivalence: the netting walk against an abstract account of money and quantity, the
    cached read against the uncached one, the two coupon grids against each other, the listing of positions
    against the positions of the summary, the events of pages against the requests of the REST interface, the
    migration against the models, the migrated schema against \<open>db_wf\<close>, \<open>main\<close> against \<open>startup\<close> and \<open>stopped\<close>,
    interleaved sessions against the commands in the order of their commits.
  \<^item> Liveness: from every state of a run the bus can be drained, and then every cached summary is the one
    the committed data give; open sessions can always be brought to their end.
  \<^item> Numbers: the yield to maturity returns or raises one of two exceptions, within its bounds and with its
    accuracy; the rounding of an amount per paper.
  \<^item> Safety: an answer of status 4xx changed nothing, no answer and no page shows rows of another user, the
    question before a deletion names the record that is deleted, the PRAGMA statements contain what the
    whitelist allows, whatever ends the process it is shut down in order and the migrations run against the
    database of its engine.
  \<^item> Round trips: saving the form of a record without a change changes nothing, the token of a session names
    its user, a reference picked from the list is the bond that is submitted.
  \<^item> Errors: which exceptions an operation raises and what they leave behind, and the behaviours that
    differ from what the code or its documentation means to do.

  Each page relies on its service through the locale \<open>crud_contract\<close> (loading, and saving an unchanged
  form), and the application on each page through \<open>fair_page\<close>; both are interpreted for the four pages.
  \<open>page_invariant\<close> extends \<open>run_invariant\<close> by the pages, \<open>action_order\<close> carries a relation through the
  actions of \<open>main\<close>. \<open>fifo\<close> is interpreted by the queues, \<open>row_store\<close> by the tables, \<open>endpoint_op\<close> by the endpoints and
  \<open>run_invariant\<close> by the runs of the application.

  \<^bold>\<open>Bounds and fuel.\<close> The loops of \<open>_newton_raphson\<close> and \<open>_bisect\<close> take the number of rounds that \<open>range\<close>
  gives them in the code, 100 and 200, and the pages of a coupon schedule the bound 100 of the client: the
  fuel is the bound of the program. The loops over coupon dates are partial functions, \<open>None\<close> meaning a
  loop that does not return, and are shown to return. Floats are finite: a value of magnitude \<open>2 ^ 1024\<close> or
  more stays a number where Python has an infinity. Strings have 8-bit characters; passwords are lists of
  code points. Identifiers, quantities and counts are Python's unbounded integers and \<open>int\<close> here.

  \<^bold>\<open>Granularity.\<close> A request of the REST interface, a handler of an event and an event of a page are one
  step each, except for the reads and populations that are split at their \<open>await\<close>: a command on
  transactions locks the row of the user, and \<open>Sessions\<close> shows that it then takes effect at one moment; the other
  operations are one database transaction each, whose isolation is taken for granted. A page can be in any state that its own events and
  changes by others lead to. A dialog of NiceGUI is modal, so while one is open the widgets under it
  receive no event. The search behind the ISIN field is split at the debounce and at the answer. The
  runs for which freshness is shown leave out edits of a bond, because \<open>update\<close> publishes before it
  commits and a handler may read the old row.

  \<^bold>\<open>Parameters.\<close> Code outside the repository is an argument of the definitions that use it: bcrypt
  (\<open>hashpw\<close>, \<open>checkpw\<close>) and PyJWT (\<open>jwt_encode\<close>, \<open>jwt_decode\<close>) with the documented law that a password matches its
  own hash and that a token decodes to its claims; the reading of the payload of a token (\<open>loads\<close>) with the
  law \<open>jwt_payload\<close>; the HTTP transport to MOEX (\<open>moex\<close>); \<open>pow\<close> of the C library; the parsing of
  settings by pydantic; in \<open>Lifecycle\<close> what Alembic, NiceGUI, asyncio and the HTTP client answer (the record
  \<open>outside\<close>). Each law is met by a concrete function in the witness of the theorem that uses it.

  \<^bold>\<open>Not modelled.\<close> Layout, styles and the wording of toasts and labels (a toast is its kind and its
  exception); the encoding of answers as JSON and the texts of details; log lines; the part of
  \<open>alembic/env.py\<close> that connects Alembic with an engine, and the parsing of the command line;
  the masking of the password and the URL of the database, which are SQLAlchemy; the JSON format of log records; \<open>external_bus\<close>, an empty package; the tests. The
  interleaving of the other services inside one operation, where they read before they write without a lock.
\<close>

end
